(* ===== verification/Prelude.thy ===== *)
theory Prelude
  imports Main "HOL-Library.Word"
begin

text \<open>
  The vocabulary every component theory shares: machine types, the faults a C++ function can
  end with, outcomes of stateful operations, results of system calls and the retry loop around
  them, and the little-endian layout of integers in memory.

  A C++ operation on an object of class \<open>S\<close> that returns an \<open>A\<close> is modelled as
  \<open>S \<Rightarrow> A result \<times> S\<close>: the second component is the state the object is left in, also when
  the operation throws, because the code does not roll back.
\<close>

section \<open>Machine types\<close>

type_synonym byte = "8 word"
type_synonym bytes = "byte list"
type_synonym u32 = "32 word"
type_synonym u64 = "64 word"
type_synonym fd = int

section \<open>Faults and outcomes\<close>

text \<open>
  \<open>Throw\<close> is a C++ exception with its message, \<open>Abort\<close> a failed \<open>assert\<close>, \<open>Undefined\<close> an
  operation the language gives no meaning to (an out-of-range access, a null dereference).
  \<open>Waiting\<close> is no failure of the code: the listed answers of the operating system are used up
  while a loop still asks for more, so the operation has not returned.
\<close>

datatype fault = Throw string | Abort string | Undefined string | Waiting

type_synonym 'a result = "fault + 'a"
type_synonym ('s, 'a) outcome = "'a result \<times> 's"

definition andthen :: "('s, 'a) outcome \<Rightarrow> ('a \<Rightarrow> 's \<Rightarrow> ('s, 'b) outcome) \<Rightarrow> ('s, 'b) outcome" where
  "andthen m k = (case m of (Inl e, s) \<Rightarrow> (Inl e, s) | (Inr a, s) \<Rightarrow> k a s)"

lemma andthen_simps [simp]:
  "andthen (Inl e, s) k = (Inl e, s)"
  "andthen (Inr a, s) k = k a s"
  by (simp_all add: andthen_def)

lemma andthen_Inr:
  "andthen m k = (Inr b, s') \<longleftrightarrow> (\<exists>a s. m = (Inr a, s) \<and> k a s = (Inr b, s'))"
  by (auto simp: andthen_def split: prod.splits sum.splits)

lemma andthen_assoc: "andthen (andthen m k) h = andthen m (\<lambda>a s. andthen (k a s) h)"
  by (auto simp: andthen_def split: prod.splits sum.splits)

lemma andthen_unit [simp]: "andthen m (\<lambda>_ s. (Inr (), s)) = (m :: ('s, unit) outcome)"
  by (cases m rule: prod.exhaust) (auto simp: andthen_def split: sum.splits)

text \<open>The same for functions without a state: an error ends the computation.\<close>

definition rbind :: "'a result \<Rightarrow> ('a \<Rightarrow> 'b result) \<Rightarrow> 'b result" where
  "rbind r k = (case r of Inl e \<Rightarrow> Inl e | Inr a \<Rightarrow> k a)"

lemma rbind_simps [simp]: "rbind (Inl e) k = Inl e" "rbind (Inr a) k = k a"
  by (simp_all add: rbind_def)

lemma rbind_cong [fundef_cong]:
  "r = r' \<Longrightarrow> (\<And>a. r' = Inr a \<Longrightarrow> k a = k' a) \<Longrightarrow> rbind r k = rbind r' k'"
  by (cases r') simp_all

text \<open>\<open>returns\<close> collects what it means for an operation to return a value.\<close>

named_theorems returns

lemma rbind_Inr [returns]: "rbind r k = Inr b \<longleftrightarrow> (\<exists>a. r = Inr a \<and> k a = Inr b)"
  by (cases r) simp_all

lemma rbind_Inl [returns]: "rbind r k = Inl e \<longleftrightarrow> r = Inl e \<or> (\<exists>a. r = Inr a \<and> k a = Inl e)"
  by (cases r) simp_all

lemmas [returns] = andthen_Inr

section \<open>System calls\<close>

datatype errno = EINTR | EAGAIN | EMFILE | EINPROGRESS | EOTHER

text \<open>The result of one system call: a value, or \<open>-1\<close> with an \<open>errno\<close>.\<close>

datatype 'a sysret = Ok 'a | Err errno

text \<open>
  The loop \<open>do ret = call(...); while (ret == -1 && errno == EINTR)\<close>. The argument lists what
  the successive calls return; the result is the first answer that is not \<open>EINTR\<close>, and \<open>None\<close>
  when every listed call was interrupted (the loop is then still running).
\<close>

fun eintr_retry :: "'a sysret list \<Rightarrow> 'a sysret option" where
  "eintr_retry [] = None"
| "eintr_retry (Err EINTR # rs) = eintr_retry rs"
| "eintr_retry (r # rs) = Some r"

lemma eintr_retry_Some_not_EINTR: "eintr_retry rs = Some r \<Longrightarrow> r \<noteq> Err EINTR"
  by (induction rs rule: eintr_retry.induct) auto

lemma eintr_retry_returns: "(\<exists>r \<in> set rs. r \<noteq> Err EINTR) \<longleftrightarrow> (\<exists>r. eintr_retry rs = Some r)"
  by (induction rs rule: eintr_retry.induct) auto

lemma eintr_retry_in: "eintr_retry rs = Some r \<Longrightarrow> r \<in> set rs"
  by (induction rs rule: eintr_retry.induct) auto

section \<open>Integers in memory\<close>

text \<open>
  The targets of the code are little-endian (x86-64 and aarch64): the bytes of an integer,
  least significant first, and the integer a run of bytes denotes.
\<close>

unbundle bit_operations_syntax

definition le_bytes :: "nat \<Rightarrow> 'a::len word \<Rightarrow> bytes" where
  "le_bytes n w = map (\<lambda>i. ucast (drop_bit (8 * i) w)) [0..<n]"

primrec le_word :: "bytes \<Rightarrow> 'a::len word" where
  "le_word [] = 0"
| "le_word (b # bs) = ucast b OR push_bit 8 (le_word bs)"

lemma length_le_bytes [simp]: "length (le_bytes n w) = n"
  by (simp add: le_bytes_def)

lemma bit_le_word:
  "bit (le_word bs :: 'a::len word) k \<longleftrightarrow>
     k < LENGTH('a) \<and> k div 8 < length bs \<and> bit (bs ! (k div 8)) (k mod 8)"
proof (induction bs arbitrary: k)
  case Nil
  then show ?case by simp
next
  case (Cons b bs)
  show ?case
  proof (cases "k < 8")
    case True
    then show ?thesis by (auto simp: bit_simps)
  next
    case False
    then obtain j where k: "k = j + 8" by (metis add.commute le_add_diff_inverse not_less)
    have "bit (le_word (b # bs) :: 'a word) k \<longleftrightarrow>
        k < LENGTH('a) \<and> bit (le_word bs :: 'a word) j"
      using False k by (auto simp: bit_simps dest: bit_imp_le_length)
    also have "\<dots> \<longleftrightarrow> k < LENGTH('a) \<and> j div 8 < length bs \<and> bit (bs ! (j div 8)) (j mod 8)"
      using Cons.IH [of j] k by auto
    finally show ?thesis using k by (simp add: div_add1_eq)
  qed
qed

lemma le_word_le_bytes [simp]:
  assumes "LENGTH('a) = 8 * n"
  shows "le_word (le_bytes n w) = (w :: 'a::len word)"
proof (rule bit_word_eqI)
  fix k
  assume "k < LENGTH('a)"
  then have "k div 8 < n" using assms by simp
  then show "bit (le_word (le_bytes n w) :: 'a word) k = bit w k"
    using \<open>k < LENGTH('a)\<close> by (simp add: bit_le_word) (simp add: le_bytes_def bit_simps)
qed

lemma sint_word_of_nat [simp]: "n < 2 ^ 31 \<Longrightarrow> sint (word_of_nat n :: 32 word) = int n"
  by (simp add: signed_of_nat signed_take_bit_int_eq_self)

section \<open>Lists\<close>

lemma take_append_exact [simp]: "length xs = n \<Longrightarrow> take n (xs @ ys) = xs"
  by simp

lemma drop_append_exact [simp]: "length xs = n \<Longrightarrow> drop n (xs @ ys) = ys"
  by simp

text \<open>\<open>std::swap(v[i], v[j])\<close>.\<close>

definition swap_at :: "nat \<Rightarrow> nat \<Rightarrow> 'a list \<Rightarrow> 'a list" where
  "swap_at i j xs = xs[i := xs ! j, j := xs ! i]"

lemma length_swap_at [simp]: "length (swap_at i j xs) = length xs"
  by (simp add: swap_at_def)

lemma nth_swap_at:
  "i < length xs \<Longrightarrow> j < length xs \<Longrightarrow> k < length xs \<Longrightarrow>
     swap_at i j xs ! k = (if k = j then xs ! i else if k = i then xs ! j else xs ! k)"
  by (simp add: swap_at_def nth_list_update)

text \<open>\<open>memcpy(buf + i, d, d.size())\<close>: no meaning when it leaves the buffer.\<close>

definition memcpy_at :: "nat \<Rightarrow> 'a list \<Rightarrow> 'a list \<Rightarrow> 'a list result" where
  "memcpy_at i d buf =
     (if length buf < i + length d then Inl (Undefined ''memcpy out of range'')
      else Inr (take i buf @ d @ drop (i + length d) buf))"

lemma memcpy_at_ok: "i + length d \<le> length buf \<Longrightarrow>
    memcpy_at i d buf = Inr (take i buf @ d @ drop (i + length d) buf)"
  by (simp add: memcpy_at_def)

lemma memcpy_at_Inr:
  assumes "memcpy_at i d buf = Inr buf'"
  shows "length buf' = length buf" and "take (length d) (drop i buf') = d"
    and "j + n \<le> i \<or> i + length d \<le> j \<Longrightarrow> take n (drop j buf') = take n (drop j buf)"
proof -
  have len: "i + length d \<le> length buf" and buf': "buf' = take i buf @ d @ drop (i + length d) buf"
    using assms by (auto simp: memcpy_at_def split: if_splits)
  show "length buf' = length buf" and "take (length d) (drop i buf') = d"
    using len by (simp_all add: buf')
  assume "j + n \<le> i \<or> i + length d \<le> j"
  then show "take n (drop j buf') = take n (drop j buf)"
    using len by (auto simp: buf' drop_take min_def)
qed

end
