(* ===== verification/MsgHead.thy ===== *)
theory MsgHead
  imports Prelude
begin

text \<open>
  The wire format of the socket library and the callback table
  (\<open>bsp/bsp_sockets/impl/MsgHead.hpp\<close> and \<open>MsgDispatcher.hpp\<close>).

  A message is a C struct \<open>msgHead {size_t cmd_id; int length;}\<close> copied byte for byte in front
  of the payload. On the 64-bit targets the struct is 16 bytes long (8 + 4 + 4 bytes of
  padding whose content the code never sets), while the constant \<open>MSG_HEAD_LENGTH\<close> is the sum
  of the two member sizes, 12. \<open>std::hash\<close> is implementation defined and a parameter.
\<close>

section \<open>The header\<close>

record msgHead =
  cmd_id :: u64
  msg_length :: u32

definition MSG_HEAD_LENGTH :: int where
  "MSG_HEAD_LENGTH = 8 + 4"

definition MSG_LENGTH_LIMIT :: int where
  "MSG_LENGTH_LIMIT = 65536 - MSG_HEAD_LENGTH"

definition sizeof_msgHead :: nat where
  "sizeof_msgHead = 16"

lemmas msg_consts = MSG_HEAD_LENGTH_def MSG_LENGTH_LIMIT_def sizeof_msgHead_def

definition genCmdId :: "(string \<Rightarrow> u64) \<Rightarrow> string \<Rightarrow> u64" where
  "genCmdId hash cmd_name = hash cmd_name"

text \<open>\<open>memcpy(buffer, &head, sizeof(msgHead))\<close>; \<open>pad\<close> is the struct's padding.\<close>

definition head_bytes :: "bytes \<Rightarrow> msgHead \<Rightarrow> bytes" where
  "head_bytes pad h = le_bytes 8 (cmd_id h) @ le_bytes 4 (msg_length h) @ pad"

text \<open>
  \<open>memcpy(&head, buffer.data(), sizeof(msgHead))\<close>: reading past the end of the buffer has no
  meaning.
\<close>

definition read_head :: "bytes \<Rightarrow> msgHead result" where
  "read_head bs = (if length bs < sizeof_msgHead then Inl (Undefined ''memcpy of msgHead'')
     else Inr \<lparr>cmd_id = le_word (take 8 bs), msg_length = le_word (take 4 (drop 8 bs))\<rparr>)"

text \<open>The message \<open>sendData\<close> builds: \<open>head.length = data.size()\<close> narrows to \<open>int\<close>.\<close>

definition make_head :: "u64 \<Rightarrow> bytes \<Rightarrow> msgHead" where
  "make_head c d = \<lparr>cmd_id = c, msg_length = word_of_nat (length d)\<rparr>"

definition make_msg :: "bytes \<Rightarrow> u64 \<Rightarrow> bytes \<Rightarrow> bytes" where
  "make_msg pad c d = head_bytes pad (make_head c d) @ d"

lemma length_head_bytes: "length (head_bytes pad h) = 12 + length pad"
  by (simp add: head_bytes_def)

lemma length_make_msg: "length pad = 4 \<Longrightarrow> length (make_msg pad c d) = 16 + length d"
  by (simp add: make_msg_def length_head_bytes)

lemma make_msg_nonempty: "length pad = 4 \<Longrightarrow> make_msg pad c d \<noteq> []"
  using length_make_msg [of pad c d] by auto

lemma read_head_head_bytes:
  assumes "length pad = 4"
  shows "read_head (head_bytes pad h @ d) = Inr h"
proof -
  have "take 8 (head_bytes pad h @ d) = le_bytes 8 (cmd_id h)"
    and "take 4 (drop 8 (head_bytes pad h @ d)) = le_bytes 4 (msg_length h)"
    by (simp_all add: head_bytes_def)
  then show ?thesis
    using assms by (simp add: read_head_def length_head_bytes sizeof_msgHead_def)
qed

lemma read_head_make_msg:
  "length pad = 4 \<Longrightarrow> read_head (make_msg pad c d) = Inr (make_head c d)"
  by (simp add: make_msg_def read_head_head_bytes)

lemma read_head_Inr_length: "read_head bs = Inr h \<Longrightarrow> 16 \<le> length bs"
  by (auto simp: read_head_def sizeof_msgHead_def split: if_splits)

lemma read_head_append: "read_head bs = Inr h \<Longrightarrow> read_head (bs @ cs) = Inr h"
  by (auto simp: read_head_def sizeof_msgHead_def split: if_splits)

lemma sint_make_head:
  "length d < 2 ^ 31 \<Longrightarrow> sint (msg_length (make_head c d)) = int (length d)"
  by (simp add: make_head_def signed_of_nat signed_take_bit_int_eq_self)

lemma drop_make_msg: "length pad = 4 \<Longrightarrow> drop sizeof_msgHead (make_msg pad c d) = d"
  by (simp add: make_msg_def length_head_bytes sizeof_msgHead_def)

section \<open>MsgDispatcher\<close>

text \<open>Two maps filled together: the callback of a command and its user data.\<close>

record ('cb, 'arg) MsgDispatcher =
  m_dispatcher :: "u64 \<rightharpoonup> 'cb"
  m_args :: "u64 \<rightharpoonup> 'arg"

definition empty_dispatcher :: "('cb, 'arg) MsgDispatcher" where
  "empty_dispatcher = \<lparr>m_dispatcher = Map.empty, m_args = Map.empty\<rparr>"

definition exist :: "('cb, 'arg) MsgDispatcher \<Rightarrow> u64 \<Rightarrow> bool" where
  "exist d c \<longleftrightarrow> m_dispatcher d c \<noteq> None"

definition addMsgCallback ::
  "(string \<Rightarrow> u64) \<Rightarrow> string \<Rightarrow> 'cb \<Rightarrow> 'arg \<Rightarrow> ('cb, 'arg) MsgDispatcher \<Rightarrow>
     int \<times> ('cb, 'arg) MsgDispatcher" where
  "addMsgCallback hash cmd_name cb usr_data d =
     (let c = genCmdId hash cmd_name in
      if exist d c then (-1, d)
      else (0, d\<lparr>m_dispatcher := (m_dispatcher d)(c \<mapsto> cb), m_args := (m_args d)(c \<mapsto> usr_data)\<rparr>))"

text \<open>
  \<open>callbackFunc\<close> looks the command up and calls the function with the payload; \<open>run\<close> is what
  calling it does to the state \<open>s\<close> of the program. \<open>m_args[cmd_id]\<close> default-constructs a
  missing entry; \<open>nil\<close> is that empty \<open>std::any\<close>.
\<close>

definition callbackFunc ::
  "'arg \<Rightarrow> ('cb \<Rightarrow> u64 \<Rightarrow> bytes \<Rightarrow> 'arg \<Rightarrow> 's \<Rightarrow> ('s, unit) outcome) \<Rightarrow>
     ('cb, 'arg) MsgDispatcher \<Rightarrow> u64 \<Rightarrow> bytes \<Rightarrow> 's \<Rightarrow> ('s, unit) outcome" where
  "callbackFunc nil run d c data s =
     (case m_dispatcher d c of
        None \<Rightarrow> (Inl (Throw ''cmd_id not exist''), s)
      | Some cb \<Rightarrow> run cb c data (case m_args d c of None \<Rightarrow> nil | Some a \<Rightarrow> a) s)"

text \<open>The two maps have the same keys.\<close>

definition dispatcher_ok :: "('cb, 'arg) MsgDispatcher \<Rightarrow> bool" where
  "dispatcher_ok d \<longleftrightarrow> dom (m_dispatcher d) = dom (m_args d)"

lemma dispatcher_ok_empty: "dispatcher_ok empty_dispatcher"
  by (simp add: dispatcher_ok_def empty_dispatcher_def)

lemma dispatcher_ok_add:
  "dispatcher_ok d \<Longrightarrow> dispatcher_ok (snd (addMsgCallback hash n cb a d))"
  by (auto simp: dispatcher_ok_def addMsgCallback_def Let_def)

lemma addMsgCallback_fresh:
  "\<not> exist d (hash n) \<Longrightarrow> fst (addMsgCallback hash n cb a d) = 0"
  by (simp add: addMsgCallback_def genCmdId_def Let_def)

lemma addMsgCallback_keeps:
  "m_dispatcher d c = Some cb' \<Longrightarrow> m_dispatcher (snd (addMsgCallback hash n cb a d)) c = Some cb'"
  by (auto simp: addMsgCallback_def genCmdId_def exist_def Let_def)

lemma callbackFunc_missing [simp]:
  "\<not> exist d c \<Longrightarrow> callbackFunc nil run d c data s = (Inl (Throw ''cmd_id not exist''), s)"
  by (simp add: callbackFunc_def exist_def)

end
