(* ===== verification/IOBuffer.thy ===== *)
theory IOBuffer
  imports Prelude
begin

text \<open>
  The buffer queues of a connection (\<open>bsp/bsp_sockets/impl/IOBuffer.hpp\<close>, \<open>IOBuffer.cpp\<close>):
  \<open>IOBufferQueue\<close> is a mutex-protected \<open>std::queue\<close> of byte vectors; \<open>InputBufferQueue\<close> fills
  it from a file descriptor, \<open>OutputBufferQueue\<close> empties it into one. Each method holds the
  mutex for its whole body, so it is one atomic step on the queue.

  The locale \<open>byte_fifo\<close> is the interface the connection and the client program against; it is
  interpreted on the queue below.
\<close>

section \<open>IOBufferQueue\<close>

record IOBufferQueue =
  m_buffers :: "bytes list"

definition empty_queue :: IOBufferQueue where
  "empty_queue = \<lparr>m_buffers = []\<rparr>"

definition MAX_BUFFER_NUM :: nat where
  "MAX_BUFFER_NUM = 256"

definition getBuffersCount :: "IOBufferQueue \<Rightarrow> nat" where
  "getBuffersCount q = length (m_buffers q)"

definition isFull :: "IOBufferQueue \<Rightarrow> bool" where
  "isFull q \<longleftrightarrow> MAX_BUFFER_NUM \<le> length (m_buffers q)"

definition isEmpty :: "IOBufferQueue \<Rightarrow> bool" where
  "isEmpty q \<longleftrightarrow> m_buffers q = []"

definition appendBuffer :: "bytes \<Rightarrow> IOBufferQueue \<Rightarrow> IOBufferQueue" where
  "appendBuffer b q = q\<lparr>m_buffers := m_buffers q @ [b]\<rparr>"

text \<open>\<open>front()\<close> and \<open>pop()\<close> of an empty \<open>std::queue\<close> have no meaning.\<close>

definition getFrontBuffer :: "IOBufferQueue \<Rightarrow> bytes result" where
  "getFrontBuffer q = (case m_buffers q of [] \<Rightarrow> Inl (Undefined ''front of an empty queue'')
     | b # _ \<Rightarrow> Inr b)"

definition popBuffer :: "IOBufferQueue \<Rightarrow> (IOBufferQueue, unit) outcome" where
  "popBuffer q = (case m_buffers q of [] \<Rightarrow> (Inl (Undefined ''pop of an empty queue''), q)
     | _ # bs \<Rightarrow> (Inr (), q\<lparr>m_buffers := bs\<rparr>))"

definition clearBuffers :: "IOBufferQueue \<Rightarrow> IOBufferQueue" where
  "clearBuffers q = q\<lparr>m_buffers := []\<rparr>"

section \<open>The interface of a byte queue\<close>

locale byte_fifo =
  fixes push :: "bytes \<Rightarrow> 'q \<Rightarrow> 'q"
    and front :: "'q \<Rightarrow> bytes result"
    and pop :: "'q \<Rightarrow> ('q, unit) outcome"
    and clear :: "'q \<Rightarrow> 'q"
    and empty :: "'q \<Rightarrow> bool"
    and count :: "'q \<Rightarrow> nat"
    and view :: "'q \<Rightarrow> bytes list"
  assumes view_push [simp]: "view (push b q) = view q @ [b]"
    and front_Cons: "view q = b # bs \<Longrightarrow> front q = Inr b"
    and pop_Cons: "view q = b # bs \<Longrightarrow> \<exists>q'. pop q = (Inr (), q') \<and> view q' = bs"
    and view_clear [simp]: "view (clear q) = []"
    and empty_view [simp]: "empty q \<longleftrightarrow> view q = []"
    and count_view [simp]: "count q = length (view q)"
begin

lemma push_all: "view (fold push bs q) = view q @ bs"
  by (induction bs arbitrary: q) simp_all

lemma first_in_first_out:
  "view q = [] \<Longrightarrow> front (fold push (b # bs) q) = Inr b"
  by (rule front_Cons [where bs = bs]) (simp add: push_all del: fold_simps)

lemma pop_total: "\<not> empty q \<Longrightarrow> \<exists>q'. pop q = (Inr (), q') \<and> view q' = tl (view q)"
  using pop_Cons by (cases "view q") fastforce+

lemma front_total: "\<not> empty q \<Longrightarrow> front q = Inr (hd (view q))"
  using front_Cons by (cases "view q") fastforce+

lemma count_push: "count (push b q) = Suc (count q)"
  by simp

end

interpretation bq: byte_fifo appendBuffer getFrontBuffer popBuffer clearBuffers isEmpty
    getBuffersCount m_buffers
  by unfold_locales
    (auto simp: appendBuffer_def getFrontBuffer_def popBuffer_def clearBuffers_def isEmpty_def
      getBuffersCount_def)

lemma popBuffer_nonempty:
  "m_buffers q \<noteq> [] \<Longrightarrow> popBuffer q = (Inr (), q\<lparr>m_buffers := tl (m_buffers q)\<rparr>)"
  by (cases "m_buffers q") (auto simp: popBuffer_def)

lemma getFrontBuffer_nonempty:
  "m_buffers q \<noteq> [] \<Longrightarrow> getFrontBuffer q = Inr (hd (m_buffers q))"
  using bq.front_total by simp

lemma isFull_iff: "isFull q \<longleftrightarrow> 256 \<le> length (m_buffers q)"
  by (simp add: isFull_def MAX_BUFFER_NUM_def)

section \<open>InputBufferQueue\<close>

text \<open>
  \<open>readData(fd)\<close>. \<open>fionread\<close> is the answer of \<open>ioctl(fd, FIONREAD, &rn)\<close> and \<open>reads\<close> what the
  successive \<open>read(fd, buffer, rn)\<close> calls deliver. Only a read that fills the whole buffer of
  \<open>rn\<close> bytes is queued; the return value is \<open>read\<close>'s.
\<close>

definition readData ::
  "nat sysret \<Rightarrow> bytes sysret list \<Rightarrow> IOBufferQueue \<Rightarrow> (IOBufferQueue, int) outcome" where
  "readData fionread reads q =
     (if isFull q then (Inr (-1), q)
      else case fionread of
        Err _ \<Rightarrow> (Inr (-1), q)
      | Ok rn \<Rightarrow>
          (case eintr_retry reads of
             None \<Rightarrow> (Inl Waiting, q)
           | Some (Err _) \<Rightarrow> (Inr (-1), q)
           | Some (Ok buffer) \<Rightarrow>
               (Inr (int (length buffer)),
                if 0 < length buffer \<and> length buffer = rn then appendBuffer buffer q else q)))"

section \<open>OutputBufferQueue\<close>

text \<open>The method \<open>sendData\<close> of the queue always succeeds; the queue itself has no bound.\<close>

definition queue_sendData :: "bytes \<Rightarrow> IOBufferQueue \<Rightarrow> int \<times> IOBufferQueue" where
  "queue_sendData buffer q = (0, appendBuffer buffer q)"

text \<open>
  \<open>writeFd(fd)\<close>. \<open>writes\<close> lists what the successive \<open>write(fd, buffer, size)\<close> calls return: how
  many bytes the kernel took, at most the size of the buffer. The result pairs the return value
  with the bytes that went out. The front buffer is dropped whenever \<open>write\<close> did not fail, also
  after a partial write.
\<close>

definition writeFd :: "nat sysret list \<Rightarrow> IOBufferQueue \<Rightarrow> (IOBufferQueue, int \<times> bytes) outcome" where
  "writeFd writes q =
     (if getBuffersCount q = 0 then (Inr (0, []), q)
      else case getFrontBuffer q of
        Inl e \<Rightarrow> (Inl e, q)
      | Inr buffer \<Rightarrow>
          (case eintr_retry writes of
             None \<Rightarrow> (Inl Waiting, q)
           | Some (Err _) \<Rightarrow> (Inr (-1, []), q)
           | Some (Ok n) \<Rightarrow>
               andthen (popBuffer q) (\<lambda>_ q'. (Inr (int n, take n buffer), q'))))"

section \<open>Facts\<close>

lemma readData_bound:
  "length (m_buffers q) \<le> 256 \<Longrightarrow> length (m_buffers (snd (readData fr rs q))) \<le> 256"
  by (auto simp: readData_def isFull_iff split: sysret.splits option.splits)

lemma readData_keeps:
  assumes "readData fr rs q = (Inr r, q')"
  shows "q' = q \<or> (\<exists>b. 0 < length b \<and> r = int (length b) \<and> fr = Ok (length b) \<and>
            q' = appendBuffer b q)"
  using assms
  by (auto simp: readData_def split: if_splits sysret.splits option.splits)

lemma writeFd_empty [simp]: "m_buffers q = [] \<Longrightarrow> writeFd ws q = (Inr (0, []), q)"
  by (simp add: writeFd_def)

lemma writeFd_ok:
  assumes "m_buffers q = b # bs" and "eintr_retry ws = Some (Ok n)"
  shows "writeFd ws q = (Inr (int n, take n b), q\<lparr>m_buffers := bs\<rparr>)"
  using assms by (simp add: writeFd_def getFrontBuffer_def popBuffer_def)

lemma writeFd_err:
  assumes "m_buffers q = b # bs" and "eintr_retry ws = Some (Err e)"
  shows "writeFd ws q = (Inr (-1, []), q)"
  using assms by (simp add: writeFd_def getFrontBuffer_def)

lemma writeFd_never_undefined: "fst (writeFd ws q) \<noteq> Inl (Undefined m)"
  by (cases "m_buffers q")
    (auto simp: writeFd_def getFrontBuffer_def popBuffer_def split: option.splits sysret.splits)

end
