(* ===== verification/TimerQueue.thy ===== *)
theory TimerQueue
  imports Prelude "HOL-Library.Multiset"
begin

text \<open>
  The timer queue of an event loop (\<open>bsp/bsp_sockets/impl/TimerQueue.hpp\<close>, \<open>TimerQueue.cpp\<close>):
  a binary min-heap of timer events in a vector, ordered by absolute time in milliseconds, with
  a map from timer ids to positions in the vector, and a \<open>timerfd\<close> armed at \<open>m_pioneer\<close>.

  Times are 64-bit and intervals 32-bit words, as in the code; positions and counts are \<open>nat\<close>
  (they are bounded by the size of the vector) and timer ids \<open>int\<close>. The descriptor is modelled by
  the \<open>itimerspec\<close> value last given to \<open>timerfd_settime\<close>; the value zero disarms it.
\<close>

section \<open>State\<close>

record ('cb, 'arg) timerEvent =
  cb :: 'cb
  cb_data :: 'arg
  ts :: u64
  interval :: u32
  timer_id :: int

record ('cb, 'arg) TimerQueue =
  m_event_list :: "('cb, 'arg) timerEvent list"
  m_position :: "int \<rightharpoonup> nat"
  m_count :: nat
  m_next_timer_id :: int
  m_timer_fd :: fd
  m_pioneer :: u64
  timerfd_value :: "u64 \<times> u64"

text \<open>
  The constructor: every member has its default initialiser, the descriptor comes from
  \<open>timerfd_create\<close>. The \<open>m_logger\<close> member is never set and stays a null pointer.
\<close>

definition newTimerQueue :: "fd \<Rightarrow> ('cb, 'arg) TimerQueue result" where
  "newTimerQueue tfd =
     (if tfd = -1 then Inl (Throw ''timerfd_create'')
      else Inr \<lparr>m_event_list = [], m_position = Map.empty, m_count = 0, m_next_timer_id = 0,
                m_timer_fd = tfd, m_pioneer = 0, timerfd_value = (0, 0)\<rparr>)"

section \<open>Heap operations\<close>

text \<open>
  The sift-up loop of \<open>heapAdd\<close>. In C++ \<open>(0 - 1) / 2\<close> is \<open>0\<close>, as \<open>(0 - 1) div 2\<close> is on
  \<open>nat\<close>; the loop stops at the root because no time is smaller than itself.
\<close>

function heap_up :: "nat \<Rightarrow> ('cb, 'arg) TimerQueue \<Rightarrow> ('cb, 'arg) TimerQueue" where
  "heap_up curr_pos q =
     (let previous_pos = (curr_pos - 1) div 2; xs = m_event_list q in
      if ts (xs ! curr_pos) < ts (xs ! previous_pos)
      then let ys = swap_at curr_pos previous_pos xs in
        heap_up previous_pos
          (q\<lparr>m_event_list := ys,
             m_position := (m_position q)(timer_id (ys ! curr_pos) \<mapsto> curr_pos,
                                          timer_id (ys ! previous_pos) \<mapsto> previous_pos)\<rparr>)
      else q)"
  by pat_completeness auto
termination
proof (relation "measure fst", goal_cases)
  case (2 curr_pos q prev xs ys)
  have "curr_pos \<noteq> 0"
  proof
    assume "curr_pos = 0"
    with 2 show False by simp
  qed
  then show ?case using 2 by simp
qed simp

declare heap_up.simps [simp del]

definition heapAdd ::
  "('cb, 'arg) timerEvent \<Rightarrow> ('cb, 'arg) TimerQueue \<Rightarrow> ('cb, 'arg) TimerQueue" where
  "heapAdd te q =
     heap_up (m_count q)
       (q\<lparr>m_event_list := m_event_list q @ [te],
          m_position := (m_position q)(timer_id te \<mapsto> m_count q),
          m_count := m_count q + 1\<rparr>)"

function heapHold :: "nat \<Rightarrow> ('cb, 'arg) TimerQueue \<Rightarrow> ('cb, 'arg) TimerQueue" where
  "heapHold pos q =
     (let left = 2 * pos + 1; right = 2 * pos + 2; xs = m_event_list q;
          min1 = (if left < m_count q \<and> ts (xs ! left) < ts (xs ! pos) then left else pos);
          min_pos = (if right < m_count q \<and> ts (xs ! right) < ts (xs ! min1) then right else min1)
      in if min_pos \<noteq> pos
         then let ys = swap_at min_pos pos xs in
           heapHold min_pos
             (q\<lparr>m_event_list := ys,
                m_position := (m_position q)(timer_id (ys ! min_pos) \<mapsto> min_pos,
                                             timer_id (ys ! pos) \<mapsto> pos)\<rparr>)
         else q)"
  by pat_completeness auto
termination
  by (relation "measure (\<lambda>(pos, q). m_count q - pos)") (auto simp: Let_def split: if_splits)

declare heapHold.simps [simp del]

definition heapDel :: "nat \<Rightarrow> ('cb, 'arg) TimerQueue \<Rightarrow> ('cb, 'arg) TimerQueue" where
  "heapDel pos q =
     (let xs = m_event_list q; to_del = xs ! pos; tmp = xs ! (m_count q - 1) in
      heapHold pos
        (q\<lparr>m_event_list := butlast (xs[pos := tmp]),
           m_position := ((m_position q)(timer_id tmp \<mapsto> pos))(timer_id to_del := None),
           m_count := m_count q - 1\<rparr>))"

definition heapPop :: "('cb, 'arg) TimerQueue \<Rightarrow> ('cb, 'arg) TimerQueue" where
  "heapPop q =
     (if m_count q = 0 then q
      else let xs = m_event_list q; pos1 = (m_position q)(timer_id (xs ! 0) := None) in
        if 1 < m_count q
        then let tmp = xs ! (m_count q - 1) in
          heapHold 0
            (q\<lparr>m_event_list := butlast (xs[0 := tmp]),
               m_position := pos1(timer_id tmp \<mapsto> 0),
               m_count := m_count q - 1\<rparr>)
        else q\<lparr>m_event_list := [], m_position := pos1, m_count := 0\<rparr>)"

section \<open>The public operations\<close>

definition resetTimerQueue :: "('cb, 'arg) TimerQueue \<Rightarrow> ('cb, 'arg) TimerQueue" where
  "resetTimerQueue q =
     q\<lparr>timerfd_value :=
         (if m_pioneer q \<noteq> -1
          then (m_pioneer q div 1000, (m_pioneer q mod 1000) * 1000000) else (0, 0))\<rparr>"

definition addTimer ::
  "('cb, 'arg) timerEvent \<Rightarrow> ('cb, 'arg) TimerQueue \<Rightarrow> int \<times> ('cb, 'arg) TimerQueue" where
  "addTimer te q =
     (let te' = te\<lparr>timer_id := m_next_timer_id q\<rparr>;
          q1 = heapAdd te' (q\<lparr>m_next_timer_id := m_next_timer_id q + 1\<rparr>);
          first = ts (m_event_list q1 ! 0)
      in (timer_id te',
          if first < m_pioneer q1 then resetTimerQueue (q1\<lparr>m_pioneer := first\<rparr>) else q1))"

text \<open>An unknown id is reported through \<open>m_logger\<close>, which is a null pointer.\<close>

definition delTimer :: "int \<Rightarrow> ('cb, 'arg) TimerQueue \<Rightarrow> (('cb, 'arg) TimerQueue, unit) outcome" where
  "delTimer tid q =
     (case m_position q tid of
        None \<Rightarrow> (Inl (Undefined ''null m_logger''), q)
      | Some pos \<Rightarrow>
          (let q1 = heapDel pos q in
           (Inr (),
            if m_count q1 = 0 then resetTimerQueue (q1\<lparr>m_pioneer := -1\<rparr>)
            else if ts (m_event_list q1 ! 0) < m_pioneer q1
            then resetTimerQueue (q1\<lparr>m_pioneer := ts (m_event_list q1 ! 0)\<rparr>) else q1)))"

lemma m_count_heapHold [simp]: "m_count (heapHold pos q) = m_count q"
proof (induction pos q rule: heapHold.induct)
  case (1 pos q)
  then show ?case by (subst heapHold.simps) (simp add: Let_def)
qed

lemma m_count_heapPop [simp]: "m_count (heapPop q) = m_count q - 1"
  by (simp add: heapPop_def Let_def)

text \<open>
  The loop of \<open>getFiredTimerEvents\<close>: pop every event whose time equals \<open>m_pioneer\<close>; the periodic
  ones are kept aside with their next time.
\<close>

function fire_loop ::
  "('cb, 'arg) TimerQueue \<Rightarrow> ('cb, 'arg) timerEvent list \<Rightarrow> ('cb, 'arg) timerEvent list \<Rightarrow>
     ('cb, 'arg) TimerQueue \<times> ('cb, 'arg) timerEvent list \<times> ('cb, 'arg) timerEvent list" where
  "fire_loop q fired_evs reuse_lst =
     (if m_count q \<noteq> 0 \<and> m_pioneer q = ts (m_event_list q ! 0)
      then let te = m_event_list q ! 0 in
        fire_loop (heapPop q) (fired_evs @ [te])
          (if interval te \<noteq> 0 then reuse_lst @ [te\<lparr>ts := ts te + ucast (interval te)\<rparr>]
           else reuse_lst)
      else (q, fired_evs, reuse_lst))"
  by pat_completeness auto
termination
  by (relation "measure (\<lambda>(q, _, _). m_count q)") auto

declare fire_loop.simps [simp del]

definition getFiredTimerEvents ::
  "('cb, 'arg) TimerQueue \<Rightarrow> ('cb, 'arg) timerEvent list \<times> ('cb, 'arg) TimerQueue" where
  "getFiredTimerEvents q =
     (let (q1, fired_evs, reuse_lst) = fire_loop q [] [];
          q2 = foldl (\<lambda>q te. snd (addTimer te q)) q1 reuse_lst
      in (fired_evs,
          resetTimerQueue
            (q2\<lparr>m_pioneer := (if m_count q2 = 0 then -1 else ts (m_event_list q2 ! 0))\<rparr>)))"

section \<open>Well-formedness\<close>

text \<open>\<open>m_position\<close> maps exactly the ids in the vector to their positions.\<close>

definition tracked :: "('cb, 'arg) timerEvent list \<Rightarrow> (int \<rightharpoonup> nat) \<Rightarrow> bool" where
  "tracked xs pos \<longleftrightarrow> (\<forall>tid i. pos tid = Some i \<longleftrightarrow> i < length xs \<and> timer_id (xs ! i) = tid)"

definition timers_wf :: "('cb, 'arg) TimerQueue \<Rightarrow> bool" where
  "timers_wf q \<longleftrightarrow> m_count q = length (m_event_list q) \<and> tracked (m_event_list q) (m_position q) \<and>
     (\<forall>te \<in> set (m_event_list q). timer_id te < m_next_timer_id q)"

definition heap_ok :: "('cb, 'arg) timerEvent list \<Rightarrow> bool" where
  "heap_ok xs \<longleftrightarrow> (\<forall>i < length xs. 0 < i \<longrightarrow> ts (xs ! ((i - 1) div 2)) \<le> ts (xs ! i))"

text \<open>The heap order but for the edge above position \<open>p\<close>, respectively below it.\<close>

definition heap_except_up :: "nat \<Rightarrow> ('cb, 'arg) timerEvent list \<Rightarrow> bool" where
  "heap_except_up p xs \<longleftrightarrow>
     (\<forall>i < length xs. 0 < i \<longrightarrow> i \<noteq> p \<longrightarrow> ts (xs ! ((i - 1) div 2)) \<le> ts (xs ! i)) \<and>
     (\<forall>i < length xs. 0 < i \<longrightarrow> 0 < p \<longrightarrow> (i - 1) div 2 = p \<longrightarrow>
        ts (xs ! ((p - 1) div 2)) \<le> ts (xs ! i))"

definition heap_except_down :: "nat \<Rightarrow> ('cb, 'arg) timerEvent list \<Rightarrow> bool" where
  "heap_except_down p xs \<longleftrightarrow>
     (\<forall>i < length xs. 0 < i \<longrightarrow> (i - 1) div 2 \<noteq> p \<longrightarrow> ts (xs ! ((i - 1) div 2)) \<le> ts (xs ! i)) \<and>
     (\<forall>i < length xs. 0 < i \<longrightarrow> 0 < p \<longrightarrow> (i - 1) div 2 = p \<longrightarrow>
        ts (xs ! ((p - 1) div 2)) \<le> ts (xs ! i))"

lemma tracked_iff:
  "tracked xs pos \<Longrightarrow> pos tid = Some i \<longleftrightarrow> i < length xs \<and> timer_id (xs ! i) = tid"
  by (simp only: tracked_def)

lemma tracked_at: "tracked xs pos \<Longrightarrow> i < length xs \<Longrightarrow> pos (timer_id (xs ! i)) = Some i"
  by (simp add: tracked_iff)

lemma tracked_inj:
  assumes "tracked xs pos" and "i < length xs" and "j < length xs"
    and "timer_id (xs ! i) = timer_id (xs ! j)"
  shows "i = j"
  using tracked_at [OF assms(1,2)] tracked_at [OF assms(1,3)] assms(4) by (metis option.inject)

lemma tracked_swap:
  assumes tr: "tracked xs pos" and b: "i < length xs" "j < length xs" and "i \<noteq> j"
  defines "ys \<equiv> swap_at i j xs"
  shows "tracked ys (pos(timer_id (ys ! i) \<mapsto> i, timer_id (ys ! j) \<mapsto> j))"
proof -
  have ids: "timer_id (xs ! i) \<noteq> timer_id (xs ! j)" using tracked_inj [OF tr b] \<open>i \<noteq> j\<close> by blast
  have ys: "ys ! i = xs ! j" "ys ! j = xs ! i" "length ys = length xs"
    and old: "\<And>k. k < length xs \<Longrightarrow> k \<noteq> i \<Longrightarrow> k \<noteq> j \<Longrightarrow> ys ! k = xs ! k"
    using b \<open>i \<noteq> j\<close> by (simp_all add: ys_def nth_swap_at)
  show ?thesis
    unfolding tracked_def
  proof (intro allI)
    fix tid k
    show "((pos(timer_id (ys ! i) \<mapsto> i, timer_id (ys ! j) \<mapsto> j)) tid = Some k) =
        (k < length ys \<and> timer_id (ys ! k) = tid)"
    proof (cases "k = i \<or> k = j")
      case True
      have "tid \<noteq> timer_id (xs ! i) \<Longrightarrow> pos tid \<noteq> Some i" "tid \<noteq> timer_id (xs ! j) \<Longrightarrow> pos tid \<noteq> Some j"
        using tracked_iff [OF tr] by simp_all
      then show ?thesis using True ids ys(1,2) b by (auto simp: ys(3))
    next
      case False
      then have ne: "k < length xs \<Longrightarrow> timer_id (xs ! k) \<noteq> timer_id (xs ! i)"
        "k < length xs \<Longrightarrow> timer_id (xs ! k) \<noteq> timer_id (xs ! j)"
        using tracked_inj [OF tr] b by metis+
      have "(pos(timer_id (ys ! i) \<mapsto> i, timer_id (ys ! j) \<mapsto> j)) tid = Some k \<longleftrightarrow>
          tid \<noteq> timer_id (xs ! i) \<and> tid \<noteq> timer_id (xs ! j) \<and> pos tid = Some k"
        using False ys by auto
      also have "\<dots> \<longleftrightarrow> k < length xs \<and> timer_id (xs ! k) = tid"
        using ne tracked_iff [OF tr, of tid k] by blast
      finally show ?thesis using False ys(3) old by auto
    qed
  qed
qed

lemma mset_swap_at: "i < length xs \<Longrightarrow> j < length xs \<Longrightarrow> mset (swap_at i j xs) = mset xs"
  by (simp add: swap_at_def mset_swap)

text \<open>What a sift leaves unchanged, whatever the direction.\<close>

definition same_timers :: "('cb, 'arg) TimerQueue \<Rightarrow> ('cb, 'arg) TimerQueue \<Rightarrow> bool" where
  "same_timers q q' \<longleftrightarrow> mset (m_event_list q') = mset (m_event_list q) \<and> m_count q' = m_count q \<and>
     m_next_timer_id q' = m_next_timer_id q \<and> m_timer_fd q' = m_timer_fd q \<and>
     m_pioneer q' = m_pioneer q \<and> timerfd_value q' = timerfd_value q"

lemma same_timers_refl [simp]: "same_timers q q"
  by (simp add: same_timers_def)

lemma same_timers_trans: "same_timers q q1 \<Longrightarrow> same_timers q1 q2 \<Longrightarrow> same_timers q q2"
  by (simp add: same_timers_def)

lemma same_timers_length: "same_timers q q' \<Longrightarrow> length (m_event_list q') = length (m_event_list q)"
  unfolding same_timers_def using mset_eq_length by blast

section \<open>Sifting up\<close>

lemma heap_except_up_swap:
  assumes h: "heap_except_up p xs" and p: "0 < p" "p < length xs"
    and lt: "ts (xs ! p) < ts (xs ! ((p - 1) div 2))"
  shows "heap_except_up ((p - 1) div 2) (swap_at p ((p - 1) div 2) xs)"
proof -
  define r where "r = (p - 1) div 2"
  have r: "r < p" "r < length xs" using p by (auto simp: r_def)
  have lt: "ts (xs ! p) < ts (xs ! r)" using lt by (simp add: r_def)
  have edge: "\<And>i. i < length xs \<Longrightarrow> 0 < i \<Longrightarrow> i \<noteq> p \<Longrightarrow> ts (xs ! ((i - 1) div 2)) \<le> ts (xs ! i)"
    and below: "\<And>i. i < length xs \<Longrightarrow> 0 < i \<Longrightarrow> (i - 1) div 2 = p \<Longrightarrow> ts (xs ! r) \<le> ts (xs ! i)"
    using h p by (auto simp: heap_except_up_def r_def)
  have nth: "\<And>k. k < length xs \<Longrightarrow> swap_at p r xs ! k =
      (if k = r then xs ! p else if k = p then xs ! r else xs ! k)"
    using p r by (simp add: nth_swap_at)
  have "ts (swap_at p r xs ! ((i - 1) div 2)) \<le> ts (swap_at p r xs ! i)"
    if i: "i < length xs" "0 < i" "i \<noteq> r" for i
  proof -
    have par: "(i - 1) div 2 < length xs" using i by auto
    consider "i = p" | "i \<noteq> p" "(i - 1) div 2 = p" | "i \<noteq> p" "(i - 1) div 2 = r"
      | "i \<noteq> p" "(i - 1) div 2 \<noteq> p" "(i - 1) div 2 \<noteq> r" by blast
    then show ?thesis
    proof cases
      case 1
      then have "(i - 1) div 2 = r" by (simp add: r_def)
      then show ?thesis using 1 lt r p by (simp add: nth)
    next
      case 2
      then show ?thesis using below [OF i(1,2)] i r p by (simp add: nth)
    next
      case 3
      then have "ts (xs ! r) \<le> ts (xs ! i)" using edge [OF i(1,2)] by simp
      then show ?thesis using 3 lt i r p by (simp add: nth)
    next
      case 4
      then show ?thesis using edge [OF i(1,2)] i par by (simp add: nth)
    qed
  qed
  moreover have "ts (swap_at p r xs ! ((r - 1) div 2)) \<le> ts (swap_at p r xs ! i)"
    if i: "i < length xs" "0 < i" "0 < r" "(i - 1) div 2 = r" for i
  proof -
    have par: "(r - 1) div 2 < r" using i(3) by auto
    have top: "ts (xs ! ((r - 1) div 2)) \<le> ts (xs ! r)" using edge [of r] r i(3) by simp
    have "i \<noteq> r" using i by auto
    show ?thesis
    proof (cases "i = p")
      case True
      then show ?thesis using top par r p by (simp add: nth)
    next
      case False
      then have "ts (xs ! ((r - 1) div 2)) \<le> ts (xs ! i)"
        using edge [OF i(1,2)] i(4) top by simp
      then show ?thesis using False par r p i \<open>i \<noteq> r\<close> by (simp add: nth)
    qed
  qed
  ultimately show ?thesis unfolding r_def [symmetric] heap_except_up_def by simp
qed

lemma heap_except_up_done:
  "heap_except_up p xs \<Longrightarrow> \<not> ts (xs ! p) < ts (xs ! ((p - 1) div 2)) \<Longrightarrow> heap_ok xs"
  unfolding heap_except_up_def heap_ok_def by (metis linorder_not_less)

definition swapped :: "nat \<Rightarrow> nat \<Rightarrow> ('cb, 'arg) TimerQueue \<Rightarrow> ('cb, 'arg) TimerQueue" where
  "swapped i j q =
     (let ys = swap_at i j (m_event_list q) in
      q\<lparr>m_event_list := ys,
         m_position := (m_position q)(timer_id (ys ! i) \<mapsto> i, timer_id (ys ! j) \<mapsto> j)\<rparr>)"

lemma m_event_list_swapped [simp]: "m_event_list (swapped i j q) = swap_at i j (m_event_list q)"
  by (simp add: swapped_def Let_def)

lemma swapped_same:
  "i < length (m_event_list q) \<Longrightarrow> j < length (m_event_list q) \<Longrightarrow> same_timers q (swapped i j q)"
  by (simp add: swapped_def Let_def same_timers_def mset_swap_at)

lemma swapped_tracked:
  "tracked (m_event_list q) (m_position q) \<Longrightarrow> i < length (m_event_list q) \<Longrightarrow>
     j < length (m_event_list q) \<Longrightarrow> i \<noteq> j \<Longrightarrow>
     tracked (m_event_list (swapped i j q)) (m_position (swapped i j q))"
  using tracked_swap by (simp add: swapped_def Let_def)

lemma heap_up_unfold:
  "heap_up p q =
     (if ts (m_event_list q ! p) < ts (m_event_list q ! ((p - 1) div 2))
      then heap_up ((p - 1) div 2) (swapped p ((p - 1) div 2) q) else q)"
  by (subst heap_up.simps) (simp add: Let_def swapped_def)

lemma heap_up_ok:
  assumes "p < length (m_event_list q)" and "tracked (m_event_list q) (m_position q)"
  shows "same_timers q (heap_up p q) \<and>
     tracked (m_event_list (heap_up p q)) (m_position (heap_up p q)) \<and>
     (heap_except_up p (m_event_list q) \<longrightarrow> heap_ok (m_event_list (heap_up p q)))"
  using assms
proof (induction p arbitrary: q rule: less_induct)
  case (less p)
  let ?r = "(p - 1) div 2"
  show ?case
  proof (cases "ts (m_event_list q ! p) < ts (m_event_list q ! ?r)")
    case True
    have "p \<noteq> 0"
    proof
      assume "p = 0"
      with True show False by simp
    qed
    then have r: "?r < p" and p: "0 < p" by auto
    let ?q = "swapped p ?r q"
    have same: "same_timers q ?q" using swapped_same r less.prems(1) by (meson less_trans)
    have tr: "tracked (m_event_list ?q) (m_position ?q)"
      using swapped_tracked r less.prems by (metis less_irrefl less_trans)
    have len: "?r < length (m_event_list ?q)" using r less.prems(1) by simp
    have rec: "heap_up p q = heap_up ?r ?q" using True by (subst heap_up_unfold) simp
    have "heap_except_up p (m_event_list q) \<Longrightarrow> heap_except_up ?r (m_event_list ?q)"
      using heap_except_up_swap [OF _ p less.prems(1) True] by simp
    then show ?thesis
      using less.IH [OF r len tr] same same_timers_trans unfolding rec by blast
  next
    case False
    then have "heap_up p q = q" by (subst heap_up_unfold) simp
    then show ?thesis using less.prems(2) heap_except_up_done [OF _ False] by simp
  qed
qed

section \<open>Sinking\<close>

lemma heap_except_down_swap:
  assumes h: "heap_except_down p xs" and m: "m < length xs" "0 < m" "(m - 1) div 2 = p"
    and lt: "ts (xs ! m) < ts (xs ! p)"
    and min: "\<And>i. i < length xs \<Longrightarrow> 0 < i \<Longrightarrow> (i - 1) div 2 = p \<Longrightarrow> ts (xs ! m) \<le> ts (xs ! i)"
  shows "heap_except_down m (swap_at m p xs)"
proof -
  have p: "p < m" using m by auto
  have edge: "\<And>i. i < length xs \<Longrightarrow> 0 < i \<Longrightarrow> (i - 1) div 2 \<noteq> p \<Longrightarrow>
      ts (xs ! ((i - 1) div 2)) \<le> ts (xs ! i)"
    and below: "\<And>i. i < length xs \<Longrightarrow> 0 < i \<Longrightarrow> 0 < p \<Longrightarrow> (i - 1) div 2 = p \<Longrightarrow>
      ts (xs ! ((p - 1) div 2)) \<le> ts (xs ! i)"
    using h by (auto simp: heap_except_down_def)
  have nth: "\<And>k. k < length xs \<Longrightarrow> swap_at m p xs ! k =
      (if k = p then xs ! m else if k = m then xs ! p else xs ! k)"
    using p m by (simp add: nth_swap_at)
  have "ts (swap_at m p xs ! ((i - 1) div 2)) \<le> ts (swap_at m p xs ! i)"
    if i: "i < length xs" "0 < i" "(i - 1) div 2 \<noteq> m" for i
  proof -
    have par: "(i - 1) div 2 < i" using i(2) by auto
    consider "i = m" | "i = p" | "i \<noteq> m" "i \<noteq> p" "(i - 1) div 2 = p"
      | "i \<noteq> m" "i \<noteq> p" "(i - 1) div 2 \<noteq> p" by blast
    then show ?thesis
    proof cases
      case 1
      then show ?thesis using lt p m by (simp add: nth)
    next
      case 2
      then have "ts (xs ! ((i - 1) div 2)) \<le> ts (xs ! m)" using below [OF m(1,2) _ m(3)] i by simp
      then show ?thesis using 2 par p m i by (simp add: nth)
    next
      case 3
      then show ?thesis using min [OF i(1,2)] p m i by (simp add: nth)
    next
      case 4
      then show ?thesis using edge [OF i(1,2)] par p m i by (simp add: nth)
    qed
  qed
  moreover have "ts (swap_at m p xs ! ((m - 1) div 2)) \<le> ts (swap_at m p xs ! i)"
    if i: "i < length xs" "0 < i" "(i - 1) div 2 = m" for i
  proof -
    have "m < i" using i by auto
    have "ts (xs ! m) \<le> ts (xs ! i)" using edge [OF i(1,2)] i(3) p by simp
    then show ?thesis using \<open>m < i\<close> p m i by (simp add: nth)
  qed
  ultimately show ?thesis by (simp add: heap_except_down_def)
qed

lemma heap_except_down_done:
  assumes "heap_except_down p xs"
    and "\<And>i. i < length xs \<Longrightarrow> 0 < i \<Longrightarrow> (i - 1) div 2 = p \<Longrightarrow> ts (xs ! p) \<le> ts (xs ! i)"
  shows "heap_ok xs"
  using assms unfolding heap_except_down_def heap_ok_def by metis

lemma child_iff: "0 < i \<Longrightarrow> (i - 1) div 2 = p \<longleftrightarrow> i = 2 * p + 1 \<or> i = 2 * p + (2::nat)"
  by auto

text \<open>The position \<open>heapHold\<close> sinks to: the smallest of a node and its children.\<close>

definition min_child :: "nat \<Rightarrow> nat \<Rightarrow> ('cb, 'arg) timerEvent list \<Rightarrow> nat" where
  "min_child n p xs =
     (let min1 = (if 2 * p + 1 < n \<and> ts (xs ! (2 * p + 1)) < ts (xs ! p) then 2 * p + 1 else p)
      in if 2 * p + 2 < n \<and> ts (xs ! (2 * p + 2)) < ts (xs ! min1) then 2 * p + 2 else min1)"

lemma heapHold_unfold:
  "heapHold p q =
     (let m = min_child (m_count q) p (m_event_list q)
      in if m \<noteq> p then heapHold m (swapped m p q) else q)"
  by (subst heapHold.simps) (simp add: Let_def swapped_def min_child_def)

lemma min_child_le:
  "i < n \<Longrightarrow> 0 < i \<Longrightarrow> (i - 1) div 2 = p \<Longrightarrow> ts (xs ! min_child n p xs) \<le> ts (xs ! i)"
  unfolding child_iff by (auto simp: min_child_def Let_def)

lemma min_child_cases:
  assumes "m = min_child n p xs" and "m \<noteq> p"
  shows "m < n \<and> p < m \<and> (m - 1) div 2 = p \<and> ts (xs ! m) < ts (xs ! p)"
  using assms by (auto simp: min_child_def Let_def split: if_splits)

lemma heapHold_ok:
  assumes "m_count q = length (m_event_list q)" and "tracked (m_event_list q) (m_position q)"
    and "p \<le> m_count q"
  shows "same_timers q (heapHold p q) \<and>
     tracked (m_event_list (heapHold p q)) (m_position (heapHold p q)) \<and>
     (heap_except_down p (m_event_list q) \<longrightarrow> heap_ok (m_event_list (heapHold p q)))"
  using assms
proof (induction "m_count q - p" arbitrary: p q rule: less_induct)
  case less
  define m where "m = min_child (m_count q) p (m_event_list q)"
  show ?case
  proof (cases "m = p")
    case True
    then have "heapHold p q = q" by (subst heapHold_unfold) (simp add: m_def Let_def)
    moreover have "heap_except_down p (m_event_list q) \<Longrightarrow> heap_ok (m_event_list q)"
      using heap_except_down_done min_child_le True less.prems(1) unfolding m_def by metis
    ultimately show ?thesis using less.prems by simp
  next
    case False
    then have m: "m < m_count q" "p < m" "(m - 1) div 2 = p" "ts (m_event_list q ! m) < ts (m_event_list q ! p)"
      using min_child_cases [OF m_def] by auto
    let ?q = "swapped m p q"
    have rec: "heapHold p q = heapHold m ?q"
      using False by (subst heapHold_unfold) (simp add: m_def Let_def)
    have b: "m < length (m_event_list q)" "p < length (m_event_list q)" using m less.prems by auto
    have same: "same_timers q ?q" using swapped_same [OF b] .
    have cnt: "m_count ?q = m_count q" using same by (simp add: same_timers_def)
    have tr: "tracked (m_event_list ?q) (m_position ?q)"
      using swapped_tracked [OF less.prems(2) b False] .
    have "heap_except_down p (m_event_list q) \<Longrightarrow> heap_except_down m (m_event_list ?q)"
      using heap_except_down_swap [OF _ b(1) _ m(3,4)] m(2) min_child_le less.prems(1)
      unfolding m_def by (metis gr_zeroI m_event_list_swapped not_less0)
    moreover have "m_count ?q - m < m_count q - p" "m_count ?q = length (m_event_list ?q)"
      "m \<le> m_count ?q"
      using m cnt less.prems(1) by auto
    ultimately show ?thesis
      using less.hyps [of ?q m, OF _ _ tr] same same_timers_trans unfolding rec by blast
  qed
qed

section \<open>Removing an element\<close>

text \<open>
  Replace position \<open>pos\<close> by the last event and drop the last position: the array step \<open>heapDel\<close>
  and \<open>heapPop\<close> share.
\<close>

definition replaced :: "nat \<Rightarrow> ('cb, 'arg) timerEvent list \<Rightarrow> ('cb, 'arg) timerEvent list" where
  "replaced pos xs = butlast (xs[pos := xs ! (length xs - 1)])"

lemma length_replaced [simp]: "length (replaced pos xs) = length xs - 1"
  by (simp add: replaced_def)

lemma nth_replaced:
  "i < length xs - 1 \<Longrightarrow> replaced pos xs ! i = (if i = pos then xs ! (length xs - 1) else xs ! i)"
  by (simp add: replaced_def nth_butlast nth_list_update)

lemma mset_replaced:
  assumes "pos < length xs"
  shows "mset (replaced pos xs) = mset xs - {#xs ! pos#}"
proof -
  have ne: "xs \<noteq> []" using assms by auto
  show ?thesis
  proof (cases "pos = length xs - 1")
    case True
    then show ?thesis using ne
      by (metis add_mset_remove_trivial append_butlast_last_id last_conv_nth list_update_id
          mset.simps(2) mset_rev replaced_def rev.simps(2) rev_append rev_rev_ident rev_singleton_conv
          union_mset_add_mset_right)
  next
    case False
    then have pos: "pos < length (butlast xs)" using assms by simp
    have xs: "xs = butlast xs @ [xs ! (length xs - 1)]" using ne by (metis append_butlast_last_id last_conv_nth)
    have "replaced pos xs = (butlast xs)[pos := xs ! (length xs - 1)]"
      unfolding replaced_def using False by (simp add: butlast_list_update)
    moreover have "xs ! pos = butlast xs ! pos" using pos by (simp add: nth_butlast)
    moreover have "mset xs = add_mset (xs ! (length xs - 1)) (mset (butlast xs))"
      by (subst xs) simp
    moreover have "butlast xs ! pos \<in># mset (butlast xs)" using nth_mem [OF pos] by simp
    ultimately show ?thesis using mset_update [OF pos] by simp
  qed
qed

lemma replaced_tracked:
  assumes tr: "tracked xs pos" and p: "p < length xs"
  defines "last_id \<equiv> timer_id (xs ! (length xs - 1))"
  shows "tracked (replaced p xs) ((pos(last_id \<mapsto> p))(timer_id (xs ! p) := None))"
proof -
  let ?n = "length xs - 1"
  have n: "?n < length xs" using p by simp
  have "(((pos(last_id \<mapsto> p))(timer_id (xs ! p) := None)) tid = Some i) =
      (i < length (replaced p xs) \<and> timer_id (replaced p xs ! i) = tid)" for tid i
  proof (cases "tid = timer_id (xs ! p)")
    case True
    have "\<not> (i < ?n \<and> timer_id (replaced p xs ! i) = tid)"
    proof
      assume "i < ?n \<and> timer_id (replaced p xs ! i) = tid"
      then have a: "i < ?n" "timer_id (replaced p xs ! i) = tid" by auto
      show False
      proof (cases "i = p")
        case True
        then have "timer_id (xs ! ?n) = timer_id (xs ! p)"
          using a \<open>tid = _\<close> nth_replaced [OF a(1)] by simp
        then show False using tracked_inj [OF tr n p] a True by simp
      next
        case False
        then have "timer_id (xs ! i) = timer_id (xs ! p)"
          using a \<open>tid = _\<close> nth_replaced [OF a(1)] by simp
        then show False using tracked_inj [OF tr _ p, of i] a(1) False n by (meson less_trans)
      qed
    qed
    then show ?thesis using True by simp
  next
    case False
    show ?thesis
    proof (cases "tid = last_id")
      case True
      then have "p \<noteq> ?n" using False by (auto simp: last_id_def)
      then have pn: "p < ?n" using p by simp
      have "i < ?n \<Longrightarrow> i \<noteq> p \<Longrightarrow> timer_id (xs ! i) \<noteq> last_id"
        using tracked_inj [OF tr _ n, of i] pn n less_trans unfolding last_id_def by blast
      then show ?thesis
        using True False pn by (auto simp: nth_replaced last_id_def split: if_splits)
    next
      case f2: False
      have "pos tid = Some i \<longleftrightarrow> i < ?n \<and> i \<noteq> p \<and> timer_id (xs ! i) = tid"
        unfolding tracked_iff [OF tr] using False f2 p
        by (metis Suc_diff_1 Suc_leI le_neq_implies_less last_id_def less_SucE less_nat_zero_code
            less_trans n not_gr_zero)
      then show ?thesis using False f2 by (auto simp: nth_replaced last_id_def split: if_splits)
    qed
  qed
  then show ?thesis by (simp add: tracked_def)
qed

section \<open>The operations keep the queue well-formed\<close>

lemma heap_root_le:
  assumes "heap_ok xs" and "i < length xs"
  shows "ts (xs ! 0) \<le> ts (xs ! i)"
  using assms(2)
proof (induction i rule: less_induct)
  case (less i)
  show ?case
  proof (cases "i = 0")
    case False
    then have par: "(i - 1) div 2 < i" by auto
    then have "ts (xs ! 0) \<le> ts (xs ! ((i - 1) div 2))" using less by simp
    also have "\<dots> \<le> ts (xs ! i)" using assms(1) less.prems False by (simp add: heap_ok_def)
    finally show ?thesis .
  qed simp
qed

lemma heap_root_min: "heap_ok xs \<Longrightarrow> te \<in> set xs \<Longrightarrow> ts (xs ! 0) \<le> ts te"
  by (metis heap_root_le in_set_conv_nth)

lemma heap_ok_snoc:
  assumes "heap_ok xs"
  shows "heap_except_up (length xs) (xs @ [te])"
proof -
  have "ts ((xs @ [te]) ! ((i - 1) div 2)) \<le> ts ((xs @ [te]) ! i)"
    if "i < length xs" "0 < i" for i
  proof -
    have "(i - 1) div 2 < length xs" using that by auto
    then show ?thesis using assms that by (simp add: heap_ok_def nth_append)
  qed
  moreover have "(i - 1) div 2 \<noteq> length xs" if "i < length (xs @ [te])" "0 < i" for i
    using that by auto
  ultimately show ?thesis unfolding heap_except_up_def by (auto simp: less_Suc_eq)
qed

lemma tracked_snoc:
  assumes tr: "tracked xs pos" and new: "\<And>e. e \<in> set xs \<Longrightarrow> timer_id e \<noteq> timer_id te"
  shows "tracked (xs @ [te]) (pos(timer_id te \<mapsto> length xs))"
proof -
  have "((pos(timer_id te \<mapsto> length xs)) tid = Some i) =
      (i < length (xs @ [te]) \<and> timer_id ((xs @ [te]) ! i) = tid)" for tid i
  proof (cases "i < length xs")
    case True
    then have "timer_id (xs ! i) \<noteq> timer_id te" using new by simp
    then show ?thesis using True tracked_iff [OF tr, of tid i] by (auto simp: nth_append)
  next
    case False
    then have "pos tid \<noteq> Some i" using tracked_iff [OF tr, of tid i] by simp
    then show ?thesis using False by (auto simp: nth_append)
  qed
  then show ?thesis by (simp add: tracked_def)
qed

lemma same_timers_ids:
  assumes "same_timers q q'"
  shows "set (m_event_list q') = set (m_event_list q)"
  using assms unfolding same_timers_def using mset_eq_setD by blast

lemma heapAdd_ok:
  assumes wf: "timers_wf q" and new: "\<And>e. e \<in> set (m_event_list q) \<Longrightarrow> timer_id e \<noteq> timer_id te"
    and nx: "timer_id te < m_next_timer_id q"
  shows "timers_wf (heapAdd te q) \<and>
     mset (m_event_list (heapAdd te q)) = add_mset te (mset (m_event_list q)) \<and>
     m_next_timer_id (heapAdd te q) = m_next_timer_id q \<and> m_pioneer (heapAdd te q) = m_pioneer q \<and>
     timerfd_value (heapAdd te q) = timerfd_value q \<and>
     (heap_ok (m_event_list q) \<longrightarrow> heap_ok (m_event_list (heapAdd te q)))"
proof -
  define q0 where "q0 = q\<lparr>m_event_list := m_event_list q @ [te],
    m_position := (m_position q)(timer_id te \<mapsto> m_count q), m_count := m_count q + 1\<rparr>"
  have len: "m_count q = length (m_event_list q)" using wf by (simp add: timers_wf_def)
  have tr: "tracked (m_event_list q0) (m_position q0)"
    using tracked_snoc [OF _ new] wf by (simp add: q0_def timers_wf_def)
  have "m_count q < length (m_event_list q0)" by (simp add: q0_def len)
  note up = heap_up_ok [OF this tr]
  have eq: "heapAdd te q = heap_up (m_count q) q0" by (simp add: heapAdd_def q0_def)
  have same: "same_timers q0 (heapAdd te q)" using up eq by simp
  have exc: "heap_ok (m_event_list q) \<Longrightarrow> heap_except_up (m_count q) (m_event_list q0)"
    using heap_ok_snoc by (simp add: q0_def len)
  have ids: "\<forall>e \<in> set (m_event_list (heapAdd te q)). timer_id e < m_next_timer_id q"
    using same_timers_ids [OF same] wf nx by (auto simp: q0_def timers_wf_def)
  have "timers_wf (heapAdd te q)"
    unfolding timers_wf_def
    using up ids same same_timers_length [OF same] len eq by (simp add: same_timers_def q0_def)
  then show ?thesis
    using same up exc eq by (simp add: same_timers_def q0_def)
qed

lemma heap_replaced:
  assumes h: "heap_ok xs" and p: "p < length xs"
    and above: "p = 0 \<or> ts (xs ! ((p - 1) div 2)) \<le> ts (xs ! (length xs - 1))"
  shows "heap_except_down p (replaced p xs)"
proof -
  have edge: "\<And>i. i < length xs \<Longrightarrow> 0 < i \<Longrightarrow> ts (xs ! ((i - 1) div 2)) \<le> ts (xs ! i)"
    using h by (simp add: heap_ok_def)
  have "ts (replaced p xs ! ((i - 1) div 2)) \<le> ts (replaced p xs ! i)"
    if i: "i < length xs - 1" "0 < i" "(i - 1) div 2 \<noteq> p" for i
  proof -
    have par: "(i - 1) div 2 < length xs - 1" using i by auto
    show ?thesis
      unfolding nth_replaced [OF par] nth_replaced [OF i(1)] using above edge [of i] i by auto
  qed
  moreover have "ts (replaced p xs ! ((p - 1) div 2)) \<le> ts (replaced p xs ! i)"
    if i: "i < length xs - 1" "0 < i" "0 < p" "(i - 1) div 2 = p" for i
  proof -
    have lt: "(p - 1) div 2 < p" "p < i" using i by auto
    then have par: "(p - 1) div 2 < length xs - 1" using i by auto
    have "ts (xs ! ((p - 1) div 2)) \<le> ts (xs ! p)" using edge p i by simp
    also have "\<dots> \<le> ts (xs ! i)" using edge [of i] i by simp
    finally show ?thesis unfolding nth_replaced [OF par] nth_replaced [OF i(1)] using lt by simp
  qed
  ultimately show ?thesis by (simp add: heap_except_down_def)
qed

lemma removed_wf:
  assumes wf: "timers_wf q" and p: "p < m_count q"
  defines "xs \<equiv> m_event_list q"
  defines "q0 \<equiv> q\<lparr>m_event_list := replaced p xs,
    m_position := ((m_position q)(timer_id (xs ! (length xs - 1)) \<mapsto> p))(timer_id (xs ! p) := None),
    m_count := m_count q - 1\<rparr>"
  shows "timers_wf (heapHold p q0) \<and>
     mset (m_event_list (heapHold p q0)) = mset xs - {#xs ! p#} \<and>
     m_next_timer_id (heapHold p q0) = m_next_timer_id q \<and>
     m_pioneer (heapHold p q0) = m_pioneer q \<and> timerfd_value (heapHold p q0) = timerfd_value q \<and>
     (heap_except_down p (replaced p xs) \<longrightarrow> heap_ok (m_event_list (heapHold p q0)))"
proof -
  have len: "m_count q = length xs" and tr: "tracked xs (m_position q)"
    using wf by (auto simp: timers_wf_def xs_def)
  have px: "p < length xs" using p len by simp
  have tr0: "tracked (m_event_list q0) (m_position q0)"
    using replaced_tracked [OF tr px] by (simp add: q0_def)
  have len0: "m_count q0 = length (m_event_list q0)" "p \<le> m_count q0"
    using px by (auto simp: q0_def len)
  note hold = heapHold_ok [OF len0(1) tr0 len0(2)]
  then have same: "same_timers q0 (heapHold p q0)" by simp
  have sub: "set (replaced p xs) \<subseteq> set xs"
    using mset_replaced [OF px] by (metis diff_subset_eq_self set_mset_mono set_mset_mset)
  have ids: "\<forall>e \<in> set (m_event_list (heapHold p q0)). timer_id e < m_next_timer_id q"
    using same_timers_ids [OF same] wf sub by (auto simp: q0_def timers_wf_def xs_def)
  have "timers_wf (heapHold p q0)"
    unfolding timers_wf_def
    using hold ids same_timers_length [OF same] len0 by (simp add: same_timers_def q0_def)
  then show ?thesis
    using hold mset_replaced [OF px] by (simp add: same_timers_def q0_def)
qed

text \<open>When the deleted position keeps its heap order: the last event is not above its new parent.\<close>

definition del_keeps_heap :: "nat \<Rightarrow> ('cb, 'arg) timerEvent list \<Rightarrow> bool" where
  "del_keeps_heap p xs \<longleftrightarrow> p = 0 \<or> ts (xs ! ((p - 1) div 2)) \<le> ts (xs ! (length xs - 1))"

lemma heapDel_ok:
  assumes "timers_wf q" and "p < m_count q"
  shows "timers_wf (heapDel p q) \<and>
     mset (m_event_list (heapDel p q)) = mset (m_event_list q) - {#m_event_list q ! p#} \<and>
     m_next_timer_id (heapDel p q) = m_next_timer_id q \<and> m_pioneer (heapDel p q) = m_pioneer q \<and>
     timerfd_value (heapDel p q) = timerfd_value q \<and>
     (heap_ok (m_event_list q) \<longrightarrow> del_keeps_heap p (m_event_list q) \<longrightarrow>
        heap_ok (m_event_list (heapDel p q)))"
proof -
  have len: "m_count q = length (m_event_list q)" using assms(1) by (simp add: timers_wf_def)
  show ?thesis
    using removed_wf [OF assms] heap_replaced [of "m_event_list q" p] assms(2)
    by (simp add: heapDel_def Let_def replaced_def len del_keeps_heap_def)
qed

lemma heapPop_ok:
  assumes wf: "timers_wf q" and ne: "m_count q \<noteq> 0"
  shows "timers_wf (heapPop q) \<and>
     mset (m_event_list (heapPop q)) = mset (m_event_list q) - {#m_event_list q ! 0#} \<and>
     m_next_timer_id (heapPop q) = m_next_timer_id q \<and> m_pioneer (heapPop q) = m_pioneer q \<and>
     timerfd_value (heapPop q) = timerfd_value q \<and>
     (heap_ok (m_event_list q) \<longrightarrow> heap_ok (m_event_list (heapPop q)))"
proof -
  let ?xs = "m_event_list q"
  have len: "m_count q = length ?xs" and tr: "tracked ?xs (m_position q)"
    using wf by (auto simp: timers_wf_def)
  show ?thesis
  proof (cases "1 < m_count q")
    case True
    then have n: "length ?xs - 1 \<noteq> 0" "length ?xs - 1 < length ?xs" "0 < length ?xs" using len by auto
    have "timer_id (?xs ! (length ?xs - 1)) \<noteq> timer_id (?xs ! 0)"
      using tracked_inj [OF tr n(2,3)] n(1) by blast
    then have "((m_position q)(timer_id (?xs ! 0) := None))(timer_id (?xs ! (length ?xs - 1)) \<mapsto> 0) =
        ((m_position q)(timer_id (?xs ! (length ?xs - 1)) \<mapsto> 0))(timer_id (?xs ! 0) := None)"
      by (simp add: fun_upd_twist)
    moreover have "0 < m_count q" using True by simp
    ultimately show ?thesis
      using removed_wf [OF wf, of 0] heap_replaced [OF _ n(3)] True
      by (simp add: heapPop_def Let_def replaced_def len)
  next
    case False
    then obtain e where e: "?xs = [e]" using ne len by (cases ?xs) auto
    have "m_position q tid = None" if "tid \<noteq> timer_id e" for tid
    proof (rule ccontr)
      assume "m_position q tid \<noteq> None"
      then obtain i where "m_position q tid = Some i" by blast
      then have "i < length ?xs \<and> timer_id (?xs ! i) = tid" by (simp only: tracked_iff [OF tr])
      then show False using that e by auto
    qed
    then have "tracked [] ((m_position q)(timer_id e := None))" by (simp add: tracked_def)
    then show ?thesis using False ne len wf e by (auto simp: heapPop_def Let_def timers_wf_def heap_ok_def)
  qed
qed

section \<open>What the public operations do\<close>

text \<open>The value \<open>resetTimerQueue\<close> gives to the descriptor.\<close>

definition itimer :: "u64 \<Rightarrow> u64 \<times> u64" where
  "itimer p = (if p \<noteq> -1 then (p div 1000, (p mod 1000) * 1000000) else (0, 0))"

lemma resetTimerQueue_itimer: "resetTimerQueue q = q\<lparr>timerfd_value := itimer (m_pioneer q)\<rparr>"
  by (simp add: resetTimerQueue_def itimer_def)

text \<open>
  The state in which the descriptor serves the queue: it is set to \<open>m_pioneer\<close>, no event is
  earlier, and the events are in heap order. A fresh queue is not in it (\<open>m_pioneer\<close> starts at
  \<open>0\<close> with the descriptor disarmed); a queue that once ran empty is.
\<close>

definition pending :: "('cb, 'arg) TimerQueue \<Rightarrow> ('cb, 'arg) timerEvent multiset" where
  "pending q = mset (m_event_list q)"

definition armed :: "('cb, 'arg) TimerQueue \<Rightarrow> bool" where
  "armed q \<longleftrightarrow> timerfd_value q = itimer (m_pioneer q) \<and> heap_ok (m_event_list q) \<and>
     (\<forall>te \<in> set (m_event_list q). m_pioneer q \<le> ts te)"

lemma timers_wf_fields [simp]:
  "timers_wf (q\<lparr>m_pioneer := p\<rparr>) = timers_wf q" "timers_wf (q\<lparr>timerfd_value := v\<rparr>) = timers_wf q"
  by (simp_all add: timers_wf_def)

lemma wf_fresh: "timers_wf q \<Longrightarrow> te \<in> set (m_event_list q) \<Longrightarrow> timer_id te \<noteq> m_next_timer_id q"
  by (auto simp: timers_wf_def)

lemma timers_wf_newTimerQueue: "newTimerQueue tfd = Inr q \<Longrightarrow> timers_wf q"
  by (auto simp: newTimerQueue_def timers_wf_def tracked_def split: if_splits)

lemma addTimer_ok:
  assumes wf: "timers_wf q" and add: "addTimer te q = (tid, q')"
  shows "timers_wf q' \<and> tid = m_next_timer_id q \<and> m_next_timer_id q' = tid + 1 \<and>
     mset (m_event_list q') = add_mset (te\<lparr>timer_id := tid\<rparr>) (mset (m_event_list q)) \<and>
     (heap_ok (m_event_list q) \<longrightarrow> heap_ok (m_event_list q'))"
proof -
  let ?te = "te\<lparr>timer_id := m_next_timer_id q\<rparr>"
  let ?q = "q\<lparr>m_next_timer_id := m_next_timer_id q + 1\<rparr>"
  have wf1: "timers_wf ?q" using wf by (auto simp: timers_wf_def)
  have new: "\<And>e. e \<in> set (m_event_list ?q) \<Longrightarrow> timer_id e \<noteq> timer_id ?te"
    using wf_fresh [OF wf] by simp
  show ?thesis
    using heapAdd_ok [OF wf1 new] add
    by (auto simp: addTimer_def Let_def resetTimerQueue_itimer split: if_splits)
qed

lemma addTimer_pioneer:
  assumes "timers_wf q" and "addTimer te q = (tid, q')"
  shows "m_pioneer q' = min (m_pioneer q) (ts (m_event_list q' ! 0)) \<and>
     timerfd_value q' = (if ts (m_event_list q' ! 0) < m_pioneer q
       then itimer (ts (m_event_list q' ! 0)) else timerfd_value q)"
proof -
  let ?te = "te\<lparr>timer_id := m_next_timer_id q\<rparr>"
  let ?q = "q\<lparr>m_next_timer_id := m_next_timer_id q + 1\<rparr>"
  have wf1: "timers_wf ?q" using assms(1) by (auto simp: timers_wf_def)
  have new: "\<And>e. e \<in> set (m_event_list ?q) \<Longrightarrow> timer_id e \<noteq> timer_id ?te"
    using wf_fresh [OF assms(1)] by simp
  show ?thesis
    using heapAdd_ok [OF wf1 new] assms(2)
    by (auto simp: addTimer_def Let_def resetTimerQueue_itimer min_def not_le not_less split: if_splits)
qed

lemma addTimer_armed:
  assumes wf: "timers_wf q" and ar: "armed q" and add: "addTimer te q = (tid, q')"
  shows "armed q' \<and> m_pioneer q' = min (m_pioneer q) (ts te)"
proof -
  note ok = addTimer_ok [OF wf add] and pi = addTimer_pioneer [OF wf add]
  have heap: "heap_ok (m_event_list q')" using ok ar by (simp add: armed_def)
  have set: "set (m_event_list q') = insert (te\<lparr>timer_id := tid\<rparr>) (set (m_event_list q))"
    using ok by (metis set_mset_add_mset_insert set_mset_mset)
  then have ne: "0 < length (m_event_list q')" by (cases "m_event_list q'") auto
  then have root: "m_event_list q' ! 0 \<in> set (m_event_list q')" by simp
  have "ts (m_event_list q' ! 0) \<le> ts te" using heap_root_min [OF heap] set by force
  moreover have "ts (m_event_list q' ! 0) = ts te \<or> m_pioneer q \<le> ts (m_event_list q' ! 0)"
    using root set ar by (auto simp: armed_def)
  ultimately have p: "m_pioneer q' = min (m_pioneer q) (ts te)" using pi by (auto simp: min_def)
  have "\<forall>e \<in> set (m_event_list q'). m_pioneer q' \<le> ts e"
    using set ar p by (auto simp: armed_def min_le_iff_disj)
  moreover have "timerfd_value q' = itimer (m_pioneer q')"
    using pi ar by (auto simp: armed_def min_def not_less)
  ultimately show ?thesis using heap p by (simp add: armed_def)
qed

text \<open>Deleting a timer: it and only it leaves the queue.\<close>

lemma delTimer_ok:
  assumes wf: "timers_wf q" and pos: "m_position q tid = Some pos"
  shows "\<exists>q'. delTimer tid q = (Inr (), q') \<and> timers_wf q' \<and>
     timer_id (m_event_list q ! pos) = tid \<and>
     pending q' = pending q - {#m_event_list q ! pos#} \<and> m_next_timer_id q' = m_next_timer_id q \<and>
     (armed q \<longrightarrow> del_keeps_heap pos (m_event_list q) \<longrightarrow> armed q')"
proof -
  have p: "pos < length (m_event_list q)" "timer_id (m_event_list q ! pos) = tid"
    "m_count q = length (m_event_list q)"
    using pos wf tracked_iff [of "m_event_list q" "m_position q" tid pos]
    by (auto simp: timers_wf_def)
  let ?q1 = "heapDel pos q"
  have ok: "timers_wf ?q1" "mset (m_event_list ?q1) = mset (m_event_list q) - {#m_event_list q ! pos#}"
    "m_next_timer_id ?q1 = m_next_timer_id q" "m_pioneer ?q1 = m_pioneer q"
    "timerfd_value ?q1 = timerfd_value q"
    "heap_ok (m_event_list q) \<Longrightarrow> del_keeps_heap pos (m_event_list q) \<Longrightarrow> heap_ok (m_event_list ?q1)"
    using heapDel_ok [OF wf, of pos] p by auto
  have sub: "set (m_event_list ?q1) \<subseteq> set (m_event_list q)"
    using ok(2) by (metis diff_subset_eq_self set_mset_mono set_mset_mset)
  have cnt: "m_count ?q1 = length (m_event_list ?q1)" using ok(1) by (simp add: timers_wf_def)
  consider "m_count ?q1 = 0" | "m_count ?q1 \<noteq> 0" "ts (m_event_list ?q1 ! 0) < m_pioneer q"
    | "m_count ?q1 \<noteq> 0" "\<not> ts (m_event_list ?q1 ! 0) < m_pioneer q" by blast
  then show ?thesis
  proof cases
    case 1
    then have "m_event_list ?q1 = []" using cnt by simp
    then show ?thesis using 1 ok p pos
      by (simp add: delTimer_def Let_def resetTimerQueue_itimer pending_def armed_def heap_ok_def)
  next
    case 2
    then have "m_event_list ?q1 ! 0 \<in> set (m_event_list q)" using cnt sub by (auto simp: subset_iff)
    then have "\<not> armed q" using 2 unfolding armed_def by (metis leD)
    then show ?thesis using 2 ok p pos
      by (simp add: delTimer_def Let_def resetTimerQueue_itimer pending_def)
  next
    case 3
    have "armed q \<Longrightarrow> del_keeps_heap pos (m_event_list q) \<Longrightarrow> armed ?q1"
      using ok sub by (auto simp: armed_def)
    then show ?thesis using 3 ok p pos by (simp add: delTimer_def Let_def pending_def)
  qed
qed

section \<open>Firing\<close>

definition next_event :: "('cb, 'arg) timerEvent \<Rightarrow> ('cb, 'arg) timerEvent" where
  "next_event te = te\<lparr>ts := ts te + ucast (interval te)\<rparr>"

definition periodic :: "('cb, 'arg) timerEvent \<Rightarrow> bool" where
  "periodic te \<longleftrightarrow> interval te \<noteq> 0"

text \<open>An event without its id.\<close>

definition strip :: "('cb, 'arg) timerEvent \<Rightarrow> ('cb, 'arg) timerEvent" where
  "strip te = te\<lparr>timer_id := 0\<rparr>"

lemma filter_mset_none: "(\<And>x. x \<in># M \<Longrightarrow> \<not> P x) \<Longrightarrow> filter_mset P M = {#}"
  by (induction M) auto

lemma filter_mset_all: "(\<And>x. x \<in># M \<Longrightarrow> P x) \<Longrightarrow> filter_mset P M = M"
  by (induction M) auto

lemma fire_loop_ok:
  assumes "timers_wf q" and "heap_ok (m_event_list q)"
    and "\<forall>te \<in> set (m_event_list q). m_pioneer q \<le> ts te"
  shows "\<exists>q1 fs. fire_loop q f r = (q1, f @ fs, r @ map next_event (filter periodic fs)) \<and>
     timers_wf q1 \<and> heap_ok (m_event_list q1) \<and>
     mset fs = {#te \<in># pending q. ts te = m_pioneer q#} \<and>
     pending q1 = {#te \<in># pending q. ts te \<noteq> m_pioneer q#} \<and>
     m_next_timer_id q1 = m_next_timer_id q"
  using assms
proof (induction q f r rule: fire_loop.induct)
  case (1 q f r)
  let ?root = "m_event_list q ! 0"
  have len: "m_count q = length (m_event_list q)" using "1.prems"(1) by (simp add: timers_wf_def)
  show ?case
  proof (cases "m_count q \<noteq> 0 \<and> m_pioneer q = ts ?root")
    case True
    let ?r = "if interval ?root \<noteq> 0 then r @ [?root\<lparr>ts := ts ?root + ucast (interval ?root)\<rparr>] else r"
    have pop: "timers_wf (heapPop q)" "heap_ok (m_event_list (heapPop q))"
      "mset (m_event_list (heapPop q)) = mset (m_event_list q) - {#?root#}"
      "m_pioneer (heapPop q) = m_pioneer q" "m_next_timer_id (heapPop q) = m_next_timer_id q"
      using heapPop_ok [of q] "1.prems" True by auto
    have sub: "set (m_event_list (heapPop q)) \<subseteq> set (m_event_list q)"
      using pop(3) by (metis diff_subset_eq_self set_mset_mono set_mset_mset)
    have root: "?root \<in># mset (m_event_list q)" using True len by simp
    have "\<forall>te \<in> set (m_event_list (heapPop q)). m_pioneer (heapPop q) \<le> ts te"
      using "1.prems"(3) sub pop(4) by auto
    from "1.IH" [OF True refl pop(1,2) this] obtain q1 fs where
      ih: "fire_loop (heapPop q) (f @ [?root]) ?r =
          (q1, (f @ [?root]) @ fs, ?r @ map next_event (filter periodic fs))"
        "timers_wf q1" "heap_ok (m_event_list q1)"
        "mset fs = {#te \<in># pending (heapPop q). ts te = m_pioneer q#}"
        "pending q1 = {#te \<in># pending (heapPop q). ts te \<noteq> m_pioneer q#}"
        "m_next_timer_id q1 = m_next_timer_id q"
      using pop(4,5) by auto
    have split: "pending q = add_mset ?root (pending (heapPop q))"
      using pop(3) root by (simp add: pending_def)
    have "fire_loop q f r = (q1, f @ (?root # fs), r @ map next_event (filter periodic (?root # fs)))"
      using True ih(1) by (subst fire_loop.simps) (simp add: Let_def next_event_def periodic_def)
    moreover have "mset (?root # fs) = {#te \<in># pending q. ts te = m_pioneer q#}"
      "pending q1 = {#te \<in># pending q. ts te \<noteq> m_pioneer q#}"
      using ih(4,5) True unfolding split by auto
    ultimately show ?thesis using ih(2,3,6) by blast
  next
    case False
    have "ts te \<noteq> m_pioneer q" if "te \<in># pending q" for te
    proof -
      have te: "te \<in> set (m_event_list q)" using that by (simp add: pending_def)
      then have "m_count q \<noteq> 0" using len by auto
      then have "m_pioneer q \<noteq> ts ?root" using False by simp
      moreover have "?root \<in> set (m_event_list q)" using \<open>m_count q \<noteq> 0\<close> len by simp
      ultimately have "m_pioneer q < ts ?root" using "1.prems"(3) by (simp add: order.not_eq_order_implies_strict)
      then show ?thesis using heap_root_min [OF "1.prems"(2) te] by auto
    qed
    then have "{#te \<in># pending q. ts te = m_pioneer q#} = {#}"
      "{#te \<in># pending q. ts te \<noteq> m_pioneer q#} = pending q"
      by (simp_all add: filter_mset_none filter_mset_all)
    moreover have "fire_loop q f r = (q, f, r)" using False by (subst fire_loop.simps) auto
    ultimately show ?thesis using "1.prems" by (intro exI [of _ q] exI [of _ "[]"]) auto
  qed
qed

lemma add_all_ok:
  assumes "timers_wf q" and "heap_ok (m_event_list q)"
  shows "timers_wf (foldl (\<lambda>q te. snd (addTimer te q)) q es) \<and>
     heap_ok (m_event_list (foldl (\<lambda>q te. snd (addTimer te q)) q es)) \<and>
     image_mset strip (pending (foldl (\<lambda>q te. snd (addTimer te q)) q es)) =
       image_mset strip (pending q) + image_mset strip (mset es) \<and>
     m_next_timer_id q \<le> m_next_timer_id (foldl (\<lambda>q te. snd (addTimer te q)) q es)"
  using assms
proof (induction es arbitrary: q)
  case (Cons te es)
  obtain tid q1 where add: "addTimer te q = (tid, q1)" by (cases "addTimer te q")
  have "strip (te\<lparr>timer_id := tid\<rparr>) = strip te" by (simp add: strip_def)
  then show ?case
    using Cons.IH [of q1] addTimer_ok [OF Cons.prems(1) add] Cons.prems(2) add
    by (simp add: pending_def)
qed simp

lemma getFiredTimerEvents_ok:
  assumes wf: "timers_wf q" and ar: "armed q" and fire: "getFiredTimerEvents q = (fs, q')"
  shows "timers_wf q' \<and> armed q' \<and> mset fs = {#te \<in># pending q. ts te = m_pioneer q#} \<and>
     image_mset strip (pending q') = image_mset strip {#te \<in># pending q. ts te \<noteq> m_pioneer q#} +
       image_mset (strip \<circ> next_event) {#te \<in># mset fs. periodic te#} \<and>
     m_next_timer_id q \<le> m_next_timer_id q' \<and>
     m_pioneer q' = (if pending q' = {#} then -1 else Min (ts ` set_mset (pending q')))"
proof -
  obtain q1 where loop: "fire_loop q [] [] = (q1, fs, map next_event (filter periodic fs))"
    and q1: "timers_wf q1" "heap_ok (m_event_list q1)"
      "mset fs = {#te \<in># pending q. ts te = m_pioneer q#}"
      "pending q1 = {#te \<in># pending q. ts te \<noteq> m_pioneer q#}"
      "m_next_timer_id q1 = m_next_timer_id q"
    using fire_loop_ok [OF wf, of "[]" "[]"] ar fire
    by (auto simp: armed_def getFiredTimerEvents_def Let_def)
  define q2 where "q2 = foldl (\<lambda>q te. snd (addTimer te q)) q1 (map next_event (filter periodic fs))"
  have q': "q' = resetTimerQueue
      (q2\<lparr>m_pioneer := (if m_count q2 = 0 then -1 else ts (m_event_list q2 ! 0))\<rparr>)"
    using fire loop unfolding q2_def by (auto simp: getFiredTimerEvents_def Let_def)
  note add = add_all_ok [OF q1(1,2), of "map next_event (filter periodic fs)", folded q2_def]
  have cnt: "m_count q2 = length (m_event_list q2)" using add by (simp add: timers_wf_def)
  have ev: "m_event_list q' = m_event_list q2" "m_next_timer_id q' = m_next_timer_id q2"
    by (simp_all add: q' resetTimerQueue_itimer)
  have least: "\<forall>te \<in> set (m_event_list q2). ts (m_event_list q2 ! 0) \<le> ts te"
    using add heap_root_min by blast
  have "Min (ts ` set (m_event_list q2)) = ts (m_event_list q2 ! 0)" if "m_count q2 \<noteq> 0"
    using that cnt least by (intro Min_eqI) auto
  moreover have "armed q'"
    using add least cnt by (auto simp: armed_def q' resetTimerQueue_itimer)
  ultimately show ?thesis
    using add q1 cnt ev
    by (auto simp: q' resetTimerQueue_itimer pending_def image_mset.compositionality mset_filter)
qed

section \<open>The interface an event loop uses\<close>

text \<open>
  What an event loop relies on: \<open>add\<close> makes an event wait, \<open>fire\<close> hands out exactly the events
  whose time is \<open>head\<close>, and \<open>head\<close> is never later than a waiting event.
\<close>

locale timer_source =
  fixes add :: "'e \<Rightarrow> 'q \<Rightarrow> int \<times> 'q"
    and fire :: "'q \<Rightarrow> 'e list \<times> 'q"
    and waiting :: "'q \<Rightarrow> 'e multiset"
    and head :: "'q \<Rightarrow> 'k::linorder"
    and key :: "'e \<Rightarrow> 'k"
    and tag :: "int \<Rightarrow> 'e \<Rightarrow> 'e"
    and ok :: "'q \<Rightarrow> bool"
  assumes ok_add: "ok q \<Longrightarrow> ok (snd (add e q))"
    and ok_fire: "ok q \<Longrightarrow> ok (snd (fire q))"
    and waiting_add: "ok q \<Longrightarrow> waiting (snd (add e q)) = add_mset (tag (fst (add e q)) e) (waiting q)"
    and key_tag [simp]: "key (tag i e) = key e"
    and head_add: "ok q \<Longrightarrow> head (snd (add e q)) = min (head q) (key e)"
    and fire_due: "ok q \<Longrightarrow> mset (fst (fire q)) = {#e \<in># waiting q. key e = head q#}"
    and head_least: "ok q \<Longrightarrow> e \<in># waiting q \<Longrightarrow> head q \<le> key e"
    and head_fire: "ok q \<Longrightarrow> waiting (snd (fire q)) \<noteq> {#} \<Longrightarrow>
      head (snd (fire q)) \<in> key ` set_mset (waiting (snd (fire q)))"
begin

lemma fired_waited: "ok q \<Longrightarrow> e \<in> set (fst (fire q)) \<Longrightarrow> e \<in># waiting q \<and> key e = head q"
  using fire_due by (metis (mono_tags, lifting) mem_Collect_eq set_mset_filter set_mset_mset)

lemma fired_before_waiting:
  "ok q \<Longrightarrow> e \<in> set (fst (fire q)) \<Longrightarrow> e' \<in># waiting q \<Longrightarrow> key e \<le> key e'"
  using fired_waited head_least by metis

text \<open>An event not later than any waiting one is handed out by the next \<open>fire\<close>.\<close>

lemma earliest_fires_next:
  assumes "ok q" and "key e \<le> head q"
  shows "tag (fst (add e q)) e \<in> set (fst (fire (snd (add e q))))"
proof -
  have "head (snd (add e q)) = key e" using head_add assms by simp
  then show ?thesis
    using fire_due [OF ok_add [OF assms(1)]] waiting_add [OF assms(1), of e]
    by (metis (mono_tags, lifting) filter_mset_add_mset key_tag set_mset_mset union_single_eq_member)
qed

text \<open>After one \<open>fire\<close> the next one makes progress as long as an event waits.\<close>

lemma fire_progress:
  assumes "ok q" and "waiting (snd (fire q)) \<noteq> {#}"
  shows "fst (fire (snd (fire q))) \<noteq> []"
proof -
  obtain e where "e \<in># waiting (snd (fire q))" "key e = head (snd (fire q))"
    using head_fire [OF assms] by auto
  then have "e \<in># mset (fst (fire (snd (fire q))))" using fire_due [OF ok_fire [OF assms(1)]] by simp
  then show ?thesis by auto
qed

end

definition timers_ready :: "('cb, 'arg) TimerQueue \<Rightarrow> bool" where
  "timers_ready q \<longleftrightarrow> timers_wf q \<and> armed q"

interpretation tq: timer_source addTimer getFiredTimerEvents pending m_pioneer ts
    "\<lambda>i te. te\<lparr>timer_id := i\<rparr>" timers_ready
proof (unfold_locales, goal_cases)
  case (1 q e)
  then show ?case
    using addTimer_ok addTimer_armed unfolding timers_ready_def by (metis prod.collapse)
next
  case (2 q)
  then show ?case
    using getFiredTimerEvents_ok unfolding timers_ready_def by (metis prod.collapse)
next
  case (3 q e)
  then show ?case
    using addTimer_ok unfolding timers_ready_def pending_def by (metis prod.collapse)
next
  case (5 q e)
  then show ?case
    using addTimer_armed unfolding timers_ready_def by (metis prod.collapse)
next
  case (6 q)
  then show ?case
    using getFiredTimerEvents_ok unfolding timers_ready_def by (metis prod.collapse)
next
  case (7 q e)
  then show ?case by (auto simp: timers_ready_def armed_def pending_def)
next
  case (8 q)
  then have "m_pioneer (snd (getFiredTimerEvents q)) =
      Min (ts ` set_mset (pending (snd (getFiredTimerEvents q))))"
    using getFiredTimerEvents_ok unfolding timers_ready_def by (metis prod.collapse)
  then show ?case using 8(2) by (metis Min_in finite_imageI finite_set_mset image_is_empty set_mset_eq_empty_iff)
qed simp

section \<open>Properties\<close>

text \<open>A queue that ran empty, and a timer for the concrete instances.\<close>

definition idle_queue :: "(nat, nat) TimerQueue" where
  "idle_queue = \<lparr>m_event_list = [], m_position = Map.empty, m_count = 0, m_next_timer_id = 0,
     m_timer_fd = 5, m_pioneer = -1, timerfd_value = (0, 0)\<rparr>"

definition one_shot :: "u64 \<Rightarrow> (nat, nat) timerEvent" where
  "one_shot t = \<lparr>cb = 0, cb_data = 0, ts = t, interval = 0, timer_id = 0\<rparr>"

definition idle_with :: "u64 list \<Rightarrow> (nat, nat) TimerQueue" where
  "idle_with tms = foldl (\<lambda>q t. snd (addTimer (one_shot t) q)) idle_queue tms"

lemma idle_ready: "timers_ready idle_queue"
  by (simp add: timers_ready_def idle_queue_def timers_wf_def armed_def tracked_def heap_ok_def itimer_def)

lemma idle_with_ready: "timers_ready (idle_with tms)"
proof (induction tms rule: rev_induct)
  case (snoc t ts)
  then show ?case using tq.ok_add by (simp add: idle_with_def)
qed (simp add: idle_with_def idle_ready)

text \<open>
  C3. On a queue that is well-formed and armed, \<open>getFiredTimerEvents\<close> hands out exactly the
  events whose time is \<open>m_pioneer\<close>, leaves all the others and one successor per periodic event
  (next time = time + interval, a new id), and leaves the descriptor set to the earliest event that
  waits, or disarmed when none does.
\<close>

theorem timers_fire_when_due:
  assumes "timers_ready q" and "getFiredTimerEvents q = (fs, q')"
  shows "timers_ready q' \<and> mset fs = {#te \<in># pending q. ts te = m_pioneer q#} \<and>
     image_mset strip (pending q') = image_mset strip {#te \<in># pending q. ts te \<noteq> m_pioneer q#} +
       image_mset (strip \<circ> next_event) {#te \<in># mset fs. periodic te#} \<and>
     timerfd_value q' =
       (if pending q' = {#} then (0, 0) else itimer (Min (ts ` set_mset (pending q'))))"
  using getFiredTimerEvents_ok [OF _ _ assms(2)] assms(1)
  by (auto simp: timers_ready_def armed_def itimer_def)

theorem timers_fire_when_due_witness:
  "mset (fst (getFiredTimerEvents (idle_with [7]))) =
     {#te \<in># pending (idle_with [7]). ts te = m_pioneer (idle_with [7])#}"
  using timers_fire_when_due [OF idle_with_ready prod.collapse [symmetric], of "[7]"] by blast

text \<open>
  \<open>addTimer\<close> on an armed queue keeps it well-formed and armed, adds exactly the given event
  under a fresh id, and sets the descriptor to the earlier of the new time and the old one.
\<close>

theorem addTimer_arms_earliest:
  assumes "timers_ready q" and "addTimer te q = (tid, q')"
  shows "timers_ready q' \<and> pending q' = add_mset (te\<lparr>timer_id := tid\<rparr>) (pending q) \<and>
     (\<forall>e \<in># pending q. timer_id e \<noteq> tid) \<and> m_position q tid = None \<and>
     timerfd_value q' = itimer (min (m_pioneer q) (ts te))"
proof -
  have wf: "timers_wf q" and ar: "armed q" using assms(1) by (auto simp: timers_ready_def)
  note ok = addTimer_ok [OF wf assms(2)] and ar' = addTimer_armed [OF wf ar assms(2)]
  have fresh: "\<forall>e \<in># pending q. timer_id e \<noteq> tid"
    using wf_fresh [OF wf] ok by (auto simp: pending_def)
  have "m_position q tid = None"
  proof (rule ccontr)
    assume "m_position q tid \<noteq> None"
    then obtain i where "i < length (m_event_list q)" "timer_id (m_event_list q ! i) = tid"
      using wf tracked_iff [of "m_event_list q" "m_position q" tid] by (auto simp: timers_wf_def)
    then show False using fresh by (auto simp: pending_def)
  qed
  then show ?thesis using ok ar' fresh by (auto simp: timers_ready_def armed_def pending_def)
qed

theorem addTimer_arms_earliest_witness:
  "timerfd_value (snd (addTimer (one_shot 5) idle_queue)) = itimer (min (m_pioneer idle_queue) 5)"
  using addTimer_arms_earliest [OF idle_ready prod.collapse [symmetric], of "one_shot 5"]
  by (simp add: one_shot_def)

text \<open>
  \<open>delTimer\<close> of a known id returns, removes exactly the event with this id and keeps the
  queue well-formed; the descriptor still serves the remaining events when the last event of the
  vector is not earlier than the parent of the deleted position.
\<close>

theorem delTimer_removes:
  assumes "timers_ready q" and "m_position q tid = Some pos"
  shows "\<exists>q'. delTimer tid q = (Inr (), q') \<and> timers_wf q' \<and>
     pending q' = {#te \<in># pending q. timer_id te \<noteq> tid#} \<and>
     (del_keeps_heap pos (m_event_list q) \<longrightarrow> timers_ready q')"
proof -
  let ?xs = "m_event_list q"
  have wf: "timers_wf q" "tracked ?xs (m_position q)"
    using assms(1) by (auto simp: timers_ready_def timers_wf_def)
  have p: "pos < length ?xs" "timer_id (?xs ! pos) = tid"
    using assms(2) tracked_iff [OF wf(2)] by auto
  have rest: "timer_id (replaced pos ?xs ! i) \<noteq> tid" if "i < length ?xs - 1" for i
    using replaced_tracked [OF wf(2) p(1)] tracked_iff that p(2)
    by (metis fun_upd_same length_replaced option.distinct(1))
  then have "\<forall>e \<in># mset ?xs - {#?xs ! pos#}. timer_id e \<noteq> tid"
    using mset_replaced [OF p(1)] by (metis in_set_conv_nth length_replaced set_mset_mset)
  then have "{#te \<in># mset ?xs - {#?xs ! pos#}. timer_id te \<noteq> tid#} = mset ?xs - {#?xs ! pos#}"
    by (intro filter_mset_all) blast
  then have kept: "{#te \<in># add_mset (?xs ! pos) (mset ?xs - {#?xs ! pos#}). timer_id te \<noteq> tid#} =
      mset ?xs - {#?xs ! pos#}"
    using p(2) by simp
  have "mset ?xs = add_mset (?xs ! pos) (mset ?xs - {#?xs ! pos#})" using p(1) by simp
  from trans [OF arg_cong [OF this, of "filter_mset (\<lambda>te. timer_id te \<noteq> tid)"] kept]
  have "pending q - {#?xs ! pos#} = {#te \<in># pending q. timer_id te \<noteq> tid#}"
    by (simp add: pending_def)
  then show ?thesis
    using delTimer_ok [OF wf(1) assms(2)] assms(1) by (auto simp: timers_ready_def)
qed

theorem delTimer_removes_witness:
  "m_position (idle_with [7]) 0 = Some 0 \<and> (\<exists>q'. delTimer 0 (idle_with [7]) = (Inr (), q') \<and>
     timers_wf q' \<and> pending q' = {#te \<in># pending (idle_with [7]). timer_id te \<noteq> 0#})"
proof -
  have "m_position (idle_with [7]) 0 = Some 0" by code_simp
  then show ?thesis using delTimer_removes [OF idle_with_ready] by blast
qed

text \<open>
  C16. \<open>m_pioneer\<close> starts at \<open>0\<close> and a time is never below \<open>0\<close>: whatever timers are added to a
  new queue, \<open>timerfd_settime\<close> is not called and none of them can fire.
\<close>

theorem new_queue_never_arms:
  assumes "newTimerQueue tfd = Inr q"
  shows "timerfd_value (foldl (\<lambda>q te. snd (addTimer te q)) q tes) = (0, 0)"
proof -
  have "m_pioneer q = 0 \<and> timerfd_value q = (0, 0)"
    using assms by (auto simp: newTimerQueue_def split: if_splits)
  moreover have "timers_wf q" using timers_wf_newTimerQueue [OF assms] .
  ultimately show ?thesis
  proof (induction tes arbitrary: q)
    case (Cons te tes)
    obtain tid q1 where add: "addTimer te q = (tid, q1)" by (cases "addTimer te q")
    have "m_pioneer q1 = 0 \<and> timerfd_value q1 = (0, 0) \<and> timers_wf q1"
      using addTimer_pioneer [OF _ add] addTimer_ok [OF _ add] Cons.prems by simp
    then show ?case using Cons.IH add by simp
  qed simp
qed

theorem new_queue_never_arms_witness:
  "timerfd_value (foldl (\<lambda>q te. snd (addTimer te q)) (\<lparr>m_event_list = [], m_position = Map.empty,
     m_count = 0, m_next_timer_id = 0, m_timer_fd = 5, m_pioneer = 0, timerfd_value = (0, 0)\<rparr>)
     [one_shot 5, one_shot 3]) = (0, 0)"
  by (rule new_queue_never_arms [of 5]) (simp add: newTimerQueue_def)

text \<open>
  \<open>heapDel\<close> only sinks the event it moves into the gap. Seven timers wait, in heap order and with
  the descriptor at the earliest. Deleting the one at 11 moves the timer at 3 below the one at 10;
  after the timers at 1 and 2 fired, the descriptor is set to 10 while the timer at 3 waits.
\<close>

definition tick :: "u64 \<Rightarrow> int \<Rightarrow> (nat, nat) timerEvent" where
  "tick t i = (one_shot t)\<lparr>timer_id := i\<rparr>"

definition seven_timers :: "(nat, nat) TimerQueue" where
  "seven_timers =
     \<lparr>m_event_list = [tick 1 0, tick 10 1, tick 2 2, tick 11 3, tick 12 4, tick 20 5, tick 3 6],
      m_position = map_of [(0, 0), (1, 1), (2, 2), (3, 3), (4, 4), (5, 5), (6, 6)], m_count = 7,
      m_next_timer_id = 7, m_timer_fd = 5, m_pioneer = 1, timerfd_value = itimer 1\<rparr>"

lemma seven_timers_ready: "timers_ready seven_timers"
proof -
  have "heap_ok (m_event_list seven_timers)" by code_simp
  moreover have "tracked (m_event_list seven_timers) (m_position seven_timers)"
    by (auto simp: tracked_def seven_timers_def tick_def one_shot_def numeral_nat less_Suc_eq nth_Cons')
  moreover have "\<forall>te \<in> set (m_event_list seven_timers).
      m_pioneer seven_timers \<le> ts te \<and> timer_id te < m_next_timer_id seven_timers"
    by code_simp
  ultimately show ?thesis
    by (simp add: timers_ready_def timers_wf_def armed_def)
      (simp add: seven_timers_def)
qed

lemma delTimer_breaks_order:
  "let q = snd (delTimer 3 seven_timers);
       q2 = snd (getFiredTimerEvents (snd (getFiredTimerEvents q)))
   in map ts (m_event_list q2) = [10, 3, 20, 12] \<and> timerfd_value q2 = itimer 10"
  by code_simp

end
