(* ===== verification/EventLoop.thy ===== *)
theory EventLoop
  imports TimerQueue
begin

text \<open>
  What the event loops share (\<open>bsp/bsp_sockets/IEventLoop.hpp\<close>, \<open>impl/IEventLoop.cpp\<close>): the
  registered IO events, the state \<open>EventLoopParams\<close> of a loop, the abstract class \<open>IEventLoop\<close>
  as a record of operations, the task list and the timer operations, whose bodies the three
  implementations repeat word for word.

  Callbacks are values of type parameters (\<open>'io\<close>, \<open>'tcb\<close>, \<open>'task\<close>, with argument type \<open>'arg\<close>);
  what calling one does is a parameter \<open>run\<close> of the operations that call it. An empty
  \<open>std::function\<close> and an empty \<open>std::any\<close> are \<open>None\<close>; calling an empty one throws
  \<open>bad_function_call\<close>.

  The locale \<open>event_loop\<close> states what the connections and the client rely on; it is interpreted
  on the epoll and the poll loop in their theories.
\<close>

section \<open>Types\<close>

definition EPOLLIN :: u32 where "EPOLLIN = 0x001"
definition EPOLLOUT :: u32 where "EPOLLOUT = 0x004"
definition EPOLLERR :: u32 where "EPOLLERR = 0x008"
definition EPOLLHUP :: u32 where "EPOLLHUP = 0x010"

definition MAX_EVENTS :: nat where "MAX_EVENTS = 10"

lemmas epoll_flags = EPOLLIN_def EPOLLOUT_def EPOLLERR_def EPOLLHUP_def

text \<open>The loop's own callback for its timer queue, or a callback of a user of the loop.\<close>

datatype 'io ioCallback = TimerQueueCallback | UserCallback 'io

record ('io, 'arg) IOEvent =
  ev_mask :: u32
  read_callback :: "'io ioCallback option"
  write_callback :: "'io ioCallback option"
  rcb_args :: "'arg option"
  wcb_args :: "'arg option"

definition newIOEvent :: "('io, 'arg) IOEvent" where
  "newIOEvent = \<lparr>ev_mask = 0, read_callback = None, write_callback = None,
     rcb_args = None, wcb_args = None\<rparr>"

text \<open>A \<open>pollfd\<close> on the stack has no defined \<open>revents\<close> until \<open>poll\<close> writes it: \<open>None\<close>.\<close>

record pollfd =
  pfd_fd :: fd
  pfd_events :: "16 word"
  pfd_revents :: "16 word option"

text \<open>
  The state of a loop. \<open>m_fds\<close> is the array of 1024 entries. The last three fields are the
  kernel's side of the epoll descriptor: the events it watches per file descriptor, the answers
  \<open>epoll_ctl\<close> gives (does the \<open>n\<close>-th call succeed) and the number of calls made.
\<close>

record ('io, 'tcb, 'task, 'arg) EventLoopParams =
  m_epoll_fd :: fd
  m_fds :: "pollfd list"
  m_nfds :: nat
  m_io_events :: "fd \<rightharpoonup> ('io, 'arg) IOEvent"
  m_timer_queue :: "('tcb, 'arg) TimerQueue"
  m_pending_factors :: "('task \<times> 'arg) list"
  m_listening :: "fd set"
  epoll_interest :: "fd \<rightharpoonup> u32"
  epoll_ctl_ok :: "nat \<Rightarrow> bool"
  epoll_ctl_calls :: nat

section \<open>The abstract class\<close>

record ('l, 'io, 'tcb, 'task, 'arg) IEventLoop =
  addIoEvent :: "fd \<Rightarrow> 'io ioCallback \<Rightarrow> u32 \<Rightarrow> 'arg option \<Rightarrow> 'l \<Rightarrow> ('l, unit) outcome"
  delIoEventMask :: "fd \<Rightarrow> u32 \<Rightarrow> 'l \<Rightarrow> ('l, unit) outcome"
  delIoEvent :: "fd \<Rightarrow> 'l \<Rightarrow> ('l, unit) outcome"
  getAllListenings :: "'l \<Rightarrow> fd set"
  addTask :: "'task \<Rightarrow> 'arg \<Rightarrow> 'l \<Rightarrow> 'l"
  runAt :: "'tcb \<Rightarrow> 'arg \<Rightarrow> u64 \<Rightarrow> 'l \<Rightarrow> int \<times> 'l"
  runAfter :: "u64 \<times> u64 \<Rightarrow> 'tcb \<Rightarrow> 'arg \<Rightarrow> int \<Rightarrow> int \<Rightarrow> 'l \<Rightarrow> ('l, int) outcome"
  runEvery :: "u64 \<times> u64 \<Rightarrow> 'tcb \<Rightarrow> 'arg \<Rightarrow> int \<Rightarrow> int \<Rightarrow> 'l \<Rightarrow> ('l, int) outcome"
  delTimer_loop :: "int \<Rightarrow> 'l \<Rightarrow> ('l, unit) outcome"

datatype loop_kind = EpollLoop | PollLoop | LibeventLoop

definition create :: "string \<Rightarrow> loop_kind result" where
  "create flag =
     (if flag = ''epoll'' then Inr EpollLoop
      else if flag = ''poll'' then Inr PollLoop
      else if flag = ''libevent'' then Inr LibeventLoop
      else Inl (Throw ''Unknown EventLoop type''))"

section \<open>Tasks\<close>

definition loop_addTask ::
  "'task \<Rightarrow> 'arg \<Rightarrow> ('io, 'tcb, 'task, 'arg, 'z) EventLoopParams_scheme \<Rightarrow>
     ('io, 'tcb, 'task, 'arg, 'z) EventLoopParams_scheme" where
  "loop_addTask func args l = l\<lparr>m_pending_factors := m_pending_factors l @ [(func, args)]\<rparr>"

text \<open>
  \<open>runTask\<close> walks the vector with an iterator and clears it at the end. A task that itself adds a
  task may reallocate the vector, which invalidates the iterator.
\<close>

fun run_tasks ::
  "('task \<Rightarrow> 'arg \<Rightarrow> 's \<Rightarrow> ('s, unit) outcome) \<Rightarrow> ('s \<Rightarrow> nat) \<Rightarrow> ('task \<times> 'arg) list \<Rightarrow>
     's \<Rightarrow> ('s, unit) outcome" where
  "run_tasks run size_of [] s = (Inr (), s)"
| "run_tasks run size_of ((func, args) # items) s =
     andthen (run func args s) (\<lambda>_ s'.
       if size_of s' \<noteq> size_of s then (Inl (Undefined ''iterator of m_pending_factors''), s')
       else run_tasks run size_of items s')"

definition loop_runTask ::
  "('task \<Rightarrow> 'arg \<Rightarrow> ('io, 'tcb, 'task, 'arg, 'z) EventLoopParams_scheme \<times> 'w \<Rightarrow>
      (('io, 'tcb, 'task, 'arg, 'z) EventLoopParams_scheme \<times> 'w, unit) outcome) \<Rightarrow>
   ('io, 'tcb, 'task, 'arg, 'z) EventLoopParams_scheme \<times> 'w \<Rightarrow>
      (('io, 'tcb, 'task, 'arg, 'z) EventLoopParams_scheme \<times> 'w, unit) outcome" where
  "loop_runTask run s =
     andthen (run_tasks run (\<lambda>s. length (m_pending_factors (fst s))) (m_pending_factors (fst s)) s)
       (\<lambda>_ (l, w). (Inr (), (l\<lparr>m_pending_factors := []\<rparr>, w)))"

section \<open>Timer operations\<close>

text \<open>The \<open>int\<close> arithmetic \<open>sec * 1000 + millis\<close> stays in range.\<close>

definition millis_in_range :: "int \<Rightarrow> int \<Rightarrow> bool" where
  "millis_in_range sec millis \<longleftrightarrow> - (2 ^ 31) \<le> sec * 1000 \<and> sec * 1000 < 2 ^ 31 \<and>
     - (2 ^ 31) \<le> sec * 1000 + millis \<and> sec * 1000 + millis < 2 ^ 31"

text \<open>\<open>now\<close> is the \<open>timespec\<close> that \<open>clock_gettime(CLOCK_REALTIME)\<close> fills in.\<close>

definition now_millis :: "u64 \<times> u64 \<Rightarrow> u64" where
  "now_millis now = fst now * 1000 + snd now div 1000000"

definition loop_runAt ::
  "'tcb \<Rightarrow> 'arg \<Rightarrow> u64 \<Rightarrow> ('io, 'tcb, 'task, 'arg, 'z) EventLoopParams_scheme \<Rightarrow>
     int \<times> ('io, 'tcb, 'task, 'arg, 'z) EventLoopParams_scheme" where
  "loop_runAt cb0 args t l =
     (let (tid, q) = addTimer \<lparr>cb = cb0, cb_data = args, ts = t, interval = 0, timer_id = 0\<rparr>
        (m_timer_queue l)
      in (tid, l\<lparr>m_timer_queue := q\<rparr>))"

text \<open>
  \<open>runAfter\<close> registers the timer and then ends without a \<open>return\<close> statement: flowing off the end
  of a function with a result has no meaning.
\<close>

definition loop_runAfter ::
  "u64 \<times> u64 \<Rightarrow> 'tcb \<Rightarrow> 'arg \<Rightarrow> int \<Rightarrow> int \<Rightarrow>
     ('io, 'tcb, 'task, 'arg, 'z) EventLoopParams_scheme \<Rightarrow>
     (('io, 'tcb, 'task, 'arg, 'z) EventLoopParams_scheme, int) outcome" where
  "loop_runAfter now cb0 args sec millis l =
     (if \<not> millis_in_range sec millis then (Inl (Undefined ''int overflow''), l)
      else (Inl (Undefined ''runAfter ends without return''),
      snd (loop_runAt cb0 args (now_millis now + word_of_int (sec * 1000 + millis)) l)))"

definition loop_runEvery ::
  "u64 \<times> u64 \<Rightarrow> 'tcb \<Rightarrow> 'arg \<Rightarrow> int \<Rightarrow> int \<Rightarrow>
     ('io, 'tcb, 'task, 'arg, 'z) EventLoopParams_scheme \<Rightarrow>
     (('io, 'tcb, 'task, 'arg, 'z) EventLoopParams_scheme, int) outcome" where
  "loop_runEvery now cb0 args sec millis l =
     (if \<not> millis_in_range sec millis then (Inl (Undefined ''int overflow''), l)
      else let iv = word_of_int (sec * 1000 + millis) :: u32;
          (tid, q) = addTimer \<lparr>cb = cb0, cb_data = args, ts = now_millis now + ucast iv,
            interval = iv, timer_id = 0\<rparr> (m_timer_queue l)
      in (Inr tid, l\<lparr>m_timer_queue := q\<rparr>))"

definition loop_delTimer ::
  "int \<Rightarrow> ('io, 'tcb, 'task, 'arg, 'z) EventLoopParams_scheme \<Rightarrow>
     (('io, 'tcb, 'task, 'arg, 'z) EventLoopParams_scheme, unit) outcome" where
  "loop_delTimer tid l =
     (case delTimer tid (m_timer_queue l) of (r, q) \<Rightarrow> (r, l\<lparr>m_timer_queue := q\<rparr>))"

text \<open>The callback each loop registers for the timer descriptor.\<close>

fun run_fired ::
  "('tcb \<Rightarrow> 'arg \<Rightarrow> 's \<Rightarrow> ('s, unit) outcome) \<Rightarrow> ('tcb, 'arg) timerEvent list \<Rightarrow> 's \<Rightarrow>
     ('s, unit) outcome" where
  "run_fired run [] s = (Inr (), s)"
| "run_fired run (te # tes) s = andthen (run (cb te) (cb_data te) s) (\<lambda>_ s'. run_fired run tes s')"

definition timerQueueCallback ::
  "('tcb \<Rightarrow> 'arg \<Rightarrow> ('io, 'tcb, 'task, 'arg, 'z) EventLoopParams_scheme \<times> 'w \<Rightarrow>
      (('io, 'tcb, 'task, 'arg, 'z) EventLoopParams_scheme \<times> 'w, unit) outcome) \<Rightarrow>
   ('io, 'tcb, 'task, 'arg, 'z) EventLoopParams_scheme \<times> 'w \<Rightarrow>
      (('io, 'tcb, 'task, 'arg, 'z) EventLoopParams_scheme \<times> 'w, unit) outcome" where
  "timerQueueCallback run s =
     (case s of (l, w) \<Rightarrow>
        let (fired_evs, q) = getFiredTimerEvents (m_timer_queue l)
        in run_fired run fired_evs (l\<lparr>m_timer_queue := q\<rparr>, w))"

section \<open>Dispatching one event\<close>

text \<open>\<open>ev.read_callback(shared_from_this(), fd, args)\<close>, whoever the callback belongs to.\<close>

definition call_io ::
  "('s \<Rightarrow> ('s, unit) outcome) \<Rightarrow> ('io \<Rightarrow> fd \<Rightarrow> 'arg option \<Rightarrow> 's \<Rightarrow> ('s, unit) outcome) \<Rightarrow>
     'io ioCallback option \<Rightarrow> fd \<Rightarrow> 'arg option \<Rightarrow> 's \<Rightarrow> ('s, unit) outcome" where
  "call_io timers user c d args s =
     (case c of
        None \<Rightarrow> (Inl (Throw ''bad_function_call''), s)
      | Some TimerQueueCallback \<Rightarrow> timers s
      | Some (UserCallback u) \<Rightarrow> user u d args s)"

text \<open>
  The body of the loop over the fired events: input before output, hang-ups and errors only when
  neither is reported, and then to whichever callback there is.
\<close>

definition dispatch ::
  "('io ioCallback option \<Rightarrow> fd \<Rightarrow> 'arg option \<Rightarrow> 's \<Rightarrow> ('s, unit) outcome) \<Rightarrow>
     (fd \<Rightarrow> 's \<Rightarrow> ('s, unit) outcome) \<Rightarrow> ('io, 'arg) IOEvent \<Rightarrow> fd \<Rightarrow> u32 \<Rightarrow> 's \<Rightarrow> ('s, unit) outcome" where
  "dispatch call del ev d events s =
     (if events AND EPOLLIN \<noteq> 0 then call (read_callback ev) d (rcb_args ev) s
      else if events AND EPOLLOUT \<noteq> 0 then call (write_callback ev) d (wcb_args ev) s
      else if events AND (EPOLLHUP OR EPOLLERR) \<noteq> 0 then
        (if read_callback ev \<noteq> None then call (read_callback ev) d (rcb_args ev) s
         else if write_callback ev \<noteq> None then call (write_callback ev) d (wcb_args ev) s
         else del d s)
      else (Inr (), s))"

section \<open>Facts about tasks and timers\<close>

text \<open>Tasks that succeed and add no task run once each, in the order they were added.\<close>

lemma run_tasks_in_order:
  assumes "\<And>f a s. run f a s = (Inr (), step f a s)" and "\<And>f a s. size_of (step f a s) = size_of s"
  shows "run_tasks run size_of items s = (Inr (), fold (\<lambda>(f, a). step f a) items s)"
  by (induction items arbitrary: s) (auto simp: assms)

lemma run_tasks_throw:
  assumes "run f a s = (Inl e, s')"
  shows "run_tasks run size_of ((f, a) # items) s = (Inl e, s')"
  using assms by simp

lemma run_fired_in_order:
  assumes "\<And>c a s. run c a s = (Inr (), step c a s)"
  shows "run_fired run tes s = (Inr (), fold (\<lambda>te. step (cb te) (cb_data te)) tes s)"
  by (induction tes arbitrary: s) (auto simp: assms)

lemma loop_runAt_waits:
  assumes "timers_ready (m_timer_queue l)" and "loop_runAt c a t l = (tid, l')"
  shows "timers_ready (m_timer_queue l') \<and>
     pending (m_timer_queue l') = add_mset \<lparr>cb = c, cb_data = a, ts = t, interval = 0, timer_id = tid\<rparr>
       (pending (m_timer_queue l)) \<and>
     m_pioneer (m_timer_queue l') = min (m_pioneer (m_timer_queue l)) t"
proof -
  let ?te = "\<lparr>cb = c, cb_data = a, ts = t, interval = 0, timer_id = 0\<rparr>"
  have l': "m_timer_queue l' = snd (addTimer ?te (m_timer_queue l))"
    "tid = fst (addTimer ?te (m_timer_queue l))"
    using assms(2) by (auto simp: loop_runAt_def split: prod.splits)
  show ?thesis
    using tq.ok_add [OF assms(1), of ?te] tq.waiting_add [OF assms(1), of ?te]
      tq.head_add [OF assms(1), of ?te]
    unfolding l' by simp
qed

section \<open>The interface of an event loop\<close>

text \<open>
  \<open>interest l fd\<close> is what the loop waits for on \<open>fd\<close>. A registration succeeds when the loop is
  \<open>ready\<close> and has \<open>room\<close> for a new descriptor; the operations change nothing but the entry of
  their own descriptor. A mask names one direction, as the comment on \<open>addIoEvent\<close> asks.
\<close>

definition old_mask :: "u32 option \<Rightarrow> u32" where
  "old_mask m = (case m of None \<Rightarrow> 0 | Some w \<Rightarrow> w)"

definition left_mask :: "u32 \<Rightarrow> u32 \<Rightarrow> u32 option" where
  "left_mask old m = (if old AND NOT m = 0 then None else Some (old AND NOT m))"

lemma old_mask_simps [simp]: "old_mask None = 0" "old_mask (Some w) = w"
  by (simp_all add: old_mask_def)

definition watches :: "('l \<Rightarrow> fd \<Rightarrow> u32 option) \<Rightarrow> 'l \<Rightarrow> fd \<Rightarrow> u32 \<Rightarrow> bool" where
  "watches interest l d m \<longleftrightarrow> old_mask (interest l d) AND m \<noteq> 0"

lemma or_and_absorb: "(w OR m) AND m = (m :: 'a::len word)"
  by (rule bit_word_eqI) (auto simp: bit_simps)

lemma watches_Some: "watches interest l d m \<Longrightarrow> \<exists>w. interest l d = Some w \<and> w AND m \<noteq> 0"
  by (cases "interest l d") (auto simp: watches_def)

lemma left_mask_in:
  assumes "w AND EPOLLIN \<noteq> 0"
  shows "left_mask w EPOLLOUT = Some (w AND NOT EPOLLOUT) \<and> (w AND NOT EPOLLOUT) AND EPOLLIN \<noteq> 0"
proof -
  have "(w AND NOT EPOLLOUT) AND EPOLLIN = w AND EPOLLIN"
    by (rule bit_word_eqI) (auto simp: bit_simps epoll_flags)
  then show ?thesis using assms by (auto simp: left_mask_def)
qed

lemma or_keeps: "w AND m \<noteq> 0 \<Longrightarrow> (w OR v) AND m \<noteq> (0 :: 'a::len word)"
  by (simp add: bit.conj_disj_distrib2 or_eq_0_iff)

locale event_loop =
  fixes L :: "('l, 'io, 'tcb, 'task, 'arg) IEventLoop"
    and interest :: "'l \<Rightarrow> fd \<Rightarrow> u32 option"
    and ready :: "'l \<Rightarrow> bool"
    and room :: "'l \<Rightarrow> bool"
  assumes add_ok: "ready l \<Longrightarrow> interest l d \<noteq> None \<or> room l \<Longrightarrow> m = EPOLLIN \<or> m = EPOLLOUT \<Longrightarrow>
      \<exists>l'. addIoEvent L d c m a l = (Inr (), l') \<and> ready l' \<and>
        interest l' = (interest l)(d \<mapsto> old_mask (interest l d) OR m)"
    and delMask_ok: "ready l \<Longrightarrow> interest l d = Some old \<Longrightarrow> m = EPOLLIN \<or> m = EPOLLOUT \<Longrightarrow>
      \<exists>l'. delIoEventMask L d m l = (Inr (), l') \<and> ready l' \<and>
        interest l' = (interest l)(d := left_mask old m)"
    and delMask_absent: "ready l \<Longrightarrow> interest l d = None \<Longrightarrow> delIoEventMask L d m l = (Inr (), l)"
    and del_ok: "ready l \<Longrightarrow>
      \<exists>l'. delIoEvent L d l = (Inr (), l') \<and> ready l' \<and> interest l' = (interest l)(d := None)"
begin

lemma add_waits:
  assumes "ready l" and "interest l d \<noteq> None \<or> room l" and "m = EPOLLIN \<or> m = EPOLLOUT"
    and "addIoEvent L d c m a l = (r, l')"
  shows "r = Inr () \<and> ready l' \<and> watches interest l' d m \<and> interest l' d \<noteq> None \<and>
     (\<forall>d'. d' \<noteq> d \<longrightarrow> interest l' d' = interest l d')"
proof -
  obtain l1 where l1: "addIoEvent L d c m a l = (Inr (), l1)" "ready l1"
    "interest l1 = (interest l)(d \<mapsto> old_mask (interest l d) OR m)"
    using add_ok [OF assms(1-3), of c a] by auto
  have "(w OR m) AND m \<noteq> 0" for w
    using assms(3) by (auto simp: or_and_absorb epoll_flags)
  then show ?thesis using l1 assms(4) by (auto simp: watches_def)
qed

text \<open>Registering both directions and dropping one of them leaves the other.\<close>

lemma two_registrations:
  assumes "ready l" and "room l" and "interest l d = None"
  shows "\<exists>l1 l2. addIoEvent L d c1 EPOLLIN a1 l = (Inr (), l1) \<and>
     addIoEvent L d c2 EPOLLOUT a2 l1 = (Inr (), l2) \<and>
     interest l2 d = Some (EPOLLIN OR EPOLLOUT) \<and>
     (\<exists>l3. delIoEventMask L d EPOLLOUT l2 = (Inr (), l3) \<and> interest l3 d = Some EPOLLIN)"
proof -
  obtain l1 where l1: "addIoEvent L d c1 EPOLLIN a1 l = (Inr (), l1)" "ready l1"
    "interest l1 d = Some EPOLLIN"
    using add_ok [OF assms(1), of d EPOLLIN c1 a1] assms(2,3) by auto
  then obtain l2 where l2: "addIoEvent L d c2 EPOLLOUT a2 l1 = (Inr (), l2)" "ready l2"
    "interest l2 d = Some (EPOLLIN OR EPOLLOUT)"
    using add_ok [OF l1(2), of d EPOLLOUT c2 a2] by auto
  have "left_mask (EPOLLIN OR EPOLLOUT) EPOLLOUT = Some EPOLLIN"
    by (simp add: left_mask_def epoll_flags)
  then show ?thesis
    using delMask_ok [OF l2(2,3), of EPOLLOUT] l1(1) l2(1,3) by auto
qed

end

end
