(* ===== verification/EventLoopEpoll.thy ===== *)
theory EventLoopEpoll
  imports EventLoop
begin

text \<open>
  The epoll loop (\<open>bsp/bsp_sockets/impl/EventLoopEpoll.cpp\<close>): registrations are kept in
  \<open>m_io_events\<close> and mirrored into the kernel by \<open>epoll_ctl\<close>; when the call fails the code throws
  and leaves its own tables changed. The state carries the kernel's side
  (\<open>epoll_interest\<close>), so that the agreement of the two is a statement about the model.
\<close>

section \<open>Registration\<close>

text \<open>
  \<open>epoll_ctl(ADD or MOD)\<close> with a mask, \<open>epoll_ctl(DEL)\<close> with none: on success the kernel's entry
  of the descriptor changes, and nothing else. Whether a call succeeds is up to the kernel.
\<close>

definition epoll_ctl ::
  "fd \<Rightarrow> u32 option \<Rightarrow> ('io, 'tcb, 'task, 'arg) EventLoopParams \<Rightarrow>
     bool \<times> ('io, 'tcb, 'task, 'arg) EventLoopParams" where
  "epoll_ctl d m l =
     (let ok = epoll_ctl_ok l (epoll_ctl_calls l)
      in (ok, l\<lparr>epoll_ctl_calls := epoll_ctl_calls l + 1,
              epoll_interest := (if ok then (epoll_interest l)(d := m) else epoll_interest l)\<rparr>))"

definition epoll_addIoEvent ::
  "fd \<Rightarrow> 'io ioCallback \<Rightarrow> u32 \<Rightarrow> 'arg option \<Rightarrow> ('io, 'tcb, 'task, 'arg) EventLoopParams \<Rightarrow>
     (('io, 'tcb, 'task, 'arg) EventLoopParams, unit) outcome" where
  "epoll_addIoEvent d proc msk args l =
     (let f_mask = (case m_io_events l d of None \<Rightarrow> msk | Some ev \<Rightarrow> ev_mask ev OR msk);
          ev0 = (case m_io_events l d of None \<Rightarrow> newIOEvent | Some ev \<Rightarrow> ev);
          ev1 = (if msk AND EPOLLIN \<noteq> 0 then ev0\<lparr>read_callback := Some proc, rcb_args := args\<rparr>
                 else if msk AND EPOLLOUT \<noteq> 0
                 then ev0\<lparr>write_callback := Some proc, wcb_args := args\<rparr> else ev0);
          l1 = l\<lparr>m_io_events := (m_io_events l)(d \<mapsto> ev1\<lparr>ev_mask := f_mask\<rparr>)\<rparr>;
          (ok, l2) = epoll_ctl d (Some f_mask) l1
      in if \<not> ok then (Inl (Throw ''epoll_ctl''), l2)
         else (Inr (), l2\<lparr>m_listening := insert d (m_listening l2)\<rparr>))"

definition epoll_delIoEventMask ::
  "fd \<Rightarrow> u32 \<Rightarrow> ('io, 'tcb, 'task, 'arg) EventLoopParams \<Rightarrow>
     (('io, 'tcb, 'task, 'arg) EventLoopParams, unit) outcome" where
  "epoll_delIoEventMask d msk l =
     (case m_io_events l d of
        None \<Rightarrow> (Inr (), l)
      | Some ev \<Rightarrow>
          (let o_mask = ev_mask ev AND NOT msk in
           if o_mask = 0 then
             (let (ok, l2) = epoll_ctl d None (l\<lparr>m_io_events := (m_io_events l)(d := None)\<rparr>)
              in if \<not> ok then (Inl (Throw ''epoll_ctl EPOLL_CTL_DEL''), l2)
                 else (Inr (), l2\<lparr>m_listening := m_listening l2 - {d}\<rparr>))
           else
             (let (ok, l2) = epoll_ctl d (Some o_mask)
                (l\<lparr>m_io_events := (m_io_events l)(d \<mapsto> ev\<lparr>ev_mask := o_mask\<rparr>)\<rparr>)
              in if \<not> ok then (Inl (Throw ''epoll_ctl EPOLL_CTL_MOD''), l2) else (Inr (), l2))))"

definition epoll_delIoEvent ::
  "fd \<Rightarrow> ('io, 'tcb, 'task, 'arg) EventLoopParams \<Rightarrow>
     (('io, 'tcb, 'task, 'arg) EventLoopParams, unit) outcome" where
  "epoll_delIoEvent d l =
     (case m_io_events l d of
        None \<Rightarrow> (Inr (), l)
      | Some ev \<Rightarrow>
          (let (ok, l2) = epoll_ctl d None
             (l\<lparr>m_io_events := (m_io_events l)(d := None), m_listening := m_listening l - {d}\<rparr>)
           in if \<not> ok then (Inl (Throw ''epoll_ctl EPOLL_CTL_DEL''), l2) else (Inr (), l2)))"

text \<open>The constructor: \<open>epoll_create1\<close>, a new timer queue, its descriptor registered for input.\<close>

definition newEventLoopEpoll ::
  "fd \<Rightarrow> fd \<Rightarrow> (nat \<Rightarrow> bool) \<Rightarrow> ('io, 'tcb, 'task, 'arg) EventLoopParams result" where
  "newEventLoopEpoll efd tfd ctl =
     (case newTimerQueue tfd of
        Inl e \<Rightarrow> Inl e
      | Inr q \<Rightarrow>
          (if efd < 0 then Inl (Throw ''epoll_create1'')
           else case epoll_addIoEvent tfd TimerQueueCallback EPOLLIN None
               \<lparr>m_epoll_fd = efd, m_fds = [], m_nfds = 0, m_io_events = Map.empty,
                m_timer_queue = q, m_pending_factors = [], m_listening = {},
                epoll_interest = Map.empty, epoll_ctl_ok = ctl, epoll_ctl_calls = 0\<rparr> of
             (Inl e, _) \<Rightarrow> Inl e
           | (Inr _, l) \<Rightarrow> Inr l))"

definition epoll_getAllListenings :: "('io, 'tcb, 'task, 'arg) EventLoopParams \<Rightarrow> fd set" where
  "epoll_getAllListenings l = m_listening l"

definition epoll_loop ::
  "(('io, 'tcb, 'task, 'arg) EventLoopParams, 'io, 'tcb, 'task, 'arg) IEventLoop" where
  "epoll_loop =
     \<lparr>addIoEvent = epoll_addIoEvent, delIoEventMask = epoll_delIoEventMask,
      delIoEvent = epoll_delIoEvent, getAllListenings = epoll_getAllListenings,
      addTask = loop_addTask, runAt = loop_runAt, runAfter = loop_runAfter,
      runEvery = loop_runEvery, delTimer_loop = loop_delTimer\<rparr>"

section \<open>The loop\<close>

text \<open>
  One pass over the events \<open>epoll_wait\<close> reported. The registration is looked up when its event
  is handled, so an earlier callback of the same pass may have removed it.
\<close>

fun epoll_events ::
  "('io ioCallback option \<Rightarrow> fd \<Rightarrow> 'arg option \<Rightarrow> ('io, 'tcb, 'task, 'arg) EventLoopParams \<times> 'w \<Rightarrow>
      (('io, 'tcb, 'task, 'arg) EventLoopParams \<times> 'w, unit) outcome) \<Rightarrow>
   (fd \<times> u32) list \<Rightarrow> ('io, 'tcb, 'task, 'arg) EventLoopParams \<times> 'w \<Rightarrow>
      (('io, 'tcb, 'task, 'arg) EventLoopParams \<times> 'w, unit) outcome" where
  "epoll_events call [] s = (Inr (), s)"
| "epoll_events call ((d, events) # fired) s =
     (case m_io_events (fst s) d of
        None \<Rightarrow> (Inl (Abort ''it != m_io_events.end()''), s)
      | Some ev \<Rightarrow>
          andthen
            (dispatch call (\<lambda>d (l, w). case epoll_delIoEvent d l of (r, l') \<Rightarrow> (r, (l', w))) ev d events s)
            (\<lambda>_ s'. epoll_events call fired s'))"

text \<open>
  \<open>processEvents\<close>: per turn the events of one \<open>epoll_wait\<close> (none when it fails), then the tasks.
  The list holds what the successive calls report; the loop itself never ends.
\<close>

fun epoll_processEvents ::
  "('io ioCallback option \<Rightarrow> fd \<Rightarrow> 'arg option \<Rightarrow> ('io, 'tcb, 'task, 'arg) EventLoopParams \<times> 'w \<Rightarrow>
      (('io, 'tcb, 'task, 'arg) EventLoopParams \<times> 'w, unit) outcome) \<Rightarrow>
   ('task \<Rightarrow> 'arg \<Rightarrow> ('io, 'tcb, 'task, 'arg) EventLoopParams \<times> 'w \<Rightarrow>
      (('io, 'tcb, 'task, 'arg) EventLoopParams \<times> 'w, unit) outcome) \<Rightarrow>
   (fd \<times> u32) list list \<Rightarrow> ('io, 'tcb, 'task, 'arg) EventLoopParams \<times> 'w \<Rightarrow>
      (('io, 'tcb, 'task, 'arg) EventLoopParams \<times> 'w, unit) outcome" where
  "epoll_processEvents call run_task [] s = (Inl Waiting, s)"
| "epoll_processEvents call run_task (fired # later) s =
     andthen (epoll_events call (take MAX_EVENTS fired) s) (\<lambda>_ s1.
       andthen (loop_runTask run_task s1) (\<lambda>_ s2. epoll_processEvents call run_task later s2))"

lemma epoll_events_Nil: "epoll_events call [] = (\<lambda>s. (Inr (), s))"
  by (simp add: fun_eq_iff)

lemma epoll_events_single:
  "m_io_events (fst s) d = Some ev \<Longrightarrow> epoll_events call [(d, m)] s =
     dispatch call (\<lambda>d (l, w). case epoll_delIoEvent d l of (r, l') \<Rightarrow> (r, (l', w))) ev d m s"
  by (simp add: epoll_events_Nil del: epoll_events.simps(1))

section \<open>The tables and the kernel agree\<close>

definition epoll_agrees :: "('io, 'tcb, 'task, 'arg) EventLoopParams \<Rightarrow> bool" where
  "epoll_agrees l \<longleftrightarrow> epoll_interest l = (\<lambda>d. map_option ev_mask (m_io_events l d)) \<and>
     m_listening l = dom (m_io_events l)"

definition epoll_accepts :: "('io, 'tcb, 'task, 'arg) EventLoopParams \<Rightarrow> bool" where
  "epoll_accepts l \<longleftrightarrow> (\<forall>n. epoll_ctl_ok l n)"

definition epoll_ready :: "('io, 'tcb, 'task, 'arg) EventLoopParams \<Rightarrow> bool" where
  "epoll_ready l \<longleftrightarrow> epoll_agrees l \<and> epoll_accepts l"

lemmas epoll_inv_defs = epoll_ready_def epoll_agrees_def epoll_accepts_def

lemma epoll_addIoEvent_ok:
  assumes "epoll_agrees l" and "epoll_addIoEvent d c m a l = (Inr (), l')"
  shows "epoll_agrees l' \<and> epoll_ctl_ok l' = epoll_ctl_ok l \<and>
     epoll_interest l' = (epoll_interest l)(d \<mapsto> old_mask (epoll_interest l d) OR m)"
  using assms
  by (cases "m_io_events l d")
    (auto simp: epoll_addIoEvent_def epoll_ctl_def Let_def epoll_agrees_def newIOEvent_def
      fun_eq_iff split: if_splits)

lemma epoll_addIoEvent_frame:
  assumes "epoll_addIoEvent d c m a l = (r, l')"
  shows "m_timer_queue l' = m_timer_queue l \<and> m_pending_factors l' = m_pending_factors l \<and>
     epoll_ctl_ok l' = epoll_ctl_ok l"
  using assms by (auto simp: epoll_addIoEvent_def epoll_ctl_def Let_def split: if_splits)

lemma epoll_delIoEventMask_ok:
  assumes "epoll_agrees l" and "epoll_delIoEventMask d m l = (Inr (), l')"
  shows "epoll_agrees l' \<and> epoll_ctl_ok l' = epoll_ctl_ok l \<and>
     epoll_interest l' = (case epoll_interest l d of None \<Rightarrow> epoll_interest l
       | Some old \<Rightarrow> (epoll_interest l)(d := left_mask old m))"
  using assms
  by (cases "m_io_events l d")
    (auto simp: epoll_delIoEventMask_def epoll_ctl_def Let_def epoll_agrees_def left_mask_def
      fun_eq_iff split: if_splits)

lemma epoll_delIoEvent_ok:
  assumes "epoll_agrees l" and "epoll_delIoEvent d l = (Inr (), l')"
  shows "epoll_agrees l' \<and> epoll_ctl_ok l' = epoll_ctl_ok l \<and>
     epoll_interest l' = (epoll_interest l)(d := None)"
  using assms
  by (cases "m_io_events l d")
    (auto simp: epoll_delIoEvent_def epoll_ctl_def Let_def epoll_agrees_def
      fun_eq_iff split: if_splits)

lemma epoll_accepts_ctl: "epoll_accepts l \<Longrightarrow> epoll_ctl_ok l (epoll_ctl_calls l)"
  by (simp add: epoll_accepts_def)

lemma epoll_ops_return:
  assumes "epoll_accepts l"
  shows "fst (epoll_addIoEvent d c m a l) = Inr ()"
    and "fst (epoll_delIoEventMask d m l) = Inr ()"
    and "fst (epoll_delIoEvent d l) = Inr ()"
  using assms
  by (auto simp: epoll_addIoEvent_def epoll_delIoEventMask_def epoll_delIoEvent_def epoll_ctl_def
      epoll_accepts_def Let_def split: option.splits)

interpretation epoll: event_loop epoll_loop epoll_interest epoll_ready "\<lambda>_. True"
proof (unfold_locales, goal_cases)
  case (1 l d m c a)
  obtain l' where "epoll_addIoEvent d c m a l = (Inr (), l')"
    using epoll_ops_return(1) 1(1) unfolding epoll_ready_def by (metis prod.collapse)
  then show ?case
    using epoll_addIoEvent_ok 1(1) by (fastforce simp: epoll_loop_def epoll_ready_def epoll_accepts_def)
next
  case (2 l d old m)
  obtain l' where "epoll_delIoEventMask d m l = (Inr (), l')"
    using epoll_ops_return(2) 2(1) unfolding epoll_ready_def by (metis prod.collapse)
  then show ?case
    using epoll_delIoEventMask_ok [of l d m l'] 2(1,2)
    by (auto simp: epoll_loop_def epoll_ready_def epoll_accepts_def)
next
  case (3 l d m)
  then have "m_io_events l d = None" by (simp add: epoll_inv_defs)
  then show ?case by (simp add: epoll_loop_def epoll_delIoEventMask_def)
next
  case (4 l d)
  obtain l' where "epoll_delIoEvent d l = (Inr (), l')"
    using epoll_ops_return(3) 4 unfolding epoll_ready_def by (metis prod.collapse)
  then show ?case
    using epoll_delIoEvent_ok 4 by (fastforce simp: epoll_loop_def epoll_ready_def epoll_accepts_def)
qed

section \<open>Reachable loops\<close>

text \<open>The states a loop can be in when every operation so far returned.\<close>

inductive epoll_reachable :: "('io, 'tcb, 'task, 'arg) EventLoopParams \<Rightarrow> bool" where
  reach_new: "newEventLoopEpoll efd tfd ctl = Inr l \<Longrightarrow> epoll_reachable l"
| reach_add: "epoll_reachable l \<Longrightarrow> epoll_addIoEvent d c m a l = (Inr (), l') \<Longrightarrow> epoll_reachable l'"
| reach_delMask: "epoll_reachable l \<Longrightarrow> epoll_delIoEventMask d m l = (Inr (), l') \<Longrightarrow> epoll_reachable l'"
| reach_del: "epoll_reachable l \<Longrightarrow> epoll_delIoEvent d l = (Inr (), l') \<Longrightarrow> epoll_reachable l'"
| reach_task: "epoll_reachable l \<Longrightarrow> epoll_reachable (loop_addTask f b l)"
| reach_runAt: "epoll_reachable l \<Longrightarrow> epoll_reachable (snd (loop_runAt t b w l))"
| reach_runEvery: "epoll_reachable l \<Longrightarrow> epoll_reachable (snd (loop_runEvery now t b sec ms l))"
| reach_delTimer: "epoll_reachable l \<Longrightarrow> loop_delTimer tid l = (Inr (), l') \<Longrightarrow> epoll_reachable l'"

inductive_cases epoll_reachable_cases: "epoll_reachable l"

lemma newEventLoopEpoll_agrees:
  fixes l :: "('io, 'tcb, 'task, 'arg) EventLoopParams"
  assumes "newEventLoopEpoll efd tfd ctl = Inr l"
  shows "epoll_agrees l \<and> epoll_ctl_ok l = ctl \<and> timers_wf (m_timer_queue l)"
proof -
  obtain q :: "('tcb, 'arg) TimerQueue" where q: "newTimerQueue tfd = Inr q"
    using assms by (cases "newTimerQueue tfd :: ('tcb, 'arg) TimerQueue result") (auto simp: newEventLoopEpoll_def)
  let ?l0 = "\<lparr>m_epoll_fd = efd, m_fds = [], m_nfds = 0, m_io_events = Map.empty,
    m_timer_queue = q, m_pending_factors = [], m_listening = {},
    epoll_interest = Map.empty, epoll_ctl_ok = ctl, epoll_ctl_calls = 0\<rparr>"
  have l: "epoll_addIoEvent tfd TimerQueueCallback EPOLLIN None ?l0 = (Inr (), l)"
    using assms q by (auto simp: newEventLoopEpoll_def split: sum.splits if_splits prod.splits)
  have "epoll_agrees ?l0" by (simp add: epoll_agrees_def)
  from epoll_addIoEvent_ok [OF this l] show ?thesis
    using timers_wf_newTimerQueue [OF q] epoll_addIoEvent_frame [OF l] by simp
qed

lemma timer_ops_agree [simp]:
  "epoll_agrees (loop_addTask f b l) = epoll_agrees l"
  "epoll_agrees (snd (loop_runAt t b w l)) = epoll_agrees l"
  "epoll_agrees (snd (loop_runEvery now t b sec ms l)) = epoll_agrees l"
  by (auto simp: epoll_agrees_def loop_addTask_def loop_runAt_def loop_runEvery_def Let_def
      split: prod.splits)

lemma delTimer_agrees: "loop_delTimer tid l = (r, l') \<Longrightarrow> epoll_agrees l' = epoll_agrees l"
  by (auto simp: epoll_agrees_def loop_delTimer_def split: prod.splits)

lemma reachable_agrees: "epoll_reachable l \<Longrightarrow> epoll_agrees l"
  by (induction rule: epoll_reachable.induct)
    (auto dest: newEventLoopEpoll_agrees epoll_addIoEvent_ok epoll_delIoEventMask_ok
      epoll_delIoEvent_ok delTimer_agrees)

section \<open>Properties\<close>

text \<open>A loop on descriptors 3 and 4 whose calls all succeed.\<close>

definition small_loop :: "('io, nat, nat, nat) EventLoopParams" where
  "small_loop = (case newEventLoopEpoll 3 4 (\<lambda>_. True) of Inr l \<Rightarrow> l)"

lemma small_loop_new: "newEventLoopEpoll 3 4 (\<lambda>_. True) = Inr small_loop"
  by (simp add: small_loop_def newEventLoopEpoll_def newTimerQueue_def epoll_addIoEvent_def
      epoll_ctl_def Let_def)

lemma small_loop_ready: "epoll_ready (small_loop :: ('a, nat, nat, nat) EventLoopParams)"
  unfolding epoll_ready_def epoll_accepts_def
  using conjunct1 [OF conjunct2 [OF newEventLoopEpoll_agrees [OF small_loop_new, where 'io = 'a]]]
  by (simp add: conjunct1 [OF newEventLoopEpoll_agrees [OF small_loop_new]])



text \<open>
  Registering a callback takes effect: after \<open>addIoEvent(fd, cb, mask, args)\<close> returned, for one
  direction, an event of that direction on \<open>fd\<close> calls \<open>cb\<close> with \<open>args\<close>, a callback registered
  before for the other direction is kept, and no other descriptor changes.
\<close>

theorem epoll_add_dispatches:
  assumes "epoll_addIoEvent d c m a l = (Inr (), l')" and "m = EPOLLIN \<or> m = EPOLLOUT"
  shows "epoll_events call [(d, m)] (l', w) = call (Some c) d a (l', w) \<and>
     (d' \<noteq> d \<longrightarrow> m_io_events l' d' = m_io_events l d') \<and>
     (m_io_events l d = Some ev \<and> m = EPOLLIN \<longrightarrow>
       map_option write_callback (m_io_events l' d) = Some (write_callback ev)) \<and>
     (m_io_events l d = Some ev \<and> m = EPOLLOUT \<longrightarrow>
       map_option read_callback (m_io_events l' d) = Some (read_callback ev))"
  using assms
  by (auto simp: epoll_addIoEvent_def epoll_ctl_def Let_def dispatch_def epoll_flags
      epoll_events_single simp del: epoll_events.simps split: if_splits option.splits)

theorem epoll_add_dispatches_witness:
  "\<exists>l'. epoll_addIoEvent 7 (UserCallback (1 :: nat)) EPOLLOUT (Some 2) small_loop = (Inr (), l') \<and>
     epoll_events (\<lambda>c d a s. (Inl (Throw ''called''), s)) [(7, EPOLLOUT)] (l', ()) =
       (Inl (Throw ''called''), (l', ()))"
proof -
  obtain l' where l: "epoll_addIoEvent 7 (UserCallback (1 :: nat)) EPOLLOUT (Some 2) small_loop = (Inr (), l')"
    using epoll_ops_return(1) small_loop_ready unfolding epoll_ready_def by (metis prod.collapse)
  from conjunct1 [OF epoll_add_dispatches [OF l disjI2 [OF refl],
    of "\<lambda>c d a s. (Inl (Throw ''called''), s)" "()"]] l
  show ?thesis by blast
qed

text \<open>
  When \<open>epoll_ctl\<close> refuses a new descriptor, \<open>addIoEvent\<close> throws but the entry stays in
  \<open>m_io_events\<close>, where the kernel has none: the next registration of this descriptor asks the
  kernel to modify an entry that does not exist.
\<close>

lemma epoll_add_failure_keeps_entry:
  assumes "m_io_events l d = None" and "\<not> epoll_ctl_ok l (epoll_ctl_calls l)"
  shows "\<exists>l' ev. epoll_addIoEvent d c m a l = (Inl (Throw ''epoll_ctl''), l') \<and>
     m_io_events l' d = Some ev \<and> epoll_interest l' = epoll_interest l \<and> m_listening l' = m_listening l"
  using assms by (simp add: epoll_addIoEvent_def epoll_ctl_def Let_def)

text \<open>
  Two events in one batch, and the callback of the first removes the descriptor of the second: the
  \<open>assert\<close> on the lookup fails.
\<close>

lemma epoll_batch_abort:
  assumes "d \<noteq> d'" and "m_io_events l d = Some ev" and "m_io_events l d' = Some ev'"
    and "call (read_callback ev) d (rcb_args ev) (l, w) = (Inr (), (snd (epoll_delIoEvent d' l), w))"
  shows "fst (epoll_events call [(d, EPOLLIN), (d', EPOLLIN)] (l, w)) = Inl (Abort ''it != m_io_events.end()'')"
  using assms by (simp add: dispatch_def epoll_flags epoll_delIoEvent_def epoll_ctl_def Let_def)

end
