(* ===== verification/EventLoopPoll.thy ===== *)
theory EventLoopPoll
  imports EventLoop
begin

text \<open>
  The poll loop (\<open>bsp/bsp_sockets/impl/EventLoopPoll.cpp\<close>): the registrations are in
  \<open>m_io_events\<close> as in the epoll loop, and the first \<open>m_nfds\<close> entries of the array \<open>m_fds\<close> of 1024
  \<open>pollfd\<close>s are what \<open>poll\<close> is called with. The epoll fields of the state are unused.
\<close>

section \<open>Registration\<close>

definition POLLIN :: u32 where "POLLIN = 0x001"
definition POLLOUT :: u32 where "POLLOUT = 0x004"

definition poll_mask :: "u32 \<Rightarrow> u32" where
  "poll_mask msk = (if msk = EPOLLIN then POLLIN else if msk = EPOLLOUT then POLLOUT else msk)"

text \<open>The entries in use, and the first one of a descriptor.\<close>

definition active :: "('io, 'tcb, 'task, 'arg) EventLoopParams \<Rightarrow> pollfd list" where
  "active l = take (m_nfds l) (m_fds l)"

fun pfd_index :: "fd \<Rightarrow> pollfd list \<Rightarrow> nat option" where
  "pfd_index d [] = None"
| "pfd_index d (p # ps) = (if pfd_fd p = d then Some 0 else map_option Suc (pfd_index d ps))"

definition set_events ::
  "fd \<Rightarrow> u32 \<Rightarrow> ('io, 'tcb, 'task, 'arg) EventLoopParams \<Rightarrow> ('io, 'tcb, 'task, 'arg) EventLoopParams" where
  "set_events d f_mask l =
     (case pfd_index d (active l) of
        None \<Rightarrow> l
      | Some i \<Rightarrow> l\<lparr>m_fds := (m_fds l)[i := (m_fds l ! i)\<lparr>pfd_events := ucast f_mask\<rparr>]\<rparr>)"

text \<open>Shift the entries after the first one of \<open>d\<close> one place to the left.\<close>

definition remove_pollfd ::
  "fd \<Rightarrow> ('io, 'tcb, 'task, 'arg) EventLoopParams \<Rightarrow> ('io, 'tcb, 'task, 'arg) EventLoopParams" where
  "remove_pollfd d l =
     (case pfd_index d (active l) of
        None \<Rightarrow> l
      | Some i \<Rightarrow>
          l\<lparr>m_fds := map (\<lambda>j. if i \<le> j \<and> j < m_nfds l - 1 then m_fds l ! (j + 1) else m_fds l ! j)
              [0..<length (m_fds l)],
            m_nfds := m_nfds l - 1\<rparr>)"

definition poll_addIoEvent ::
  "fd \<Rightarrow> 'io ioCallback \<Rightarrow> u32 \<Rightarrow> 'arg option \<Rightarrow> ('io, 'tcb, 'task, 'arg) EventLoopParams \<Rightarrow>
     (('io, 'tcb, 'task, 'arg) EventLoopParams, unit) outcome" where
  "poll_addIoEvent d proc msk0 args l =
     (let msk = poll_mask msk0;
          f_mask = (case m_io_events l d of None \<Rightarrow> msk | Some ev \<Rightarrow> ev_mask ev OR msk);
          ev0 = (case m_io_events l d of None \<Rightarrow> newIOEvent | Some ev \<Rightarrow> ev);
          ev1 = (if msk AND POLLIN \<noteq> 0 then ev0\<lparr>read_callback := Some proc, rcb_args := args\<rparr>
                 else if msk AND POLLOUT \<noteq> 0
                 then ev0\<lparr>write_callback := Some proc, wcb_args := args\<rparr> else ev0);
          l1 = l\<lparr>m_io_events := (m_io_events l)(d \<mapsto> ev1\<lparr>ev_mask := f_mask\<rparr>)\<rparr>
      in if m_io_events l d = None
         then (if 1024 \<le> m_nfds l then (Inl (Undefined ''m_fds''), l1)
           else (Inr (),
             l1\<lparr>m_fds := (m_fds l)[m_nfds l :=
                   \<lparr>pfd_fd = d, pfd_events = ucast f_mask, pfd_revents = None\<rparr>],
                m_nfds := m_nfds l + 1, m_listening := insert d (m_listening l)\<rparr>))
         else (Inr (), (set_events d f_mask l1)\<lparr>m_listening := insert d (m_listening l)\<rparr>))"

definition poll_delIoEventMask ::
  "fd \<Rightarrow> u32 \<Rightarrow> ('io, 'tcb, 'task, 'arg) EventLoopParams \<Rightarrow>
     (('io, 'tcb, 'task, 'arg) EventLoopParams, unit) outcome" where
  "poll_delIoEventMask d msk l =
     (case m_io_events l d of
        None \<Rightarrow> (Inr (), l)
      | Some ev \<Rightarrow>
          (let o_mask = ev_mask ev AND NOT (poll_mask msk) in
           if o_mask = 0
           then (Inr (), (remove_pollfd d (l\<lparr>m_io_events := (m_io_events l)(d := None)\<rparr>))
                   \<lparr>m_listening := m_listening l - {d}\<rparr>)
           else (Inr (), set_events d o_mask
                   (l\<lparr>m_io_events := (m_io_events l)(d \<mapsto> ev\<lparr>ev_mask := o_mask\<rparr>)\<rparr>))))"

definition poll_delIoEvent ::
  "fd \<Rightarrow> ('io, 'tcb, 'task, 'arg) EventLoopParams \<Rightarrow>
     (('io, 'tcb, 'task, 'arg) EventLoopParams, unit) outcome" where
  "poll_delIoEvent d l =
     (case m_io_events l d of
        None \<Rightarrow> (Inr (), l)
      | Some ev \<Rightarrow>
          (Inr (), remove_pollfd d (l\<lparr>m_io_events := (m_io_events l)(d := None),
                                     m_listening := m_listening l - {d}\<rparr>)))"

definition poll_getAllListenings :: "('io, 'tcb, 'task, 'arg) EventLoopParams \<Rightarrow> fd set" where
  "poll_getAllListenings l = m_listening l"

text \<open>
  The task and timer operations have the bodies of the epoll loop's.
\<close>

definition poll_addTask where "poll_addTask = loop_addTask"
definition poll_runTask where "poll_runTask = loop_runTask"
definition poll_runAt where "poll_runAt = loop_runAt"
definition poll_runAfter where "poll_runAfter = loop_runAfter"
definition poll_runEvery where "poll_runEvery = loop_runEvery"
definition poll_delTimer where "poll_delTimer = loop_delTimer"

definition poll_loop ::
  "(('io, 'tcb, 'task, 'arg) EventLoopParams, 'io, 'tcb, 'task, 'arg) IEventLoop" where
  "poll_loop =
     \<lparr>addIoEvent = poll_addIoEvent, delIoEventMask = poll_delIoEventMask,
      delIoEvent = poll_delIoEvent, getAllListenings = poll_getAllListenings,
      addTask = poll_addTask, runAt = poll_runAt, runAfter = poll_runAfter,
      runEvery = poll_runEvery, delTimer_loop = poll_delTimer\<rparr>"

definition empty_fds :: "pollfd list" where
  "empty_fds = replicate 1024 \<lparr>pfd_fd = -1, pfd_events = 0, pfd_revents = None\<rparr>"

definition newEventLoopPoll :: "fd \<Rightarrow> ('io, 'tcb, 'task, 'arg) EventLoopParams result" where
  "newEventLoopPoll tfd =
     (case newTimerQueue tfd of
        Inl e \<Rightarrow> Inl e
      | Inr q \<Rightarrow>
          (case poll_addIoEvent tfd TimerQueueCallback POLLIN None
               \<lparr>m_epoll_fd = -1, m_fds = empty_fds, m_nfds = 0, m_io_events = Map.empty,
                m_timer_queue = q, m_pending_factors = [], m_listening = {},
                epoll_interest = Map.empty, epoll_ctl_ok = (\<lambda>_. True), epoll_ctl_calls = 0\<rparr> of
             (Inl e, _) \<Rightarrow> Inl e
           | (Inr _, l) \<Rightarrow> Inr l))"

section \<open>The loop\<close>

text \<open>
  \<open>poll\<close> writes \<open>revents\<close> of the entries it was given; when it fails (\<open>None\<close>) the entries keep
  their old value.
\<close>

definition poll_revents ::
  "16 word list option \<Rightarrow> ('io, 'tcb, 'task, 'arg) EventLoopParams \<Rightarrow>
     ('io, 'tcb, 'task, 'arg) EventLoopParams" where
  "poll_revents answer l =
     (case answer of
        None \<Rightarrow> l
      | Some rs \<Rightarrow> l\<lparr>m_fds := map (\<lambda>i. if i < m_nfds l \<and> i < length rs
            then (m_fds l ! i)\<lparr>pfd_revents := Some (rs ! i)\<rparr> else m_fds l ! i) [0..<length (m_fds l)]\<rparr>)"

text \<open>
  The index loop \<open>for (i = 0; i < m_nfds; ++i)\<close>: \<open>m_nfds\<close> and the array are read anew on every
  turn, so callbacks that add or remove entries change what the loop sees.
\<close>

function poll_events ::
  "('io ioCallback option \<Rightarrow> fd \<Rightarrow> 'arg option \<Rightarrow> ('io, 'tcb, 'task, 'arg) EventLoopParams \<times> 'w \<Rightarrow>
      (('io, 'tcb, 'task, 'arg) EventLoopParams \<times> 'w, unit) outcome) \<Rightarrow>
   nat \<Rightarrow> ('io, 'tcb, 'task, 'arg) EventLoopParams \<times> 'w \<Rightarrow>
      (('io, 'tcb, 'task, 'arg) EventLoopParams \<times> 'w, unit) outcome" where
  "poll_events call i s =
     (if m_nfds (fst s) \<le> i then (Inr (), s)
      else if 1024 \<le> i then (Inl (Undefined ''m_fds''), s)
      else let p = m_fds (fst s) ! i in
        (case pfd_revents p of
           None \<Rightarrow> (Inl (Undefined ''revents not initialised''), s)
         | Some events \<Rightarrow>
             (case m_io_events (fst s) (pfd_fd p) of
                None \<Rightarrow> (Inl (Abort ''it != m_io_events.end()''), s)
              | Some ev \<Rightarrow>
                  (case dispatch call (\<lambda>d (l, w). case poll_delIoEvent d l of (r, l') \<Rightarrow> (r, (l', w)))
                      ev (pfd_fd p) (scast events) s of
                     (Inl e, s') \<Rightarrow> (Inl e, s')
                   | (Inr _, s') \<Rightarrow> poll_events call (i + 1) s'))))"
  by pat_completeness auto
termination by (relation "measure (\<lambda>(_, i, _). 1024 - i)") auto

declare poll_events.simps [simp del]

fun poll_processEvents ::
  "('io ioCallback option \<Rightarrow> fd \<Rightarrow> 'arg option \<Rightarrow> ('io, 'tcb, 'task, 'arg) EventLoopParams \<times> 'w \<Rightarrow>
      (('io, 'tcb, 'task, 'arg) EventLoopParams \<times> 'w, unit) outcome) \<Rightarrow>
   ('task \<Rightarrow> 'arg \<Rightarrow> ('io, 'tcb, 'task, 'arg) EventLoopParams \<times> 'w \<Rightarrow>
      (('io, 'tcb, 'task, 'arg) EventLoopParams \<times> 'w, unit) outcome) \<Rightarrow>
   16 word list option list \<Rightarrow> ('io, 'tcb, 'task, 'arg) EventLoopParams \<times> 'w \<Rightarrow>
      (('io, 'tcb, 'task, 'arg) EventLoopParams \<times> 'w, unit) outcome" where
  "poll_processEvents call run_task [] s = (Inl Waiting, s)"
| "poll_processEvents call run_task (answer # later) s =
     andthen (poll_events call 0 (poll_revents answer (fst s), snd s)) (\<lambda>_ s1.
       andthen (poll_runTask run_task s1) (\<lambda>_ s2. poll_processEvents call run_task later s2))"

section \<open>The array as a table\<close>

definition events_of :: "pollfd list \<Rightarrow> fd \<rightharpoonup> 16 word" where
  "events_of ps = map_of (map (\<lambda>p. (pfd_fd p, pfd_events p)) ps)"

lemma pfd_index_Some:
  "pfd_index d ps = Some i \<Longrightarrow> i < length ps \<and> pfd_fd (ps ! i) = d"
  by (induction ps arbitrary: i) (auto split: if_splits)

lemma pfd_index_None: "pfd_index d ps = None \<longleftrightarrow> d \<notin> pfd_fd ` set ps"
  by (induction ps) auto

lemma events_of_None: "events_of ps d = None \<longleftrightarrow> d \<notin> pfd_fd ` set ps"
  by (force simp: events_of_def map_of_eq_None_iff)

lemma events_of_append:
  assumes "pfd_fd p \<notin> pfd_fd ` set ps"
  shows "events_of (ps @ [p]) = (events_of ps)(pfd_fd p \<mapsto> pfd_events p)"
proof
  fix d
  show "events_of (ps @ [p]) d = ((events_of ps)(pfd_fd p \<mapsto> pfd_events p)) d"
    using events_of_None [of ps "pfd_fd p"] assms
    by (auto simp: events_of_def map_add_def split: option.splits)
qed

lemma events_of_set:
  "pfd_index d ps = Some i \<Longrightarrow>
     events_of (ps[i := (ps ! i)\<lparr>pfd_events := e\<rparr>]) = (events_of ps)(d \<mapsto> e)"
  by (induction ps arbitrary: i) (auto simp: events_of_def fun_upd_twist split: if_splits)

lemma fds_of_set:
  "map pfd_fd (ps[i := (ps ! i)\<lparr>pfd_events := e\<rparr>]) = map pfd_fd ps"
  by (cases "i < length ps") (auto simp: map_update list_update_id intro: nth_equalityI simp: nth_list_update)

lemma events_of_remove:
  assumes "pfd_index d ps = Some i" and "distinct (map pfd_fd ps)"
  shows "events_of (take i ps @ drop (Suc i) ps) = (events_of ps)(d := None)"
  using assms
proof (induction ps arbitrary: i)
  case (Cons p ps)
  show ?case
  proof (cases "pfd_fd p = d")
    case True
    then have "events_of ps d = None" using Cons.prems(2) by (auto simp: events_of_None)
    then show ?thesis using True Cons.prems by (auto simp: events_of_def)
  next
    case False
    then obtain j where j: "pfd_index d ps = Some j" "i = Suc j" using Cons.prems(1) by auto
    have "events_of (p # qs) = (events_of qs)(pfd_fd p \<mapsto> pfd_events p)" for qs
      by (simp add: events_of_def)
    then show ?thesis using Cons.IH [OF j(1)] Cons.prems(2) False j(2)
      by (auto simp: fun_eq_iff)
  qed
qed simp

lemma distinct_remove:
  assumes "distinct (map pfd_fd ps)"
  shows "distinct (map pfd_fd (take i ps @ drop (Suc i) ps))"
proof (cases "i < length ps")
  case True
  then have "ps = take i ps @ ps ! i # drop (Suc i) ps" by (rule id_take_nth_drop)
  with assms have "distinct (map pfd_fd (take i ps @ ps ! i # drop (Suc i) ps))" by metis
  then show ?thesis by simp
qed (use assms in simp)

section \<open>The invariant\<close>

definition one_direction :: "u32 \<Rightarrow> bool" where
  "one_direction w \<longleftrightarrow> w = EPOLLIN \<or> w = EPOLLOUT \<or> w = EPOLLIN OR EPOLLOUT"

definition poll_ready :: "('io, 'tcb, 'task, 'arg) EventLoopParams \<Rightarrow> bool" where
  "poll_ready l \<longleftrightarrow> length (m_fds l) = 1024 \<and> m_nfds l \<le> 1024 \<and> distinct (map pfd_fd (active l)) \<and>
     (\<forall>d. events_of (active l) d = map_option (\<lambda>ev. ucast (ev_mask ev)) (m_io_events l d)) \<and>
     (\<forall>d ev. m_io_events l d = Some ev \<longrightarrow> one_direction (ev_mask ev)) \<and>
     m_listening l = dom (m_io_events l)"

definition poll_room :: "('io, 'tcb, 'task, 'arg) EventLoopParams \<Rightarrow> bool" where
  "poll_room l \<longleftrightarrow> m_nfds l < 1024"

text \<open>What \<open>poll\<close> is asked to watch on a descriptor.\<close>

definition poll_interest :: "('io, 'tcb, 'task, 'arg) EventLoopParams \<Rightarrow> fd \<Rightarrow> u32 option" where
  "poll_interest l d = map_option ucast (events_of (active l) d)"

lemma one_direction_ucast: "one_direction w \<Longrightarrow> ucast (ucast w :: 16 word) = w"
  by (auto simp: one_direction_def epoll_flags)

lemma poll_interest_mask:
  assumes "poll_ready l"
  shows "poll_interest l d = map_option ev_mask (m_io_events l d)"
proof -
  have "events_of (active l) d = map_option (\<lambda>ev. ucast (ev_mask ev)) (m_io_events l d)"
    and "\<And>ev. m_io_events l d = Some ev \<Longrightarrow> one_direction (ev_mask ev)"
    using assms by (auto simp: poll_ready_def)
  then show ?thesis by (cases "m_io_events l d") (auto simp: poll_interest_def one_direction_ucast)
qed

lemma active_set_events:
  assumes "length (m_fds l) = 1024" and "pfd_index d (active l) = Some i"
  shows "active (set_events d f l) = (active l)[i := (active l ! i)\<lparr>pfd_events := ucast f\<rparr>]"
  using assms pfd_index_Some [OF assms(2)]
  by (simp add: set_events_def active_def take_update_swap)

lemma active_remove:
  assumes "length (m_fds l) = 1024" and "m_nfds l \<le> 1024" and i: "pfd_index d (active l) = Some i"
  shows "active (remove_pollfd d l) = take i (active l) @ drop (Suc i) (active l)"
proof -
  have b: "i < m_nfds l" using pfd_index_Some [OF i] assms by (simp add: active_def)
  show ?thesis
    using b assms
    by (intro nth_equalityI) (auto simp: remove_pollfd_def active_def nth_append)
qed

lemma active_fields [simp]:
  "active (l\<lparr>m_io_events := x\<rparr>) = active l" "active (l\<lparr>m_listening := y\<rparr>) = active l"
  by (simp_all add: active_def)

lemma set_events_fields [simp]:
  "m_io_events (set_events d f l) = m_io_events l" "m_listening (set_events d f l) = m_listening l"
  "m_nfds (set_events d f l) = m_nfds l" "length (m_fds (set_events d f l)) = length (m_fds l)"
  by (simp_all add: set_events_def split: option.splits)

lemma remove_pollfd_fields [simp]:
  "m_io_events (remove_pollfd d l) = m_io_events l" "m_listening (remove_pollfd d l) = m_listening l"
  "length (m_fds (remove_pollfd d l)) = length (m_fds l)" "m_nfds (remove_pollfd d l) \<le> m_nfds l"
  by (simp_all add: remove_pollfd_def split: option.splits)

lemma listening_same:
  fixes x :: "('io, 'tcb, 'task, 'arg) EventLoopParams"
  shows "m_listening x = v \<Longrightarrow> x\<lparr>m_listening := v\<rparr> = x"
  by simp

lemma poll_mask_id [simp]: "poll_mask m = m"
  by (simp add: poll_mask_def POLLIN_def POLLOUT_def epoll_flags)

lemma poll_index:
  assumes "poll_ready l" and "m_io_events l d = Some ev"
  obtains i where "pfd_index d (active l) = Some i"
proof -
  have "events_of (active l) d \<noteq> None" using assms by (simp add: poll_ready_def)
  then show ?thesis using that pfd_index_None events_of_None by (metis not_None_eq)
qed

text \<open>Changing the mask of a known descriptor, and adding or removing one.\<close>

lemma poll_change:
  assumes r: "poll_ready l" and ev: "m_io_events l d = Some ev" and f: "one_direction f"
    and ev': "ev_mask ev' = f"
  defines "l1 \<equiv> l\<lparr>m_io_events := (m_io_events l)(d \<mapsto> ev')\<rparr>"
  shows "poll_ready (set_events d f l1) \<and> poll_interest (set_events d f l1) = (poll_interest l)(d \<mapsto> f)"
proof -
  obtain i where i: "pfd_index d (active l1) = Some i" using poll_index [OF r ev] by (auto simp: l1_def)
  have len: "length (m_fds l1) = 1024" using r by (simp add: l1_def poll_ready_def)
  note act = active_set_events [OF len i, of f]
  have tab: "events_of (active (set_events d f l1)) = (events_of (active l))(d \<mapsto> ucast f)"
    unfolding act using events_of_set [OF i] by (simp add: l1_def)
  have "distinct (map pfd_fd (active (set_events d f l1)))"
    unfolding act fds_of_set using r by (simp add: l1_def poll_ready_def)
  moreover have "insert d (dom (m_io_events l)) = dom (m_io_events l)" using ev by auto
  ultimately have "poll_ready (set_events d f l1)"
    using r f ev' unfolding poll_ready_def tab by (auto simp: l1_def)
  then show ?thesis using one_direction_ucast [OF f] by (auto simp: poll_interest_def tab fun_eq_iff)
qed

lemma poll_remove:
  assumes r: "poll_ready l" and ev: "m_io_events l d = Some ev"
  defines "l1 \<equiv> l\<lparr>m_io_events := (m_io_events l)(d := None)\<rparr>"
  defines "l2 \<equiv> (remove_pollfd d l1)\<lparr>m_listening := m_listening l - {d}\<rparr>"
  shows "poll_ready l2 \<and> poll_interest l2 = (poll_interest l)(d := None) \<and> m_nfds l2 = m_nfds l - 1"
proof -
  obtain i where i: "pfd_index d (active l1) = Some i" using poll_index [OF r ev] by (auto simp: l1_def)
  have len: "length (m_fds l1) = 1024" "m_nfds l1 \<le> 1024" and dst: "distinct (map pfd_fd (active l1))"
    using r by (auto simp: l1_def poll_ready_def)
  note act = active_remove [OF len i]
  have tab: "events_of (active l2) = (events_of (active l))(d := None)"
    using events_of_remove [OF i dst] act by (simp add: l2_def l1_def)
  have "distinct (map pfd_fd (active l2))" using distinct_remove [OF dst] act by (simp add: l2_def)
  moreover have "m_nfds l2 \<le> 1024" using len le_trans [OF remove_pollfd_fields(4)] by (simp add: l2_def)
  ultimately have "poll_ready l2"
    using r unfolding poll_ready_def tab by (auto simp: l2_def l1_def)
  moreover have "m_nfds l2 = m_nfds l - 1"
    using i by (simp add: l2_def l1_def remove_pollfd_def)
  ultimately show ?thesis by (auto simp: poll_interest_def tab fun_eq_iff)
qed

lemma poll_append:
  assumes r: "poll_ready l" and none: "m_io_events l d = None" and room: "poll_room l"
    and f: "one_direction f" and ev': "ev_mask ev' = f"
  defines "l2 \<equiv> l\<lparr>m_io_events := (m_io_events l)(d \<mapsto> ev'),
    m_fds := (m_fds l)[m_nfds l := \<lparr>pfd_fd = d, pfd_events = ucast f, pfd_revents = None\<rparr>],
    m_nfds := m_nfds l + 1, m_listening := insert d (m_listening l)\<rparr>"
  shows "poll_ready l2 \<and> poll_interest l2 = (poll_interest l)(d \<mapsto> f)"
proof -
  let ?p = "\<lparr>pfd_fd = d, pfd_events = ucast f, pfd_revents = None\<rparr>"
  have len: "length (m_fds l) = 1024" "m_nfds l < 1024" and dst: "distinct (map pfd_fd (active l))"
    using r room by (auto simp: poll_ready_def poll_room_def)
  have act: "active l2 = active l @ [?p]"
    using len by (simp add: active_def l2_def take_Suc_conv_app_nth)
  have "events_of (active l) d = None" using r none by (simp add: poll_ready_def)
  then have new: "d \<notin> pfd_fd ` set (active l)" by (simp add: events_of_None)
  have tab: "events_of (active l2) = (events_of (active l))(d \<mapsto> ucast f)"
    unfolding act using events_of_append [of ?p] new by simp
  have "distinct (map pfd_fd (active l2))" unfolding act using dst new by auto
  then have "poll_ready l2"
    using r f ev' len unfolding poll_ready_def tab by (auto simp: l2_def)
  then show ?thesis using one_direction_ucast [OF f] by (auto simp: poll_interest_def tab fun_eq_iff)
qed

lemma one_direction_or:
  "one_direction w \<Longrightarrow> m = EPOLLIN \<or> m = EPOLLOUT \<Longrightarrow> one_direction (w OR m)"
  by (auto simp: one_direction_def epoll_flags)

lemma one_direction_left:
  "one_direction w \<Longrightarrow> m = EPOLLIN \<or> m = EPOLLOUT \<Longrightarrow> w AND NOT m \<noteq> 0 \<Longrightarrow> one_direction (w AND NOT m)"
  by (auto simp: one_direction_def epoll_flags)

lemma poll_addIoEvent_ok:
  assumes r: "poll_ready l" and room: "poll_interest l d \<noteq> None \<or> poll_room l"
    and m: "m = EPOLLIN \<or> m = EPOLLOUT"
  shows "\<exists>l'. poll_addIoEvent d c m a l = (Inr (), l') \<and> poll_ready l' \<and>
     poll_interest l' = (poll_interest l)(d \<mapsto> old_mask (poll_interest l d) OR m)"
proof (cases "m_io_events l d")
  case None
  then have rm: "poll_room l" using room poll_interest_mask [OF r] by simp
  have one: "one_direction m" using m by (auto simp: one_direction_def)
  define ev where "ev = (if m AND POLLIN \<noteq> 0 then newIOEvent\<lparr>read_callback := Some c, rcb_args := a\<rparr>
    else if m AND POLLOUT \<noteq> 0 then newIOEvent\<lparr>write_callback := Some c, wcb_args := a\<rparr>
    else newIOEvent)\<lparr>ev_mask := m\<rparr>"
  show ?thesis
    using poll_append [OF r None rm one, of ev] None rm poll_interest_mask [OF r, of d]
    by (simp add: poll_addIoEvent_def Let_def poll_room_def ev_def)
next
  case (Some ev)
  have "one_direction (ev_mask ev OR m)"
    using r Some m one_direction_or by (auto simp: poll_ready_def)
  moreover have "insert d (m_listening l) = m_listening l" using r Some by (auto simp: poll_ready_def)
  ultimately show ?thesis
    using poll_change [OF r Some] Some poll_interest_mask [OF r, of d]
    by (simp add: poll_addIoEvent_def Let_def listening_same)
qed

lemma poll_delIoEventMask_ok:
  assumes r: "poll_ready l" and old: "poll_interest l d = Some old" and m: "m = EPOLLIN \<or> m = EPOLLOUT"
  shows "\<exists>l'. poll_delIoEventMask d m l = (Inr (), l') \<and> poll_ready l' \<and>
     poll_interest l' = (poll_interest l)(d := left_mask old m)"
proof -
  obtain ev where ev: "m_io_events l d = Some ev" "ev_mask ev = old"
    using old poll_interest_mask [OF r, of d] by auto
  have one: "one_direction old" using r ev by (auto simp: poll_ready_def)
  show ?thesis
  proof (cases "old AND NOT m = 0")
    case True
    then show ?thesis
      using poll_remove [OF r ev(1)] ev by (simp add: poll_delIoEventMask_def Let_def left_mask_def)
  next
    case False
    then show ?thesis
      using poll_change [OF r ev(1) one_direction_left [OF one m False]] ev
      by (simp add: poll_delIoEventMask_def Let_def left_mask_def)
  qed
qed

lemma poll_delIoEvent_ok:
  assumes r: "poll_ready l"
  shows "\<exists>l'. poll_delIoEvent d l = (Inr (), l') \<and> poll_ready l' \<and>
     poll_interest l' = (poll_interest l)(d := None)"
proof (cases "m_io_events l d")
  case None
  then have "poll_interest l d = None" using poll_interest_mask [OF r] by simp
  then show ?thesis using None r by (auto simp: poll_delIoEvent_def fun_upd_idem_iff)
next
  case (Some ev)
  have "remove_pollfd d (l\<lparr>m_io_events := (m_io_events l)(d := None), m_listening := m_listening l - {d}\<rparr>)
      = (remove_pollfd d (l\<lparr>m_io_events := (m_io_events l)(d := None)\<rparr>))\<lparr>m_listening := m_listening l - {d}\<rparr>"
    by (simp add: remove_pollfd_def active_def split: option.splits)
  then show ?thesis using poll_remove [OF r Some] Some by (simp add: poll_delIoEvent_def)
qed

interpretation poll: event_loop poll_loop poll_interest poll_ready poll_room
proof (unfold_locales, goal_cases)
  case (1 l d m c a)
  then show ?case using poll_addIoEvent_ok by (simp add: poll_loop_def)
next
  case (2 l d old m)
  then show ?case using poll_delIoEventMask_ok by (simp add: poll_loop_def)
next
  case (3 l d m)
  then have "m_io_events l d = None" using poll_interest_mask [of l d] by simp
  then show ?case by (simp add: poll_loop_def poll_delIoEventMask_def)
next
  case (4 l d)
  then show ?case using poll_delIoEvent_ok by (simp add: poll_loop_def)
qed

lemma poll_revents_ready:
  assumes "poll_ready l"
  shows "poll_ready (poll_revents answer l) \<and> m_io_events (poll_revents answer l) = m_io_events l \<and>
     m_nfds (poll_revents answer l) = m_nfds l"
proof (cases answer)
  case (Some rs)
  have len: "length (m_fds l) = 1024" "m_nfds l \<le> 1024" using assms by (auto simp: poll_ready_def)
  have pair: "map (\<lambda>p. (pfd_fd p, pfd_events p)) (active (poll_revents answer l)) =
      map (\<lambda>p. (pfd_fd p, pfd_events p)) (active l)"
    using len by (intro nth_equalityI) (auto simp: poll_revents_def active_def Some)
  then have "events_of (active (poll_revents answer l)) = events_of (active l)"
    by (simp add: events_of_def)
  moreover have "map pfd_fd (active (poll_revents answer l)) = map pfd_fd (active l)"
    using arg_cong [OF pair, of "map fst"] by (simp add: comp_def)
  ultimately show ?thesis using assms by (simp add: poll_ready_def poll_revents_def Some)
qed (use assms in \<open>simp add: poll_revents_def\<close>)

section \<open>Properties\<close>

lemma empty_fds_ready:
  "poll_ready \<lparr>m_epoll_fd = -1, m_fds = empty_fds, m_nfds = 0, m_io_events = Map.empty,
     m_timer_queue = q, m_pending_factors = [], m_listening = {}, epoll_interest = Map.empty,
     epoll_ctl_ok = c, epoll_ctl_calls = 0\<rparr>"
  by (simp add: poll_ready_def active_def empty_fds_def events_of_def)

definition small_poll :: "(nat, nat, nat, nat) EventLoopParams" where
  "small_poll = \<lparr>m_epoll_fd = -1, m_fds = empty_fds, m_nfds = 0, m_io_events = Map.empty,
     m_timer_queue = idle_queue, m_pending_factors = [], m_listening = {}, epoll_interest = Map.empty,
     epoll_ctl_ok = (\<lambda>_. True), epoll_ctl_calls = 0\<rparr>"

lemma small_poll_ready: "poll_ready small_poll"
  unfolding small_poll_def by (rule empty_fds_ready)

text \<open>
  C15. The poll loop implements the same contract as the epoll loop: as long as fewer than 1024
  descriptors are registered, \<open>addIoEvent\<close> for one direction returns, and both \<open>delIoEvent\<close>s
  always return; the array handed to \<open>poll\<close> then holds each registered descriptor once, with the
  events stored in \<open>m_io_events\<close>, changed at the given descriptor only.
\<close>

theorem poll_array_agrees:
  assumes "poll_ready l" and "m = EPOLLIN \<or> m = EPOLLOUT"
  shows "(poll_interest l d \<noteq> None \<or> m_nfds l < 1024 \<longrightarrow>
       (\<exists>l'. poll_addIoEvent d c m a l = (Inr (), l') \<and> poll_ready l' \<and>
         poll_interest l' = (poll_interest l)(d \<mapsto> old_mask (poll_interest l d) OR m))) \<and>
     (\<exists>l'. poll_delIoEvent d l = (Inr (), l') \<and> poll_ready l' \<and>
         poll_interest l' = (poll_interest l)(d := None)) \<and>
     (poll_interest l d = Some old \<longrightarrow>
       (\<exists>l'. poll_delIoEventMask d m l = (Inr (), l') \<and> poll_ready l' \<and>
         poll_interest l' = (poll_interest l)(d := left_mask old m)))"
  using poll.add_ok [OF assms(1) _ assms(2)] poll.del_ok [OF assms(1)]
    poll.delMask_ok [OF assms(1) _ assms(2)]
  by (simp_all add: poll_loop_def poll_room_def)

theorem poll_array_agrees_witness:
  "\<exists>l'. poll_addIoEvent 7 (UserCallback 1) EPOLLIN None small_poll = (Inr (), l') \<and> poll_ready l' \<and>
     poll_interest l' = (poll_interest small_poll)(7 \<mapsto> EPOLLIN)"
  using poll_array_agrees [OF small_poll_ready, of EPOLLIN 7 "UserCallback 1" None]
  by (simp add: small_poll_def poll_interest_def active_def empty_fds_def events_of_def)

text \<open>
  A callback that registers a new descriptor while the loop walks over the array makes the
  loop read the new entry in the same pass: \<open>m_nfds\<close> has grown, and the \<open>revents\<close> of the new entry
  was never written. Here the callback of the only registered descriptor adds one more.
\<close>

theorem poll_reads_fresh_entry:
  assumes r: "poll_ready l" and nfds: "m_nfds l = 1" and p: "m_fds l ! 0 = p"
    and rev: "pfd_revents p = Some (ucast EPOLLIN)" and ev: "m_io_events l (pfd_fd p) = Some ev"
    and new: "m_io_events l d = None"
    and cb: "\<And>w. call (read_callback ev) (pfd_fd p) (rcb_args ev) (l, w) =
      (case poll_addIoEvent d c EPOLLIN a l of (r, l') \<Rightarrow> (r, (l', w)))"
  shows "fst (poll_events call 0 (l, w)) = Inl (Undefined ''revents not initialised'')"
proof -
  have len: "length (m_fds l) = 1024" using r by (simp add: poll_ready_def)
  have "poll_addIoEvent d c EPOLLIN a l = (Inr (), snd (poll_addIoEvent d c EPOLLIN a l)) \<and>
      m_nfds (snd (poll_addIoEvent d c EPOLLIN a l)) = 2 \<and>
      pfd_revents (m_fds (snd (poll_addIoEvent d c EPOLLIN a l)) ! 1) = None"
    using new nfds len by (simp add: poll_addIoEvent_def Let_def)
  then obtain l' where l': "poll_addIoEvent d c EPOLLIN a l = (Inr (), l')" "m_nfds l' = 2"
    "pfd_revents (m_fds l' ! 1) = None" by metis
  have "(scast (ucast EPOLLIN :: 16 word) :: u32) AND EPOLLIN \<noteq> 0" by (simp add: epoll_flags)
  then have "poll_events call 0 (l, w) = poll_events call 1 (l', w)"
    using nfds p rev ev cb l'(1) by (subst poll_events.simps) (simp add: dispatch_def Let_def)
  also have "\<dots> = (Inl (Undefined ''revents not initialised''), (l', w))"
    using l'(2,3) by (subst poll_events.simps) (simp add: Let_def)
  finally show ?thesis by simp
qed

definition one_entry :: "(nat, nat, nat, nat) EventLoopParams" where
  "one_entry = poll_revents (Some [ucast EPOLLIN])
     (snd (poll_addIoEvent 5 (UserCallback 1) EPOLLIN None small_poll))"

lemma one_entry:
  "poll_ready one_entry \<and> m_nfds one_entry = 1 \<and> pfd_fd (m_fds one_entry ! 0) = 5 \<and>
   pfd_revents (m_fds one_entry ! 0) = Some (ucast EPOLLIN) \<and>
   m_io_events one_entry = [5 \<mapsto> newIOEvent\<lparr>read_callback := Some (UserCallback 1), ev_mask := EPOLLIN\<rparr>]"
proof -
  obtain l where l: "poll_addIoEvent 5 (UserCallback 1) EPOLLIN None small_poll = (Inr (), l)" "poll_ready l"
    using poll_addIoEvent_ok [OF small_poll_ready, of 5 EPOLLIN "UserCallback 1" None]
    by (auto simp: small_poll_def poll_room_def)
  have "m_nfds l = 1 \<and> m_fds l ! 0 = \<lparr>pfd_fd = 5, pfd_events = ucast EPOLLIN, pfd_revents = None\<rparr> \<and>
      length (m_fds l) = 1024 \<and>
      m_io_events l = [5 \<mapsto> newIOEvent\<lparr>read_callback := Some (UserCallback 1), ev_mask := EPOLLIN\<rparr>]"
    using l(1) by (auto simp: poll_addIoEvent_def small_poll_def Let_def empty_fds_def POLLIN_def
        epoll_flags newIOEvent_def)
  then show ?thesis
    using poll_revents_ready [OF l(2), of "Some [ucast EPOLLIN]"] l(1)
    by (simp add: one_entry_def poll_revents_def)
qed

theorem poll_reads_fresh_entry_witness:
  "fst (poll_events (\<lambda>c d a (l, w). case poll_addIoEvent 6 (UserCallback 2) EPOLLIN None l of
     (r, l') \<Rightarrow> (r, (l', w))) 0 (one_entry, ())) = Inl (Undefined ''revents not initialised'')"
  by (rule poll_reads_fresh_entry [where d = 6 and c = "UserCallback 2" and a = None and
        p = "m_fds one_entry ! 0" and
        ev = "newIOEvent\<lparr>read_callback := Some (UserCallback 1), ev_mask := EPOLLIN\<rparr>"])
    (use one_entry in simp_all)

end
