(* ===== verification/EventLoopLibevent.thy ===== *)
theory EventLoopLibevent
  imports EventLoop
begin

text \<open>
  The libevent loop (\<open>bsp/bsp_sockets/impl/EventLoopLibevent.cpp\<close>). The library is modelled by what
  the code relies on: \<open>event_new\<close> yields a fresh pointer or null, \<open>event_add\<close> succeeds or not,
  \<open>event_del\<close> and \<open>event_free\<close> need a pointer that is allocated. Which calls succeed is a
  parameter of the state; pointers are numbers, \<open>None\<close> is the null pointer.
\<close>

section \<open>State\<close>

definition EV_READ :: "16 word" where "EV_READ = 0x02"
definition EV_WRITE :: "16 word" where "EV_WRITE = 0x04"
definition EV_SIGNAL :: "16 word" where "EV_SIGNAL = 0x08"

record LibeventIOEvent =
  event_for_read :: "nat option"
  event_for_write :: "nat option"

definition newLibeventIOEvent :: LibeventIOEvent where
  "newLibeventIOEvent = \<lparr>event_for_read = None, event_for_write = None\<rparr>"

text \<open>\<open>live_events\<close>: the allocated events, with descriptor and direction, that the base watches.\<close>

record ('io, 'tcb, 'task, 'arg) EventLoopLibevent =
  "('io, 'tcb, 'task, 'arg) EventLoopParams" +
  m_libevent_io_events :: "fd \<rightharpoonup> LibeventIOEvent"
  live_events :: "nat \<rightharpoonup> fd \<times> 16 word"
  next_event_ptr :: nat
  event_new_ok :: "nat \<Rightarrow> bool"
  event_add_ok :: "nat \<Rightarrow> bool"

section \<open>Registration\<close>

text \<open>\<open>event_del(p); event_free(p);\<close>\<close>

definition event_release ::
  "nat option \<Rightarrow> ('io, 'tcb, 'task, 'arg) EventLoopLibevent \<Rightarrow>
     (('io, 'tcb, 'task, 'arg) EventLoopLibevent, unit) outcome" where
  "event_release p l =
     (case p of
        None \<Rightarrow> (Inl (Undefined ''event_del of a null pointer''), l)
      | Some q \<Rightarrow>
          (if live_events l q = None then (Inl (Undefined ''event_del of a freed event''), l)
           else (Inr (), l\<lparr>live_events := (live_events l)(q := None)\<rparr>)))"

definition libevent_addIoEvent ::
  "fd \<Rightarrow> 'io ioCallback \<Rightarrow> u32 \<Rightarrow> 'arg option \<Rightarrow> ('io, 'tcb, 'task, 'arg) EventLoopLibevent \<Rightarrow>
     (('io, 'tcb, 'task, 'arg) EventLoopLibevent, unit) outcome" where
  "libevent_addIoEvent d proc msk args l =
     (let f_mask = (case m_io_events l d of None \<Rightarrow> msk | Some ev \<Rightarrow> ev_mask ev OR msk);
          ev0 = (case m_io_events l d of None \<Rightarrow> newIOEvent | Some ev \<Rightarrow> ev)\<lparr>ev_mask := f_mask\<rparr>;
          ev1 = (if msk AND EPOLLIN \<noteq> 0 then ev0\<lparr>read_callback := Some proc, rcb_args := args\<rparr>
                 else if msk AND EPOLLOUT \<noteq> 0
                 then ev0\<lparr>write_callback := Some proc, wcb_args := args\<rparr> else ev0);
          events = (if msk AND EPOLLIN \<noteq> 0 then EV_READ
                    else if msk AND EPOLLOUT \<noteq> 0 then EV_WRITE else 0);
          p = next_event_ptr l;
          l1 = l\<lparr>m_io_events := (m_io_events l)(d \<mapsto> ev1), next_event_ptr := p + 1\<rparr>
      in if \<not> event_new_ok l p then (Inl (Throw ''event_new''), l1)
         else if \<not> event_add_ok l p then (Inl (Throw ''event_add''), l1)
         else
           (let le = (case m_libevent_io_events l d of None \<Rightarrow> newLibeventIOEvent | Some le \<Rightarrow> le);
                tbl = (if msk AND EPOLLIN \<noteq> 0
                       then (m_libevent_io_events l)(d \<mapsto> le\<lparr>event_for_read := Some p\<rparr>)
                       else if msk AND EPOLLOUT \<noteq> 0
                       then (m_libevent_io_events l)(d \<mapsto> le\<lparr>event_for_write := Some p\<rparr>)
                       else m_libevent_io_events l)
            in (Inr (), l1\<lparr>live_events := (live_events l)(p \<mapsto> (d, events)),
                           m_libevent_io_events := tbl\<rparr>)))"

definition libevent_delIoEventMask ::
  "fd \<Rightarrow> u32 \<Rightarrow> ('io, 'tcb, 'task, 'arg) EventLoopLibevent \<Rightarrow>
     (('io, 'tcb, 'task, 'arg) EventLoopLibevent, unit) outcome" where
  "libevent_delIoEventMask d msk l =
     (case m_io_events l d of
        None \<Rightarrow> (Inr (), l)
      | Some ev \<Rightarrow>
          (let o_mask = ev_mask ev AND NOT msk;
               l1 = l\<lparr>m_io_events := (m_io_events l)(d \<mapsto> ev\<lparr>ev_mask := o_mask\<rparr>)\<rparr>
           in case m_libevent_io_events l d of
                None \<Rightarrow> (Inl (Undefined ''dereference of end()''), l1)
              | Some le \<Rightarrow>
                  (if o_mask = 0
                   then andthen (event_release (event_for_read le) l1) (\<lambda>_ l2.
                     andthen (event_release (event_for_write le) l2) (\<lambda>_ l3.
                       (Inr (), l3\<lparr>m_io_events := (m_io_events l3)(d := None),
                                   m_listening := m_listening l3 - {d}\<rparr>)))
                   else
                     andthen (if o_mask AND EPOLLIN \<noteq> 0 then event_release (event_for_write le) l1
                              else (Inr (), l1)) (\<lambda>_ l2.
                       if o_mask AND EPOLLOUT \<noteq> 0 then event_release (event_for_read le) l2
                       else (Inr (), l2)))))"

definition libevent_delIoEvent ::
  "fd \<Rightarrow> ('io, 'tcb, 'task, 'arg) EventLoopLibevent \<Rightarrow>
     (('io, 'tcb, 'task, 'arg) EventLoopLibevent, unit) outcome" where
  "libevent_delIoEvent d l =
     (case m_io_events l d of
        None \<Rightarrow> (Inr (), l)
      | Some ev \<Rightarrow>
          (case m_libevent_io_events l d of
             None \<Rightarrow> (Inl (Undefined ''dereference of end()''), l)
           | Some le \<Rightarrow>
               andthen
                 (if event_for_read le \<noteq> None then event_release (event_for_read le) l
                  else if event_for_write le \<noteq> None then event_release (event_for_write le) l
                  else (Inr (), l))
                 (\<lambda>_ l2. (Inr (), l2\<lparr>m_io_events := (m_io_events l2)(d := None),
                                    m_listening := m_listening l2 - {d}\<rparr>))))"

definition libevent_getAllListenings :: "('io, 'tcb, 'task, 'arg) EventLoopLibevent \<Rightarrow> fd set" where
  "libevent_getAllListenings l = m_listening l"

text \<open>The task and timer operations have the bodies of the epoll loop's.\<close>

definition libevent_addTask where "libevent_addTask = loop_addTask"
definition libevent_runTask where "libevent_runTask = loop_runTask"
definition libevent_runAt where "libevent_runAt = loop_runAt"
definition libevent_runAfter where "libevent_runAfter = loop_runAfter"
definition libevent_runEvery where "libevent_runEvery = loop_runEvery"
definition libevent_delTimer where "libevent_delTimer = loop_delTimer"

text \<open>
  The constructor does not use \<open>addIoEvent\<close>: it allocates the timer's event itself. Whether
  \<open>event_base_new\<close> succeeds is the argument \<open>base_ok\<close>.
\<close>

definition newEventLoopLibevent ::
  "bool \<Rightarrow> fd \<Rightarrow> (nat \<Rightarrow> bool) \<Rightarrow> (nat \<Rightarrow> bool) \<Rightarrow>
     ('io, 'tcb, 'task, 'arg) EventLoopLibevent result" where
  "newEventLoopLibevent base_ok tfd new_ok add_ok =
     (case newTimerQueue tfd of
        Inl e \<Rightarrow> Inl e
      | Inr q \<Rightarrow>
          (if \<not> base_ok then Inl (Throw ''event_base_new'')
           else if \<not> new_ok 0 then Inl (Throw ''event_new'')
           else if \<not> add_ok 0 then Inl (Throw ''event_add'')
           else Inr \<lparr>m_epoll_fd = -1, m_fds = [], m_nfds = 0, m_io_events = Map.empty,
                     m_timer_queue = q, m_pending_factors = [], m_listening = {},
                     epoll_interest = Map.empty, epoll_ctl_ok = (\<lambda>_. True), epoll_ctl_calls = 0,
                     m_libevent_io_events = Map.empty, live_events = [0 \<mapsto> (tfd, EV_READ)],
                     next_event_ptr = 1, event_new_ok = new_ok, event_add_ok = add_ok\<rparr>))"

section \<open>Callbacks\<close>

text \<open>
  \<open>lib_callback\<close>: \<open>m_io_events[fd]\<close> inserts an empty entry when there is none; an empty callback is
  only reported on \<open>std::cerr\<close>. \<open>what\<close> must be exactly one flag.
\<close>

definition lib_callback ::
  "('io ioCallback option \<Rightarrow> fd \<Rightarrow> 'arg option \<Rightarrow> ('io, 'tcb, 'task, 'arg) EventLoopLibevent \<times> 'w \<Rightarrow>
      (('io, 'tcb, 'task, 'arg) EventLoopLibevent \<times> 'w, unit) outcome) \<Rightarrow>
   fd \<Rightarrow> 16 word \<Rightarrow> ('io, 'tcb, 'task, 'arg) EventLoopLibevent \<times> 'w \<Rightarrow>
      (('io, 'tcb, 'task, 'arg) EventLoopLibevent \<times> 'w, unit) outcome" where
  "lib_callback call d what s =
     (let l = fst s; ev = (case m_io_events l d of None \<Rightarrow> newIOEvent | Some ev \<Rightarrow> ev);
          s1 = (l\<lparr>m_io_events := (m_io_events l)(d \<mapsto> ev)\<rparr>, snd s)
      in if what = EV_READ then
           (if read_callback ev \<noteq> None then call (read_callback ev) d (rcb_args ev) s1 else (Inr (), s1))
         else if what = EV_WRITE then
           (if write_callback ev \<noteq> None then call (write_callback ev) d (wcb_args ev) s1 else (Inr (), s1))
         else if what = EV_SIGNAL then
           (if read_callback ev \<noteq> None then call (read_callback ev) d (rcb_args ev) s1
            else if write_callback ev \<noteq> None then call (write_callback ev) d (wcb_args ev) s1
            else (Inr (), s1))
         else (Inr (), s))"

text \<open>
  \<open>processEvents\<close>: each turn \<open>event_base_loop(EVLOOP_ONCE)\<close> calls \<open>lib_callback\<close> (for the timer's own
  event \<open>timerQueueCallback\<close>) for the listed events, or fails (\<open>None\<close>).
\<close>

fun libevent_fire ::
  "('io ioCallback option \<Rightarrow> fd \<Rightarrow> 'arg option \<Rightarrow> ('io, 'tcb, 'task, 'arg) EventLoopLibevent \<times> 'w \<Rightarrow>
      (('io, 'tcb, 'task, 'arg) EventLoopLibevent \<times> 'w, unit) outcome) \<Rightarrow>
   ('tcb \<Rightarrow> 'arg \<Rightarrow> ('io, 'tcb, 'task, 'arg) EventLoopLibevent \<times> 'w \<Rightarrow>
      (('io, 'tcb, 'task, 'arg) EventLoopLibevent \<times> 'w, unit) outcome) \<Rightarrow>
   (fd \<times> 16 word) list \<Rightarrow> ('io, 'tcb, 'task, 'arg) EventLoopLibevent \<times> 'w \<Rightarrow>
      (('io, 'tcb, 'task, 'arg) EventLoopLibevent \<times> 'w, unit) outcome" where
  "libevent_fire call run_timer [] s = (Inr (), s)"
| "libevent_fire call run_timer ((d, what) # fired) s =
     andthen (if d = m_timer_fd (m_timer_queue (fst s)) then timerQueueCallback run_timer s
              else lib_callback call d what s)
       (\<lambda>_ s'. libevent_fire call run_timer fired s')"

fun libevent_processEvents ::
  "('io ioCallback option \<Rightarrow> fd \<Rightarrow> 'arg option \<Rightarrow> ('io, 'tcb, 'task, 'arg) EventLoopLibevent \<times> 'w \<Rightarrow>
      (('io, 'tcb, 'task, 'arg) EventLoopLibevent \<times> 'w, unit) outcome) \<Rightarrow>
   ('tcb \<Rightarrow> 'arg \<Rightarrow> ('io, 'tcb, 'task, 'arg) EventLoopLibevent \<times> 'w \<Rightarrow>
      (('io, 'tcb, 'task, 'arg) EventLoopLibevent \<times> 'w, unit) outcome) \<Rightarrow>
   ('task \<Rightarrow> 'arg \<Rightarrow> ('io, 'tcb, 'task, 'arg) EventLoopLibevent \<times> 'w \<Rightarrow>
      (('io, 'tcb, 'task, 'arg) EventLoopLibevent \<times> 'w, unit) outcome) \<Rightarrow>
   (fd \<times> 16 word) list option list \<Rightarrow> ('io, 'tcb, 'task, 'arg) EventLoopLibevent \<times> 'w \<Rightarrow>
      (('io, 'tcb, 'task, 'arg) EventLoopLibevent \<times> 'w, unit) outcome" where
  "libevent_processEvents call run_timer run_task [] s = (Inl Waiting, s)"
| "libevent_processEvents call run_timer run_task (None # later) s = (Inl (Throw ''event_base_loop''), s)"
| "libevent_processEvents call run_timer run_task (Some fired # later) s =
     andthen (libevent_fire call run_timer fired s) (\<lambda>_ s1.
       andthen (libevent_runTask run_task s1) (\<lambda>_ s2.
         libevent_processEvents call run_timer run_task later s2))"

section \<open>Properties\<close>

text \<open>
  Dropping the last direction of a descriptor that was registered for one direction only has
  no meaning: \<open>delIoEvent(fd, mask)\<close> releases the read and the write event, and the one that was
  never registered is a null pointer.
\<close>

theorem libevent_delMask_null:
  assumes "m_io_events l d = None" and "m_libevent_io_events l d = None"
    and "m = EPOLLIN \<or> m = EPOLLOUT"
    and "libevent_addIoEvent d c m a l = (Inr (), l')"
  shows "fst (libevent_delIoEventMask d m l') = Inl (Undefined ''event_del of a null pointer'')"
  using assms
  by (auto simp: libevent_addIoEvent_def libevent_delIoEventMask_def event_release_def Let_def
      newLibeventIOEvent_def newIOEvent_def epoll_flags split: if_splits)

definition small_libevent :: "(nat, nat, nat, nat) EventLoopLibevent" where
  "small_libevent = (case newEventLoopLibevent True 4 (\<lambda>_. True) (\<lambda>_. True) of Inr l \<Rightarrow> l)"

theorem libevent_delMask_null_witness:
  "\<exists>l'. libevent_addIoEvent 7 (UserCallback 1) EPOLLIN None small_libevent = (Inr (), l') \<and>
     fst (libevent_delIoEventMask 7 EPOLLIN l') = Inl (Undefined ''event_del of a null pointer'')"
proof -
  have "m_io_events small_libevent 7 = None" "m_libevent_io_events small_libevent 7 = None"
    by (simp_all add: small_libevent_def newEventLoopLibevent_def newTimerQueue_def)
  moreover obtain l' where
    "libevent_addIoEvent 7 (UserCallback 1) EPOLLIN None small_libevent = (Inr (), l')"
    by (simp add: small_libevent_def newEventLoopLibevent_def newTimerQueue_def
        libevent_addIoEvent_def Let_def)
  ultimately show ?thesis using libevent_delMask_null [where m = EPOLLIN] by blast
qed

text \<open>
  Removing a descriptor registered for both directions releases the read event only: the write
  event stays with the base, and when it fires \<open>lib_callback\<close> finds no callback.
\<close>

lemma libevent_del_leaks_write:
  assumes "m_io_events l d = Some ev" and "m_libevent_io_events l d = Some le"
    and "event_for_read le = Some p" and "event_for_write le = Some q" and "p \<noteq> q"
    and "live_events l p \<noteq> None" and "live_events l q = Some (d, EV_WRITE)"
  shows "\<exists>l'. libevent_delIoEvent d l = (Inr (), l') \<and> m_io_events l' d = None \<and>
     live_events l' q = Some (d, EV_WRITE)"
  using assms by (auto simp: libevent_delIoEvent_def event_release_def)

text \<open>\<open>m_listening\<close> is only ever erased from: \<open>getAllListenings\<close> of a libevent loop is empty.\<close>

lemma libevent_never_listens:
  assumes "libevent_getAllListenings l = {}"
  shows "libevent_getAllListenings (snd (libevent_addIoEvent d c m a l)) = {}"
    and "libevent_getAllListenings (snd (libevent_delIoEventMask d m l)) = {}"
    and "libevent_getAllListenings (snd (libevent_delIoEvent d l)) = {}"
  using assms
  by (auto simp: libevent_addIoEvent_def libevent_delIoEventMask_def libevent_delIoEvent_def
      event_release_def libevent_getAllListenings_def andthen_def Let_def split: option.splits if_splits)

end
