(* ===== verification/TcpConnection.thy ===== *)
theory TcpConnection
  imports MsgHead IOBuffer EventLoopEpoll EventLoopPoll
begin

text \<open>
  A server connection (\<open>bsp/bsp_sockets/impl/TcpConnection.cpp\<close>): activation, reading and
  dispatching messages, queueing and writing answers, closing.

  A connection acts on itself and on the part of the server it shares with the others, so an
  operation takes and returns the pair of the two. The event loop is any implementation of
  \<open>IEventLoop\<close> (the record \<open>L\<close>), the user's callbacks are in the record \<open>H\<close>; \<open>this\<close> is the
  shared pointer the connection registers as callback argument. System calls are modelled by
  their answers; the bytes handed to the kernel are collected in \<open>wire_out\<close>, the descriptors
  closed in \<open>closed_fds\<close>.
\<close>

section \<open>State\<close>

text \<open>The IO callbacks the server side registers with its loops.\<close>

datatype tcp_io = ConnReadCb | ConnWriteCb | AcceptCb | MsgComingCb

record TcpConnection =
  m_connection_fd :: fd
  m_inbuf_queue :: IOBufferQueue
  m_outbuf_queue :: IOBufferQueue
  wire_out :: bytes

text \<open>What a connection uses of its server, and its loop. \<open>world\<close> is the rest of the program.\<close>

record ('l, 'cb, 'arg, 'w) ServerSide =
  server_expired :: bool
  m_msg_dispatcher :: "('cb, 'arg) MsgDispatcher"
  m_curr_conns :: int
  m_loop :: 'l
  closed_fds :: "fd list"
  world :: 'w

record ('s, 'cb, 'arg) ConnHooks =
  onConnectionEstablish :: "('s \<Rightarrow> ('s, unit) outcome) option"
  onConnectionClose :: "('s \<Rightarrow> ('s, unit) outcome) option"
  run_msg :: "'cb \<Rightarrow> u64 \<Rightarrow> bytes \<Rightarrow> 'arg \<Rightarrow> 's \<Rightarrow> ('s, unit) outcome"
  empty_any :: 'arg

type_synonym ('l, 'cb, 'arg, 'w, 'z) session =
  "TcpConnection \<times> ('l, 'cb, 'arg, 'w, 'z) ServerSide_scheme"

definition newTcpConnection :: "fd \<Rightarrow> TcpConnection" where
  "newTcpConnection conn_fd = \<lparr>m_connection_fd = conn_fd, m_inbuf_queue = empty_queue,
     m_outbuf_queue = empty_queue, wire_out = []\<rparr>"

definition incConnection ::
  "('l, 'cb, 'arg, 'w, 'z) ServerSide_scheme \<Rightarrow> ('l, 'cb, 'arg, 'w, 'z) ServerSide_scheme" where
  "incConnection s = s\<lparr>m_curr_conns := m_curr_conns s + 1\<rparr>"

definition decConnection ::
  "('l, 'cb, 'arg, 'w, 'z) ServerSide_scheme \<Rightarrow> ('l, 'cb, 'arg, 'w, 'z) ServerSide_scheme" where
  "decConnection s = s\<lparr>m_curr_conns := m_curr_conns s - 1\<rparr>"

text \<open>An operation of the loop inside a session.\<close>

definition on_loop ::
  "('l \<Rightarrow> ('l, unit) outcome) \<Rightarrow> ('l, 'cb, 'arg, 'w, 'z) session \<Rightarrow>
     (('l, 'cb, 'arg, 'w, 'z) session, unit) outcome" where
  "on_loop f cs = (case f (m_loop (snd cs)) of (r, l) \<Rightarrow> (r, (fst cs, (snd cs)\<lparr>m_loop := l\<rparr>)))"

definition call_hook :: "('s \<Rightarrow> ('s, unit) outcome) option \<Rightarrow> 's \<Rightarrow> ('s, unit) outcome" where
  "call_hook f s = (case f of None \<Rightarrow> (Inr (), s) | Some g \<Rightarrow> g s)"

section \<open>Operations\<close>

text \<open>\<open>nodelay\<close> is what \<open>setsockopt(TCP_NODELAY)\<close> returns.\<close>

definition activate ::
  "('l, tcp_io, 'tcb, 'task, 'p) IEventLoop \<Rightarrow>
   (('l, 'cb, 'arg, 'w, 'z) session, 'cb, 'arg) ConnHooks \<Rightarrow> 'p \<Rightarrow> fd \<Rightarrow> int \<Rightarrow>
   ('l, 'cb, 'arg, 'w, 'z) session \<Rightarrow> (('l, 'cb, 'arg, 'w, 'z) session, unit) outcome" where
  "activate L H this conn_fd nodelay cs =
     (let cs0 = ((fst cs)\<lparr>m_connection_fd := conn_fd\<rparr>, snd cs) in
      if nodelay < 0 then (Inl (Throw ''setsockopt TCP_NODELAY''), cs0)
      else andthen
        (if \<not> server_expired (snd cs0)
         then andthen (call_hook (onConnectionEstablish H) cs0)
           (\<lambda>_ cs1. (Inr (), (fst cs1, incConnection (snd cs1))))
         else (Inr (), cs0))
        (\<lambda>_ cs2. on_loop (addIoEvent L (m_connection_fd (fst cs2)) (UserCallback ConnReadCb) EPOLLIN
           (Some this)) cs2))"

definition cleanConnection ::
  "('l, tcp_io, 'tcb, 'task, 'p) IEventLoop \<Rightarrow>
   (('l, 'cb, 'arg, 'w, 'z) session, 'cb, 'arg) ConnHooks \<Rightarrow>
   ('l, 'cb, 'arg, 'w, 'z) session \<Rightarrow> (('l, 'cb, 'arg, 'w, 'z) session, unit) outcome" where
  "cleanConnection L H cs =
     andthen
       (if \<not> server_expired (snd cs)
        then andthen (call_hook (onConnectionClose H) cs)
          (\<lambda>_ cs1. (Inr (), (fst cs1, decConnection (snd cs1))))
        else (Inr (), cs))
       (\<lambda>_ cs2. andthen (on_loop (delIoEvent L (m_connection_fd (fst cs2))) cs2) (\<lambda>_ (c, s).
          (Inr (),
            (c\<lparr>m_inbuf_queue := clearBuffers (m_inbuf_queue c),
               m_outbuf_queue := clearBuffers (m_outbuf_queue c), m_connection_fd := -1\<rparr>,
             s\<lparr>closed_fds := closed_fds s @ [m_connection_fd c]\<rparr>))))"

text \<open>
  The loop of \<open>handleRead\<close> over the queued buffers. The callback gets the connection as an
  \<open>ISocketHelper\<close>, which has no access to the input queue, so what it leaves there is what was
  there before.
\<close>

function read_loop ::
  "('l, tcp_io, 'tcb, 'task, 'p) IEventLoop \<Rightarrow>
   (('l, 'cb, 'arg, 'w, 'z) session, 'cb, 'arg) ConnHooks \<Rightarrow>
   ('l, 'cb, 'arg, 'w, 'z) session \<Rightarrow> (('l, 'cb, 'arg, 'w, 'z) session, unit) outcome" where
  "read_loop L H (c, s) =
     (case m_buffers (m_inbuf_queue c) of
        [] \<Rightarrow> (Inr (), (c, s))
      | in_buffer # rest \<Rightarrow>
          (case read_head in_buffer of
             Inl e \<Rightarrow> (Inl e, (c, s))
           | Inr head \<Rightarrow>
               (if MSG_LENGTH_LIMIT < sint (msg_length head) \<or> sint (msg_length head) < 0
                then cleanConnection L H (c, s)
                else if int (length in_buffer) < MSG_HEAD_LENGTH + sint (msg_length head)
                then (Inr (), (c, s))
                else if server_expired s then cleanConnection L H (c, s)
                else if \<not> exist (m_msg_dispatcher s) (cmd_id head) then cleanConnection L H (c, s)
                else
                  (case callbackFunc (empty_any H) (run_msg H) (m_msg_dispatcher s) (cmd_id head)
                      (drop sizeof_msgHead in_buffer) (c, s) of
                     (Inl e, cs') \<Rightarrow> (Inl e, cs')
                   | (Inr _, (c', s')) \<Rightarrow>
                       read_loop L H (c'\<lparr>m_inbuf_queue := \<lparr>m_buffers = rest\<rparr>\<rparr>, s')))))"
  by pat_completeness auto
termination by (relation "measure (\<lambda>(_, _, c, _). length (m_buffers (m_inbuf_queue c)))") auto

declare read_loop.simps [simp del]

definition handleRead ::
  "('l, tcp_io, 'tcb, 'task, 'p) IEventLoop \<Rightarrow>
   (('l, 'cb, 'arg, 'w, 'z) session, 'cb, 'arg) ConnHooks \<Rightarrow> nat sysret \<Rightarrow> bytes sysret list \<Rightarrow>
   ('l, 'cb, 'arg, 'w, 'z) session \<Rightarrow> (('l, 'cb, 'arg, 'w, 'z) session, unit) outcome" where
  "handleRead L H fionread reads cs =
     (case readData fionread reads (m_inbuf_queue (fst cs)) of
        (Inl e, q) \<Rightarrow> (Inl e, ((fst cs)\<lparr>m_inbuf_queue := q\<rparr>, snd cs))
      | (Inr ret, q) \<Rightarrow>
          (let cs1 = ((fst cs)\<lparr>m_inbuf_queue := q\<rparr>, snd cs) in
           if ret \<le> 0 then cleanConnection L H cs1 else read_loop L H cs1))"

text \<open>
  The loop of \<open>handleWrite\<close>: one list of \<open>write\<close> answers per turn. The result says whether the
  loop ended by closing the connection, after which \<open>handleWrite\<close> returns at once.
\<close>

fun write_loop ::
  "('l, tcp_io, 'tcb, 'task, 'p) IEventLoop \<Rightarrow>
   (('l, 'cb, 'arg, 'w, 'z) session, 'cb, 'arg) ConnHooks \<Rightarrow> nat sysret list list \<Rightarrow>
   ('l, 'cb, 'arg, 'w, 'z) session \<Rightarrow> (('l, 'cb, 'arg, 'w, 'z) session, bool) outcome" where
  "write_loop L H writes cs =
     (if getBuffersCount (m_outbuf_queue (fst cs)) = 0 then (Inr False, cs)
      else case writes of
        [] \<Rightarrow> (Inl Waiting, cs)
      | ws # later \<Rightarrow>
          (case writeFd ws (m_outbuf_queue (fst cs)) of
             (Inl e, q) \<Rightarrow> (Inl e, ((fst cs)\<lparr>m_outbuf_queue := q\<rparr>, snd cs))
           | (Inr (ret, out), q) \<Rightarrow>
               (let cs1 = ((fst cs)\<lparr>m_outbuf_queue := q, wire_out := wire_out (fst cs) @ out\<rparr>, snd cs) in
                if ret = -1 then andthen (cleanConnection L H cs1) (\<lambda>_ cs2. (Inr True, cs2))
                else if ret = 0 then (Inr False, cs1)
                else write_loop L H later cs1)))"

declare write_loop.simps [simp del]

definition handleWrite ::
  "('l, tcp_io, 'tcb, 'task, 'p) IEventLoop \<Rightarrow>
   (('l, 'cb, 'arg, 'w, 'z) session, 'cb, 'arg) ConnHooks \<Rightarrow> nat sysret list list \<Rightarrow>
   ('l, 'cb, 'arg, 'w, 'z) session \<Rightarrow> (('l, 'cb, 'arg, 'w, 'z) session, unit) outcome" where
  "handleWrite L H writes cs =
     andthen (write_loop L H writes cs) (\<lambda>closed cs1.
       if closed then (Inr (), cs1)
       else if isEmpty (m_outbuf_queue (fst cs1))
       then on_loop (delIoEventMask L (m_connection_fd (fst cs1)) EPOLLOUT) cs1
       else (Inr (), cs1))"

text \<open>\<open>pad\<close> is the content of the four padding bytes of \<open>msgHead\<close>.\<close>

definition sendData ::
  "('l, tcp_io, 'tcb, 'task, 'p) IEventLoop \<Rightarrow> 'p \<Rightarrow> bytes \<Rightarrow> u64 \<Rightarrow> bytes \<Rightarrow>
   ('l, 'cb, 'arg, 'w, 'z) session \<Rightarrow> (('l, 'cb, 'arg, 'w, 'z) session, int) outcome" where
  "sendData L this pad cmd data cs =
     (let need_listen = isEmpty (m_outbuf_queue (fst cs));
          (ret, q) = queue_sendData (make_msg pad cmd data) (m_outbuf_queue (fst cs));
          cs1 = ((fst cs)\<lparr>m_outbuf_queue := q\<rparr>, snd cs)
      in if ret \<noteq> 0 then (Inr (-1), cs1)
         else andthen
           (if need_listen
            then on_loop (addIoEvent L (m_connection_fd (fst cs1)) (UserCallback ConnWriteCb) EPOLLOUT
              (Some this)) cs1
            else (Inr (), cs1))
           (\<lambda>_ cs2. (Inr 0, cs2)))"

definition getFd :: "TcpConnection \<Rightarrow> fd" where
  "getFd c = m_connection_fd c"

section \<open>What the operations do, over any event loop\<close>

text \<open>
  A registered connection: its loop works, its descriptor is watched for input, and for output
  whenever bytes wait to be written.
\<close>

definition conn_ready ::
  "('l \<Rightarrow> fd \<Rightarrow> u32 option) \<Rightarrow> ('l \<Rightarrow> bool) \<Rightarrow> ('l, 'cb, 'arg, 'w, 'z) session \<Rightarrow> bool" where
  "conn_ready interest ready cs \<longleftrightarrow> ready (m_loop (snd cs)) \<and>
     watches interest (m_loop (snd cs)) (m_connection_fd (fst cs)) EPOLLIN \<and>
     (m_buffers (m_outbuf_queue (fst cs)) \<noteq> [] \<longrightarrow>
        watches interest (m_loop (snd cs)) (m_connection_fd (fst cs)) EPOLLOUT)"

lemma cleanConnection_state:
  assumes "onConnectionClose H = None" and "\<not> server_expired s"
    and "delIoEvent L (m_connection_fd c) (m_loop s) = (Inr (), l)"
  shows "cleanConnection L H (c, s) =
     (Inr (), (c\<lparr>m_inbuf_queue := empty_queue, m_outbuf_queue := empty_queue, m_connection_fd := -1\<rparr>,
               s\<lparr>m_curr_conns := m_curr_conns s - 1, m_loop := l,
                 closed_fds := closed_fds s @ [m_connection_fd c]\<rparr>))"
  using assms
  by (simp add: cleanConnection_def call_hook_def on_loop_def decConnection_def clearBuffers_def
      empty_queue_def)

fun send_all ::
  "('l, tcp_io, 'tcb, 'task, 'p) IEventLoop \<Rightarrow> 'p \<Rightarrow> bytes \<Rightarrow> (u64 \<times> bytes) list \<Rightarrow>
   ('l, 'cb, 'arg, 'w, 'z) session \<Rightarrow> (('l, 'cb, 'arg, 'w, 'z) session, unit) outcome" where
  "send_all L this pad [] cs = (Inr (), cs)"
| "send_all L this pad ((k, d) # msgs) cs =
     andthen (sendData L this pad k d cs) (\<lambda>_ cs'. send_all L this pad msgs cs')"

locale tcp_loop = event_loop L interest ready room
  for L :: "('l, tcp_io, 'tcb, 'task, 'p) IEventLoop"
    and interest :: "'l \<Rightarrow> fd \<Rightarrow> u32 option"
    and ready :: "'l \<Rightarrow> bool"
    and room :: "'l \<Rightarrow> bool"
begin

lemma sendData_ok:
  assumes rdy: "conn_ready interest ready (c, s)"
  shows "\<exists>l. sendData L this pad cmd data (c, s) =
       (Inr 0, (c\<lparr>m_outbuf_queue := appendBuffer (make_msg pad cmd data) (m_outbuf_queue c)\<rparr>,
                s\<lparr>m_loop := l\<rparr>)) \<and>
     conn_ready interest ready
       (c\<lparr>m_outbuf_queue := appendBuffer (make_msg pad cmd data) (m_outbuf_queue c)\<rparr>, s\<lparr>m_loop := l\<rparr>)"
proof -
  obtain w where w: "interest (m_loop s) (m_connection_fd c) = Some w" "w AND EPOLLIN \<noteq> 0"
    using rdy watches_Some by (fastforce simp: conn_ready_def)
  show ?thesis
  proof (cases "isEmpty (m_outbuf_queue c)")
    case True
    obtain l where l: "addIoEvent L (m_connection_fd c) (UserCallback ConnWriteCb) EPOLLOUT (Some this)
        (m_loop s) = (Inr (), l)" "ready l"
      "interest l = (interest (m_loop s))(m_connection_fd c \<mapsto> w OR EPOLLOUT)"
      using add_ok [of "m_loop s" "m_connection_fd c" EPOLLOUT "UserCallback ConnWriteCb" "Some this"]
        rdy w(1) by (auto simp: conn_ready_def)
    have "(w OR EPOLLOUT) AND EPOLLOUT \<noteq> 0" unfolding or_and_absorb by (simp add: epoll_flags)
    then show ?thesis
      using True l or_keeps [OF w(2)]
      by (intro exI [of _ l])
        (simp add: sendData_def queue_sendData_def Let_def on_loop_def conn_ready_def watches_def)
  next
    case False
    have "s\<lparr>m_loop := m_loop s\<rparr> = s" by simp
    then show ?thesis
      using False rdy
      by (intro exI [of _ "m_loop s"])
        (simp add: sendData_def queue_sendData_def Let_def conn_ready_def)
  qed
qed

text \<open>
  \<open>handleWrite\<close> that did not close the connection keeps it ready, and stops asking for output
  exactly when nothing waits.
\<close>

lemma write_loop_keeps:
  "write_loop L H writes (c, s) = (Inr False, (c', s')) \<Longrightarrow>
     s' = s \<and> m_connection_fd c' = m_connection_fd c \<and> m_inbuf_queue c' = m_inbuf_queue c \<and>
     (m_buffers (m_outbuf_queue c) = [] \<longrightarrow> c' = c)"
proof (induction writes arbitrary: c)
  case Nil
  then show ?case by (subst (asm) write_loop.simps) (simp split: if_splits)
next
  case (Cons ws later)
  show ?case
  proof (cases "getBuffersCount (m_outbuf_queue c) = 0")
    case True
    then show ?thesis using Cons.prems by (subst (asm) write_loop.simps) simp
  next
    case False
    then show ?thesis
      using Cons.prems Cons.IH
      by (subst (asm) write_loop.simps)
        (force simp: Let_def andthen_def getBuffersCount_def split: if_splits sum.splits prod.splits)
  qed
qed

lemma handleWrite_ok:
  assumes rdy: "conn_ready interest ready (c, s)"
    and loop: "write_loop L H writes (c, s) = (Inr False, (c', s'))"
  shows "\<exists>l. handleWrite L H writes (c, s) = (Inr (), (c', s\<lparr>m_loop := l\<rparr>)) \<and>
     conn_ready interest ready (c', s\<lparr>m_loop := l\<rparr>) \<and>
     (m_buffers (m_outbuf_queue c') = [] \<longrightarrow> \<not> watches interest l (m_connection_fd c') EPOLLOUT)"
proof -
  have keep: "s' = s" "m_connection_fd c' = m_connection_fd c"
    using write_loop_keeps [OF loop] by auto
  have pend: "m_buffers (m_outbuf_queue c') \<noteq> [] \<Longrightarrow> m_buffers (m_outbuf_queue c) \<noteq> []"
    using write_loop_keeps [OF loop] by auto
  obtain w where w: "interest (m_loop s) (m_connection_fd c) = Some w" "w AND EPOLLIN \<noteq> 0"
    using rdy watches_Some by (fastforce simp: conn_ready_def)
  show ?thesis
  proof (cases "isEmpty (m_outbuf_queue c')")
    case True
    obtain l where l: "delIoEventMask L (m_connection_fd c) EPOLLOUT (m_loop s) = (Inr (), l)" "ready l"
      "interest l = (interest (m_loop s))(m_connection_fd c := left_mask w EPOLLOUT)"
      using delMask_ok [OF _ w(1), of EPOLLOUT] rdy by (auto simp: conn_ready_def)
    have "(w AND NOT EPOLLOUT) AND EPOLLOUT = 0"
      by (rule bit_word_eqI) (auto simp: bit_simps)
    then show ?thesis
      using True l keep loop left_mask_in [OF w(2)]
      by (intro exI [of _ l])
        (simp add: handleWrite_def on_loop_def conn_ready_def watches_def)
  next
    case False
    then show ?thesis
      using keep loop rdy pend
      by (intro exI [of _ "m_loop s"]) (simp add: handleWrite_def conn_ready_def)
  qed
qed

lemma activate_ok:
  assumes "ready (m_loop s)" and "interest (m_loop s) conn_fd \<noteq> None \<or> room (m_loop s)"
    and "\<not> server_expired s" and "onConnectionEstablish H = None" and "0 \<le> nodelay"
    and "m_buffers (m_outbuf_queue c) = []"
  shows "\<exists>l. activate L H this conn_fd nodelay (c, s) =
       (Inr (), (c\<lparr>m_connection_fd := conn_fd\<rparr>, s\<lparr>m_curr_conns := m_curr_conns s + 1, m_loop := l\<rparr>)) \<and>
     conn_ready interest ready
       (c\<lparr>m_connection_fd := conn_fd\<rparr>, s\<lparr>m_curr_conns := m_curr_conns s + 1, m_loop := l\<rparr>)"
proof -
  obtain r l where l: "addIoEvent L conn_fd (UserCallback ConnReadCb) EPOLLIN (Some this) (m_loop s) = (r, l)"
    by (cases "addIoEvent L conn_fd (UserCallback ConnReadCb) EPOLLIN (Some this) (m_loop s)")
  have "r = Inr () \<and> ready l \<and> watches interest l conn_fd EPOLLIN"
    using add_waits [OF assms(1,2) _ l] by simp
  then show ?thesis
    using assms l
    by (intro exI [of _ l])
      (simp add: activate_def Let_def call_hook_def on_loop_def incConnection_def conn_ready_def)
qed

text \<open>Several \<open>sendData\<close> calls in a row.\<close>

lemma send_all_ok:
  assumes "conn_ready interest ready (c, s)"
  shows "\<exists>l. send_all L this pad msgs (c, s) =
       (Inr (), (c\<lparr>m_outbuf_queue := \<lparr>m_buffers = m_buffers (m_outbuf_queue c) @
            map (\<lambda>(k, d). make_msg pad k d) msgs\<rparr>\<rparr>, s\<lparr>m_loop := l\<rparr>)) \<and>
     conn_ready interest ready (c\<lparr>m_outbuf_queue := \<lparr>m_buffers = m_buffers (m_outbuf_queue c) @
            map (\<lambda>(k, d). make_msg pad k d) msgs\<rparr>\<rparr>, s\<lparr>m_loop := l\<rparr>)"
  using assms
proof (induction msgs arbitrary: c s)
  case Nil
  have q: "\<lparr>m_buffers = m_buffers (m_outbuf_queue c)\<rparr> = m_outbuf_queue c"
    by (cases "m_outbuf_queue c") simp
  show ?case using Nil by (intro exI [of _ "m_loop s"]) (simp add: q)
next
  case (Cons kd msgs)
  obtain k d where kd: "kd = (k, d)" by (cases kd)
  let ?c = "c\<lparr>m_outbuf_queue := appendBuffer (make_msg pad k d) (m_outbuf_queue c)\<rparr>"
  obtain l where l: "sendData L this pad k d (c, s) = (Inr 0, (?c, s\<lparr>m_loop := l\<rparr>))"
    "conn_ready interest ready (?c, s\<lparr>m_loop := l\<rparr>)"
    using sendData_ok [OF Cons.prems] by blast
  show ?case using Cons.IH [OF l(2)] l(1) by (simp add: kd)
qed

text \<open>Closing: nothing is watched any more, both queues are empty, the descriptor is closed.\<close>

lemma cleanConnection_ok:
  assumes "ready (m_loop s)" and "\<not> server_expired s" and "onConnectionClose H = None"
  shows "\<exists>l. cleanConnection L H (c, s) =
       (Inr (), (c\<lparr>m_inbuf_queue := empty_queue, m_outbuf_queue := empty_queue, m_connection_fd := -1\<rparr>,
                 s\<lparr>m_curr_conns := m_curr_conns s - 1, m_loop := l,
                   closed_fds := closed_fds s @ [m_connection_fd c]\<rparr>)) \<and>
     ready l \<and> interest l = (interest (m_loop s))(m_connection_fd c := None)"
  using del_ok [OF assms(1), of "m_connection_fd c"] cleanConnection_state [OF assms(3,2)] by metis

end

interpretation epoll_tcp: tcp_loop epoll_loop epoll_interest epoll_ready "\<lambda>_. True"
  by unfold_locales

interpretation poll_tcp: tcp_loop poll_loop poll_interest poll_ready poll_room
  by unfold_locales

section \<open>Writing\<close>

text \<open>When the kernel takes every buffer whole, the bytes go out in the order they were queued.\<close>

lemma write_loop_all:
  assumes "m_buffers (m_outbuf_queue c) = bs" and "\<forall>b \<in> set bs. b \<noteq> []"
  shows "write_loop L H (map (\<lambda>b. [Ok (length b)]) bs) (c, s) =
     (Inr False, (c\<lparr>m_outbuf_queue := \<lparr>m_buffers = []\<rparr>, wire_out := wire_out c @ concat bs\<rparr>, s))"
  using assms
proof (induction bs arbitrary: c)
  case Nil
  have q: "\<lparr>m_buffers = []\<rparr> = m_outbuf_queue c" using Nil by (cases "m_outbuf_queue c") simp
  show ?case using Nil by (subst write_loop.simps) (simp add: q getBuffersCount_def)
next
  case (Cons b bs)
  have w: "writeFd [Ok (length b)] (m_outbuf_queue c) =
      (Inr (int (length b), b), (m_outbuf_queue c)\<lparr>m_buffers := bs\<rparr>)"
    using writeFd_ok [OF Cons.prems(1), of "[Ok (length b)]" "length b"] by simp
  let ?c = "c\<lparr>m_outbuf_queue := (m_outbuf_queue c)\<lparr>m_buffers := bs\<rparr>, wire_out := wire_out c @ b\<rparr>"
  have ih: "write_loop L H (map (\<lambda>b. [Ok (length b)]) bs) (?c, s) =
      (Inr False, (?c\<lparr>m_outbuf_queue := \<lparr>m_buffers = []\<rparr>, wire_out := wire_out ?c @ concat bs\<rparr>, s))"
    by (rule Cons.IH) (use Cons.prems in auto)
  show ?case
    using Cons.prems w ih by (subst write_loop.simps) (simp add: getBuffersCount_def Let_def)
qed

lemma write_loop_empty:
  "m_buffers (m_outbuf_queue c) = [] \<Longrightarrow> write_loop L H ws (c, s) = (Inr False, (c, s))"
  by (subst write_loop.simps) (simp add: getBuffersCount_def)

text \<open>
  A partial write: the buffer leaves the queue although only a prefix of it went out, and the
  next turn of the loop goes on with the next buffer.
\<close>

lemma write_loop_partial_drops:
  assumes "m_buffers (m_outbuf_queue c) = [b]" and "0 < n" and "n < length b"
  shows "write_loop L H [[Ok n]] (c, s) =
     (Inr False, (c\<lparr>m_outbuf_queue := \<lparr>m_buffers = []\<rparr>, wire_out := wire_out c @ take n b\<rparr>, s))"
proof -
  have "writeFd [Ok n] (m_outbuf_queue c) = (Inr (int n, take n b), (m_outbuf_queue c)\<lparr>m_buffers := []\<rparr>)"
    using writeFd_ok [OF assms(1), of "[Ok n]" n] by simp
  then show ?thesis
    using assms by (subst write_loop.simps) (simp add: getBuffersCount_def Let_def write_loop_empty)
qed

text \<open>\<open>write\<close> that would block closes the connection.\<close>

lemma handleWrite_EAGAIN_closes:
  assumes "m_buffers (m_outbuf_queue c) = b # bs"
  shows "handleWrite L H [[Err EAGAIN]] (c, s) = cleanConnection L H (c, s)"
proof -
  have w: "writeFd [Err EAGAIN] (m_outbuf_queue c) = (Inr (-1, []), m_outbuf_queue c)"
    using writeFd_err [OF assms, of "[Err EAGAIN]" EAGAIN] by simp
  have "c\<lparr>m_outbuf_queue := m_outbuf_queue c, wire_out := wire_out c @ []\<rparr> = c" by simp
  then have "write_loop L H [[Err EAGAIN]] (c, s) =
      andthen (cleanConnection L H (c, s)) (\<lambda>_ cs2. (Inr True, cs2))"
    using w assms by (subst write_loop.simps) (simp add: getBuffersCount_def Let_def)
  then show ?thesis by (simp add: handleWrite_def andthen_assoc)
qed

section \<open>Reading\<close>

text \<open>The next queued buffer is one whole message with a known command.\<close>

lemma read_loop_message:
  assumes "m_buffers (m_inbuf_queue c) = make_msg pad k d # rest"
    and "length pad = 4" and "length d \<le> 65524"
    and "\<not> server_expired s" and "exist (m_msg_dispatcher s) k"
  shows "read_loop L H (c, s) =
     (case callbackFunc (empty_any H) (run_msg H) (m_msg_dispatcher s) k d (c, s) of
        (Inl e, cs') \<Rightarrow> (Inl e, cs')
      | (Inr _, (c', s')) \<Rightarrow> read_loop L H (c'\<lparr>m_inbuf_queue := \<lparr>m_buffers = rest\<rparr>\<rparr>, s'))"
proof -
  have len: "sint (msg_length (make_head k d)) = int (length d)"
    using sint_make_head assms(3) by simp
  show ?thesis
    using assms len length_make_msg [OF assms(2), of k d] drop_make_msg [OF assms(2), of k d]
    by (subst read_loop.simps) (simp add: read_head_make_msg msg_consts make_head_def)
qed

lemma read_loop_empty:
  "m_buffers (m_inbuf_queue c) = [] \<Longrightarrow> read_loop L H (c, s) = (Inr (), (c, s))"
  by (subst read_loop.simps) simp

text \<open>One read that delivers exactly one message.\<close>

lemma handleRead_message:
  assumes "m_buffers (m_inbuf_queue c) = []" and "length pad = 4" and "length d \<le> 65524"
    and "\<not> server_expired s" and "exist (m_msg_dispatcher s) k"
    and msg: "b = make_msg pad k d"
  shows "handleRead L H (Ok (length b)) [Ok b] (c, s) =
     (case callbackFunc (empty_any H) (run_msg H) (m_msg_dispatcher s) k d
         (c\<lparr>m_inbuf_queue := \<lparr>m_buffers = [b]\<rparr>\<rparr>, s) of
        (Inl e, cs') \<Rightarrow> (Inl e, cs')
      | (Inr _, (c', s')) \<Rightarrow> (Inr (), (c'\<lparr>m_inbuf_queue := empty_queue\<rparr>, s')))"
proof -
  have "0 < length b" using length_make_msg [OF assms(2)] msg by simp
  then have r: "readData (Ok (length b)) [Ok b] (m_inbuf_queue c) =
      (Inr (int (length b)), \<lparr>m_buffers = [b]\<rparr>)"
    using assms(1) by (cases "m_inbuf_queue c") (simp add: readData_def isFull_iff appendBuffer_def)
  have "read_loop L H (c\<lparr>m_inbuf_queue := \<lparr>m_buffers = [b]\<rparr>\<rparr>, s) =
     (case callbackFunc (empty_any H) (run_msg H) (m_msg_dispatcher s) k d
         (c\<lparr>m_inbuf_queue := \<lparr>m_buffers = [b]\<rparr>\<rparr>, s) of
        (Inl e, cs') \<Rightarrow> (Inl e, cs')
      | (Inr _, (c', s')) \<Rightarrow> read_loop L H (c'\<lparr>m_inbuf_queue := \<lparr>m_buffers = []\<rparr>\<rparr>, s'))"
    by (rule read_loop_message [where pad = pad]) (use assms in simp_all)
  then show ?thesis
    using r \<open>0 < length b\<close>
    by (auto simp: handleRead_def Let_def read_loop_empty empty_queue_def split: prod.splits sum.splits)
qed

section \<open>Properties\<close>

text \<open>A connection on descriptor 7 of an epoll loop, and hooks that record the messages.\<close>

definition demo_side :: "((tcp_io, nat, nat, nat) EventLoopParams, nat, nat, (u64 \<times> bytes) list) ServerSide" where
  "demo_side = \<lparr>server_expired = False,
     m_msg_dispatcher = \<lparr>m_dispatcher = [5 \<mapsto> 1], m_args = [5 \<mapsto> 2]\<rparr>,
     m_curr_conns = 1, m_loop = snd (epoll_addIoEvent 7 (UserCallback ConnReadCb) EPOLLIN None small_loop),
     closed_fds = [], world = []\<rparr>"

definition demo_hooks where
  "demo_hooks = \<lparr>onConnectionEstablish = None, onConnectionClose = None,
     run_msg = (\<lambda>cb k d a (c, s). (Inr (), (c, s\<lparr>world := world s @ [(k, d)]\<rparr>))), empty_any = (0::nat)\<rparr>"

lemma demo_ready: "conn_ready epoll_interest epoll_ready (newTcpConnection 7, demo_side)"
proof -
  obtain l where l: "epoll_addIoEvent 7 (UserCallback ConnReadCb) EPOLLIN None small_loop = (Inr (), l)"
    using epoll_ops_return(1) small_loop_ready unfolding epoll_ready_def by (metis prod.collapse)
  then have "epoll_ready l \<and> watches epoll_interest l 7 EPOLLIN"
    using epoll.add_waits [OF small_loop_ready, of 7 EPOLLIN "UserCallback ConnReadCb" None "Inr ()" l]
    by (simp add: epoll_loop_def)
  then show ?thesis
    using l by (simp add: conn_ready_def demo_side_def newTcpConnection_def empty_queue_def)
qed

text \<open>
  C14. On an epoll loop a connection never holds output that nothing will write: \<open>sendData\<close> on a
  registered connection returns 0 and keeps the connection watched for input, and for output while
  bytes wait; so does \<open>handleWrite\<close> that did not close the connection, and it stops watching for
  output once everything is written.
\<close>

theorem tcp_output_is_watched:
  assumes "conn_ready epoll_interest epoll_ready (c, s)"
  shows "(\<exists>cs'. sendData epoll_loop this pad k d (c, s) = (Inr 0, cs') \<and>
       conn_ready epoll_interest epoll_ready cs') \<and>
     (write_loop epoll_loop H writes (c, s) = (Inr False, cs1) \<longrightarrow>
       (\<exists>c' s'. handleWrite epoll_loop H writes (c, s) = (Inr (), (c', s')) \<and>
         conn_ready epoll_interest epoll_ready (c', s') \<and>
         (watches epoll_interest (m_loop s') (m_connection_fd c') EPOLLOUT \<longleftrightarrow>
            m_buffers (m_outbuf_queue c') \<noteq> [])))"
proof (intro conjI impI)
  show "\<exists>cs'. sendData epoll_loop this pad k d (c, s) = (Inr 0, cs') \<and>
      conn_ready epoll_interest epoll_ready cs'"
    using epoll_tcp.sendData_ok [OF assms] by blast
next
  assume "write_loop epoll_loop H writes (c, s) = (Inr False, cs1)"
  then have "write_loop epoll_loop H writes (c, s) = (Inr False, (fst cs1, snd cs1))" by simp
  from epoll_tcp.handleWrite_ok [OF assms this]
  show "\<exists>c' s'. handleWrite epoll_loop H writes (c, s) = (Inr (), (c', s')) \<and>
      conn_ready epoll_interest epoll_ready (c', s') \<and>
      (watches epoll_interest (m_loop s') (m_connection_fd c') EPOLLOUT \<longleftrightarrow>
         m_buffers (m_outbuf_queue c') \<noteq> [])"
    by (fastforce simp: conn_ready_def)
qed

theorem tcp_output_is_watched_witness:
  "\<exists>cs'. sendData epoll_loop 0 [0, 0, 0, 0] 5 [1, 2] (newTcpConnection 7, demo_side) = (Inr 0, cs') \<and>
     conn_ready epoll_interest epoll_ready cs'"
  using tcp_output_is_watched [OF demo_ready] by blast

text \<open>
  C4. Messages go out whole and in order: after any number of \<open>sendData\<close> calls on a registered
  connection with nothing queued, a \<open>handleWrite\<close> during which the kernel takes every buffer
  returns, has handed the messages, headers included, to the kernel in the order of the calls, and
  leaves the connection watched for input only.
\<close>

theorem tcp_sends_in_order:
  fixes msgs :: "(u64 \<times> bytes) list"
  assumes "conn_ready epoll_interest epoll_ready (c, s)" and "m_buffers (m_outbuf_queue c) = []"
    and "length pad = 4"
  defines "bs \<equiv> map (\<lambda>(k, d). make_msg pad k d) msgs"
  shows "\<exists>cs1 c2 s2. send_all epoll_loop this pad msgs (c, s) = (Inr (), cs1) \<and>
     handleWrite epoll_loop H (map (\<lambda>b. [Ok (length b)]) bs) cs1 = (Inr (), (c2, s2)) \<and>
     wire_out c2 = wire_out c @ concat bs \<and> m_buffers (m_outbuf_queue c2) = [] \<and>
     conn_ready epoll_interest epoll_ready (c2, s2) \<and>
     \<not> watches epoll_interest (m_loop s2) (m_connection_fd c2) EPOLLOUT"
proof -
  let ?c = "c\<lparr>m_outbuf_queue := \<lparr>m_buffers = bs\<rparr>\<rparr>"
  obtain l where l: "send_all epoll_loop this pad msgs (c, s) = (Inr (), (?c, s\<lparr>m_loop := l\<rparr>))"
    "conn_ready epoll_interest epoll_ready (?c, s\<lparr>m_loop := l\<rparr>)"
    using epoll_tcp.send_all_ok [OF assms(1), of this pad msgs] assms(2) by (auto simp: bs_def)
  have "b \<noteq> []" if "b \<in> set bs" for b
    using that make_msg_nonempty [OF assms(3)] by (auto simp: bs_def)
  then have w: "write_loop epoll_loop H (map (\<lambda>b. [Ok (length b)]) bs) (?c, s\<lparr>m_loop := l\<rparr>) =
      (Inr False, (?c\<lparr>m_outbuf_queue := \<lparr>m_buffers = []\<rparr>, wire_out := wire_out ?c @ concat bs\<rparr>,
                   s\<lparr>m_loop := l\<rparr>))"
    by (intro write_loop_all) auto
  from epoll_tcp.handleWrite_ok [OF l(2) w] show ?thesis using l(1) by fastforce
qed

theorem tcp_sends_in_order_witness:
  "\<exists>cs1 c2 s2. send_all epoll_loop 0 [0, 0, 0, 0] [(5, [1, 2])] (newTcpConnection 7, demo_side) = (Inr (), cs1) \<and>
     handleWrite epoll_loop demo_hooks [[Ok 18]] cs1 = (Inr (), (c2, s2)) \<and>
     wire_out c2 = make_msg [0, 0, 0, 0] 5 [1, 2]"
  using tcp_sends_in_order [OF demo_ready, of "[0, 0, 0, 0]" 0 "[(5, [1, 2])]" demo_hooks]
  by (fastforce simp: newTcpConnection_def empty_queue_def length_make_msg)

text \<open>
  What one side sends the other side's callback gets: when a read delivers exactly the bytes
  that \<open>sendData\<close> queued for a command the server knows, \<open>handleRead\<close> calls the callback of that
  command once, with the same command and payload, and the input queue is empty afterwards.
\<close>

theorem tcp_message_roundtrip:
  assumes "sendData L this pad k d (c0, s0) = (Inr 0, (c1, s1))"
    and "m_buffers (m_outbuf_queue c0) = []" and "length pad = 4" and "length d \<le> 65524"
    and "m_buffers (m_outbuf_queue c1) = [b]" and "m_buffers (m_inbuf_queue c) = []"
    and "\<not> server_expired s" and "m_dispatcher (m_msg_dispatcher s) k = Some fn"
    and "m_args (m_msg_dispatcher s) k = Some arg"
  shows "handleRead L' H (Ok (length b)) [Ok b] (c, s) =
     (case run_msg H fn k d arg (c\<lparr>m_inbuf_queue := \<lparr>m_buffers = [b]\<rparr>\<rparr>, s) of
        (Inl e, cs') \<Rightarrow> (Inl e, cs')
      | (Inr _, (c', s')) \<Rightarrow> (Inr (), (c'\<lparr>m_inbuf_queue := empty_queue\<rparr>, s')))"
proof -
  have "m_buffers (m_outbuf_queue c1) = m_buffers (m_outbuf_queue c0) @ [make_msg pad k d]"
    using assms(1) by (auto simp: sendData_def queue_sendData_def appendBuffer_def Let_def on_loop_def
        andthen_def split: if_splits sum.splits prod.splits)
  then have b: "b = make_msg pad k d" using assms(2,5) by simp
  have "exist (m_msg_dispatcher s) k" using assms(8) by (simp add: exist_def)
  from handleRead_message [OF assms(6,3,4,7) this b, of L' H] show ?thesis
    using assms(8,9) by (simp add: callbackFunc_def)
qed

theorem tcp_message_roundtrip_witness:
  "\<exists>cs1 b. sendData epoll_loop 0 [0, 0, 0, 0] 5 [1, 2] (newTcpConnection 7, demo_side) = (Inr 0, cs1) \<and>
     map_prod id (world \<circ> snd)
       (handleRead epoll_loop demo_hooks (Ok (length b)) [Ok b] (newTcpConnection 7, demo_side)) =
       (Inr (), [(5, [1, 2])])"
proof -
  let ?b = "make_msg [0, 0, 0, 0] 5 [1, 2]"
  obtain l where l: "sendData epoll_loop 0 [0, 0, 0, 0] 5 [1, 2] (newTcpConnection 7, demo_side) =
      (Inr 0, ((newTcpConnection 7)\<lparr>m_outbuf_queue := appendBuffer ?b empty_queue\<rparr>, demo_side\<lparr>m_loop := l\<rparr>))"
    using epoll_tcp.sendData_ok [OF demo_ready] by (fastforce simp: newTcpConnection_def)
  from tcp_message_roundtrip [OF l, where b = ?b and c = "newTcpConnection 7" and s = demo_side and
      fn = 1 and arg = 2 and L' = epoll_loop and H = demo_hooks]
  have h: "handleRead epoll_loop demo_hooks (Ok (length ?b)) [Ok ?b] (newTcpConnection 7, demo_side) =
      (Inr (), (newTcpConnection 7, demo_side\<lparr>world := [(5, [1, 2])]\<rparr>))"
    by (simp add: newTcpConnection_def empty_queue_def appendBuffer_def demo_side_def demo_hooks_def)
  show ?thesis by (rule exI, rule exI [of _ ?b], rule conjI, rule l) (simp add: h)
qed



text \<open>
  The completeness check counts 12 bytes for the header although 16 are sent: a message whose
  last bytes (up to four) are missing passes it, and the callback gets the truncated payload.
\<close>

theorem tcp_truncated_message_dispatched:
  assumes "m_buffers (m_inbuf_queue c) = [take (12 + length d) (make_msg pad k d)]"
    and "length pad = 4" and "4 \<le> length d" and "length d \<le> 65524"
    and "\<not> server_expired s" and "exist (m_msg_dispatcher s) k"
  shows "read_loop L H (c, s) =
     (case callbackFunc (empty_any H) (run_msg H) (m_msg_dispatcher s) k (take (length d - 4) d) (c, s) of
        (Inl e, cs') \<Rightarrow> (Inl e, cs')
      | (Inr _, (c', s')) \<Rightarrow> (Inr (), (c'\<lparr>m_inbuf_queue := empty_queue\<rparr>, s')))"
proof -
  let ?b = "take (12 + length d) (make_msg pad k d)"
  have b: "?b = head_bytes pad (make_head k d) @ take (length d - 4) d"
    using assms(2,3) by (simp add: make_msg_def length_head_bytes)
  have rd: "read_head ?b = Inr (make_head k d)" unfolding b by (rule read_head_head_bytes [OF assms(2)])
  have len: "sint (msg_length (make_head k d)) = int (length d)"
    using sint_make_head assms(4) by simp
  have "drop sizeof_msgHead ?b = take (length d - 4) d"
    using assms(2) unfolding b by (simp add: length_head_bytes sizeof_msgHead_def)
  moreover have "length ?b = 12 + length d" using length_make_msg [OF assms(2), of k d] by simp
  ultimately show ?thesis
    using assms(1,4,5,6) rd len
    by (subst read_loop.simps)
      (auto simp: msg_consts make_head_def read_loop_empty empty_queue_def split: sum.splits prod.splits)
qed

theorem tcp_truncated_message_dispatched_witness:
  "map_prod id (world \<circ> snd) (read_loop epoll_loop demo_hooks
     ((newTcpConnection 7)\<lparr>m_inbuf_queue :=
        \<lparr>m_buffers = [take (12 + length [1, 2, 3, 4, 5]) (make_msg [0, 0, 0, 0] 5 [1, 2, 3, 4, 5])]\<rparr>\<rparr>,
      demo_side)) = (Inr (), [(5, [1])])"
  by (subst tcp_truncated_message_dispatched [where pad = "[0, 0, 0, 0]" and d = "[1, 2, 3, 4, 5]" and k = 5])
    (simp_all add: newTcpConnection_def demo_side_def exist_def callbackFunc_def demo_hooks_def)

end
