(* ===== verification/TcpClient.thy ===== *)
theory TcpClient
  imports MsgHead IOBuffer EventLoopEpoll EventLoopPoll
begin

text \<open>
  The TCP client (\<open>bsp/bsp_sockets/TcpClient.hpp\<close>, \<open>impl/TcpClient.cpp\<close>): connecting without
  blocking, reconnecting, sending through the output queue, reading and dispatching, closing.
  As for the server's connections the loop is any \<open>IEventLoop\<close>, the user's functions are the
  record of hooks, and system calls are given by their answers.
\<close>

section \<open>State\<close>

datatype client_io = ClientReadCb | ClientWriteCb | ConnectEventCb

datatype client_timer = ReConnectCb

record TcpClientParams =
  ip_addr :: string
  port :: int
  name :: string

record ('l, 'cb, 'arg, 'w) TcpClient =
  m_client_params :: TcpClientParams
  m_net_connected :: bool
  m_sockfd :: fd
  client_loop :: 'l
  m_running :: bool
  client_dispatcher :: "('cb, 'arg) MsgDispatcher"
  client_outbuf :: IOBufferQueue
  client_wire :: bytes
  client_closed :: "fd list"
  client_world :: 'w

record ('s, 'cb, 'arg) ClientHooks =
  m_on_connection_func :: "('s \<Rightarrow> ('s, unit) outcome) option"
  m_on_close_func :: "('s \<Rightarrow> ('s, unit) outcome) option"
  client_run_msg :: "'cb \<Rightarrow> u64 \<Rightarrow> bytes \<Rightarrow> 'arg \<Rightarrow> 's \<Rightarrow> ('s, unit) outcome"
  client_empty_any :: 'arg

text \<open>\<open>inet_aton\<close> is the parameter \<open>ip_ok\<close>; the options have been read into the parameters.\<close>

definition newTcpClient ::
  "(string \<Rightarrow> bool) \<Rightarrow> TcpClientParams \<Rightarrow> 'l \<Rightarrow> 'w \<Rightarrow> ('l, 'cb, 'arg, 'w) TcpClient result" where
  "newTcpClient ip_ok params l w =
     (if \<not> ip_ok (ip_addr params) then Inl (Throw ''ip format'')
      else Inr \<lparr>m_client_params = params, m_net_connected = False, m_sockfd = -1, client_loop = l,
                m_running = False, client_dispatcher = empty_dispatcher, client_outbuf = empty_queue,
                client_wire = [], client_closed = [], client_world = w\<rparr>)"

definition client_on_loop ::
  "('l \<Rightarrow> ('l, 'a) outcome) \<Rightarrow> ('l, 'cb, 'arg, 'w) TcpClient \<Rightarrow>
     (('l, 'cb, 'arg, 'w) TcpClient, 'a) outcome" where
  "client_on_loop f cl = (case f (client_loop cl) of (r, l) \<Rightarrow> (r, cl\<lparr>client_loop := l\<rparr>))"

definition isOutputBufferEmpty :: "('l, 'cb, 'arg, 'w) TcpClient \<Rightarrow> bool" where
  "isOutputBufferEmpty cl = isEmpty (client_outbuf cl)"

definition setNetConnected ::
  "bool \<Rightarrow> ('l, 'cb, 'arg, 'w) TcpClient \<Rightarrow> ('l, 'cb, 'arg, 'w) TcpClient" where
  "setNetConnected connected cl = cl\<lparr>m_net_connected := connected\<rparr>"

definition onConnect ::
  "(('l, 'cb, 'arg, 'w) TcpClient, 'cb, 'arg) ClientHooks \<Rightarrow> ('l, 'cb, 'arg, 'w) TcpClient \<Rightarrow>
     (('l, 'cb, 'arg, 'w) TcpClient, unit) outcome" where
  "onConnect H cl = (case m_on_connection_func H of None \<Rightarrow> (Inr (), cl) | Some f \<Rightarrow> f cl)"

definition onClose ::
  "(('l, 'cb, 'arg, 'w) TcpClient, 'cb, 'arg) ClientHooks \<Rightarrow> ('l, 'cb, 'arg, 'w) TcpClient \<Rightarrow>
     (('l, 'cb, 'arg, 'w) TcpClient, unit) outcome" where
  "onClose H cl = (case m_on_close_func H of None \<Rightarrow> (Inr (), cl) | Some f \<Rightarrow> f cl)"

section \<open>Connecting\<close>

text \<open>
  The part that \<open>doConnect\<close> and \<open>connectEventCallback\<close> share: mark the client connected, call the
  user, watch for input, and for output when something is queued.
\<close>

definition connected ::
  "('l, client_io, client_timer, 'task, 'p) IEventLoop \<Rightarrow>
   (('l, 'cb, 'arg, 'w) TcpClient, 'cb, 'arg) ClientHooks \<Rightarrow> 'p \<Rightarrow> (('l, 'cb, 'arg, 'w) TcpClient \<Rightarrow> fd) \<Rightarrow>
   ('l, 'cb, 'arg, 'w) TcpClient \<Rightarrow> (('l, 'cb, 'arg, 'w) TcpClient, unit) outcome" where
  "connected L H this fd_of cl =
     andthen (onConnect H (setNetConnected True cl)) (\<lambda>_ cl1.
       andthen (client_on_loop (addIoEvent L (fd_of cl1) (UserCallback ClientReadCb) EPOLLIN (Some this)) cl1)
         (\<lambda>_ cl2. if \<not> isOutputBufferEmpty cl2
            then client_on_loop (addIoEvent L (fd_of cl2) (UserCallback ClientWriteCb) EPOLLOUT (Some this)) cl2
            else (Inr (), cl2)))"

text \<open>\<open>sock\<close> and \<open>conn\<close> are the answers of \<open>socket\<close> and \<open>connect\<close>.\<close>

definition doConnect ::
  "('l, client_io, client_timer, 'task, 'p) IEventLoop \<Rightarrow>
   (('l, 'cb, 'arg, 'w) TcpClient, 'cb, 'arg) ClientHooks \<Rightarrow> 'p \<Rightarrow> fd \<Rightarrow> unit sysret \<Rightarrow>
   ('l, 'cb, 'arg, 'w) TcpClient \<Rightarrow> (('l, 'cb, 'arg, 'w) TcpClient, unit) outcome" where
  "doConnect L H this sock conn cl =
     (let cl0 = (if m_sockfd cl \<noteq> -1
                 then cl\<lparr>client_closed := client_closed cl @ [m_sockfd cl], m_sockfd := -1\<rparr> else cl);
          cl1 = cl0\<lparr>m_sockfd := sock\<rparr>
      in if sock = -1 then (Inl (Throw ''socket()''), cl1)
         else case conn of
           Ok _ \<Rightarrow> connected L H this m_sockfd cl1
         | Err EINPROGRESS \<Rightarrow>
             client_on_loop (addIoEvent L sock (UserCallback ConnectEventCb) EPOLLOUT (Some this)) cl1
         | Err _ \<Rightarrow> (Inl (Throw ''connect()''), cl1))"

text \<open>\<open>so_error\<close> is what \<open>getsockopt(SO_ERROR)\<close> stores, \<open>now\<close> the time of the reconnection timer.\<close>

definition connectEventCallback ::
  "('l, client_io, client_timer, 'task, 'p) IEventLoop \<Rightarrow>
   (('l, 'cb, 'arg, 'w) TcpClient, 'cb, 'arg) ClientHooks \<Rightarrow> 'p \<Rightarrow> fd \<Rightarrow> int \<Rightarrow> u64 \<times> u64 \<Rightarrow>
   ('l, 'cb, 'arg, 'w) TcpClient \<Rightarrow> (('l, 'cb, 'arg, 'w) TcpClient, unit) outcome" where
  "connectEventCallback L H this d so_error now cl =
     andthen (client_on_loop (delIoEvent L d) cl) (\<lambda>_ cl1.
       if so_error = 0 then connected L H this (\<lambda>_. d) cl1
       else andthen (client_on_loop (runAfter L now ReConnectCb this 2 0) cl1) (\<lambda>_ cl2. (Inr (), cl2)))"

definition reConnectCallback where
  "reConnectCallback L H this sock conn cl = doConnect L H this sock conn cl"

definition client_cleanConnection ::
  "('l, client_io, client_timer, 'task, 'p) IEventLoop \<Rightarrow>
   (('l, 'cb, 'arg, 'w) TcpClient, 'cb, 'arg) ClientHooks \<Rightarrow> 'p \<Rightarrow> fd \<Rightarrow> unit sysret \<Rightarrow>
   ('l, 'cb, 'arg, 'w) TcpClient \<Rightarrow> (('l, 'cb, 'arg, 'w) TcpClient, unit) outcome" where
  "client_cleanConnection L H this sock conn cl =
     andthen
       (if m_sockfd cl \<noteq> -1
        then andthen (client_on_loop (delIoEvent L (m_sockfd cl)) cl) (\<lambda>_ cl1.
          (Inr (), cl1\<lparr>client_closed := client_closed cl1 @ [m_sockfd cl1], m_sockfd := -1\<rparr>))
        else (Inr (), cl))
       (\<lambda>_ cl2. andthen (onClose H (setNetConnected False cl2)) (\<lambda>_ cl3.
          doConnect L H this sock conn cl3))"

text \<open>\<open>startLoop\<close> ends in \<open>processEvents\<close>, which is the loop's own.\<close>

definition client_startLoop ::
  "('l, client_io, client_timer, 'task, 'p) IEventLoop \<Rightarrow>
   (('l, 'cb, 'arg, 'w) TcpClient, 'cb, 'arg) ClientHooks \<Rightarrow> 'p \<Rightarrow> fd \<Rightarrow> unit sysret \<Rightarrow>
   (('l, 'cb, 'arg, 'w) TcpClient \<Rightarrow> (('l, 'cb, 'arg, 'w) TcpClient, unit) outcome) \<Rightarrow>
   ('l, 'cb, 'arg, 'w) TcpClient \<Rightarrow> (('l, 'cb, 'arg, 'w) TcpClient, unit) outcome" where
  "client_startLoop L H this sock conn process cl =
     (if m_running cl then (Inr (), cl)
      else andthen (doConnect L H this sock conn cl) (\<lambda>_ cl1. process (cl1\<lparr>m_running := True\<rparr>)))"

definition client_stop ::
  "('l, client_io, client_timer, 'task, 'p) IEventLoop \<Rightarrow> ('l, 'cb, 'arg, 'w) TcpClient \<Rightarrow>
     (('l, 'cb, 'arg, 'w) TcpClient, unit) outcome" where
  "client_stop L cl =
     (if \<not> m_running cl then (Inr (), cl)
      else andthen
        (if m_sockfd cl \<noteq> -1
         then andthen (client_on_loop (delIoEvent L (m_sockfd cl)) cl) (\<lambda>_ cl1.
           (Inr (), cl1\<lparr>client_closed := client_closed cl1 @ [m_sockfd cl1], m_sockfd := -1\<rparr>))
         else (Inr (), cl))
        (\<lambda>_ cl2. (Inr (), cl2\<lparr>m_running := False\<rparr>)))"

section \<open>Sending and receiving\<close>

definition client_sendData ::
  "('l, client_io, client_timer, 'task, 'p) IEventLoop \<Rightarrow> 'p \<Rightarrow> bytes \<Rightarrow> u64 \<Rightarrow> bytes \<Rightarrow>
   ('l, 'cb, 'arg, 'w) TcpClient \<Rightarrow> (('l, 'cb, 'arg, 'w) TcpClient, int) outcome" where
  "client_sendData L this pad cmd data cl =
     (if \<not> m_net_connected cl then (Inr (-1), cl)
      else if isFull (client_outbuf cl) then (Inr (-1), cl)
      else
        (let need = isEmpty (client_outbuf cl);
             (ret, q) = queue_sendData (make_msg pad cmd data) (client_outbuf cl);
             cl1 = cl\<lparr>client_outbuf := q\<rparr>
         in if ret \<noteq> 0 then (Inr (-1), cl1)
            else andthen
              (if need
               then client_on_loop (addIoEvent L (m_sockfd cl1) (UserCallback ClientWriteCb) EPOLLOUT
                 (Some this)) cl1
               else (Inr (), cl1))
              (\<lambda>_ cl2. (Inr 0, cl2))))"

text \<open>
  \<open>handleRead\<close>: one \<open>read\<close> of everything the kernel has, taken as one message. \<open>sock\<close> and \<open>conn\<close>
  are the answers for the reconnection when the connection is cleaned.
\<close>

definition client_handleRead ::
  "('l, client_io, client_timer, 'task, 'p) IEventLoop \<Rightarrow>
   (('l, 'cb, 'arg, 'w) TcpClient, 'cb, 'arg) ClientHooks \<Rightarrow> 'p \<Rightarrow> fd \<Rightarrow> unit sysret \<Rightarrow>
   nat sysret \<Rightarrow> bytes sysret list \<Rightarrow>
   ('l, 'cb, 'arg, 'w) TcpClient \<Rightarrow> (('l, 'cb, 'arg, 'w) TcpClient, int) outcome" where
  "client_handleRead L H this sock conn fionread reads cl =
     (if \<not> m_net_connected cl then (Inr (-1), cl)
      else case fionread of
        Err _ \<Rightarrow> (Inr (-1), cl)
      | Ok rn \<Rightarrow>
          (case eintr_retry reads of
             None \<Rightarrow> (Inl Waiting, cl)
           | Some (Err e) \<Rightarrow>
               (if e = EAGAIN then (Inl (Abort ''errno != EAGAIN''), cl)
                else andthen (client_cleanConnection L H this sock conn cl) (\<lambda>_ cl1. (Inr (-1), cl1)))
           | Some (Ok buffer) \<Rightarrow>
               (if 0 < length buffer \<and> length buffer = rn
                then
                  (case read_head buffer of
                     Inl f \<Rightarrow> (Inl f, cl)
                   | Inr head \<Rightarrow>
                       (if \<not> exist (client_dispatcher cl) (cmd_id head)
                        then andthen (client_cleanConnection L H this sock conn cl) (\<lambda>_ cl1. (Inr (-1), cl1))
                        else andthen
                          (callbackFunc (client_empty_any H) (client_run_msg H) (client_dispatcher cl)
                             (cmd_id head) (drop sizeof_msgHead buffer) cl)
                          (\<lambda>_ cl1. (Inr 0, cl1))))
                else if length buffer = 0
                then andthen (client_cleanConnection L H this sock conn cl) (\<lambda>_ cl1. (Inr (-1), cl1))
                else (Inr (-1), cl))))"

text \<open>
  The loop of \<open>handleWrite\<close>, one list of \<open>write\<close> answers per buffer. \<open>True\<close>: an error closed the
  connection and \<open>handleWrite\<close> returns \<open>-1\<close>.
\<close>

fun client_write_loop ::
  "('l, client_io, client_timer, 'task, 'p) IEventLoop \<Rightarrow>
   (('l, 'cb, 'arg, 'w) TcpClient, 'cb, 'arg) ClientHooks \<Rightarrow> 'p \<Rightarrow> fd \<Rightarrow> unit sysret \<Rightarrow>
   nat sysret list list \<Rightarrow>
   ('l, 'cb, 'arg, 'w) TcpClient \<Rightarrow> (('l, 'cb, 'arg, 'w) TcpClient, bool) outcome" where
  "client_write_loop L H this sock conn writes cl =
     (case m_buffers (client_outbuf cl) of
        [] \<Rightarrow> (Inr False, cl)
      | buffer # rest \<Rightarrow>
          (case writes of
             [] \<Rightarrow> (Inl Waiting, cl)
           | ws # later \<Rightarrow>
               (case eintr_retry ws of
                  None \<Rightarrow> (Inl Waiting, cl)
                | Some (Ok n) \<Rightarrow>
                    (if 0 < n
                     then client_write_loop L H this sock conn later
                       (cl\<lparr>client_outbuf := \<lparr>m_buffers = rest\<rparr>, client_wire := client_wire cl @ take n buffer\<rparr>)
                     else (Inr False, cl))
                | Some (Err e) \<Rightarrow>
                    (if e \<noteq> EAGAIN
                     then andthen (client_cleanConnection L H this sock conn cl) (\<lambda>_ cl1. (Inr True, cl1))
                     else (Inr False, cl)))))"

declare client_write_loop.simps [simp del]

definition client_handleWrite ::
  "('l, client_io, client_timer, 'task, 'p) IEventLoop \<Rightarrow>
   (('l, 'cb, 'arg, 'w) TcpClient, 'cb, 'arg) ClientHooks \<Rightarrow> 'p \<Rightarrow> fd \<Rightarrow> unit sysret \<Rightarrow>
   nat sysret list list \<Rightarrow>
   ('l, 'cb, 'arg, 'w) TcpClient \<Rightarrow> (('l, 'cb, 'arg, 'w) TcpClient, int) outcome" where
  "client_handleWrite L H this sock conn writes cl =
     (if \<not> m_net_connected cl then (Inr (-1), cl)
      else if isEmpty (client_outbuf cl) then (Inr 0, cl)
      else andthen (client_write_loop L H this sock conn writes cl) (\<lambda>closed cl1.
        if closed then (Inr (-1), cl1)
        else if isEmpty (client_outbuf cl1)
        then andthen (client_on_loop (delIoEventMask L (m_sockfd cl1) EPOLLOUT) cl1) (\<lambda>_ cl2. (Inr 0, cl2))
        else (Inr 0, cl1)))"

section \<open>What the operations do, over any event loop\<close>

text \<open>
  A connected client's loop works, its socket is watched for input, and for output whenever
  something is queued.
\<close>

definition client_ready ::
  "('l \<Rightarrow> fd \<Rightarrow> u32 option) \<Rightarrow> ('l \<Rightarrow> bool) \<Rightarrow> ('l, 'cb, 'arg, 'w) TcpClient \<Rightarrow> bool" where
  "client_ready interest ready cl \<longleftrightarrow> ready (client_loop cl) \<and>
     (m_net_connected cl \<longrightarrow>
        watches interest (client_loop cl) (m_sockfd cl) EPOLLIN \<and>
        (m_buffers (client_outbuf cl) \<noteq> [] \<longrightarrow>
           watches interest (client_loop cl) (m_sockfd cl) EPOLLOUT))"

lemma client_write_loop_keeps:
  "client_write_loop L H this sock conn writes cl = (Inr False, cl') \<Longrightarrow>
     client_loop cl' = client_loop cl \<and> m_sockfd cl' = m_sockfd cl \<and>
     m_net_connected cl' = m_net_connected cl \<and>
     (m_buffers (client_outbuf cl) = [] \<longrightarrow> cl' = cl)"
proof (induction writes arbitrary: cl)
  case Nil
  then show ?case by (subst (asm) client_write_loop.simps) (simp split: list.splits)
next
  case (Cons ws later)
  show ?case
  proof (cases "m_buffers (client_outbuf cl)")
    case Nil
    then show ?thesis using Cons.prems by (subst (asm) client_write_loop.simps) simp
  next
    case (Cons b rest)
    then show ?thesis
      using Cons.prems Cons.IH
      by (subst (asm) client_write_loop.simps)
        (fastforce simp: andthen_def split: if_splits option.splits sysret.splits prod.splits sum.splits)
  qed
qed

locale client_side = event_loop L interest ready room
  for L :: "('l, client_io, client_timer, 'task, 'p) IEventLoop"
    and interest :: "'l \<Rightarrow> fd \<Rightarrow> u32 option"
    and ready :: "'l \<Rightarrow> bool"
    and room :: "'l \<Rightarrow> bool"
begin

lemma connected_ok:
  assumes "ready (client_loop cl)" and "interest (client_loop cl) (fd_of cl) \<noteq> None \<or> room (client_loop cl)"
    and "m_on_connection_func H = None" and "fd_of = m_sockfd \<or> (fd_of = (\<lambda>_. d) \<and> d = m_sockfd cl)"
  shows "\<exists>l. connected L H this fd_of cl = (Inr (), cl\<lparr>m_net_connected := True, client_loop := l\<rparr>) \<and>
     client_ready interest ready (cl\<lparr>m_net_connected := True, client_loop := l\<rparr>)"
proof -
  let ?d = "m_sockfd cl"
  have fd: "fd_of cl' = ?d" if "m_sockfd cl' = ?d" for cl' using assms(4) that by auto
  obtain r l1 where add1: "addIoEvent L ?d (UserCallback ClientReadCb) EPOLLIN (Some this) (client_loop cl) = (r, l1)"
    by (cases "addIoEvent L ?d (UserCallback ClientReadCb) EPOLLIN (Some this) (client_loop cl)")
  have l1: "r = Inr ()" "ready l1" "watches interest l1 ?d EPOLLIN"
    using add_waits [OF assms(1) _ _ add1] assms(2) fd by auto
  obtain w where w: "interest l1 ?d = Some w" "w AND EPOLLIN \<noteq> 0" using watches_Some [OF l1(3)] by blast
  show ?thesis
  proof (cases "isOutputBufferEmpty cl")
    case True
    then show ?thesis
      using l1 add1 assms(3) fd
      by (intro exI [of _ l1]) (simp add: connected_def onConnect_def setNetConnected_def
          client_on_loop_def isOutputBufferEmpty_def client_ready_def)
  next
    case False
    obtain l2 where l2: "addIoEvent L ?d (UserCallback ClientWriteCb) EPOLLOUT (Some this) l1 = (Inr (), l2)"
      "ready l2" "interest l2 = (interest l1)(?d \<mapsto> w OR EPOLLOUT)"
      using add_ok [OF l1(2), of ?d EPOLLOUT "UserCallback ClientWriteCb" "Some this"] w(1) by auto
    have "(w OR EPOLLOUT) AND EPOLLOUT \<noteq> 0" unfolding or_and_absorb by (simp add: epoll_flags)
    then show ?thesis
      using False l1 add1 l2 assms(3) fd or_keeps [OF w(2)]
      by (intro exI [of _ l2]) (simp add: connected_def onConnect_def setNetConnected_def
          client_on_loop_def isOutputBufferEmpty_def client_ready_def watches_def)
  qed
qed

text \<open>The connection is established: what was queued meanwhile will be written.\<close>

lemma connect_event_ok:
  assumes "ready (client_loop cl)" and "room (client_loop cl)" and "\<And>l. ready l \<Longrightarrow> room l"
    and "m_on_connection_func H = None"
  shows "\<exists>l. connectEventCallback L H this (m_sockfd cl) 0 now cl =
       (Inr (), cl\<lparr>m_net_connected := True, client_loop := l\<rparr>) \<and>
     client_ready interest ready (cl\<lparr>m_net_connected := True, client_loop := l\<rparr>)"
proof -
  obtain l0 where l0: "delIoEvent L (m_sockfd cl) (client_loop cl) = (Inr (), l0)" "ready l0"
    using del_ok [OF assms(1)] by blast
  obtain l where "connected L H this (\<lambda>_. m_sockfd cl) (cl\<lparr>client_loop := l0\<rparr>) =
      (Inr (), (cl\<lparr>client_loop := l0\<rparr>)\<lparr>m_net_connected := True, client_loop := l\<rparr>) \<and>
      client_ready interest ready ((cl\<lparr>client_loop := l0\<rparr>)\<lparr>m_net_connected := True, client_loop := l\<rparr>)"
    using connected_ok [of "cl\<lparr>client_loop := l0\<rparr>" "\<lambda>_. m_sockfd cl" H "m_sockfd cl" this]
      l0(2) assms(3,4) by auto
  then show ?thesis using l0(1) by (auto simp: connectEventCallback_def client_on_loop_def)
qed

lemma client_sendData_ok:
  assumes rdy: "client_ready interest ready cl" and con: "m_net_connected cl"
    and space: "length (m_buffers (client_outbuf cl)) < 256"
  shows "\<exists>l. client_sendData L this pad cmd data cl = (Inr 0, cl\<lparr>client_outbuf :=
       appendBuffer (make_msg pad cmd data) (client_outbuf cl), client_loop := l\<rparr>) \<and>
     client_ready interest ready (cl\<lparr>client_outbuf :=
       appendBuffer (make_msg pad cmd data) (client_outbuf cl), client_loop := l\<rparr>)"
proof -
  obtain w where w: "interest (client_loop cl) (m_sockfd cl) = Some w" "w AND EPOLLIN \<noteq> 0"
    using rdy con watches_Some by (fastforce simp: client_ready_def)
  have full: "\<not> isFull (client_outbuf cl)" using space by (simp add: isFull_iff)
  show ?thesis
  proof (cases "isEmpty (client_outbuf cl)")
    case True
    obtain l where l: "addIoEvent L (m_sockfd cl) (UserCallback ClientWriteCb) EPOLLOUT (Some this)
        (client_loop cl) = (Inr (), l)" "ready l"
      "interest l = (interest (client_loop cl))(m_sockfd cl \<mapsto> w OR EPOLLOUT)"
      using add_ok [of "client_loop cl" "m_sockfd cl" EPOLLOUT "UserCallback ClientWriteCb" "Some this"]
        rdy w(1) by (auto simp: client_ready_def)
    have "(w OR EPOLLOUT) AND EPOLLOUT \<noteq> 0" unfolding or_and_absorb by (simp add: epoll_flags)
    then show ?thesis
      using True l or_keeps [OF w(2)] con full
      by (intro exI [of _ l])
        (simp add: client_sendData_def queue_sendData_def Let_def client_on_loop_def client_ready_def watches_def)
  next
    case False
    have "cl\<lparr>client_outbuf := q, client_loop := client_loop cl\<rparr> = cl\<lparr>client_outbuf := q\<rparr>" for q by simp
    then show ?thesis
      using False rdy con full
      by (intro exI [of _ "client_loop cl"])
        (simp add: client_sendData_def queue_sendData_def Let_def client_ready_def)
  qed
qed

lemma client_handleWrite_ok:
  assumes rdy: "client_ready interest ready cl" and con: "m_net_connected cl"
    and ne: "m_buffers (client_outbuf cl) \<noteq> []"
    and loop: "client_write_loop L H this sock conn writes cl = (Inr False, cl1)"
  shows "\<exists>l. client_handleWrite L H this sock conn writes cl = (Inr 0, cl1\<lparr>client_loop := l\<rparr>) \<and>
     client_ready interest ready (cl1\<lparr>client_loop := l\<rparr>) \<and>
     (watches interest l (m_sockfd cl1) EPOLLOUT \<longleftrightarrow> m_buffers (client_outbuf cl1) \<noteq> [])"
proof -
  note keep = client_write_loop_keeps [OF loop]
  obtain w where w: "interest (client_loop cl) (m_sockfd cl) = Some w" "w AND EPOLLIN \<noteq> 0"
    using rdy con watches_Some by (fastforce simp: client_ready_def)
  show ?thesis
  proof (cases "isEmpty (client_outbuf cl1)")
    case True
    obtain l where l: "delIoEventMask L (m_sockfd cl) EPOLLOUT (client_loop cl) = (Inr (), l)" "ready l"
      "interest l = (interest (client_loop cl))(m_sockfd cl := left_mask w EPOLLOUT)"
      using delMask_ok [OF _ w(1), of EPOLLOUT] rdy by (auto simp: client_ready_def)
    have "(w AND NOT EPOLLOUT) AND EPOLLOUT = 0"
      by (rule bit_word_eqI) (auto simp: bit_simps)
    then show ?thesis
      using True l keep loop left_mask_in [OF w(2)] con ne
      by (intro exI [of _ l])
        (simp add: client_handleWrite_def client_on_loop_def client_ready_def watches_def)
  next
    case False
    then show ?thesis
      using keep loop rdy con ne
      by (intro exI [of _ "client_loop cl1"]) (simp add: client_handleWrite_def client_ready_def)
  qed
qed

end

interpretation epoll_client: client_side epoll_loop epoll_interest epoll_ready "\<lambda>_. True"
  by unfold_locales

interpretation poll_client: client_side poll_loop poll_interest poll_ready poll_room
  by unfold_locales

section \<open>Properties\<close>

text \<open>A client that has a message queued while it connects on descriptor 9 of an epoll loop.\<close>

definition demo_client ::
  "((client_io, client_timer, nat, nat) EventLoopParams, nat, nat, (u64 \<times> bytes) list) TcpClient" where
  "demo_client = \<lparr>m_client_params = \<lparr>ip_addr = ''127.0.0.1'', port = 8888, name = ''demo''\<rparr>,
     m_net_connected = False, m_sockfd = 9,
     client_loop = \<lparr>m_epoll_fd = 3, m_fds = [], m_nfds = 0, m_io_events = Map.empty,
       m_timer_queue = \<lparr>m_event_list = [], m_position = Map.empty, m_count = 0, m_next_timer_id = 0,
         m_timer_fd = 4, m_pioneer = 0, timerfd_value = (0, 0)\<rparr>,
       m_pending_factors = [], m_listening = {}, epoll_interest = Map.empty,
       epoll_ctl_ok = (\<lambda>_. True), epoll_ctl_calls = 0\<rparr>,
     m_running = True, client_dispatcher = \<lparr>m_dispatcher = [5 \<mapsto> 1], m_args = [5 \<mapsto> 2]\<rparr>,
     client_outbuf = \<lparr>m_buffers = [make_msg [0, 0, 0, 0] 5 [1, 2]]\<rparr>,
     client_wire = [], client_closed = [], client_world = []\<rparr>"

definition client_hooks where
  "client_hooks = \<lparr>m_on_connection_func = None, m_on_close_func = None,
     client_run_msg = (\<lambda>f k d a cl. (Inr (), cl\<lparr>client_world := client_world cl @ [(k, d)]\<rparr>)),
     client_empty_any = (0 :: nat)\<rparr>"

lemma demo_client_ready: "epoll_ready (client_loop demo_client)"
  by (simp add: demo_client_def epoll_inv_defs)

text \<open>
  On an epoll loop a client that is connected never holds output nobody will write. When the
  pending connection is established, the callback marks the client connected and watches its
  socket for input, and for output when something was queued meanwhile; \<open>sendData\<close> (with fewer
  than 256 buffers queued) and a \<open>handleWrite\<close> without a write error keep it so, and
  \<open>handleWrite\<close> stops watching for output exactly when all is written.
\<close>

theorem client_output_is_watched:
  assumes "epoll_ready (client_loop cl)" and "m_on_connection_func H = None"
  shows "(\<exists>cl'. connectEventCallback epoll_loop H this (m_sockfd cl) 0 now cl = (Inr (), cl') \<and>
       m_net_connected cl' \<and> client_outbuf cl' = client_outbuf cl \<and>
       client_ready epoll_interest epoll_ready cl') \<and>
     (client_ready epoll_interest epoll_ready cl \<and> m_net_connected cl \<and>
       length (m_buffers (client_outbuf cl)) < 256 \<longrightarrow>
       (\<exists>cl'. client_sendData epoll_loop this pad k d cl = (Inr 0, cl') \<and>
         m_buffers (client_outbuf cl') = m_buffers (client_outbuf cl) @ [make_msg pad k d] \<and>
         client_ready epoll_interest epoll_ready cl')) \<and>
     (client_ready epoll_interest epoll_ready cl \<and> m_net_connected cl \<and>
       m_buffers (client_outbuf cl) \<noteq> [] \<and>
       client_write_loop epoll_loop H this sock conn writes cl = (Inr False, cl1) \<longrightarrow>
       (\<exists>cl'. client_handleWrite epoll_loop H this sock conn writes cl = (Inr 0, cl') \<and>
         client_outbuf cl' = client_outbuf cl1 \<and> client_ready epoll_interest epoll_ready cl' \<and>
         (watches epoll_interest (client_loop cl') (m_sockfd cl') EPOLLOUT \<longleftrightarrow>
            m_buffers (client_outbuf cl') \<noteq> [])))"
proof (intro conjI impI; (elim conjE)?)
  show "\<exists>cl'. connectEventCallback epoll_loop H this (m_sockfd cl) 0 now cl = (Inr (), cl') \<and>
       m_net_connected cl' \<and> client_outbuf cl' = client_outbuf cl \<and>
       client_ready epoll_interest epoll_ready cl'"
    using epoll_client.connect_event_ok [OF assms(1) TrueI TrueI assms(2), of this now] by fastforce
next
  assume "client_ready epoll_interest epoll_ready cl" "m_net_connected cl"
    "length (m_buffers (client_outbuf cl)) < 256"
  from epoll_client.client_sendData_ok [OF this, of this pad k d]
  show "\<exists>cl'. client_sendData epoll_loop this pad k d cl = (Inr 0, cl') \<and>
       m_buffers (client_outbuf cl') = m_buffers (client_outbuf cl) @ [make_msg pad k d] \<and>
       client_ready epoll_interest epoll_ready cl'"
    by fastforce
next
  assume "client_ready epoll_interest epoll_ready cl" "m_net_connected cl"
    "m_buffers (client_outbuf cl) \<noteq> []"
    "client_write_loop epoll_loop H this sock conn writes cl = (Inr False, cl1)"
  from epoll_client.client_handleWrite_ok [OF this]
  show "\<exists>cl'. client_handleWrite epoll_loop H this sock conn writes cl = (Inr 0, cl') \<and>
       client_outbuf cl' = client_outbuf cl1 \<and> client_ready epoll_interest epoll_ready cl' \<and>
       (watches epoll_interest (client_loop cl') (m_sockfd cl') EPOLLOUT \<longleftrightarrow>
          m_buffers (client_outbuf cl') \<noteq> [])"
    by fastforce
qed

theorem client_output_is_watched_witness:
  "\<exists>cl'. connectEventCallback epoll_loop client_hooks 0 9 0 (0, 0) demo_client = (Inr (), cl') \<and>
     m_net_connected cl' \<and> client_outbuf cl' = client_outbuf demo_client \<and>
     client_ready epoll_interest epoll_ready cl'"
  using client_output_is_watched [OF demo_client_ready, of client_hooks 0 "(0, 0)"]
  by (simp add: client_hooks_def) (simp add: demo_client_def)

text \<open>
  \<open>handleRead\<close> takes everything one \<open>read\<close> delivers for one message. When two messages arrive
  together, the callback of the first gets the second, header and all, as the end of its payload,
  and the callback of the second is not called.
\<close>

theorem client_read_merges_messages:
  assumes "m_net_connected cl" and "length pad = 4" and "length pad2 = 4"
    and "m_dispatcher (client_dispatcher cl) k1 = Some f" and "m_args (client_dispatcher cl) k1 = Some a"
    and b: "b = make_msg pad k1 d1 @ make_msg pad2 k2 d2"
  shows "client_handleRead L H this sock conn (Ok (length b)) [Ok b] cl =
     andthen (client_run_msg H f k1 (d1 @ make_msg pad2 k2 d2) a cl) (\<lambda>_ cl1. (Inr 0, cl1))"
proof -
  have "make_msg pad k1 d1 @ make_msg pad2 k2 d2 = make_msg pad k1 d1 @ make_msg pad2 k2 d2" ..
  have rd: "read_head b = Inr (make_head k1 d1)"
    using read_head_append [OF read_head_make_msg [OF assms(2)]] b by simp
  have "drop sizeof_msgHead b = d1 @ make_msg pad2 k2 d2"
    using assms(2) length_make_msg [OF assms(2), of k1 d1]
    by (simp add: b make_msg_def length_head_bytes sizeof_msgHead_def)
  moreover have "0 < length b" using length_make_msg [OF assms(2), of k1 d1] b by simp
  ultimately show ?thesis
    using assms(1,4,5) rd by (simp add: client_handleRead_def exist_def make_head_def callbackFunc_def)
qed

theorem client_read_merges_messages_witness:
  "map_prod id client_world (client_handleRead epoll_loop client_hooks 0 10 (Ok ())
     (Ok (length (make_msg [0, 0, 0, 0] 5 [1] @ make_msg [0, 0, 0, 0] 5 [2])))
     [Ok (make_msg [0, 0, 0, 0] 5 [1] @ make_msg [0, 0, 0, 0] 5 [2])]
     (demo_client\<lparr>m_net_connected := True\<rparr>)) = (Inr 0, [(5, [1] @ make_msg [0, 0, 0, 0] 5 [2])])"
  by (subst client_read_merges_messages [where f = 1 and a = 2 and ?k1.0 = 5 and pad = "[0, 0, 0, 0]"
        and ?pad2.0 = "[0, 0, 0, 0]" and ?d1.0 = "[1]" and ?k2.0 = 5 and ?d2.0 = "[2]"])
    (simp_all add: demo_client_def client_hooks_def)

text \<open>
  The planned reconnection after two seconds does not happen. When the connection attempt
  failed, the callback unregisters the socket and calls \<open>runAfter\<close>, which adds the timer and then
  ends without returning its result.
\<close>

theorem client_reconnect_undefined:
  assumes "epoll_ready (client_loop cl)" and "so_error \<noteq> 0"
  shows "fst (connectEventCallback epoll_loop H this d so_error now cl) =
     Inl (Undefined ''runAfter ends without return'')"
proof -
  obtain l where "epoll_delIoEvent d (client_loop cl) = (Inr (), l)"
    using epoll_ops_return(3) assms(1) unfolding epoll_ready_def by (metis prod.collapse)
  then show ?thesis
    using assms(2)
    by (simp add: connectEventCallback_def client_on_loop_def epoll_loop_def loop_runAfter_def
        millis_in_range_def)
qed

theorem client_reconnect_undefined_witness:
  "fst (connectEventCallback epoll_loop client_hooks 0 9 111 (0, 0) demo_client) =
     Inl (Undefined ''runAfter ends without return'')"
  by (rule client_reconnect_undefined [OF demo_client_ready]) simp

text \<open>A client that is not connected, or has 256 buffers queued, refuses to send.\<close>

lemma client_sendData_refuses:
  "\<not> m_net_connected cl \<or> 256 \<le> length (m_buffers (client_outbuf cl)) \<Longrightarrow>
     client_sendData L this pad k d cl = (Inr (-1), cl)"
  by (auto simp: client_sendData_def isFull_iff)

text \<open>Cleaning a connection keeps what is queued: it is sent over the next connection.\<close>

lemma client_clean_keeps_output:
  assumes "m_on_close_func H = None" and "m_on_connection_func H = None"
    and "delIoEvent L (m_sockfd cl) (client_loop cl) = (Inr (), l)" and "m_sockfd cl \<noteq> -1"
    and "addIoEvent L sock (UserCallback ConnectEventCb) EPOLLOUT (Some this) l = (Inr (), l')"
    and "sock \<noteq> -1"
  shows "client_cleanConnection L H this sock (Err EINPROGRESS) cl =
     (Inr (), cl\<lparr>client_loop := l', client_closed := client_closed cl @ [m_sockfd cl], m_sockfd := sock,
                 m_net_connected := False\<rparr>)"
  using assms
  by (simp add: client_cleanConnection_def client_on_loop_def onClose_def setNetConnected_def
      doConnect_def Let_def)

end
