(* ===== verification/ThreadPool.thy ===== *)
theory ThreadPool
  imports EventLoop
begin

text \<open>
  The worker threads of the server (\<open>bsp/bsp_sockets/impl/ThreadQueue.hpp\<close>, \<open>ThreadPool.hpp\<close>,
  \<open>ThreadPool.cpp\<close>, and \<open>queueMsg\<close> of \<open>MsgHead.hpp\<close>). A \<open>ThreadQueue\<close> is a mutex-protected queue
  with an \<open>eventfd\<close> that wakes the loop of its thread; each method holds the mutex for its whole
  body and is one step of the interleaving relation below. What a thread does with its messages
  (\<open>onMsgComing\<close>) is modelled with the server, in \<open>TcpServer\<close>.
\<close>

section \<open>Messages between threads\<close>

datatype MSG_TYPE = NEW_CONN | STOP_THD | NEW_TASK

record ('task, 'arg) msgTask =
  task :: 'task
  task_args :: 'arg

text \<open>\<open>connection_fd\<close> has no initialiser: \<open>None\<close> unless the sender sets it.\<close>

record ('task, 'arg) queueMsg =
  cmd_type :: MSG_TYPE
  connection_fd :: "fd option"
  task_handle :: "('task, 'arg) msgTask option"

section \<open>ThreadQueue\<close>

text \<open>\<open>event_count\<close> is the kernel's counter behind the \<open>eventfd\<close>: readable when positive.\<close>

record 'm ThreadQueue =
  m_event_fd :: fd
  m_queue :: "'m list"
  event_count :: nat

definition newThreadQueue :: "fd \<Rightarrow> 'm ThreadQueue result" where
  "newThreadQueue efd =
     (if efd = -1 then Inl (Throw ''m_event_fd(0, EFD_NONBLOCK)'')
      else Inr \<lparr>m_event_fd = efd, m_queue = [], event_count = 0\<rparr>)"

text \<open>
  \<open>write\<close> of 1 to the \<open>eventfd\<close> adds one, or fails when the counter is at its maximum; a failure
  is only logged.
\<close>

definition sendMsg :: "'m \<Rightarrow> 'm ThreadQueue \<Rightarrow> 'm ThreadQueue" where
  "sendMsg item q =
     q\<lparr>m_queue := m_queue q @ [item],
        event_count := (if event_count q < 2 ^ 64 - 2 then event_count q + 1 else event_count q)\<rparr>"

text \<open>\<open>read\<close> resets the counter (and fails, only logged, when it is zero); then the queues swap.\<close>

definition recvMsg :: "'m list \<Rightarrow> 'm ThreadQueue \<Rightarrow> 'm list \<times> 'm ThreadQueue" where
  "recvMsg tmp_queue q = (m_queue q, q\<lparr>m_queue := tmp_queue, event_count := 0\<rparr>)"

definition setLoop ::
  "('l, 'io, 'tcb, 'task, 'p) IEventLoop \<Rightarrow> 'io \<Rightarrow> 'p \<Rightarrow> 'm ThreadQueue \<Rightarrow> 'l \<Rightarrow> ('l, unit) outcome" where
  "setLoop L proc args q l = addIoEvent L (m_event_fd q) (UserCallback proc) EPOLLIN (Some args) l"

text \<open>The destructor: the loop forgets the descriptor, the messages are dropped.\<close>

definition deleteThreadQueue ::
  "('l, 'io, 'tcb, 'task, 'p) IEventLoop \<Rightarrow> 'm ThreadQueue \<Rightarrow> 'l \<Rightarrow> ('l, fd) outcome" where
  "deleteThreadQueue L q l =
     (case delIoEvent L (m_event_fd q) l of
        (Inl e, l') \<Rightarrow> (Inl e, l')
      | (Inr _, l') \<Rightarrow> (Inr (m_event_fd q), l'))"

section \<open>ThreadPool\<close>

record 'm ThreadPool =
  m_curr_index :: nat
  m_thread_cnt :: int
  m_pool :: "'m ThreadQueue list"

text \<open>
  The constructor makes one queue and one detached thread per worker; \<open>efds\<close> are the answers of the
  \<open>eventfd\<close> calls, \<open>joinable\<close> tells which threads started.
\<close>

fun make_queues :: "(fd \<times> bool) list \<Rightarrow> 'm ThreadQueue list result" where
  "make_queues [] = Inr []"
| "make_queues ((efd, joinable) # rest) =
     (case newThreadQueue efd of
        Inl e \<Rightarrow> Inl e
      | Inr q \<Rightarrow> (if \<not> joinable then Inl (Throw ''std::thread create failed'')
                else case make_queues rest of Inl e \<Rightarrow> Inl e | Inr qs \<Rightarrow> Inr (q # qs)))"

definition newThreadPool :: "int \<Rightarrow> (nat \<Rightarrow> fd \<times> bool) \<Rightarrow> 'm ThreadPool result" where
  "newThreadPool thread_cnt start =
     (if thread_cnt \<le> 0 \<or> 30 < thread_cnt then Inl (Throw ''error thread_cnt'')
      else case make_queues (map start [0..<nat thread_cnt]) of
        Inl e \<Rightarrow> Inl e
      | Inr qs \<Rightarrow> Inr \<lparr>m_curr_index = 0, m_thread_cnt = thread_cnt, m_pool = qs\<rparr>)"

text \<open>The position of the queue in the pool stands for the shared pointer to it.\<close>

definition getNextThread :: "'m ThreadPool \<Rightarrow> nat \<times> 'm ThreadPool" where
  "getNextThread p =
     (let i = (if m_thread_cnt p \<le> int (m_curr_index p) then 0 else m_curr_index p)
      in (i, p\<lparr>m_curr_index := i + 1\<rparr>))"

definition send_to :: "nat \<Rightarrow> 'm \<Rightarrow> 'm ThreadPool \<Rightarrow> ('m ThreadPool, unit) outcome" where
  "send_to i item p =
     (if i < length (m_pool p) then (Inr (), p\<lparr>m_pool := (m_pool p)[i := sendMsg item (m_pool p ! i)]\<rparr>)
      else (Inl (Undefined ''m_pool[thd_index]''), p))"

definition pool_runTask ::
  "nat \<Rightarrow> 'task \<Rightarrow> 'arg \<Rightarrow> ('task, 'arg) queueMsg ThreadPool \<Rightarrow>
     (('task, 'arg) queueMsg ThreadPool, unit) outcome" where
  "pool_runTask thd_index t a p =
     send_to thd_index \<lparr>cmd_type = NEW_TASK, connection_fd = None,
       task_handle = Some \<lparr>task = t, task_args = a\<rparr>\<rparr> p"

fun run_on_all ::
  "nat list \<Rightarrow> 'task \<Rightarrow> 'arg \<Rightarrow> ('task, 'arg) queueMsg ThreadPool \<Rightarrow>
     (('task, 'arg) queueMsg ThreadPool, unit) outcome" where
  "run_on_all [] t a p = (Inr (), p)"
| "run_on_all (i # is) t a p = andthen (pool_runTask i t a p) (\<lambda>_ p'. run_on_all is t a p')"

definition pool_runTaskAll ::
  "'task \<Rightarrow> 'arg \<Rightarrow> ('task, 'arg) queueMsg ThreadPool \<Rightarrow>
     (('task, 'arg) queueMsg ThreadPool, unit) outcome" where
  "pool_runTaskAll t a p = run_on_all [0..<nat (m_thread_cnt p)] t a p"

section \<open>Senders and the receiving thread, interleaved\<close>

text \<open>
  A run of a queue: what was sent so far, what the thread took out so far. Any number of threads
  may send; the owner of the queue receives into an empty queue.
\<close>

inductive channel :: "'m ThreadQueue \<Rightarrow> 'm list \<Rightarrow> 'm list \<Rightarrow> bool" where
  chan_new: "newThreadQueue efd = Inr q \<Longrightarrow> channel q [] []"
| chan_send: "channel q sent got \<Longrightarrow> channel (sendMsg m q) (sent @ [m]) got"
| chan_recv: "channel q sent got \<Longrightarrow> recvMsg [] q = (msgs, q') \<Longrightarrow> channel q' sent (got @ msgs)"

inductive_cases channel_cases: "channel q sent got"

lemma channel_inv:
  "channel q sent got \<Longrightarrow> sent = got @ m_queue q \<and> (m_queue q \<noteq> [] \<longrightarrow> 0 < event_count q)"
  by (induction rule: channel.induct)
    (auto simp: newThreadQueue_def sendMsg_def recvMsg_def split: if_splits)

section \<open>Round robin\<close>

definition pool_ok :: "'m ThreadPool \<Rightarrow> bool" where
  "pool_ok p \<longleftrightarrow> 0 < m_thread_cnt p \<and> int (length (m_pool p)) = m_thread_cnt p \<and>
     int (m_curr_index p) \<le> m_thread_cnt p"

fun next_threads :: "nat \<Rightarrow> 'm ThreadPool \<Rightarrow> nat list \<times> 'm ThreadPool" where
  "next_threads 0 p = ([], p)"
| "next_threads (Suc n) p =
     (let (i, p1) = getNextThread p; (is, p2) = next_threads n p1 in (i # is, p2))"

lemma make_queues_length: "make_queues xs = Inr qs \<Longrightarrow> length qs = length xs"
  by (induction xs arbitrary: qs) (auto split: sum.splits if_splits)

lemma newThreadPool_ok: "newThreadPool n start = Inr p \<Longrightarrow> pool_ok p \<and> m_curr_index p = 0 \<and> m_thread_cnt p = n"
  using make_queues_length by (fastforce simp: newThreadPool_def pool_ok_def split: if_splits sum.splits)

lemma getNextThread_index:
  assumes "pool_ok p" and "getNextThread p = (i, p')"
  shows "pool_ok p' \<and> i < length (m_pool p') \<and> m_pool p' = m_pool p \<and> m_thread_cnt p' = m_thread_cnt p \<and>
     m_curr_index p' = i + 1 \<and> i = m_curr_index p mod nat (m_thread_cnt p)"
  using assms by (auto simp: getNextThread_def pool_ok_def Let_def split: if_splits)

lemma next_threads_mod:
  "pool_ok p \<Longrightarrow> fst (next_threads n p) =
     map (\<lambda>j. (m_curr_index p + j) mod nat (m_thread_cnt p)) [0..<n]"
proof (induction n arbitrary: p)
  case (Suc n)
  obtain i p1 where g: "getNextThread p = (i, p1)" by (cases "getNextThread p")
  have i: "pool_ok p1" "m_thread_cnt p1 = m_thread_cnt p" "m_curr_index p1 = i + 1"
    "i = m_curr_index p mod nat (m_thread_cnt p)"
    using getNextThread_index [OF Suc.prems g] by auto
  have "fst (next_threads n p1) = map (\<lambda>j. (i + 1 + j) mod nat (m_thread_cnt p)) [0..<n]"
    using Suc.IH [OF i(1)] i(2,3) by simp
  also have "\<dots> = map (\<lambda>j. (m_curr_index p + Suc j) mod nat (m_thread_cnt p)) [0..<n]"
    unfolding i(4) using mod_add_left_eq [of "m_curr_index p" "nat (m_thread_cnt p)"]
    by (intro map_cong refl) (metis add.assoc plus_1_eq_Suc)
  finally show ?case
    using g i(4) by (simp add: Let_def split_beta map_upt_Suc del: upt_Suc)
qed simp

lemma run_on_all_ok:
  assumes "distinct is" and "\<forall>i \<in> set is. i < length (m_pool p)"
  shows "\<exists>p'. run_on_all is t a p = (Inr (), p') \<and> length (m_pool p') = length (m_pool p) \<and>
     m_thread_cnt p' = m_thread_cnt p \<and> m_curr_index p' = m_curr_index p \<and>
     (\<forall>j < length (m_pool p). m_pool p' ! j = (if j \<in> set is
        then sendMsg \<lparr>cmd_type = NEW_TASK, connection_fd = None,
               task_handle = Some \<lparr>task = t, task_args = a\<rparr>\<rparr> (m_pool p ! j) else m_pool p ! j))"
  using assms
proof (induction "is" arbitrary: p)
  case (Cons i ix)
  let ?m = "\<lparr>cmd_type = NEW_TASK, connection_fd = None, task_handle = Some \<lparr>task = t, task_args = a\<rparr>\<rparr>"
  let ?p = "p\<lparr>m_pool := (m_pool p)[i := sendMsg ?m (m_pool p ! i)]\<rparr>"
  have "\<forall>j \<in> set ix. j < length (m_pool ?p)" "distinct ix" using Cons.prems by auto
  from Cons.IH [OF this(2,1)] show ?case
    using Cons.prems by (auto simp: pool_runTask_def send_to_def nth_list_update)
qed simp

section \<open>Properties\<close>

text \<open>
  C7. Messages between threads are neither lost nor reordered, and a waiting message keeps the
  thread's descriptor readable: in every interleaving of senders and the receiving thread, what
  was received followed by what is queued is exactly what was sent, and a non-empty queue has a
  positive event counter.
\<close>

theorem thread_queue_no_loss:
  assumes "channel q sent got"
  shows "sent = got @ m_queue q \<and> (m_queue q \<noteq> [] \<longrightarrow> 0 < event_count q)"
  using channel_inv [OF assms] .

theorem thread_queue_no_loss_witness:
  "[1, 2] = [] @ m_queue (sendMsg 2 (sendMsg (1 :: nat) \<lparr>m_event_fd = 5, m_queue = [], event_count = 0\<rparr>))"
proof -
  have "channel \<lparr>m_event_fd = 5, m_queue = [], event_count = 0\<rparr> ([] :: nat list) []"
    by (rule chan_new [of 5]) (simp add: newThreadQueue_def)
  from thread_queue_no_loss [OF chan_send [OF chan_send [OF this]], of 1 2] show ?thesis by simp
qed

text \<open>
  \<open>getNextThread\<close> deals out the workers in turn: the \<open>j\<close>-th call on a new pool of \<open>n\<close> threads
  names worker \<open>j mod n\<close>, which exists.
\<close>

theorem getNextThread_round_robin:
  assumes "newThreadPool n start = Inr p"
  shows "fst (next_threads k p) = map (\<lambda>j. j mod nat n) [0..<k] \<and>
     (\<forall>i \<in> set (fst (next_threads k p)). i < length (m_pool p))"
proof -
  have p: "pool_ok p" "m_curr_index p = 0" "m_thread_cnt p = n" using newThreadPool_ok [OF assms] by auto
  then have "length (m_pool p) = nat n" "0 < nat n" by (auto simp: pool_ok_def)
  then show ?thesis using next_threads_mod [OF p(1), of k] p(2,3) by auto
qed

theorem getNextThread_round_robin_witness:
  "fst (next_threads 5 (\<lparr>m_curr_index = 0, m_thread_cnt = 2, m_pool = [\<lparr>m_event_fd = 5, m_queue = [],
     event_count = 0\<rparr>, \<lparr>m_event_fd = 6, m_queue = [], event_count = 0\<rparr>]\<rparr> :: nat ThreadPool)) = [0, 1, 0, 1, 0]"
proof -
  have "newThreadPool 2 (\<lambda>i. (5 + int i, True)) =
      Inr (\<lparr>m_curr_index = 0, m_thread_cnt = 2, m_pool = [\<lparr>m_event_fd = 5, m_queue = [],
        event_count = 0\<rparr>, \<lparr>m_event_fd = 6, m_queue = [], event_count = 0\<rparr>]\<rparr> :: nat ThreadPool)"
    by (simp add: newThreadPool_def newThreadQueue_def upt_rec)
  from getNextThread_round_robin [OF this, of 5] show ?thesis by (simp add: upt_rec)
qed

text \<open>
  \<open>runTask\<close> for the whole pool hands the task to every worker exactly once: it returns, and
  each worker's queue has grown by one \<open>NEW_TASK\<close> message with the task and its argument.
\<close>

theorem runTask_reaches_all:
  assumes "pool_ok p"
  shows "\<exists>p'. pool_runTaskAll t a p = (Inr (), p') \<and> length (m_pool p') = length (m_pool p) \<and>
     (\<forall>j < length (m_pool p). m_queue (m_pool p' ! j) = m_queue (m_pool p ! j) @
        [\<lparr>cmd_type = NEW_TASK, connection_fd = None, task_handle = Some \<lparr>task = t, task_args = a\<rparr>\<rparr>])"
proof -
  have "nat (m_thread_cnt p) = length (m_pool p)" using assms by (auto simp: pool_ok_def)
  then show ?thesis
    using run_on_all_ok [of "[0..<nat (m_thread_cnt p)]" p t a]
    by (auto simp: pool_runTaskAll_def sendMsg_def)
qed

theorem runTask_reaches_all_witness:
  "\<exists>p'. pool_runTaskAll (3 :: nat) (4 :: nat) \<lparr>m_curr_index = 0, m_thread_cnt = 1,
     m_pool = [\<lparr>m_event_fd = 5, m_queue = [], event_count = 0\<rparr>]\<rparr> = (Inr (), p')"
  using runTask_reaches_all [of "\<lparr>m_curr_index = 0, m_thread_cnt = 1,
     m_pool = [\<lparr>m_event_fd = 5, m_queue = [], event_count = 0\<rparr>]\<rparr>" "3 :: nat" "4 :: nat"]
  by (auto simp: pool_ok_def)

end
