(* ===== verification/TcpServer.thy ===== *)
theory TcpServer
  imports TcpConnection ThreadPool
begin

text \<open>
  The TCP server (\<open>bsp/bsp_sockets/TcpServer.hpp\<close>, \<open>impl/TcpServer.cpp\<close>): construction, the
  acceptor with its reserve descriptor and connection limit, the pool of connections indexed by
  descriptor, handing connections to worker threads, and the workers' side of it
  (\<open>onMsgComing\<close> of \<open>impl/ThreadPool.cpp\<close>).

  The server extends \<open>ServerSide\<close>, the part of it that a connection uses. A worker thread has a
  loop of its own; while it runs, its loop stands in for the server's.
\<close>

section \<open>State\<close>

record TcpServerParams =
  ipaddr :: string
  server_port :: int
  thread_num :: int
  max_connections :: int
  pollType :: string

record ('l, 'cb, 'arg, 'w, 'task, 'targ) TcpServer = "('l, 'cb, 'arg, 'w) ServerSide" +
  m_server_params :: TcpServerParams
  server_sockfd :: fd
  m_reservfd :: fd
  m_thread_pool :: "('task, 'targ) queueMsg ThreadPool option"
  m_keep_alive :: bool
  server_running :: bool
  m_conns_size :: int
  m_connections_pool :: "TcpConnection option list"

text \<open>
  The constructor, given the answers of the system calls in their order: \<open>socket\<close>, \<open>open\<close>,
  \<open>inet_aton\<close>, \<open>setsockopt\<close>, \<open>bind\<close>, \<open>listen\<close>, \<open>dup\<close>. \<open>resize\<close> with a negative number asks for more
  elements than a vector can hold.
\<close>

record server_answers =
  ans_socket :: int
  ans_open :: int
  ans_aton :: int
  ans_setsockopt :: int
  ans_bind :: int
  ans_listen :: int
  ans_dup :: int

definition newTcpServer ::
  "server_answers \<Rightarrow> TcpServerParams \<Rightarrow> 'l \<Rightarrow> 'w \<Rightarrow>
     ('l, 'cb, 'arg, 'w, 'task, 'targ) TcpServer result" where
  "newTcpServer a params l w =
     (if ans_socket a < 0 then Inl (Throw ''socket()'')
      else if ans_open a < 0 then Inl (Throw ''open()'')
      else if ans_aton a = 0 then Inl (Throw ''ip format'')
      else if ans_setsockopt a < 0 then Inl (Throw ''setsockopt SO_REUSEADDR'')
      else if ans_bind a < 0 then Inl (Throw ''bind()'')
      else if ans_listen a < 0 then Inl (Throw ''listen()'')
      else let size = max_connections params + ans_dup a in
        if size < 0 then Inl (Throw ''vector::resize'')
        else Inr \<lparr>server_expired = False, m_msg_dispatcher = empty_dispatcher, m_curr_conns = 0,
                  m_loop = l, closed_fds = [ans_dup a], world = w,
                  m_server_params = params, server_sockfd = ans_socket a, m_reservfd = ans_open a,
                  m_thread_pool = None, m_keep_alive = False, server_running = False,
                  m_conns_size = size, m_connections_pool = replicate (nat size) None\<rparr>)"

definition keepAlive ::
  "('l, 'cb, 'arg, 'w, 'task, 'targ) TcpServer \<Rightarrow> ('l, 'cb, 'arg, 'w, 'task, 'targ) TcpServer" where
  "keepAlive srv = srv\<lparr>m_keep_alive := True\<rparr>"

text \<open>\<open>getConnectionNum\<close> returns the \<open>int\<close> counter as a \<open>size_t\<close>.\<close>

definition getConnectionNum :: "('l, 'cb, 'arg, 'w, 'task, 'targ) TcpServer \<Rightarrow> u64" where
  "getConnectionNum srv = word_of_int (m_curr_conns srv)"

definition getConnectionFromPool ::
  "fd \<Rightarrow> ('l, 'cb, 'arg, 'w, 'task, 'targ) TcpServer \<Rightarrow> TcpConnection option result" where
  "getConnectionFromPool d srv =
     (if 0 \<le> d \<and> nat d < length (m_connections_pool srv) then Inr (m_connections_pool srv ! nat d)
      else Inl (Undefined ''m_connections_pool[]''))"

definition insertConnectionToPool ::
  "TcpConnection \<Rightarrow> fd \<Rightarrow> ('l, 'cb, 'arg, 'w, 'task, 'targ) TcpServer \<Rightarrow>
     ('l, 'cb, 'arg, 'w, 'task, 'targ) TcpServer" where
  "insertConnectionToPool c d srv =
     srv\<lparr>m_connections_pool := (m_connections_pool srv)[nat d := Some c]\<rparr>"

section \<open>Accepting\<close>

text \<open>
  The answers one turn of the accept loop may need: \<open>accept\<close>, the reopened reserve descriptor,
  \<open>setsockopt\<close> for keep-alive and for no-delay.
\<close>

record accept_answers =
  ans_accept :: "fd sysret"
  ans_reopen :: fd
  ans_keepalive :: int
  ans_nodelay :: int

text \<open>
  Taking a connection in the server's own thread: the object in the pool is reused, or a new one
  is put there first. The pool holds the object, so what \<open>activate\<close> does to it is stored there,
  also when \<open>activate\<close> throws.
\<close>

definition take_connection ::
  "('l, tcp_io, 'tcb, 'ltask, 'p) IEventLoop \<Rightarrow>
   (TcpConnection \<times> ('l, 'cb, 'arg, 'w, 'task, 'targ) TcpServer, 'cb, 'arg) ConnHooks \<Rightarrow>
   (fd \<Rightarrow> 'p) \<Rightarrow> fd \<Rightarrow> int \<Rightarrow> ('l, 'cb, 'arg, 'w, 'task, 'targ) TcpServer \<Rightarrow>
   (('l, 'cb, 'arg, 'w, 'task, 'targ) TcpServer, unit) outcome" where
  "take_connection L H conn_ptr connfd nodelay srv =
     (case getConnectionFromPool connfd srv of
        Inl e \<Rightarrow> (Inl e, srv)
      | Inr slot \<Rightarrow>
          (let c = (case slot of None \<Rightarrow> newTcpConnection connfd | Some c \<Rightarrow> c)
           in case activate L H (conn_ptr connfd) connfd nodelay (c, srv) of
                (r, (c', srv')) \<Rightarrow> (r, insertConnectionToPool c' connfd srv')))"

text \<open>One accepted descriptor, when the reserve descriptor is not needed.\<close>

definition admit ::
  "('l, tcp_io, 'tcb, 'ltask, 'p) IEventLoop \<Rightarrow>
   (TcpConnection \<times> ('l, 'cb, 'arg, 'w, 'task, 'targ) TcpServer, 'cb, 'arg) ConnHooks \<Rightarrow>
   (fd \<Rightarrow> 'p) \<Rightarrow> accept_answers \<Rightarrow> fd \<Rightarrow> ('l, 'cb, 'arg, 'w, 'task, 'targ) TcpServer \<Rightarrow>
   (('l, 'cb, 'arg, 'w, 'task, 'targ) TcpServer, unit) outcome" where
  "admit L H conn_ptr a connfd srv =
     (if word_of_int (max_connections (m_server_params srv)) \<le> getConnectionNum srv
      then (Inr (), srv\<lparr>closed_fds := closed_fds srv @ [connfd]\<rparr>)
      else if \<not> connfd < m_conns_size srv then (Inl (Abort ''connfd < m_conns_size''), srv)
      else if m_keep_alive srv \<and> ans_keepalive a < 0
      then (Inl (Throw ''setsockopt SO_KEEPALIVE''), srv)
      else case m_thread_pool srv of
        Some pool \<Rightarrow>
          (let (i, pool1) = getNextThread pool in
           case send_to i \<lparr>cmd_type = NEW_CONN, connection_fd = Some connfd, task_handle = None\<rparr> pool1 of
             (r, pool2) \<Rightarrow> (r, srv\<lparr>m_thread_pool := Some pool2\<rparr>))
      | None \<Rightarrow> take_connection L H conn_ptr connfd (ans_nodelay a) srv)"

fun accept_loop ::
  "('l, tcp_io, 'tcb, 'ltask, 'p) IEventLoop \<Rightarrow>
   (TcpConnection \<times> ('l, 'cb, 'arg, 'w, 'task, 'targ) TcpServer, 'cb, 'arg) ConnHooks \<Rightarrow>
   (fd \<Rightarrow> 'p) \<Rightarrow> accept_answers list \<Rightarrow> bool \<Rightarrow> ('l, 'cb, 'arg, 'w, 'task, 'targ) TcpServer \<Rightarrow>
   (('l, 'cb, 'arg, 'w, 'task, 'targ) TcpServer, unit) outcome" where
  "accept_loop L H conn_ptr [] conn_full srv = (Inl Waiting, srv)"
| "accept_loop L H conn_ptr (a # as) conn_full srv =
     (case ans_accept a of
        Err e \<Rightarrow>
          (if e = EINTR then accept_loop L H conn_ptr as conn_full srv
           else if e = EMFILE
           then accept_loop L H conn_ptr as True (srv\<lparr>closed_fds := closed_fds srv @ [m_reservfd srv]\<rparr>)
           else if e = EAGAIN then (Inr (), srv)
           else (Inl (Throw ''accept()''), srv))
      | Ok connfd \<Rightarrow>
          (if conn_full
           then
             (let srv1 = srv\<lparr>closed_fds := closed_fds srv @ [connfd], m_reservfd := ans_reopen a\<rparr> in
              if ans_reopen a = -1 then (Inl (Throw ''open()''), srv1)
              else accept_loop L H conn_ptr as False srv1)
           else andthen (admit L H conn_ptr a connfd srv)
             (\<lambda>_ srv1. accept_loop L H conn_ptr as False srv1)))"

definition doAccept ::
  "('l, tcp_io, 'tcb, 'ltask, 'p) IEventLoop \<Rightarrow>
   (TcpConnection \<times> ('l, 'cb, 'arg, 'w, 'task, 'targ) TcpServer, 'cb, 'arg) ConnHooks \<Rightarrow>
   (fd \<Rightarrow> 'p) \<Rightarrow> accept_answers list \<Rightarrow> ('l, 'cb, 'arg, 'w, 'task, 'targ) TcpServer \<Rightarrow>
   (('l, 'cb, 'arg, 'w, 'task, 'targ) TcpServer, unit) outcome" where
  "doAccept L H conn_ptr as srv = accept_loop L H conn_ptr as False srv"

section \<open>Starting and stopping\<close>

definition server_startLoop ::
  "('l, tcp_io, 'tcb, 'ltask, 'p) IEventLoop \<Rightarrow> 'p \<Rightarrow> (nat \<Rightarrow> fd \<times> bool) \<Rightarrow>
   (('l, 'cb, 'arg, 'w, 'task, 'targ) TcpServer \<Rightarrow>
      (('l, 'cb, 'arg, 'w, 'task, 'targ) TcpServer, unit) outcome) \<Rightarrow>
   ('l, 'cb, 'arg, 'w, 'task, 'targ) TcpServer \<Rightarrow>
   (('l, 'cb, 'arg, 'w, 'task, 'targ) TcpServer, unit) outcome" where
  "server_startLoop L this start process srv =
     (if server_running srv then (Inr (), srv)
      else andthen
        (if 0 < thread_num (m_server_params srv)
         then (case newThreadPool (thread_num (m_server_params srv)) start of
                 Inl e \<Rightarrow> (Inl e, srv)
               | Inr pool \<Rightarrow> (Inr (), srv\<lparr>m_thread_pool := Some pool\<rparr>))
         else (Inr (), srv))
        (\<lambda>_ srv1.
          case addIoEvent L (server_sockfd srv1) (UserCallback AcceptCb) EPOLLIN (Some this) (m_loop srv1) of
            (Inl e, l) \<Rightarrow> (Inl e, srv1\<lparr>m_loop := l\<rparr>)
          | (Inr _, l) \<Rightarrow> process (srv1\<lparr>m_loop := l, server_running := True\<rparr>)))"

definition server_stop ::
  "('l, tcp_io, 'tcb, 'ltask, 'p) IEventLoop \<Rightarrow> ('l, 'cb, 'arg, 'w, 'task, 'targ) TcpServer \<Rightarrow>
   (('l, 'cb, 'arg, 'w, 'task, 'targ) TcpServer, unit) outcome" where
  "server_stop L srv =
     (if \<not> server_running srv then (Inr (), srv)
      else let srv1 = srv\<lparr>m_thread_pool := None\<rparr> in
        case delIoEvent L (server_sockfd srv1) (m_loop srv1) of
          (Inl e, l) \<Rightarrow> (Inl e, srv1\<lparr>m_loop := l\<rparr>)
        | (Inr _, l) \<Rightarrow>
            (Inr (), srv1\<lparr>m_loop := l,
               closed_fds := closed_fds srv1 @ [server_sockfd srv1, m_reservfd srv1],
               server_running := False\<rparr>))"

section \<open>The worker threads\<close>

text \<open>
  \<open>onMsgComing\<close> in a worker with loop \<open>wl\<close>: take a connection over, or register a task with the
  worker's loop. A new connection object goes to the pool after its activation.
\<close>

definition take_in_worker ::
  "('l, tcp_io, 'tcb, 'ltask, 'p) IEventLoop \<Rightarrow>
   (TcpConnection \<times> ('l, 'cb, 'arg, 'w, 'task, 'targ) TcpServer, 'cb, 'arg) ConnHooks \<Rightarrow>
   (fd \<Rightarrow> 'p) \<Rightarrow> fd \<Rightarrow> int \<Rightarrow> 'l \<times> ('l, 'cb, 'arg, 'w, 'task, 'targ) TcpServer \<Rightarrow>
   ('l \<times> ('l, 'cb, 'arg, 'w, 'task, 'targ) TcpServer, unit) outcome" where
  "take_in_worker L H conn_ptr connfd nodelay ws =
     (case ws of (wl, srv) \<Rightarrow>
        (case getConnectionFromPool connfd srv of
           Inl e \<Rightarrow> (Inl e, ws)
         | Inr slot \<Rightarrow>
             (let c = (case slot of None \<Rightarrow> newTcpConnection connfd | Some c \<Rightarrow> c)
              in case activate L H (conn_ptr connfd) connfd nodelay (c, srv\<lparr>m_loop := wl\<rparr>) of
                   (r, (c', srv')) \<Rightarrow>
                     (let srv2 = srv'\<lparr>m_loop := m_loop srv\<rparr>
                      in (r, (m_loop srv',
                              if slot = None \<and> isl r then srv2
                              else insertConnectionToPool c' connfd srv2))))))"

fun process_msgs ::
  "('l, tcp_io, 'tcb, 'task, 'targ) IEventLoop \<Rightarrow>
   (TcpConnection \<times> ('l, 'cb, 'arg, 'w, 'task, 'targ) TcpServer, 'cb, 'arg) ConnHooks \<Rightarrow>
   (fd \<Rightarrow> 'targ) \<Rightarrow> (fd \<Rightarrow> int) \<Rightarrow> ('task, 'targ) queueMsg list \<Rightarrow>
   'l \<times> ('l, 'cb, 'arg, 'w, 'task, 'targ) TcpServer \<Rightarrow>
   ('l \<times> ('l, 'cb, 'arg, 'w, 'task, 'targ) TcpServer, unit) outcome" where
  "process_msgs L H conn_ptr nodelay [] ws = (Inr (), ws)"
| "process_msgs L H conn_ptr nodelay (msg # msgs) ws =
     (if server_expired (snd ws) then (Inr (), ws)
      else case cmd_type msg of
        NEW_CONN \<Rightarrow>
          (case connection_fd msg of
             None \<Rightarrow> (Inl (Undefined ''connection_fd not initialised''), ws)
           | Some d \<Rightarrow> andthen (take_in_worker L H conn_ptr d (nodelay d) ws)
               (\<lambda>_ ws'. process_msgs L H conn_ptr nodelay msgs ws'))
      | NEW_TASK \<Rightarrow>
          (case task_handle msg of
             None \<Rightarrow> (Inl (Undefined ''null task_handle''), ws)
           | Some t \<Rightarrow> process_msgs L H conn_ptr nodelay msgs
               (addTask L (task t) (task_args t) (fst ws), snd ws))
      | STOP_THD \<Rightarrow> process_msgs L H conn_ptr nodelay msgs ws)"

definition onMsgComing ::
  "('l, tcp_io, 'tcb, 'task, 'targ) IEventLoop \<Rightarrow>
   (TcpConnection \<times> ('l, 'cb, 'arg, 'w, 'task, 'targ) TcpServer, 'cb, 'arg) ConnHooks \<Rightarrow>
   (fd \<Rightarrow> 'targ) \<Rightarrow> (fd \<Rightarrow> int) \<Rightarrow> ('task, 'targ) queueMsg ThreadQueue \<Rightarrow>
   'l \<times> ('l, 'cb, 'arg, 'w, 'task, 'targ) TcpServer \<Rightarrow>
   ('task, 'targ) queueMsg ThreadQueue \<times>
     ('l \<times> ('l, 'cb, 'arg, 'w, 'task, 'targ) TcpServer, unit) outcome" where
  "onMsgComing L H conn_ptr nodelay queue ws =
     (case recvMsg [] queue of (msgs, queue') \<Rightarrow> (queue', process_msgs L H conn_ptr nodelay msgs ws))"

text \<open>
  \<open>threadDomain\<close>: a worker makes its loop, registers its queue there and runs the loop; \<open>mk\<close> and
  \<open>process\<close> are the loop's constructor and \<open>processEvents\<close>.
\<close>

definition threadDomain ::
  "('l, tcp_io, 'tcb, 'ltask, 'p) IEventLoop \<Rightarrow> (loop_kind \<Rightarrow> 'l result) \<Rightarrow> string \<Rightarrow> 'p \<Rightarrow>
   'm ThreadQueue \<Rightarrow> ('l \<Rightarrow> 'r result) \<Rightarrow> 'r result" where
  "threadDomain L mk poll_type args q process =
     (case create poll_type of
        Inl e \<Rightarrow> Inl e
      | Inr kind \<Rightarrow>
          (case mk kind of
             Inl e \<Rightarrow> Inl e
           | Inr l \<Rightarrow> (case setLoop L MsgComingCb args q l of
                 (Inl e, _) \<Rightarrow> Inl e
               | (Inr _, l') \<Rightarrow> process l')))"

section \<open>Facts about admission\<close>

text \<open>The limit as the code compares it, for a counter and a limit that are not negative.\<close>

lemma below_limit:
  assumes "0 \<le> n" and "n < 2 ^ 63" and "0 \<le> m" and "m < 2 ^ 63"
  shows "(word_of_int m :: u64) \<le> word_of_int n \<longleftrightarrow> m \<le> n"
  using assms by (simp add: word_le_def uint_word_of_int)

lemma activate_counts:
  assumes "onConnectionEstablish H = None" and "activate L H this d nd (c, srv) = (r, (c', srv'))"
  shows "m_curr_conns srv' \<le> m_curr_conns srv + 1 \<and> m_curr_conns srv \<le> m_curr_conns srv' \<and>
     TcpServer.m_server_params srv' = TcpServer.m_server_params srv \<and>
     m_thread_pool srv' = m_thread_pool srv \<and> m_conns_size srv' = m_conns_size srv \<and>
     m_connections_pool srv' = m_connections_pool srv \<and> m_reservfd srv' = m_reservfd srv \<and>
     closed_fds srv' = closed_fds srv"
  using assms
  by (auto simp: activate_def Let_def call_hook_def on_loop_def incConnection_def
      split: if_splits prod.splits)

lemma take_connection_counts:
  assumes "onConnectionEstablish H = None" and "take_connection L H ptr d nd srv = (r, srv')"
  shows "m_curr_conns srv' \<le> m_curr_conns srv + 1 \<and> m_curr_conns srv \<le> m_curr_conns srv' \<and>
     TcpServer.m_server_params srv' = TcpServer.m_server_params srv \<and>
     m_thread_pool srv' = m_thread_pool srv"
proof (cases "getConnectionFromPool d srv")
  case (Inl e)
  then show ?thesis using assms(2) by (simp add: take_connection_def)
next
  case (Inr slot)
  let ?c = "case slot of None \<Rightarrow> newTcpConnection d | Some c \<Rightarrow> c"
  obtain r1 c1 srv1 where act: "activate L H (ptr d) d nd (?c, srv) = (r1, (c1, srv1))"
    by (metis prod.exhaust)
  have "srv' = insertConnectionToPool c1 d srv1"
    using assms(2) Inr act by (simp add: take_connection_def Let_def)
  then show ?thesis
    using activate_counts [OF assms(1) act] by (simp add: insertConnectionToPool_def)
qed

lemma admit_counts:
  assumes "onConnectionEstablish H = None" and "admit L H ptr a d srv = (r, srv')"
    and "0 \<le> m_curr_conns srv" and "m_curr_conns srv \<le> max_connections (m_server_params srv)"
    and "max_connections (m_server_params srv) < 2 ^ 31"
  shows "0 \<le> m_curr_conns srv' \<and> m_curr_conns srv' \<le> max_connections (m_server_params srv') \<and>
     m_server_params srv' = m_server_params srv"
proof -
  have lim: "word_of_int (max_connections (m_server_params srv)) \<le> getConnectionNum srv \<longleftrightarrow>
      max_connections (m_server_params srv) \<le> m_curr_conns srv"
    unfolding getConnectionNum_def using assms(3-5) by (intro below_limit) auto
  show ?thesis
    using assms(2-4) lim
    by (auto simp: admit_def Let_def dest: take_connection_counts [OF assms(1)]
        split: if_splits option.splits prod.splits)
qed

lemma accept_loop_counts:
  assumes "onConnectionEstablish H = None" and "accept_loop L H ptr as full srv = (r, srv')"
    and "0 \<le> m_curr_conns srv" and "m_curr_conns srv \<le> max_connections (m_server_params srv)"
    and "max_connections (m_server_params srv) < 2 ^ 31"
  shows "0 \<le> m_curr_conns srv' \<and> m_curr_conns srv' \<le> max_connections (m_server_params srv')"
  using assms(2-5)
proof (induction "as" arbitrary: full srv)
  case (Cons a "as")
  show ?case
  proof (cases "ans_accept a")
    case (Err e)
    then show ?thesis
      using Cons.prems Cons.IH [of full srv]
        Cons.IH [of True "srv\<lparr>closed_fds := closed_fds srv @ [m_reservfd srv]\<rparr>"]
      by (auto split: if_splits)
  next
    case (Ok d)
    show ?thesis
    proof (cases full)
      case True
      then show ?thesis
        using Cons.prems Ok
          Cons.IH [of False "srv\<lparr>closed_fds := closed_fds srv @ [d], m_reservfd := ans_reopen a\<rparr>"]
        by (auto simp: Let_def split: if_splits)
    next
      case False
      obtain r1 srv1 where adm: "admit L H ptr a d srv = (r1, srv1)" by (metis prod.exhaust)
      note ok = admit_counts [OF assms(1) adm Cons.prems(2-4)]
      show ?thesis
      proof (cases r1)
        case (Inl e)
        then show ?thesis using Cons.prems Ok False adm ok by auto
      next
        case (Inr u)
        then show ?thesis using Cons.prems Ok False adm ok Cons.IH [of False srv1] by auto
      qed
    qed
  qed
qed simp

section \<open>Properties\<close>

definition demo_server :: "int \<Rightarrow>
    ((tcp_io, nat, nat, nat) EventLoopParams, nat, nat, unit, nat, nat) TcpServer" where
  "demo_server maxc = \<lparr>server_expired = False, m_msg_dispatcher = empty_dispatcher, m_curr_conns = 0,
     m_loop = small_loop, closed_fds = [], world = (),
     m_server_params = \<lparr>ipaddr = ''0.0.0.0'', server_port = 8888, thread_num = 0,
       max_connections = maxc, pollType = ''epoll''\<rparr>,
     server_sockfd = 5, m_reservfd = 6, m_thread_pool = None, m_keep_alive = False,
     server_running = True, m_conns_size = 10, m_connections_pool = replicate 10 None\<rparr>"

definition no_hooks where
  "no_hooks = \<lparr>onConnectionEstablish = None, onConnectionClose = None,
     run_msg = (\<lambda>f k d a s. (Inr (), s)), empty_any = (0 :: nat)\<rparr>"

definition accepted :: "fd sysret \<Rightarrow> accept_answers" where
  "accepted r = \<lparr>ans_accept = r, ans_reopen = 6, ans_keepalive = 0, ans_nodelay = 0\<rparr>"



text \<open>
  With worker threads the limit does not hold: the counter only grows when a worker activates
  the connection, so as long as it is below the limit, \<open>doAccept\<close> hands every one of any number of
  accepted descriptors to the workers and closes none.
\<close>

theorem doAccept_overcommits:
  assumes "m_thread_pool srv = Some pool" and "pool_ok pool"
    and "0 \<le> m_curr_conns srv" and "m_curr_conns srv < max_connections (m_server_params srv)"
    and "max_connections (m_server_params srv) < 2 ^ 31"
    and "\<forall>d \<in> set ds. d < m_conns_size srv" and "\<not> m_keep_alive srv"
  shows "\<exists>pool'. doAccept L H ptr (map (\<lambda>d. accepted (Ok d)) ds @ [accepted (Err EAGAIN)]) srv =
       (Inr (), srv\<lparr>m_thread_pool := Some pool'\<rparr>) \<and>
     sum_list (map (\<lambda>q. length (m_queue q)) (m_pool pool')) =
       sum_list (map (\<lambda>q. length (m_queue q)) (m_pool pool)) + length ds"
  using assms
proof (induction ds arbitrary: srv pool)
  case Nil
  have "srv\<lparr>m_thread_pool := Some pool\<rparr> = srv" using Nil.prems(1) by simp
  then show ?case by (intro exI [of _ pool]) (simp add: doAccept_def accepted_def)
next
  case (Cons d ds)
  obtain i pool1 where g: "getNextThread pool = (i, pool1)" by (cases "getNextThread pool")
  have nx: "pool_ok pool1" "i < length (m_pool pool1)" "m_pool pool1 = m_pool pool"
    "i < length (m_pool pool)"
    using getNextThread_index [OF Cons.prems(2) g] by auto
  let ?m = "\<lparr>cmd_type = NEW_CONN, connection_fd = Some d, task_handle = None\<rparr>"
  let ?pool2 = "pool1\<lparr>m_pool := (m_pool pool1)[i := sendMsg ?m (m_pool pool1 ! i)]\<rparr>"
  let ?srv = "srv\<lparr>m_thread_pool := Some ?pool2\<rparr>"
  have "\<not> word_of_int (max_connections (m_server_params srv)) \<le> getConnectionNum srv"
    unfolding getConnectionNum_def using Cons.prems(3-5) by (subst below_limit) auto
  then have adm: "admit L H ptr (accepted (Ok d)) d srv = (Inr (), ?srv)"
    using Cons.prems g nx by (simp add: admit_def Let_def send_to_def)
  have ok2: "pool_ok ?pool2" using nx by (simp add: pool_ok_def)
  have sum: "sum_list (map (\<lambda>q. length (m_queue q)) (m_pool ?pool2)) =
      Suc (sum_list (map (\<lambda>q. length (m_queue q)) (m_pool pool)))"
    using nx by (simp add: map_update sum_list_update sendMsg_def elem_le_sum_list)
  obtain pool' where ih:
    "doAccept L H ptr (map (\<lambda>d. accepted (Ok d)) ds @ [accepted (Err EAGAIN)]) ?srv =
       (Inr (), ?srv\<lparr>m_thread_pool := Some pool'\<rparr>)"
    "sum_list (map (\<lambda>q. length (m_queue q)) (m_pool pool')) =
       sum_list (map (\<lambda>q. length (m_queue q)) (m_pool ?pool2)) + length ds"
    using Cons.IH [of ?srv ?pool2] ok2 Cons.prems by auto
  have "doAccept L H ptr (map (\<lambda>d. accepted (Ok d)) (d # ds) @ [accepted (Err EAGAIN)]) srv =
      doAccept L H ptr (map (\<lambda>d. accepted (Ok d)) ds @ [accepted (Err EAGAIN)]) ?srv"
    using adm by (simp add: doAccept_def) (simp add: accepted_def)
  then show ?case using ih sum by (intro exI [of _ pool']) simp
qed

text \<open>One worker, limit 1, and two connections that both go to the worker.\<close>

definition one_worker :: "(nat, nat) queueMsg ThreadPool" where
  "one_worker = \<lparr>m_curr_index = 0, m_thread_cnt = 1,
     m_pool = [\<lparr>m_event_fd = 5, m_queue = [], event_count = 0\<rparr>]\<rparr>"

theorem doAccept_overcommits_witness:
  "\<exists>pool'. doAccept epoll_loop no_hooks nat (map (\<lambda>d. accepted (Ok d)) [7, 8] @ [accepted (Err EAGAIN)])
       ((demo_server 1)\<lparr>m_thread_pool := Some one_worker\<rparr>) =
     (Inr (), (demo_server 1)\<lparr>m_thread_pool := Some one_worker, m_thread_pool := Some pool'\<rparr>) \<and>
     sum_list (map (\<lambda>q. length (m_queue q)) (m_pool pool')) = 2"
  using doAccept_overcommits [of "(demo_server 1)\<lparr>m_thread_pool := Some one_worker\<rparr>" one_worker "[7, 8]"
      epoll_loop no_hooks nat]
  by (simp add: demo_server_def one_worker_def pool_ok_def numeral_2_eq_2)

text \<open>
  Running out of descriptors can cost the server its reserve descriptor for good: when
  \<open>accept\<close> answers \<open>EMFILE\<close> and then \<open>EAGAIN\<close> (the peer gave up meanwhile), the reserve
  descriptor is closed, not reopened, and \<open>doAccept\<close> returns with the closed number still stored.
\<close>

theorem reserve_fd_lost:
  assumes "ans_accept a1 = Err EMFILE" and "ans_accept a2 = Err EAGAIN"
  shows "\<exists>srv'. doAccept L H ptr [a1, a2] srv = (Inr (), srv') \<and>
     m_reservfd srv' = m_reservfd srv \<and> last (closed_fds srv') = m_reservfd srv"
  using assms by (simp add: doAccept_def)

theorem reserve_fd_lost_witness:
  "\<exists>srv'. doAccept epoll_loop no_hooks nat [accepted (Err EMFILE), accepted (Err EAGAIN)] (demo_server 1) =
     (Inr (), srv') \<and> m_reservfd srv' = 6 \<and> last (closed_fds srv') = 6"
  using reserve_fd_lost [of "accepted (Err EMFILE)" "accepted (Err EAGAIN)" epoll_loop no_hooks nat
      "demo_server 1"]
  by (simp add: demo_server_def accepted_def)

text \<open>
  The intended course: \<open>EMFILE\<close>, then the waiting connection is accepted on the freed number, closed
  at once, and the reserve descriptor is opened again.
\<close>

lemma reserve_fd_restored:
  assumes "ans_accept a1 = Err EMFILE" and "ans_accept a2 = Ok d" and "ans_reopen a2 = n" and "n \<noteq> -1"
    and "ans_accept a3 = Err EAGAIN"
  shows "doAccept L H ptr [a1, a2, a3] srv = (Inr (), srv\<lparr>closed_fds := closed_fds srv @ [m_reservfd srv, d],
     m_reservfd := n\<rparr>)"
  using assms by (simp add: doAccept_def Let_def)

text \<open>A worker takes a connection over: it is counted and watched by the worker's loop.\<close>

lemma worker_activates:
  assumes "epoll_ready wl" and "\<not> server_expired srv" and "onConnectionEstablish H = None" and "0 \<le> nd"
    and "0 \<le> d" and "nat d < length (m_connections_pool srv)" and "m_connections_pool srv ! nat d = None"
  shows "\<exists>wl' srv'. take_in_worker epoll_loop H ptr d nd (wl, srv) = (Inr (), (wl', srv')) \<and>
     epoll_ready wl' \<and> watches epoll_interest wl' d EPOLLIN \<and>
     m_curr_conns srv' = m_curr_conns srv + 1 \<and>
     m_connections_pool srv' = (m_connections_pool srv)[nat d := Some (newTcpConnection d)]"
proof -
  have same: "(newTcpConnection d)\<lparr>m_connection_fd := d\<rparr> = newTcpConnection d"
    by (simp add: newTcpConnection_def)
  have empty: "m_buffers (m_outbuf_queue (newTcpConnection d)) = []"
    by (simp add: newTcpConnection_def empty_queue_def)
  obtain l where l: "activate epoll_loop H (ptr d) d nd (newTcpConnection d, srv\<lparr>m_loop := wl\<rparr>) =
      (Inr (), (newTcpConnection d, (srv\<lparr>m_loop := wl\<rparr>)\<lparr>m_curr_conns := m_curr_conns srv + 1, m_loop := l\<rparr>))"
    "conn_ready epoll_interest epoll_ready (newTcpConnection d,
       (srv\<lparr>m_loop := wl\<rparr>)\<lparr>m_curr_conns := m_curr_conns srv + 1, m_loop := l\<rparr>)"
    using epoll_tcp.activate_ok [of "srv\<lparr>m_loop := wl\<rparr>" d H nd "newTcpConnection d" "ptr d"]
      assms empty same by auto
  then show ?thesis
    using assms by (simp add: take_in_worker_def getConnectionFromPool_def insertConnectionToPool_def
        Let_def conn_ready_def) (simp add: newTcpConnection_def)
qed

end
