(* ===== verification/Udp.thy ===== *)
theory Udp
  imports MsgHead EventLoopEpoll
begin

text \<open>
  The UDP server and client (\<open>bsp/bsp_sockets/UdpServer.hpp\<close>, \<open>UdpClient.hpp\<close>,
  \<open>impl/UdpServer.cpp\<close>, \<open>impl/UdpClient.cpp\<close>). Both keep a receive and a send buffer of
  \<open>MSG_LENGTH_LIMIT\<close> bytes for their whole life; \<open>recvfrom\<close> overwrites the beginning of the first,
  \<open>sendData\<close> inserts into the second.
\<close>

section \<open>State\<close>

datatype udp_io = UdpReadCb

record ('l, 'cb, 'arg, 'w) UdpSocket =
  udp_sockfd :: fd
  m_rbuf :: bytes
  m_wbuf :: bytes
  udp_loop :: 'l
  udp_dispatcher :: "('cb, 'arg) MsgDispatcher"
  udp_running :: bool
  udp_closed :: "fd list"
  udp_world :: 'w

record ('l, 'cb, 'arg, 'w, 'addr) UdpServer = "('l, 'cb, 'arg, 'w) UdpSocket" +
  m_latest_client_addr :: 'addr

text \<open>The base part of a new object: buffers of \<open>MSG_LENGTH_LIMIT\<close> zero bytes.\<close>

definition udp_buffer :: bytes where
  "udp_buffer = replicate (nat MSG_LENGTH_LIMIT) 0"

text \<open>
  The constructors; \<open>sock\<close>, \<open>aton\<close> and \<open>ret\<close> are the answers of \<open>socket\<close>, \<open>inet_aton\<close> and \<open>bind\<close>
  or \<open>connect\<close>, \<open>ip\<close> the address as given.
\<close>

definition newUdpServer ::
  "fd \<Rightarrow> int \<Rightarrow> int \<Rightarrow> string \<Rightarrow> 'l \<Rightarrow> 'w \<Rightarrow> 'addr \<Rightarrow> ('l, 'cb, 'arg, 'w, 'addr) UdpServer result" where
  "newUdpServer sock aton ret ip l w no_addr =
     (if sock = -1 then Inl (Throw ''socket()'')
      else if aton = 0 then Inl (Throw (''ip format '' @ ip))
      else if ret = -1 then Inl (Throw ''bind()'')
      else Inr \<lparr>udp_sockfd = sock, m_rbuf = udp_buffer, m_wbuf = udp_buffer, udp_loop = l,
                udp_dispatcher = empty_dispatcher, udp_running = False, udp_closed = [],
                udp_world = w, m_latest_client_addr = no_addr\<rparr>)"

definition newUdpClient ::
  "fd \<Rightarrow> int \<Rightarrow> int \<Rightarrow> string \<Rightarrow> 'l \<Rightarrow> 'w \<Rightarrow> ('l, 'cb, 'arg, 'w) UdpSocket result" where
  "newUdpClient sock aton ret ip l w =
     (if sock = -1 then Inl (Throw ''socket()'')
      else if aton = 0 then Inl (Throw (''ip format '' @ ip))
      else if ret = -1 then Inl (Throw ''connect()'')
      else Inr \<lparr>udp_sockfd = sock, m_rbuf = udp_buffer, m_wbuf = udp_buffer, udp_loop = l,
                udp_dispatcher = empty_dispatcher, udp_running = False, udp_closed = [],
                udp_world = w\<rparr>)"

section \<open>Starting and stopping\<close>

definition udp_server_startLoop ::
  "('l, udp_io, 'tcb, 'task, 'p) IEventLoop \<Rightarrow> 'p \<Rightarrow>
   (('l, 'cb, 'arg, 'w, 'z) UdpSocket_scheme \<Rightarrow> (('l, 'cb, 'arg, 'w, 'z) UdpSocket_scheme, unit) outcome) \<Rightarrow>
   ('l, 'cb, 'arg, 'w, 'z) UdpSocket_scheme \<Rightarrow> (('l, 'cb, 'arg, 'w, 'z) UdpSocket_scheme, unit) outcome" where
  "udp_server_startLoop L this process u =
     (if udp_running u then (Inr (), u)
      else case addIoEvent L (udp_sockfd u) (UserCallback UdpReadCb) EPOLLIN (Some this) (udp_loop u) of
        (Inl e, l) \<Rightarrow> (Inl e, u\<lparr>udp_loop := l\<rparr>)
      | (Inr _, l) \<Rightarrow> process (u\<lparr>udp_loop := l, udp_running := True\<rparr>))"

text \<open>The client calls the user's function, if any, between registering and running.\<close>

definition udp_client_startLoop ::
  "('l, udp_io, 'tcb, 'task, 'p) IEventLoop \<Rightarrow> 'p \<Rightarrow>
   (('l, 'cb, 'arg, 'w) UdpSocket \<Rightarrow> (('l, 'cb, 'arg, 'w) UdpSocket, unit) outcome) option \<Rightarrow>
   (('l, 'cb, 'arg, 'w) UdpSocket \<Rightarrow> (('l, 'cb, 'arg, 'w) UdpSocket, unit) outcome) \<Rightarrow>
   ('l, 'cb, 'arg, 'w) UdpSocket \<Rightarrow> (('l, 'cb, 'arg, 'w) UdpSocket, unit) outcome" where
  "udp_client_startLoop L this onConnectFunc process u =
     (if udp_running u then (Inr (), u)
      else case addIoEvent L (udp_sockfd u) (UserCallback UdpReadCb) EPOLLIN (Some this) (udp_loop u) of
        (Inl e, l) \<Rightarrow> (Inl e, u\<lparr>udp_loop := l\<rparr>)
      | (Inr _, l) \<Rightarrow>
          andthen (case onConnectFunc of None \<Rightarrow> (Inr (), u\<lparr>udp_loop := l\<rparr>) | Some f \<Rightarrow> f (u\<lparr>udp_loop := l\<rparr>))
            (\<lambda>_ u1. process (u1\<lparr>udp_running := True\<rparr>)))"

definition udp_stop ::
  "('l, udp_io, 'tcb, 'task, 'p) IEventLoop \<Rightarrow>
   ('l, 'cb, 'arg, 'w, 'z) UdpSocket_scheme \<Rightarrow> (('l, 'cb, 'arg, 'w, 'z) UdpSocket_scheme, unit) outcome" where
  "udp_stop L u =
     (if \<not> udp_running u then (Inr (), u)
      else case delIoEvent L (udp_sockfd u) (udp_loop u) of
        (Inl e, l) \<Rightarrow> (Inl e, u\<lparr>udp_loop := l\<rparr>)
      | (Inr _, l) \<Rightarrow> (Inr (), u\<lparr>udp_loop := l, udp_closed := udp_closed u @ [udp_sockfd u],
                                 udp_running := False\<rparr>))"

definition udp_client_stop where
  "udp_client_stop L u = udp_stop L u"

section \<open>Receiving\<close>

text \<open>\<open>recvfrom\<close> into the buffer: a datagram longer than the buffer is cut off.\<close>

definition received :: "bytes \<Rightarrow> bytes \<Rightarrow> bytes" where
  "received dgram buf = take (length buf) dgram @ drop (length dgram) buf"

definition bad_head :: "msgHead \<Rightarrow> int \<Rightarrow> bool" where
  "bad_head head pkg_len \<longleftrightarrow> MSG_LENGTH_LIMIT < sint (msg_length head) \<or> sint (msg_length head) < 0 \<or>
     sint (msg_length head) + int sizeof_msgHead \<noteq> pkg_len"

text \<open>
  The receive loops, given what the successive \<open>recvfrom\<close> calls return. The server remembers the
  sender and passes on the payload; the client passes on the buffer from the payload to its end.
  An unknown command throws out of the loop.
\<close>

fun udp_server_handleRead ::
  "'arg \<Rightarrow> ('cb \<Rightarrow> u64 \<Rightarrow> bytes \<Rightarrow> 'arg \<Rightarrow> ('l, 'cb, 'arg, 'w, 'addr) UdpServer \<Rightarrow>
      (('l, 'cb, 'arg, 'w, 'addr) UdpServer, unit) outcome) \<Rightarrow>
   (bytes \<times> 'addr) sysret list \<Rightarrow> ('l, 'cb, 'arg, 'w, 'addr) UdpServer \<Rightarrow>
   (('l, 'cb, 'arg, 'w, 'addr) UdpServer, unit) outcome" where
  "udp_server_handleRead nil run [] u = (Inl Waiting, u)"
| "udp_server_handleRead nil run (Err e # rs) u =
     (if e = EINTR then udp_server_handleRead nil run rs u else (Inr (), u))"
| "udp_server_handleRead nil run (Ok (dgram, addr) # rs) u =
     (let u1 = u\<lparr>m_rbuf := received dgram (m_rbuf u), m_latest_client_addr := addr\<rparr>;
          pkg_len = int (length (take (length (m_rbuf u)) dgram))
      in case read_head (m_rbuf u1) of
           Inl f \<Rightarrow> (Inl f, u1)
         | Inr head \<Rightarrow>
             (if bad_head head pkg_len then udp_server_handleRead nil run rs u1
              else andthen
                (callbackFunc nil run (udp_dispatcher u1) (cmd_id head)
                   (take (nat (sint (msg_length head))) (drop sizeof_msgHead (m_rbuf u1))) u1)
                (\<lambda>_ u2. udp_server_handleRead nil run rs u2)))"

fun udp_client_handleRead ::
  "'arg \<Rightarrow> ('cb \<Rightarrow> u64 \<Rightarrow> bytes \<Rightarrow> 'arg \<Rightarrow> ('l, 'cb, 'arg, 'w) UdpSocket \<Rightarrow>
      (('l, 'cb, 'arg, 'w) UdpSocket, unit) outcome) \<Rightarrow>
   bytes sysret list \<Rightarrow> ('l, 'cb, 'arg, 'w) UdpSocket \<Rightarrow> (('l, 'cb, 'arg, 'w) UdpSocket, unit) outcome" where
  "udp_client_handleRead nil run [] u = (Inl Waiting, u)"
| "udp_client_handleRead nil run (Err e # rs) u =
     (if e = EINTR then udp_client_handleRead nil run rs u else (Inr (), u))"
| "udp_client_handleRead nil run (Ok dgram # rs) u =
     (let u1 = u\<lparr>m_rbuf := received dgram (m_rbuf u)\<rparr>;
          pkg_len = int (length (take (length (m_rbuf u)) dgram))
      in case read_head (m_rbuf u1) of
           Inl f \<Rightarrow> (Inl f, u1)
         | Inr head \<Rightarrow>
             (if bad_head head pkg_len then udp_client_handleRead nil run rs u1
              else andthen
                (callbackFunc nil run (udp_dispatcher u1) (cmd_id head) (drop sizeof_msgHead (m_rbuf u1)) u1)
                (\<lambda>_ u2. udp_client_handleRead nil run rs u2)))"

section \<open>Sending\<close>

text \<open>
  \<open>memcpy\<close> of the header over the beginning of the send buffer, \<open>insert\<close> of the payload behind it
  (what stood there moves up, the buffer grows), then the first \<open>16 + length\<close> bytes are sent.
  \<open>ret\<close> is what \<open>sendto\<close> or \<open>send\<close> answers; the result pairs it with the datagram.
\<close>

definition udp_sendData ::
  "bytes \<Rightarrow> int \<Rightarrow> u64 \<Rightarrow> bytes \<Rightarrow> ('l, 'cb, 'arg, 'w, 'z) UdpSocket_scheme \<Rightarrow>
     (('l, 'cb, 'arg, 'w, 'z) UdpSocket_scheme, int \<times> bytes option) outcome" where
  "udp_sendData pad ret cmd data u =
     (if MSG_LENGTH_LIMIT < int (length data) then (Inr (-1, None), u)
      else
        (let head = make_head cmd data;
             wbuf1 = head_bytes pad head @ drop sizeof_msgHead (m_wbuf u);
             wbuf2 = take sizeof_msgHead wbuf1 @ data @ drop sizeof_msgHead wbuf1;
             data_len = sizeof_msgHead + nat (sint (msg_length head))
         in (Inr (ret, Some (take data_len wbuf2)), u\<lparr>m_wbuf := wbuf2\<rparr>)))"

definition udp_client_sendData where
  "udp_client_sendData pad ret cmd data u = udp_sendData pad ret cmd data u"

section \<open>Facts\<close>

lemma udp_sendData_datagram:
  assumes "length pad = 4" and "length d \<le> 65524"
  shows "\<exists>u'. udp_sendData pad ret k d u = (Inr (ret, Some (make_msg pad k d)), u') \<and>
     length (m_wbuf u') = max 16 (length (m_wbuf u)) + length d"
proof -
  have len: "sint (msg_length (make_head k d)) = int (length d)" using sint_make_head assms(2) by simp
  show ?thesis
    using assms len
    by (simp add: udp_sendData_def Let_def make_msg_def length_head_bytes msg_consts)
qed

lemma received_message:
  assumes "length m = n" and "n \<le> length buf"
  shows "take n (received m buf) = m" and "length (received m buf) = length buf"
  using assms by (auto simp: received_def)

lemma read_head_received:
  assumes "length pad = 4" and "length (make_msg pad k d) \<le> length buf"
  shows "read_head (received (make_msg pad k d) buf) = Inr (make_head k d)"
  using assms read_head_append [OF read_head_make_msg [OF assms(1), of k d]]
  by (simp add: received_def)

lemma drop_received:
  assumes "length pad = 4" and "length (make_msg pad k d) \<le> length buf"
  shows "drop 16 (received (make_msg pad k d) buf) = d @ drop (16 + length d) buf"
  using assms drop_make_msg [OF assms(1), of k d] length_make_msg [OF assms(1), of k d]
  by (simp add: received_def sizeof_msgHead_def)

section \<open>Properties\<close>

text \<open>
  A datagram the client's \<open>sendData\<close> makes for a payload of at most 65508 bytes reaches the
  server's callback unchanged: whatever was in the send and receive buffers before, the server
  calls the callback of the command once with exactly this payload, with the sender remembered,
  and goes on with the next datagram.
\<close>

theorem udp_server_roundtrip:
  assumes "length pad = 4" and "length d \<le> 65508" and "length (m_rbuf srv) = 65524"
    and "udp_client_sendData pad ret k d cl = (Inr (ret, Some dgram), cl')"
    and "m_dispatcher (udp_dispatcher srv) k = Some f" and "m_args (udp_dispatcher srv) k = Some a"
  shows "udp_server_handleRead nil run (Ok (dgram, addr) # rs) srv =
     andthen (run f k d a (srv\<lparr>m_rbuf := received dgram (m_rbuf srv), m_latest_client_addr := addr\<rparr>))
       (\<lambda>_ srv'. udp_server_handleRead nil run rs srv')"
proof -
  have "udp_sendData pad ret k d cl = (Inr (ret, Some (make_msg pad k d)), cl')"
    using udp_sendData_datagram [OF assms(1), of d ret k cl] assms(2,4)
    by (auto simp: udp_client_sendData_def)
  then have dg: "dgram = make_msg pad k d" using assms(4) by (simp add: udp_client_sendData_def)
  have len: "sint (msg_length (make_head k d)) = int (length d)" using sint_make_head assms(2) by simp
  have b: "length (make_msg pad k d) \<le> length (m_rbuf srv)" "length (make_msg pad k d) = 16 + length d"
    using assms length_make_msg [OF assms(1), of k d] by auto
  have "\<not> bad_head (make_head k d) (int (length (take (length (m_rbuf srv)) dgram)))"
    using dg b len assms(2) by (simp add: bad_head_def msg_consts)
  moreover have "take (nat (sint (msg_length (make_head k d))))
      (drop sizeof_msgHead (received dgram (m_rbuf srv))) = d"
    using drop_received [OF assms(1) b(1)] dg len by (simp add: sizeof_msgHead_def)
  ultimately show ?thesis
    using read_head_received [OF assms(1) b(1)] dg assms(5,6)
    by (simp add: Let_def make_head_def callbackFunc_def)
qed

definition udp_demo :: "(unit, nat, nat, (u64 \<times> bytes) list, nat) UdpServer" where
  "udp_demo = \<lparr>udp_sockfd = 5, m_rbuf = replicate 65524 0, m_wbuf = replicate 65524 0, udp_loop = (),
     udp_dispatcher = \<lparr>m_dispatcher = [5 \<mapsto> 1], m_args = [5 \<mapsto> 2]\<rparr>, udp_running = True,
     udp_closed = [], udp_world = [], m_latest_client_addr = 0\<rparr>"

definition udp_demo_client :: "(unit, nat, nat, (u64 \<times> bytes) list) UdpSocket" where
  "udp_demo_client = \<lparr>udp_sockfd = 5, m_rbuf = replicate 65524 0, m_wbuf = replicate 65524 0, udp_loop = (),
     udp_dispatcher = \<lparr>m_dispatcher = [5 \<mapsto> 1], m_args = [5 \<mapsto> 2]\<rparr>, udp_running = True,
     udp_closed = [], udp_world = []\<rparr>"

definition udp_log :: "nat \<Rightarrow> u64 \<Rightarrow> bytes \<Rightarrow> nat \<Rightarrow> (unit, nat, nat, (u64 \<times> bytes) list, nat) UdpServer \<Rightarrow>
    ((unit, nat, nat, (u64 \<times> bytes) list, nat) UdpServer, unit) outcome" where
  "udp_log f k d a u = (Inr (), u\<lparr>udp_world := udp_world u @ [(k, d)]\<rparr>)"

theorem udp_server_roundtrip_witness:
  "\<exists>dgram cl'. udp_client_sendData [0, 0, 0, 0] 18 5 [1, 2] udp_demo = (Inr (18, Some dgram), cl') \<and>
     map_prod id udp_world (udp_server_handleRead 0 udp_log [Ok (dgram, 3), Err EAGAIN] udp_demo) =
       (Inr (), [(5, [1, 2])])"
proof -
  obtain cl' where s: "udp_client_sendData [0, 0, 0, 0] 18 5 [1, 2] udp_demo =
      (Inr (18, Some (make_msg [0, 0, 0, 0] 5 [1, 2])), cl')"
    using udp_sendData_datagram [of "[0, 0, 0, 0]" "[1, 2]" 18 5 udp_demo]
    by (auto simp: udp_client_sendData_def)
  have h: "udp_server_handleRead 0 udp_log [Ok (make_msg [0, 0, 0, 0] 5 [1, 2], 3), Err EAGAIN] udp_demo =
      andthen (udp_log 1 5 [1, 2] 2 (udp_demo\<lparr>m_rbuf := received (make_msg [0, 0, 0, 0] 5 [1, 2])
        (m_rbuf udp_demo), m_latest_client_addr := 3\<rparr>))
        (\<lambda>_ srv'. udp_server_handleRead 0 udp_log [Err EAGAIN] srv')"
    by (rule udp_server_roundtrip [OF _ _ _ s]) (simp_all add: udp_demo_def)
  show ?thesis
    by (rule exI, rule exI, rule conjI, rule s) (subst h, simp add: udp_log_def udp_demo_def)
qed

text \<open>
  The client does not cut the payload out of its receive buffer: whatever the length of the
  message, its callback gets 65508 bytes, the payload followed by whatever the buffer held before.
\<close>

theorem udp_client_payload_overlong:
  assumes "length pad = 4" and "length d \<le> 65508" and "length (m_rbuf u) = 65524"
    and "m_dispatcher (udp_dispatcher u) k = Some f" and "m_args (udp_dispatcher u) k = Some a"
  shows "udp_client_handleRead nil run (Ok (make_msg pad k d) # rs) u =
     andthen (run f k (d @ drop (16 + length d) (m_rbuf u)) a
         (u\<lparr>m_rbuf := received (make_msg pad k d) (m_rbuf u)\<rparr>))
       (\<lambda>_ u'. udp_client_handleRead nil run rs u') \<and>
     length (d @ drop (16 + length d) (m_rbuf u)) = 65508"
proof
  have len: "sint (msg_length (make_head k d)) = int (length d)" using sint_make_head assms(2) by simp
  have b: "length (make_msg pad k d) \<le> length (m_rbuf u)" "length (make_msg pad k d) = 16 + length d"
    using assms length_make_msg [OF assms(1), of k d] by auto
  have "\<not> bad_head (make_head k d) (int (length (take (length (m_rbuf u)) (make_msg pad k d))))"
    using b len assms(2) by (simp add: bad_head_def msg_consts)
  then show "udp_client_handleRead nil run (Ok (make_msg pad k d) # rs) u =
     andthen (run f k (d @ drop (16 + length d) (m_rbuf u)) a
         (u\<lparr>m_rbuf := received (make_msg pad k d) (m_rbuf u)\<rparr>))
       (\<lambda>_ u'. udp_client_handleRead nil run rs u')"
    using read_head_received [OF assms(1) b(1)] drop_received [OF assms(1) b(1)] assms(4,5)
    by (simp add: Let_def make_head_def callbackFunc_def sizeof_msgHead_def)
  show "length (d @ drop (16 + length d) (m_rbuf u)) = 65508" using assms(2,3) by simp
qed

theorem udp_client_payload_overlong_witness:
  "length ([1, 2] @ drop (16 + length [1, 2 :: byte]) (m_rbuf udp_demo_client)) = 65508"
  by (rule conjunct2 [OF udp_client_payload_overlong [of "[0, 0, 0, 0]" "[1, 2]" udp_demo_client 5 1 2 0 "\<lambda>_ _ _ _ u. (Inr (), u)" "[]"]])
    (simp_all add: udp_demo_client_def)

text \<open>
  One datagram can stop the server: a well-formed message with a command nobody registered
  makes \<open>callbackFunc\<close> throw, and the exception leaves \<open>handleRead\<close> with the remaining datagrams
  unread.
\<close>

theorem udp_unknown_command_throws:
  assumes "length pad = 4" and "length d \<le> 65508" and "length (m_rbuf srv) = 65524"
    and "\<not> exist (udp_dispatcher srv) k"
  shows "fst (udp_server_handleRead nil run (Ok (make_msg pad k d, addr) # rs) srv) =
     Inl (Throw ''cmd_id not exist'')"
proof -
  have len: "sint (msg_length (make_head k d)) = int (length d)" using sint_make_head assms(2) by simp
  have b: "length (make_msg pad k d) \<le> length (m_rbuf srv)" "length (make_msg pad k d) = 16 + length d"
    using assms length_make_msg [OF assms(1), of k d] by auto
  have "\<not> bad_head (make_head k d) (int (length (take (length (m_rbuf srv)) (make_msg pad k d))))"
    using b len assms(2) by (simp add: bad_head_def msg_consts)
  then show ?thesis
    using read_head_received [OF assms(1) b(1)] assms(4) by (simp add: Let_def make_head_def)
qed

theorem udp_unknown_command_throws_witness:
  "fst (udp_server_handleRead 0 udp_log [Ok (make_msg [0, 0, 0, 0] 9 [1], 3)] udp_demo) =
     Inl (Throw ''cmd_id not exist'')"
  by (rule udp_unknown_command_throws) (simp_all add: udp_demo_def exist_def)

end
