(* ===== verification/YoloPostProcess.thy ===== *)
theory YoloPostProcess
  imports Prelude Complex_Main "HOL-Library.Multiset"
begin

text \<open>
  The post-processing of the YOLOv5 detector
  (\<open>bsp/bsp_dnn/dnnObjDetector_plugins/rknn/yolo/common/YoloPostProcess.hpp\<close>, \<open>.cpp\<close>): reading the
  quantised output tensors, sorting the candidates by score, non-maximum suppression per class and
  the scaling of the surviving boxes.

  The arithmetic of \<open>float\<close> (\<open>'f\<close>) and \<open>double\<close> (\<open>'d\<close>) is the parameter \<open>F\<close>; the definitions say
  which operation is done in which type, and the theorems hold for every such arithmetic (rounding
  included). \<open>int\<close> values are integers; where the code could leave the range of \<open>int\<close> the model
  answers \<open>Undefined\<close>.
\<close>

section \<open>Floating point\<close>

record ('f, 'd) fp =
  widen :: "'f \<Rightarrow> 'd"
  narrow :: "'d \<Rightarrow> 'f"
  d_half :: 'd
  d_one :: 'd
  d_two :: 'd
  d_add :: "'d \<Rightarrow> 'd \<Rightarrow> 'd"
  d_sub :: "'d \<Rightarrow> 'd \<Rightarrow> 'd"
  d_mul :: "'d \<Rightarrow> 'd \<Rightarrow> 'd"
  d_div :: "'d \<Rightarrow> 'd \<Rightarrow> 'd"
  fmax :: "'d \<Rightarrow> 'd \<Rightarrow> 'd"
  fmin :: "'d \<Rightarrow> 'd \<Rightarrow> 'd"
  f_add :: "'f \<Rightarrow> 'f \<Rightarrow> 'f"
  f_sub :: "'f \<Rightarrow> 'f \<Rightarrow> 'f"
  f_mul :: "'f \<Rightarrow> 'f \<Rightarrow> 'f"
  f_div :: "'f \<Rightarrow> 'f \<Rightarrow> 'f"
  f_of_int :: "int \<Rightarrow> 'f"
  f_le :: "'f \<Rightarrow> 'f \<Rightarrow> bool"
  f_less :: "'f \<Rightarrow> 'f \<Rightarrow> bool"
  f_finite :: "'f \<Rightarrow> bool"
  f_to_int :: "'f \<Rightarrow> int option"

text \<open>\<open>(int)f\<close> has no meaning when the truncated value does not fit: \<open>f_to_int\<close> is \<open>None\<close> then.\<close>

definition float_to_int :: "('f, 'd) fp \<Rightarrow> 'f \<Rightarrow> int result" where
  "float_to_int F x = (case f_to_int F x of None \<Rightarrow> Inl (Undefined ''float out of int'') | Some i \<Rightarrow> Inr i)"

definition int_ok :: "int \<Rightarrow> bool" where
  "int_ok i \<longleftrightarrow> - (2 ^ 31) \<le> i \<and> i < 2 ^ 31"

text \<open>Conversion of a \<open>size_t\<close> to \<open>int\<close>.\<close>

definition to_int32 :: "nat \<Rightarrow> int" where
  "to_int32 n = sint (word_of_nat n :: 32 word)"

section \<open>Data\<close>

record 'a bboxRect =
  bb_left :: 'a
  bb_right :: 'a
  bb_top :: 'a
  bb_bottom :: 'a

record 'f ObjDetectOutputBox =
  out_bbox :: "int bboxRect"
  out_score :: 'f
  out_label :: string

record 'f ObjDetectParams =
  model_input_width :: nat
  model_input_height :: nat
  model_input_channel :: nat
  conf_threshold :: 'f
  nms_threshold :: 'f
  scale_width :: 'f
  scale_height :: 'f
  pads :: "int bboxRect"
  quantize_zero_points :: "int list"
  quantize_scales :: "'f list"

text \<open>\<open>tensor_buf\<close> is the memory behind \<open>buf\<close>, \<open>None\<close> for a null pointer.\<close>

record dnnOutput =
  tensor_index :: nat
  tensor_buf :: "bytes option"
  tensor_size :: nat
  dataType :: string

record YoloPostProcess =
  m_labelMap :: "string list"
  m_labelMapInited :: bool

definition BASIC_STRIDE :: int where "BASIC_STRIDE = 8"
definition MAX_OBJ_NUM :: nat where "MAX_OBJ_NUM = 64"
definition OBJ_CLASS_NUM :: nat where "OBJ_CLASS_NUM = 80"
definition PROP_BOX_SIZE :: int where "PROP_BOX_SIZE = 5 + int OBJ_CLASS_NUM"

definition m_anchorVec :: "int list list" where
  "m_anchorVec = [[10, 13, 16, 30, 33, 23], [30, 61, 62, 45, 59, 119], [116, 90, 156, 198, 373, 326]]"

definition newYoloPostProcess :: YoloPostProcess where
  "newYoloPostProcess = \<lparr>m_labelMap = [], m_labelMapInited = False\<rparr>"

text \<open>\<open>file\<close> is what the label file holds, line by line, \<open>None\<close> when it does not open.\<close>

definition initLabelMap :: "string \<Rightarrow> string list option \<Rightarrow> YoloPostProcess \<Rightarrow> int \<times> YoloPostProcess" where
  "initLabelMap labelMapPath file y =
     (if m_labelMapInited y then (0, y)
      else if labelMapPath = [] then (-1, y)
      else case file of
        None \<Rightarrow> (-1, y)
      | Some ls \<Rightarrow> (0, y\<lparr>m_labelMap := m_labelMap y @ ls, m_labelMapInited := True\<rparr>))"

text \<open>\<open>v[i]\<close> of a vector.\<close>

definition vec_at :: "'a list \<Rightarrow> int \<Rightarrow> 'a result" where
  "vec_at xs i = (if 0 \<le> i \<and> i < int (length xs) then Inr (xs ! nat i)
     else Inl (Undefined ''index out of range''))"

lemma vec_at_ok [simp]: "0 \<le> i \<Longrightarrow> i < int (length xs) \<Longrightarrow> vec_at xs i = Inr (xs ! nat i)"
  by (simp add: vec_at_def)

section \<open>Quantisation\<close>

definition clip :: "int \<Rightarrow> int \<Rightarrow> int \<Rightarrow> int" where
  "clip val lo hi = (if val \<le> lo then lo else if hi \<le> val then hi else val)"

text \<open>The cast to \<open>int8_t\<close>.\<close>

definition to_int8 :: "int \<Rightarrow> int" where
  "to_int8 i = sint (word_of_int i :: 8 word)"

text \<open>The zero point is passed as an \<open>int8_t\<close>; \<open>dst_val\<close> converts to \<open>int\<close> at the call of \<open>clip\<close>.\<close>

definition qauntFP32ToAffine :: "('f, 'd) fp \<Rightarrow> 'f \<Rightarrow> int \<Rightarrow> 'f \<Rightarrow> int result" where
  "qauntFP32ToAffine F fp32 zp scale =
     (let dst_val = f_add F (f_div F fp32 scale) (f_of_int F (to_int8 zp))
      in rbind (float_to_int F dst_val) (\<lambda>v. Inr (to_int8 (clip v (-128) 127))))"

definition deqauntAffineToFP32 :: "('f, 'd) fp \<Rightarrow> int \<Rightarrow> int \<Rightarrow> 'f \<Rightarrow> 'f" where
  "deqauntAffineToFP32 F qnt zp scale = f_mul F (f_sub F (f_of_int F qnt) (f_of_int F zp)) scale"

definition clamp :: "('f, 'd) fp \<Rightarrow> 'f \<Rightarrow> int \<Rightarrow> int \<Rightarrow> int result" where
  "clamp F val lo hi =
     float_to_int F
       (if f_less F (f_of_int F lo) val
        then (if f_less F val (f_of_int F hi) then val else f_of_int F hi)
        else f_of_int F lo)"

section \<open>Reading one tensor\<close>

text \<open>The candidates found so far: four floats per box, a score and a class each.\<close>

record 'f candidates =
  bboxes :: "'f list"
  objScores :: "'f list"
  classId :: "int list"

text \<open>The bytes of the tensor, read through the \<open>int8_t\<close> pointer.\<close>

definition int8_at :: "bytes \<Rightarrow> int \<Rightarrow> int result" where
  "int8_at buf i = map_sum id sint (vec_at buf i)"

text \<open>The loop over the classes: the first largest probability from class \<open>k\<close> on.\<close>

fun class_scan :: "bytes \<Rightarrow> int \<Rightarrow> int \<Rightarrow> int \<Rightarrow> nat list \<Rightarrow> int \<Rightarrow> int \<Rightarrow> (int \<times> int) result" where
  "class_scan buf sz offset grid_len [] maxClassProbs maxClassId = Inr (maxClassProbs, maxClassId)"
| "class_scan buf sz offset grid_len (k # ks) maxClassProbs maxClassId =
     (let prob_idx = (5 + int k) * grid_len in
      if sz \<le> offset + prob_idx then Inr (maxClassProbs, maxClassId)
      else rbind (int8_at buf (offset + prob_idx)) (\<lambda>prob.
        if maxClassProbs < prob then class_scan buf sz offset grid_len ks prob (int k)
        else class_scan buf sz offset grid_len ks maxClassProbs maxClassId))"

text \<open>The box of a cell, from its four quantised coordinates.\<close>

definition decode_box ::
  "('f, 'd) fp \<Rightarrow> int \<Rightarrow> 'f \<Rightarrow> int \<Rightarrow> int \<Rightarrow> int \<Rightarrow> int \<Rightarrow> int \<Rightarrow> int \<Rightarrow> int \<Rightarrow> int \<Rightarrow> int \<Rightarrow> 'f list" where
  "decode_box F zp scale stride i j anchor_w anchor_h q0 q1 q2 q3 =
     (let deq = (\<lambda>q. widen F (deqauntAffineToFP32 F q zp scale));
          box_x = narrow F (d_sub F (d_mul F (deq q0) (d_two F)) (d_half F));
          box_y = narrow F (d_sub F (d_mul F (deq q1) (d_two F)) (d_half F));
          box_w = narrow F (d_mul F (deq q2) (d_two F));
          box_h = narrow F (d_mul F (deq q3) (d_two F));
          box_x = f_mul F (f_add F box_x (f_of_int F j)) (f_of_int F stride);
          box_y = f_mul F (f_add F box_y (f_of_int F i)) (f_of_int F stride);
          box_w = f_mul F (f_mul F box_w box_w) (f_of_int F anchor_w);
          box_h = f_mul F (f_mul F box_h box_h) (f_of_int F anchor_h);
          box_x = narrow F (d_sub F (widen F box_x) (d_div F (widen F box_w) (d_two F)));
          box_y = narrow F (d_sub F (widen F box_y) (d_div F (widen F box_h) (d_two F)))
      in [box_x, box_y, box_w, box_h])"

text \<open>
  One cell \<open>(a, i, j)\<close> of the grid. A candidate needs a box confidence of at least the threshold and
  a class probability above it.
\<close>

definition process_cell ::
  "('f, 'd) fp \<Rightarrow> bytes \<Rightarrow> int \<Rightarrow> int \<Rightarrow> int \<Rightarrow> int \<Rightarrow> 'f \<Rightarrow> int \<Rightarrow> int \<Rightarrow> int \<Rightarrow> int \<times> int \<times> int \<Rightarrow>
     int \<times> 'f candidates \<Rightarrow> (int \<times> 'f candidates) result" where
  "process_cell F buf sz grid_w grid_len zp scale stride idx thres_i8 cell st =
     (case cell of (a, i, j) \<Rightarrow> case st of (validCount, cs) \<Rightarrow>
      let confidence_idx = (PROP_BOX_SIZE * a + 4) * grid_len + i * grid_w + j in
      if sz \<le> confidence_idx then Inr st
      else rbind (int8_at buf confidence_idx) (\<lambda>box_confidence.
        if box_confidence < thres_i8 then Inr st
        else
          let offset = (PROP_BOX_SIZE * a) * grid_len + i * grid_w + j in
          if offset < 0 \<or> sz \<le> offset then Inr st
          else if sz \<le> offset + 5 * grid_len then Inr st
          else
            rbind (int8_at buf offset) (\<lambda>q0.
            rbind (int8_at buf (offset + grid_len)) (\<lambda>q1.
            rbind (int8_at buf (offset + 2 * grid_len)) (\<lambda>q2.
            rbind (int8_at buf (offset + 3 * grid_len)) (\<lambda>q3.
            rbind (vec_at m_anchorVec idx) (\<lambda>anchors.
            rbind (vec_at anchors (a * 2)) (\<lambda>anchor_w.
            rbind (vec_at anchors (a * 2 + 1)) (\<lambda>anchor_h.
            rbind (int8_at buf (offset + 5 * grid_len)) (\<lambda>first.
            rbind (class_scan buf sz offset grid_len [1..<OBJ_CLASS_NUM] first 0)
              (\<lambda>(maxClassProbs, maxClassId).
              if maxClassProbs \<le> thres_i8 then Inr st
              else Inr (validCount + 1,
                cs\<lparr>objScores := objScores cs @
                     [f_mul F (deqauntAffineToFP32 F maxClassProbs zp scale)
                              (deqauntAffineToFP32 F box_confidence zp scale)],
                   classId := classId cs @ [maxClassId],
                   bboxes := bboxes cs @
                     decode_box F zp scale stride i j anchor_w anchor_h q0 q1 q2 q3\<rparr>))))))))))))"

text \<open>The three nested loops, as one loop over the cells in their order.\<close>

definition grid_cells :: "int \<Rightarrow> int \<Rightarrow> (int \<times> int \<times> int) list" where
  "grid_cells grid_h grid_w =
     concat (map (\<lambda>a. concat (map (\<lambda>i. map (\<lambda>j. (a, i, j)) [0..grid_w - 1]) [0..grid_h - 1])) [0..2])"

fun cells_loop :: "('c \<Rightarrow> 's \<Rightarrow> 's result) \<Rightarrow> 'c list \<Rightarrow> 's \<Rightarrow> 's result" where
  "cells_loop f [] st = Inr st"
| "cells_loop f (c # cs) st = rbind (f c st) (cells_loop f cs)"

definition doProcess ::
  "('f, 'd) fp \<Rightarrow> nat \<Rightarrow> 'f ObjDetectParams \<Rightarrow> int \<Rightarrow> dnnOutput \<Rightarrow> 'f candidates \<Rightarrow>
     (int \<times> 'f candidates) result" where
  "doProcess F idx params stride inputData cs =
     (let grid_h = to_int32 (model_input_height params div nat stride);
          grid_w = to_int32 (model_input_width params div nat stride);
          grid_len = grid_h * grid_w;
          sz = int (tensor_size inputData)
      in if \<not> int_ok grid_len then Inl (Undefined ''int overflow'')
         else if grid_h \<le> 0 \<or> grid_w \<le> 0 \<or> grid_len \<le> 0 then Inr (0, cs)
         else case tensor_buf inputData of
           None \<Rightarrow> Inr (0, cs)
         | Some input_buf \<Rightarrow>
             (if sz \<le> 0 then Inr (0, cs)
              else if \<not> int_ok (PROP_BOX_SIZE * 3 * grid_len) then Inl (Undefined ''int overflow'')
              else if sz < PROP_BOX_SIZE * 3 * grid_len then Inr (0, cs)
              else
                rbind (vec_at (quantize_zero_points params) (int idx)) (\<lambda>zp.
                rbind (vec_at (quantize_scales params) (int idx)) (\<lambda>scale.
                rbind (qauntFP32ToAffine F (conf_threshold params) zp scale) (\<lambda>thres_i8.
                cells_loop
                  (process_cell F input_buf sz grid_w grid_len zp scale stride (int idx) thres_i8)
                  (grid_cells grid_h grid_w) (0, cs))))))"

section \<open>Sorting by score\<close>

text \<open>
  \<open>std::sort\<close> with the comparison \<open>cmp\<close>: a sorted permutation when \<open>cmp\<close> is an ordering, without
  meaning when two elements compare both ways. (The standard already excludes \<open>cmp(a, a)\<close>; the
  comparison \<open>>=\<close> of the code never satisfies it, and the model counts only what two different
  elements can show.)
\<close>

fun no_ties :: "('a \<Rightarrow> 'a \<Rightarrow> bool) \<Rightarrow> 'a list \<Rightarrow> bool" where
  "no_ties cmp [] \<longleftrightarrow> True"
| "no_ties cmp (x # xs) \<longleftrightarrow> (\<forall>y \<in> set xs. \<not> (cmp x y \<and> cmp y x)) \<and> no_ties cmp xs"

fun sort_insert :: "('a \<Rightarrow> 'a \<Rightarrow> bool) \<Rightarrow> 'a \<Rightarrow> 'a list \<Rightarrow> 'a list" where
  "sort_insert cmp x [] = [x]"
| "sort_insert cmp x (y # ys) = (if cmp x y then x # y # ys else y # sort_insert cmp x ys)"

definition std_sort :: "('a \<Rightarrow> 'a \<Rightarrow> bool) \<Rightarrow> 'a list \<Rightarrow> 'a list result" where
  "std_sort cmp xs = (if no_ties cmp xs then Inr (foldr (sort_insert cmp) xs [])
     else Inl (Undefined ''std::sort needs a strict weak ordering''))"

definition inverseSortWithIndices ::
  "('f, 'd) fp \<Rightarrow> 'f list \<Rightarrow> int list \<Rightarrow> ('f list \<times> int list) result" where
  "inverseSortWithIndices F input indices =
     (if input = [] \<or> indices = [] then Inr (input, indices)
      else if length input \<noteq> length indices then Inr (input, indices)
      else if \<exists>x \<in> set input. \<not> f_finite F x then Inr (input, indices)
      else rbind (std_sort (\<lambda>a b. f_le F (fst b) (fst a)) (zip input indices)) (\<lambda>value_index_pairs.
        Inr (map fst value_index_pairs, map snd value_index_pairs)))"

section \<open>Non-maximum suppression\<close>

definition calculateOverlap :: "('f, 'd) fp \<Rightarrow> 'f bboxRect \<Rightarrow> 'f bboxRect \<Rightarrow> 'f" where
  "calculateOverlap F b1 b2 =
     (let zero = f_of_int F 0; W = widen F;
          w = narrow F (fmax F (W zero) (d_add F (d_sub F (fmin F (W (bb_right b1)) (W (bb_right b2)))
                (fmax F (W (bb_left b1)) (W (bb_left b2)))) (d_one F)));
          h = narrow F (fmax F (W zero) (d_add F (d_sub F (fmin F (W (bb_bottom b1)) (W (bb_bottom b2)))
                (fmax F (W (bb_top b1)) (W (bb_top b2)))) (d_one F)));
          i = f_mul F w h;
          area = (\<lambda>b. d_mul F (d_add F (W (f_sub F (bb_right b) (bb_left b))) (d_one F))
                             (d_add F (W (f_sub F (bb_bottom b) (bb_top b))) (d_one F)));
          u = narrow F (d_sub F (d_add F (area b1) (area b2)) (W i))
      in if f_le F u zero then zero else f_div F i u)"

definition box_at :: "('f, 'd) fp \<Rightarrow> 'f list \<Rightarrow> int \<Rightarrow> 'f bboxRect" where
  "box_at F fb n = (let k = nat (n * 4) in
     \<lparr>bb_left = fb ! k, bb_right = f_add F (fb ! k) (fb ! (k + 2)),
      bb_top = fb ! (k + 1), bb_bottom = f_add F (fb ! (k + 1)) (fb ! (k + 3))\<rparr>)"

text \<open>The inner loop: what becomes of the entries \<open>order[j]\<close> behind the box \<open>n\<close>.\<close>

fun nms_inner ::
  "('f, 'd) fp \<Rightarrow> 'f list \<Rightarrow> int list \<Rightarrow> int \<Rightarrow> int \<Rightarrow> 'f \<Rightarrow> int \<Rightarrow> int list \<Rightarrow> int list result" where
  "nms_inner F fb classIds validCount filterId threshold n [] = Inr []"
| "nms_inner F fb classIds validCount filterId threshold n (m # ms) =
     rbind
       (if m = -1 \<or> validCount \<le> m then Inr m
        else rbind (vec_at classIds m) (\<lambda>c.
          if c \<noteq> filterId then Inr m
          else if int (length fb) \<le> n * 4 + 3 \<or> int (length fb) \<le> m * 4 + 3 then Inr m
          else if f_less F threshold (calculateOverlap F (box_at F fb n) (box_at F fb m)) then Inr (-1)
          else Inr m))
       (\<lambda>m'. rbind (nms_inner F fb classIds validCount filterId threshold n ms) (\<lambda>ms'. Inr (m' # ms')))"

lemma length_nms_inner:
  "nms_inner F fb classIds validCount filterId threshold n ms = Inr ms' \<Longrightarrow> length ms' = length ms"
  by (induction ms arbitrary: ms') (auto simp: returns)

text \<open>The outer loop, over the entries \<open>order[i]\<close> that are left.\<close>

function nms_outer ::
  "('f, 'd) fp \<Rightarrow> 'f list \<Rightarrow> int list \<Rightarrow> int \<Rightarrow> int \<Rightarrow> 'f \<Rightarrow> int list \<Rightarrow> int list result" where
  "nms_outer F fb classIds validCount filterId threshold [] = Inr []"
| "nms_outer F fb classIds validCount filterId threshold (n # rest) =
     rbind
       (if n = -1 \<or> validCount \<le> n then Inr rest
        else rbind (vec_at classIds n) (\<lambda>c.
          if c \<noteq> filterId then Inr rest
          else nms_inner F fb classIds validCount filterId threshold n rest))
       (\<lambda>rest'. rbind (nms_outer F fb classIds validCount filterId threshold rest') (\<lambda>r. Inr (n # r)))"
  by pat_completeness auto
termination
  by (relation "measure (\<lambda>(_, _, _, _, _, _, order). length order)")
    (auto simp: returns dest: length_nms_inner split: if_splits)

lemma length_nms_outer:
  "nms_outer F fb classIds vc c thr order = Inr r \<Longrightarrow> length r = length order"
proof (induction order arbitrary: r rule: length_induct)
  case (1 order)
  show ?case
  proof (cases order)
    case (Cons n rest)
    then obtain rest' r' where "(if n = -1 \<or> vc \<le> n then Inr rest
        else rbind (vec_at classIds n) (\<lambda>c'. if c' \<noteq> c then Inr rest
          else nms_inner F fb classIds vc c thr n rest)) = Inr rest'"
      "nms_outer F fb classIds vc c thr rest' = Inr r'" "r = n # r'"
      using 1(2) by (auto simp: returns)
    moreover from this(1) have "length rest' = length rest"
      by (auto simp: returns dest: length_nms_inner split: if_splits)
    ultimately show ?thesis using 1(1) [rule_format, of rest' r'] Cons by simp
  qed (use 1(2) in simp)
qed

definition nms ::
  "('f, 'd) fp \<Rightarrow> int \<Rightarrow> 'f list \<Rightarrow> int list \<Rightarrow> int list \<Rightarrow> int \<Rightarrow> 'f \<Rightarrow> (int \<times> int list) result" where
  "nms F validCount filterBoxes classIds order filterId threshold =
     (if validCount \<le> 0 then Inr (-1, order)
      else if int (length filterBoxes) < validCount * 4 then Inr (-1, order)
      else if int (length classIds) < validCount then Inr (-1, order)
      else if int (length order) < validCount then Inr (-1, order)
      else rbind (nms_outer F filterBoxes classIds validCount filterId threshold (take (nat validCount) order))
        (\<lambda>order'. Inr (0, order' @ drop (nat validCount) order)))"

section \<open>The whole post-processing\<close>

fun tensors_loop ::
  "('f, 'd) fp \<Rightarrow> 'f ObjDetectParams \<Rightarrow> nat \<Rightarrow> dnnOutput list \<Rightarrow> int \<times> 'f candidates \<Rightarrow>
     (int \<times> 'f candidates) result" where
  "tensors_loop F params i [] st = Inr st"
| "tensors_loop F params i (t # ts) (validBoxNum, cs) =
     (let stride = BASIC_STRIDE * 2 ^ i in
      if \<not> int_ok stride then Inl (Undefined ''int overflow'')
      else rbind (doProcess F i params stride t cs) (\<lambda>(ret, cs').
        tensors_loop F params (i + 1) ts (validBoxNum + ret, cs')))"

fun class_loop ::
  "('f, 'd) fp \<Rightarrow> int \<Rightarrow> 'f list \<Rightarrow> int list \<Rightarrow> 'f \<Rightarrow> int list \<Rightarrow> int list \<Rightarrow> int list result" where
  "class_loop F validBoxNum fb classIds threshold [] order = Inr order"
| "class_loop F validBoxNum fb classIds threshold (filterId # ids) order =
     rbind (nms F validBoxNum fb classIds order filterId threshold)
       (\<lambda>(_, order'). class_loop F validBoxNum fb classIds threshold ids order')"

definition label_of :: "YoloPostProcess \<Rightarrow> int list \<Rightarrow> int \<Rightarrow> string" where
  "label_of y classIds n =
     (if n < int (length classIds)
      then let cid = classIds ! nat n in
        (if 0 \<le> cid \<and> cid < int (length (m_labelMap y)) then m_labelMap y ! nat cid else ''unknown'')
      else ''unknown'')"

text \<open>\<open>(int)(clamp(v, 0, limit) / scale)\<close>.\<close>

definition scaled :: "('f, 'd) fp \<Rightarrow> 'f \<Rightarrow> nat \<Rightarrow> 'f \<Rightarrow> int result" where
  "scaled F v limit scale =
     rbind (clamp F v 0 (to_int32 limit)) (\<lambda>c. float_to_int F (f_div F (f_of_int F c) scale))"

definition output_box ::
  "('f, 'd) fp \<Rightarrow> YoloPostProcess \<Rightarrow> 'f ObjDetectParams \<Rightarrow> 'f list \<Rightarrow> int list \<Rightarrow> 'f \<Rightarrow> int \<Rightarrow>
     'f ObjDetectOutputBox result" where
  "output_box F y params fb classIds score n =
     (let k = nat (n * 4);
          x1 = f_sub F (fb ! k) (f_of_int F (bb_left (pads params)));
          y1 = f_sub F (fb ! (k + 1)) (f_of_int F (bb_top (pads params)));
          x2 = f_add F x1 (fb ! (k + 2));
          y2 = f_add F y1 (fb ! (k + 3))
      in rbind (scaled F x1 (model_input_width params) (scale_width params)) (\<lambda>l.
         rbind (scaled F y1 (model_input_height params) (scale_height params)) (\<lambda>t.
         rbind (scaled F x2 (model_input_width params) (scale_width params)) (\<lambda>r.
         rbind (scaled F y2 (model_input_height params) (scale_height params)) (\<lambda>b.
         Inr \<lparr>out_bbox = \<lparr>bb_left = l, bb_right = r, bb_top = t, bb_bottom = b\<rparr>,
              out_score = score, out_label = label_of y classIds n\<rparr>)))))"

fun output_loop ::
  "('f, 'd) fp \<Rightarrow> YoloPostProcess \<Rightarrow> 'f ObjDetectParams \<Rightarrow> int \<Rightarrow> 'f list \<Rightarrow> int list \<Rightarrow>
     ('f \<times> int) list \<Rightarrow> nat \<Rightarrow> 'f ObjDetectOutputBox list \<Rightarrow> 'f ObjDetectOutputBox list result" where
  "output_loop F y params validBoxNum fb classIds [] detectObjCount out = Inr out"
| "output_loop F y params validBoxNum fb classIds ((score, n) # rest) detectObjCount out =
     (if n = -1 \<or> MAX_OBJ_NUM \<le> detectObjCount \<or> n < 0 \<or> validBoxNum \<le> n \<or> int (length fb) \<le> n * 4 + 3
      then output_loop F y params validBoxNum fb classIds rest detectObjCount out
      else rbind (output_box F y params fb classIds score n) (\<lambda>b.
        output_loop F y params validBoxNum fb classIds rest (detectObjCount + 1) (out @ [b])))"

definition runPostProcess ::
  "('f, 'd) fp \<Rightarrow> YoloPostProcess \<Rightarrow> 'f ObjDetectParams \<Rightarrow> dnnOutput list \<Rightarrow>
     'f ObjDetectOutputBox list \<Rightarrow> (int \<times> 'f ObjDetectOutputBox list) result" where
  "runPostProcess F y params inputData outputData =
     (if inputData = [] then Inr (0, outputData)
      else rbind (tensors_loop F params 0 inputData (0, \<lparr>bboxes = [], objScores = [], classId = []\<rparr>))
        (\<lambda>(validBoxNum, cs).
        if validBoxNum \<le> 0 then Inr (0, outputData)
        else if int (length (objScores cs)) \<noteq> validBoxNum \<or> int (length (classId cs)) \<noteq> validBoxNum \<or>
          int (length (bboxes cs)) \<noteq> validBoxNum * 4 then Inr (-1, outputData)
        else rbind (inverseSortWithIndices F (objScores cs) [0..validBoxNum - 1]) (\<lambda>(scores, indexArray).
          rbind (class_loop F validBoxNum (bboxes cs) (classId cs) (nms_threshold params)
            (sort (remdups (classId cs))) indexArray) (\<lambda>order.
          rbind (output_loop F y params validBoxNum (bboxes cs) (classId cs) (zip scores order) 0 outputData)
            (\<lambda>out. Inr (0, out))))))"

section \<open>Suppression is the greedy selection\<close>

text \<open>
  The reference: keep the first box, drop what overlaps it too much, go on with the rest. It is
  compared with the entries of one class that are left in \<open>order\<close>.
\<close>

fun greedy :: "('a \<Rightarrow> 'a \<Rightarrow> bool) \<Rightarrow> 'a list \<Rightarrow> 'a list" where
  "greedy overlaps [] = []"
| "greedy overlaps (n # ns) = n # greedy overlaps (filter (\<lambda>m. \<not> overlaps n m) ns)"

definition too_close :: "('f, 'd) fp \<Rightarrow> 'f list \<Rightarrow> 'f \<Rightarrow> int \<Rightarrow> int \<Rightarrow> bool" where
  "too_close F fb threshold n m \<longleftrightarrow>
     f_less F threshold (calculateOverlap F (box_at F fb n) (box_at F fb m))"

definition of_class :: "int list \<Rightarrow> int \<Rightarrow> int list \<Rightarrow> int list" where
  "of_class classIds c order = filter (\<lambda>n. n \<noteq> -1 \<and> classIds ! nat n = c) order"

definition nms_input :: "int \<Rightarrow> 'f list \<Rightarrow> int list \<Rightarrow> int list \<Rightarrow> bool" where
  "nms_input validCount fb classIds order \<longleftrightarrow> validCount * 4 \<le> int (length fb) \<and>
     validCount \<le> int (length classIds) \<and> (\<forall>n \<in> set order. -1 \<le> n \<and> n < validCount)"

lemma greedy_subset: "set (greedy ov ns) \<subseteq> set ns"
  by (induction ov ns rule: greedy.induct) auto

lemma greedy_independent: "sorted_wrt (\<lambda>n m. \<not> ov n m) (greedy ov ns)"
proof (induction ov ns rule: greedy.induct)
  case (2 ov n ns)
  then show ?case using greedy_subset [of ov "filter (\<lambda>m. \<not> ov n m) ns"] by auto
qed simp

lemma greedy_dominates: "m \<in> set ns \<Longrightarrow> m \<in> set (greedy ov ns) \<or> (\<exists>n \<in> set (greedy ov ns). ov n m)"
  by (induction ov ns rule: greedy.induct) auto

lemma of_class_simps [simp]:
  "of_class classIds c [] = []"
  "of_class classIds c (n # ns) =
     (if n \<noteq> -1 \<and> classIds ! nat n = c then n # of_class classIds c ns else of_class classIds c ns)"
  by (simp_all add: of_class_def)

text \<open>The inner loop marks every later entry of the class that is too close to \<open>n\<close>.\<close>

definition marked :: "('f, 'd) fp \<Rightarrow> 'f list \<Rightarrow> int list \<Rightarrow> int \<Rightarrow> 'f \<Rightarrow> int \<Rightarrow> int \<Rightarrow> int" where
  "marked F fb classIds filterId threshold n m =
     (if m \<noteq> -1 \<and> classIds ! nat m = filterId \<and> too_close F fb threshold n m then -1 else m)"

lemma nms_inner_map:
  assumes "nms_input validCount fb classIds ms" and "0 \<le> n" and "n < validCount"
  shows "nms_inner F fb classIds validCount filterId threshold n ms =
     Inr (map (marked F fb classIds filterId threshold n) ms)"
  using assms by (induction ms) (auto simp: nms_input_def marked_def too_close_def)

lemma of_class_marked:
  "of_class classIds filterId (map (marked F fb classIds filterId threshold n) ms) =
     filter (\<lambda>m. \<not> too_close F fb threshold n m) (of_class classIds filterId ms)"
  by (induction ms) (auto simp: marked_def)

lemma of_class_marked_other:
  "c \<noteq> filterId \<Longrightarrow>
     of_class classIds c (map (marked F fb classIds filterId threshold n) ms) = of_class classIds c ms"
  by (induction ms) (auto simp: marked_def)

lemma nms_input_marked:
  "nms_input vc fb classIds ms \<Longrightarrow> 0 \<le> vc \<Longrightarrow>
     nms_input vc fb classIds (map (marked F fb classIds filterId threshold n) ms)"
  by (auto simp: nms_input_def marked_def)

lemma nms_outer_greedy:
  assumes "nms_input vc fb classIds order" and "0 \<le> vc"
  shows "\<exists>r. nms_outer F fb classIds vc filterId threshold order = Inr r \<and> length r = length order \<and>
     of_class classIds filterId r = greedy (too_close F fb threshold) (of_class classIds filterId order) \<and>
     (\<forall>c. c \<noteq> filterId \<longrightarrow> of_class classIds c r = of_class classIds c order) \<and>
     nms_input vc fb classIds r"
  using assms(1)
proof (induction order rule: length_induct)
  case (1 order)
  show ?case
  proof (cases order)
    case Nil
    then show ?thesis using 1(2) by simp
  next
    case (Cons n rest)
    have n: "-1 \<le> n" "n < vc" and rest: "nms_input vc fb classIds rest"
      using 1(2) by (auto simp: nms_input_def Cons)
    define rest' where "rest' = (if n \<noteq> -1 \<and> classIds ! nat n = filterId
      then map (marked F fb classIds filterId threshold n) rest else rest)"
    have "nms_input vc fb classIds rest'" "length rest' < length order"
      using rest nms_input_marked [OF rest assms(2), of F filterId threshold n] by (simp_all add: rest'_def Cons)
    then obtain r where r: "nms_outer F fb classIds vc filterId threshold rest' = Inr r"
      "length r = length rest'"
      "of_class classIds filterId r = greedy (too_close F fb threshold) (of_class classIds filterId rest')"
      "\<And>c. c \<noteq> filterId \<Longrightarrow> of_class classIds c r = of_class classIds c rest'"
      "nms_input vc fb classIds r"
      using 1(1) by blast
    have len: "vc \<le> int (length classIds)" using rest by (simp add: nms_input_def)
    have "nms_outer F fb classIds vc filterId threshold order = Inr (n # r)"
      using n len r(1) nms_inner_map [OF rest, of n F filterId threshold]
      by (cases "n = -1") (auto simp: Cons rest'_def)
    moreover have "of_class classIds filterId (n # r) =
        greedy (too_close F fb threshold) (of_class classIds filterId order)"
      using r(3) by (auto simp: Cons rest'_def of_class_marked)
    moreover have "of_class classIds c (n # r) = of_class classIds c order" if "c \<noteq> filterId" for c
      using r(4) [OF that] that by (auto simp: Cons rest'_def of_class_marked_other)
    moreover have "nms_input vc fb classIds (n # r)" using r(5) n by (auto simp: nms_input_def)
    moreover have "length (n # r) = length order" using r(2) by (simp add: Cons rest'_def)
    ultimately show ?thesis by blast
  qed
qed

lemma nms_greedy:
  assumes "nms_input vc fb classIds order" and "0 < vc" and "int (length order) = vc"
  shows "\<exists>r. nms F vc fb classIds order filterId threshold = Inr (0, r) \<and> length r = length order \<and>
     of_class classIds filterId r = greedy (too_close F fb threshold) (of_class classIds filterId order) \<and>
     (\<forall>c. c \<noteq> filterId \<longrightarrow> of_class classIds c r = of_class classIds c order) \<and>
     nms_input vc fb classIds r"
proof -
  have "take (nat vc) order = order" "drop (nat vc) order = []" using assms(3) by auto
  then show ?thesis
    using nms_outer_greedy [OF assms(1), of F filterId threshold] assms
    by (auto simp: nms_def nms_input_def)
qed

lemma class_loop_greedy:
  assumes "nms_input vc fb classIds order" and "0 < vc" and "int (length order) = vc" and "distinct ids"
  shows "\<exists>r. class_loop F vc fb classIds threshold ids order = Inr r \<and> length r = length order \<and>
     (\<forall>c. of_class classIds c r = (if c \<in> set ids
        then greedy (too_close F fb threshold) (of_class classIds c order) else of_class classIds c order)) \<and>
     nms_input vc fb classIds r"
  using assms
proof (induction ids arbitrary: order)
  case (Cons d ids)
  obtain o1 where o1: "nms F vc fb classIds order d threshold = Inr (0, o1)" "length o1 = length order"
    "of_class classIds d o1 = greedy (too_close F fb threshold) (of_class classIds d order)"
    "\<And>c. c \<noteq> d \<Longrightarrow> of_class classIds c o1 = of_class classIds c order" "nms_input vc fb classIds o1"
    using nms_greedy [OF Cons.prems(1-3)] by blast
  obtain r where "class_loop F vc fb classIds threshold ids o1 = Inr r" "length r = length o1"
    "\<And>c. of_class classIds c r = (if c \<in> set ids
        then greedy (too_close F fb threshold) (of_class classIds c o1) else of_class classIds c o1)"
    "nms_input vc fb classIds r"
    using Cons.IH [OF o1(5)] Cons.prems o1(2) by auto
  moreover have "of_class classIds c o1 = of_class classIds c order" if "c \<in> set ids" for c
    by (rule o1(4)) (use that Cons.prems(4) in auto)
  ultimately show ?case using o1 Cons.prems(4) by (intro exI [of _ r]) auto
qed simp

section \<open>Every read of a tensor is in range\<close>

lemma grid_index:
  fixes i j h w :: int
  assumes "0 \<le> i" "i < h" "0 \<le> j" "j < w"
  shows "0 \<le> i * w + j \<and> i * w + j < h * w"
proof -
  have "i * w + j < (i + 1) * w" using assms by (simp add: algebra_simps)
  also have "\<dots> \<le> h * w" using assms by (intro mult_right_mono) auto
  finally show ?thesis using assms by simp
qed

lemma plane_index:
  fixes q L r :: int
  assumes "0 \<le> q" "q \<le> 254" "0 \<le> r" "r < L"
  shows "0 \<le> q * L + r \<and> q * L + r < 255 * L"
proof -
  have "q * L + r < (q + 1) * L" using assms by (simp add: algebra_simps)
  also have "\<dots> \<le> 255 * L" using assms by (intro mult_right_mono) auto
  finally show ?thesis using assms by simp
qed

lemma int8_at_ok: "0 \<le> i \<Longrightarrow> i < int (length buf) \<Longrightarrow> \<exists>v. int8_at buf i = Inr v"
  by (simp add: int8_at_def)

lemma class_scan_ok:
  assumes "\<And>k. k \<in> set ks \<Longrightarrow> 0 \<le> off + (5 + int k) * L \<and> off + (5 + int k) * L < int (length buf)"
  shows "\<exists>m c. class_scan buf (int (length buf)) off L ks m0 c0 = Inr (m, c)"
  using assms
proof (induction ks arbitrary: m0 c0)
  case (Cons k ks)
  obtain v where "int8_at buf (off + (5 + int k) * L) = Inr v"
    using int8_at_ok Cons.prems [of k] by auto
  then show ?case using Cons.IH Cons.prems [of k] Cons.prems by (auto simp: Let_def)
qed simp

text \<open>What \<open>doProcess\<close> keeps: one score and one class per candidate, four numbers per box.\<close>

definition grown :: "int \<Rightarrow> 'f candidates \<Rightarrow> int \<times> 'f candidates \<Rightarrow> bool" where
  "grown k cs r \<longleftrightarrow> fst r = k \<and>
     int (length (objScores (snd r))) = int (length (objScores cs)) + k \<and>
     int (length (classId (snd r))) = int (length (classId cs)) + k \<and>
     int (length (bboxes (snd r))) = int (length (bboxes cs)) + 4 * k"

lemma length_decode_box [simp]: "length (decode_box F zp sc st i j aw ah q0 q1 q2 q3) = 4"
  by (simp add: decode_box_def Let_def)

lemma process_cell_grows:
  assumes "process_cell F buf sz w L zp sc st idx thr cell (k, cs') = Inr r" and "grown k cs (k, cs')"
  shows "grown (fst r) cs r \<and> k \<le> fst r \<and> fst r \<le> k + 1"
  using assms
  by (auto simp: process_cell_def grown_def Let_def returns split: prod.splits if_splits)

lemma cells_loop_grows:
  assumes "cells_loop (process_cell F buf sz w L zp sc st idx thr) cells (k, cs') = Inr r"
    and "grown k cs (k, cs')"
  shows "grown (fst r) cs r \<and> k \<le> fst r \<and> fst r \<le> k + int (length cells)"
  using assms
proof (induction cells arbitrary: k cs')
  case (Cons c cells)
  obtain r1 where r1: "process_cell F buf sz w L zp sc st idx thr c (k, cs') = Inr r1"
    "cells_loop (process_cell F buf sz w L zp sc st idx thr) cells r1 = Inr r"
    using Cons.prems(1) by (auto simp: returns)
  from process_cell_grows [OF r1(1) Cons.prems(2)] Cons.IH [of "fst r1" "snd r1"] r1(2)
  show ?case by auto
qed (auto simp: grown_def)

lemma doProcess_grows:
  assumes "doProcess F idx params stride t cs = Inr r"
  shows "grown (fst r) cs r \<and> 0 \<le> fst r"
proof -
  have "grown 0 cs (0, cs)" by (simp add: grown_def)
  then show ?thesis
    using assms cells_loop_grows [where k = 0 and cs' = cs and cs = cs and r = r]
    by (fastforce simp: doProcess_def Let_def returns split: if_splits option.splits)
qed

lemma process_cell_total:
  assumes "0 \<le> a" "a \<le> 2" "0 \<le> i" "i < h" "0 \<le> j" "j < w" and L: "L = h * w"
    and sz: "255 * L \<le> int (length buf)" and idx: "0 \<le> idx" "idx < 3"
  shows "\<exists>r. process_cell F buf (int (length buf)) w L zp sc st idx thr (a, i, j) (k, cs) = Inr r"
proof -
  have ix: "0 \<le> i * w + j" "i * w + j < L" using grid_index assms by auto
  have in_range: "0 \<le> (85 * a + q) * L + i * w + j \<and> (85 * a + q) * L + i * w + j < int (length buf)"
    if "0 \<le> q" "q \<le> 84" for q
  proof -
    have "0 \<le> (85 * a + q) * L + (i * w + j) \<and> (85 * a + q) * L + (i * w + j) < 255 * L"
      by (rule plane_index) (use that assms(1,2) ix in auto)
    then show ?thesis using sz by (simp add: add.assoc)
  qed
  have at: "\<exists>v. int8_at buf (85 * a * L + i * w + j + q * L) = Inr v" if "0 \<le> q" "q \<le> 84" for q
    using int8_at_ok [of "(85 * a + q) * L + i * w + j"] in_range [OF that] by (simp add: algebra_simps)
  obtain v4 where v4: "int8_at buf ((85 * a + 4) * L + i * w + j) = Inr v4"
    using int8_at_ok in_range [of 4] by auto
  obtain q0 q1 q2 q3 q5 where q: "int8_at buf (85 * a * L + i * w + j) = Inr q0"
    "int8_at buf (85 * a * L + i * w + j + L) = Inr q1"
    "int8_at buf (85 * a * L + i * w + j + 2 * L) = Inr q2"
    "int8_at buf (85 * a * L + i * w + j + 3 * L) = Inr q3"
    "int8_at buf (85 * a * L + i * w + j + 5 * L) = Inr q5"
    using at [of 0] at [of 1] at [of 2] at [of 3] at [of 5] by auto
  have "idx = 0 \<or> idx = 1 \<or> idx = 2" "a = 0 \<or> a = 1 \<or> a = 2" using idx assms(1,2) by auto
  then obtain anchors aw ah where an: "vec_at m_anchorVec idx = Inr anchors"
    "vec_at anchors (a * 2) = Inr aw" "vec_at anchors (a * 2 + 1) = Inr ah"
    by (auto simp: m_anchorVec_def vec_at_def)
  have "0 \<le> 85 * a * L + i * w + j + (5 + int n) * L \<and>
      85 * a * L + i * w + j + (5 + int n) * L < int (length buf)" if "n \<in> set [1..<OBJ_CLASS_NUM]" for n
    using in_range [of "5 + int n"] that by (simp add: OBJ_CLASS_NUM_def algebra_simps)
  then obtain m c where "class_scan buf (int (length buf)) (85 * a * L + i * w + j) L [1..<OBJ_CLASS_NUM] q5 0 =
      Inr (m, c)"
    using class_scan_ok by blast
  then show ?thesis
    using v4 q an by (simp add: process_cell_def PROP_BOX_SIZE_def OBJ_CLASS_NUM_def Let_def)
qed

lemma cells_loop_total:
  assumes "\<And>c st. c \<in> set cells \<Longrightarrow> \<exists>r. f c st = Inr r"
  shows "\<exists>r. cells_loop f cells st = Inr r"
  using assms
proof (induction cells arbitrary: st)
  case (Cons c cells)
  obtain r where "f c st = Inr r" using Cons.prems [of c st] by auto
  then show ?case using Cons.IH [of r] Cons.prems by auto
qed simp

lemma grid_cells_range:
  "(a, i, j) \<in> set (grid_cells h w) \<Longrightarrow> 0 \<le> a \<and> a \<le> 2 \<and> 0 \<le> i \<and> i < h \<and> 0 \<le> j \<and> j < w"
  by (auto simp: grid_cells_def)

lemma length_grid_cells: "0 \<le> h \<Longrightarrow> 0 \<le> w \<Longrightarrow> int (length (grid_cells h w)) = 3 * (h * w)"
proof -
  assume "0 \<le> h" "0 \<le> w"
  moreover have "[0..2 :: int] = [0, 1, 2]" by code_simp
  ultimately show ?thesis
    by (simp add: grid_cells_def length_concat comp_def sum_list_triv)
qed

text \<open>The code's own preconditions: a tensor that is large enough, tables that reach the tensor.\<close>

definition tensor_fits :: "'f ObjDetectParams \<Rightarrow> int \<Rightarrow> dnnOutput \<Rightarrow> bool" where
  "tensor_fits params stride t \<longleftrightarrow>
     (let h = to_int32 (model_input_height params div nat stride);
          w = to_int32 (model_input_width params div nat stride)
      in 0 < h \<and> 0 < w \<and> int_ok (255 * (h * w)) \<and>
         (\<exists>buf. tensor_buf t = Some buf \<and> length buf = tensor_size t) \<and>
         255 * (h * w) \<le> int (tensor_size t))"

lemma doProcess_total:
  assumes "tensor_fits params stride t" and "idx < 3"
    and "idx < length (quantize_zero_points params)" and "idx < length (quantize_scales params)"
    and "qauntFP32ToAffine F (conf_threshold params) (quantize_zero_points params ! idx)
      (quantize_scales params ! idx) = Inr thr"
  shows "\<exists>r. doProcess F idx params stride t cs = Inr r \<and>
     fst r \<le> 3 * (to_int32 (model_input_height params div nat stride) *
       to_int32 (model_input_width params div nat stride))"
proof -
  define h where "h = to_int32 (model_input_height params div nat stride)"
  define w where "w = to_int32 (model_input_width params div nat stride)"
  obtain buf where f: "0 < h" "0 < w" "int_ok (255 * (h * w))" "tensor_buf t = Some buf"
    "length buf = tensor_size t" "255 * (h * w) \<le> int (length buf)"
    using assms(1) by (auto simp: tensor_fits_def Let_def h_def w_def)
  have pos: "0 < h * w" using f(1,2) by simp
  then have ok: "int_ok (h * w)" "\<not> h * w \<le> 0" using f(3) by (auto simp: int_ok_def)
  let ?f = "process_cell F buf (int (length buf)) w (h * w) (quantize_zero_points params ! idx)
    (quantize_scales params ! idx) stride (int idx) thr"
  have "\<exists>r. ?f c st = Inr r" if "c \<in> set (grid_cells h w)" for c st
  proof -
    obtain a i j where c: "c = (a, i, j)" by (cases c)
    obtain k cs' where st: "st = (k, cs')" by (cases st)
    note rng = grid_cells_range [OF that [unfolded c]]
    show ?thesis unfolding c st
      by (rule process_cell_total [where h = h]) (use rng f(6) assms(2) in simp_all)
  qed
  note tot = this
  obtain r where r: "cells_loop ?f (grid_cells h w) (0, cs) = Inr r"
    using cells_loop_total [where f = ?f and st = "(0, cs)", OF tot] by (rule exE)
  have "fst r \<le> 3 * (h * w)"
    using cells_loop_grows [OF r, of cs] length_grid_cells [of h w] f(1,2) by (simp add: grown_def)
  moreover have "doProcess F idx params stride t cs = Inr r"
    using r f ok assms(2-5)
    by (simp add: doProcess_def Let_def PROP_BOX_SIZE_def OBJ_CLASS_NUM_def flip: h_def w_def)
  ultimately show ?thesis by (auto simp: h_def w_def)
qed

section \<open>Sorting and the output\<close>

text \<open>What \<open><=\<close> of the finite floats satisfies.\<close>

definition ordered_floats :: "('f, 'd) fp \<Rightarrow> bool" where
  "ordered_floats F \<longleftrightarrow>
     (\<forall>x y. f_finite F x \<and> f_finite F y \<longrightarrow> f_le F x y \<or> f_le F y x) \<and>
     (\<forall>x y z. f_finite F x \<and> f_finite F y \<and> f_finite F z \<and> f_le F x y \<and> f_le F y z \<longrightarrow> f_le F x z)"

lemma set_sort_insert [simp]: "set (sort_insert cmp x xs) = insert x (set xs)"
  by (induction xs) auto

lemma mset_sort_insert [simp]: "mset (sort_insert cmp x xs) = add_mset x (mset xs)"
  by (induction xs) auto

lemma mset_foldr_insert: "mset (foldr (sort_insert cmp) xs []) = mset xs"
  by (induction xs) auto

lemma sorted_sort_insert:
  assumes "\<And>x y. x \<in> S \<Longrightarrow> y \<in> S \<Longrightarrow> cmp x y \<or> cmp y x"
    and "\<And>x y z. x \<in> S \<Longrightarrow> y \<in> S \<Longrightarrow> z \<in> S \<Longrightarrow> cmp x y \<Longrightarrow> cmp y z \<Longrightarrow> cmp x z"
    and "x \<in> S" "set xs \<subseteq> S" "sorted_wrt cmp xs"
  shows "sorted_wrt cmp (sort_insert cmp x xs)"
  using assms(4,5)
proof (induction xs)
  case (Cons y ys)
  have y: "y \<in> S" "set ys \<subseteq> S" using Cons.prems(1) by auto
  show ?case
  proof (cases "cmp x y")
    case True
    have "cmp x z" if "z \<in> set ys" for z
      using assms(2) [OF assms(3) y(1) _ True, of z] y(2) that Cons.prems(2) by auto
    then show ?thesis using True Cons.prems(2) by simp
  next
    case False
    then have "cmp y x" using assms(1) [OF assms(3) y(1)] by simp
    then show ?thesis using False Cons.IH [OF y(2)] Cons.prems(2) by simp
  qed
qed simp

lemma std_sort_sorted:
  assumes "\<And>x y. x \<in> set xs \<Longrightarrow> y \<in> set xs \<Longrightarrow> cmp x y \<or> cmp y x"
    and "\<And>x y z. x \<in> set xs \<Longrightarrow> y \<in> set xs \<Longrightarrow> z \<in> set xs \<Longrightarrow> cmp x y \<Longrightarrow> cmp y z \<Longrightarrow> cmp x z"
    and "std_sort cmp xs = Inr ys"
  shows "mset ys = mset xs \<and> sorted_wrt cmp ys"
proof -
  have sub: "set (foldr (sort_insert cmp) zs []) = set zs" for zs by (induction zs) auto
  have "sorted_wrt cmp (foldr (sort_insert cmp) zs [])" if "set zs \<subseteq> set xs" for zs
    using that
  proof (induction zs)
    case (Cons z zs)
    have "sorted_wrt cmp (sort_insert cmp z (foldr (sort_insert cmp) zs []))"
      by (rule sorted_sort_insert [where S = "set xs", OF assms(1,2)]) (use Cons sub in auto)
    then show ?case by simp
  qed simp
  then show ?thesis
    using assms(3) mset_foldr_insert by (auto simp: std_sort_def split: if_splits)
qed

lemma inverseSort_sorted:
  assumes "ordered_floats F" and "\<forall>x \<in> set input. f_finite F x" and "length input = length indices"
    and "inverseSortWithIndices F input indices = Inr (scores, idx)"
  shows "mset (zip scores idx) = mset (zip input indices) \<and> length scores = length idx \<and>
     sorted_wrt (\<lambda>a b. f_le F b a) scores"
proof (cases "input = []")
  case True
  then show ?thesis using assms(3,4) by (auto simp: inverseSortWithIndices_def)
next
  case False
  then have "indices \<noteq> []" using assms(3) by auto
  then obtain ps where ps: "std_sort (\<lambda>a b. f_le F (fst b) (fst a)) (zip input indices) = Inr ps"
    "scores = map fst ps" "idx = map snd ps"
    using assms(2-4) False by (auto simp: inverseSortWithIndices_def returns)
  have fin: "f_finite F (fst p)" if "p \<in> set (zip input indices)" for p
    using that assms(2) set_zip_leftD [of "fst p" "snd p" input indices] by auto
  have "mset ps = mset (zip input indices) \<and> sorted_wrt (\<lambda>a b. f_le F (fst b) (fst a)) ps"
    using std_sort_sorted [OF _ _ ps(1)] fin assms(1) unfolding ordered_floats_def by meson
  then show ?thesis by (simp add: ps(2,3) zip_map_fst_snd sorted_wrt_map)
qed

lemma length_class_loop:
  "class_loop F vc fb cls thr ids order = Inr r \<Longrightarrow> length r = length order"
proof (induction ids arbitrary: order)
  case (Cons d ids)
  have nms: "length o1 = length order" if "nms F vc fb cls order d thr = Inr (k, o1)" for k o1
  proof -
    have "length ys = length (take (nat vc) order)"
      if "nms_outer F fb cls vc d thr (take (nat vc) order) = Inr ys" for ys
      using length_nms_outer [OF that] .
    then show ?thesis using that by (auto simp: nms_def returns split: if_splits)
  qed
  then show ?case using Cons by (auto simp: returns)
qed simp

lemma output_loop_sorted:
  assumes "output_loop F y params n fb cls ps k out0 = Inr out"
    and "sorted_wrt R (map out_score out0 @ map fst ps)" and "k = length out0" and "k \<le> 64"
  shows "sorted_wrt R (map out_score out) \<and> length out \<le> 64"
  using assms
proof (induction ps arbitrary: k out0)
  case (Cons p ps)
  obtain sc m where p: "p = (sc, m)" by (cases p)
  have rest: "sorted_wrt R (map out_score out0 @ map fst ps)"
    using Cons.prems(2) by (auto simp: sorted_wrt_append)
  show ?case
  proof (cases "m = -1 \<or> MAX_OBJ_NUM \<le> k \<or> m < 0 \<or> n \<le> m \<or> int (length fb) \<le> m * 4 + 3")
    case True
    then show ?thesis using Cons.IH [OF _ rest] Cons.prems p by auto
  next
    case False
    then obtain b where b: "output_box F y params fb cls sc m = Inr b"
      "output_loop F y params n fb cls ps (k + 1) (out0 @ [b]) = Inr out"
      using Cons.prems(1) p by (auto simp: returns)
    have "out_score b = sc" using b(1) by (auto simp: output_box_def Let_def returns)
    then have "sorted_wrt R (map out_score (out0 @ [b]) @ map fst ps)"
      using Cons.prems(2) p by simp
    from Cons.IH [OF b(2) this] show ?thesis using Cons.prems(3) False by (auto simp: MAX_OBJ_NUM_def)
  qed
qed simp

section \<open>Properties\<close>

text \<open>Exact arithmetic, three boxes of class 7 (the second overlaps the first) and one of class 3.\<close>

definition exact_fp :: "(rat, rat) fp" where
  "exact_fp = \<lparr>widen = id, narrow = id, d_half = 1 / 2, d_one = 1, d_two = 2, d_add = (+), d_sub = (-),
     d_mul = (*), d_div = (/), fmax = max, fmin = min, f_add = (+), f_sub = (-), f_mul = (*),
     f_div = (/), f_of_int = of_int, f_le = (\<le>), f_less = (<), f_finite = (\<lambda>_. True),
     f_to_int = (\<lambda>x. let i = (if 0 \<le> x then \<lfloor>x\<rfloor> else \<lceil>x\<rceil>) in if int_ok i then Some i else None)\<rparr>"

definition demo_boxes :: "rat list" where
  "demo_boxes = [0, 0, 9, 9, 1, 0, 9, 9, 50, 50, 9, 9, 0, 0, 9, 9]"

lemma demo_nms_input: "nms_input 4 demo_boxes [7, 7, 7, 3] [1, 0, 3, 2]"
  by (simp add: nms_input_def demo_boxes_def)

text \<open>
  C2. Suppression is the greedy selection per class: run over all classes on candidates in any
  order, it keeps of each class exactly what the greedy rule keeps (take the first box, drop every
  later one whose overlap with it exceeds the threshold, go on with the rest), in the same order,
  and it always returns.
\<close>

theorem nms_is_greedy:
  assumes "nms_input vc fb classIds order" and "0 < vc" and "int (length order) = vc" and "distinct ids"
  shows "\<exists>r. class_loop F vc fb classIds threshold ids order = Inr r \<and> length r = length order \<and>
     (\<forall>c \<in> set ids. of_class classIds c r =
        greedy (too_close F fb threshold) (of_class classIds c order))"
  using class_loop_greedy [OF assms, of F threshold] by auto

theorem nms_is_greedy_witness:
  "\<exists>r. class_loop exact_fp 4 demo_boxes [7, 7, 7, 3] (1 / 2) [3, 7] [1, 0, 3, 2] = Inr r \<and>
     of_class [7, 7, 7, 3] 7 r = [1, 2] \<and> of_class [7, 7, 7, 3] 3 r = [3]"
proof -
  have "greedy (too_close exact_fp demo_boxes (1 / 2)) (of_class [7, 7, 7, 3] 7 [1, 0, 3, 2]) = [1, 2]"
    "greedy (too_close exact_fp demo_boxes (1 / 2)) (of_class [7, 7, 7, 3] 3 [1, 0, 3, 2]) = [3]"
    by code_simp+
  then show ?thesis
    using nms_is_greedy [OF demo_nms_input, of "[3, 7]" exact_fp "1 / 2"] by force
qed

text \<open>
  Whatever the order of the candidates, of each class the boxes that \<open>nms\<close> keeps pairwise do
  not overlap by more than the threshold, and every box it drops overlaps a kept box of its class by
  more than the threshold.
\<close>

theorem nms_keeps_separated:
  assumes "nms_input vc fb classIds order" and "0 < vc" and "int (length order) = vc"
    and "nms F vc fb classIds order filterId threshold = Inr (ret, r)"
  shows "sorted_wrt (\<lambda>n m. \<not> too_close F fb threshold n m) (of_class classIds filterId r) \<and>
     (\<forall>m \<in> set (of_class classIds filterId order). m \<in> set (of_class classIds filterId r) \<or>
        (\<exists>n \<in> set (of_class classIds filterId r). too_close F fb threshold n m))"
proof -
  have "of_class classIds filterId r = greedy (too_close F fb threshold) (of_class classIds filterId order)"
    using nms_greedy [OF assms(1-3), of F filterId threshold] assms(4) by auto
  then show ?thesis by (simp add: greedy_independent greedy_dominates)
qed

theorem nms_keeps_separated_witness:
  "sorted_wrt (\<lambda>n m. \<not> too_close exact_fp demo_boxes (1 / 2) n m)
     (of_class [7, 7, 7, 3] 7 (snd (case nms exact_fp 4 demo_boxes [7, 7, 7, 3] [1, 0, 3, 2] 7 (1 / 2) of Inr x \<Rightarrow> x)))"
proof -
  obtain r where r: "nms exact_fp 4 demo_boxes [7, 7, 7, 3] [1, 0, 3, 2] 7 (1 / 2) = Inr (0, r)"
    using nms_greedy [OF demo_nms_input, of exact_fp 7 "1 / 2"] by auto
  show ?thesis using nms_keeps_separated [OF demo_nms_input _ _ r] r by simp
qed

text \<open>
  C9. On a tensor as large as the grid needs, \<open>doProcess\<close> always returns: every read of the tensor
  and of the tables is in range, at most one candidate per cell is added, and with each of them one
  score, one class and four coordinates.
\<close>

theorem doProcess_in_bounds:
  assumes "tensor_fits params stride t" and "idx < 3"
    and "idx < length (quantize_zero_points params)" and "idx < length (quantize_scales params)"
    and "qauntFP32ToAffine F (conf_threshold params) (quantize_zero_points params ! idx)
      (quantize_scales params ! idx) = Inr thr"
  shows "\<exists>n cs'. doProcess F idx params stride t cs = Inr (n, cs') \<and> 0 \<le> n \<and>
     n \<le> 3 * (to_int32 (model_input_height params div nat stride) *
       to_int32 (model_input_width params div nat stride)) \<and>
     int (length (objScores cs')) = int (length (objScores cs)) + n \<and>
     int (length (classId cs')) = int (length (classId cs)) + n \<and>
     int (length (bboxes cs')) = int (length (bboxes cs)) + 4 * n"
  using doProcess_total [OF assms, of cs] doProcess_grows [of F idx params stride t cs]
  by (fastforce simp: grown_def)

definition demo_params :: "rat ObjDetectParams" where
  "demo_params = \<lparr>model_input_width = 8, model_input_height = 8, model_input_channel = 3,
     conf_threshold = 1 / 4, nms_threshold = 1 / 2, scale_width = 1, scale_height = 1,
     pads = \<lparr>bb_left = 0, bb_right = 0, bb_top = 0, bb_bottom = 0\<rparr>,
     quantize_zero_points = [0, 0, 0], quantize_scales = [1 / 64, 1 / 64, 1 / 64]\<rparr>"

definition demo_tensor :: dnnOutput where
  "demo_tensor = \<lparr>tensor_index = 0, tensor_buf = Some (replicate 255 0), tensor_size = 255, dataType = ''INT8''\<rparr>"

theorem doProcess_in_bounds_witness:
  "\<exists>n cs'. doProcess exact_fp 0 demo_params 8 demo_tensor \<lparr>bboxes = [], objScores = [], classId = []\<rparr> =
     Inr (n, cs') \<and> n \<le> 3"
proof -
  have one: "to_int32 1 = 1" by code_simp
  have "tensor_fits demo_params 8 demo_tensor"
    by (simp add: tensor_fits_def demo_params_def demo_tensor_def int_ok_def Let_def one [unfolded One_nat_def])
  moreover have "qauntFP32ToAffine exact_fp (1 / 4) 0 (1 / 64) = Inr 16"
    by (simp add: qauntFP32ToAffine_def exact_fp_def float_to_int_def clip_def to_int8_def int_ok_def Let_def)
  ultimately show ?thesis
    using doProcess_in_bounds [of demo_params 8 demo_tensor 0 exact_fp 16 "\<lparr>bboxes = [], objScores = [], classId = []\<rparr>"]
    by (auto simp: demo_params_def one [unfolded One_nat_def])
qed

text \<open>
  C8. What \<open>runPostProcess\<close> returns for finite scores is at most 64 boxes, ordered by decreasing
  score, whatever the tensors hold.
\<close>

theorem detections_ranked:
  assumes "ordered_floats F"
    and "tensors_loop F params 0 tensors (0, \<lparr>bboxes = [], objScores = [], classId = []\<rparr>) = Inr (n, cs)"
    and "\<forall>x \<in> set (objScores cs). f_finite F x"
    and "runPostProcess F y params tensors [] = Inr (ret, out)"
  shows "length out \<le> 64 \<and> sorted_wrt (\<lambda>a b. f_le F (out_score b) (out_score a)) out"
proof (cases "tensors = [] \<or> n \<le> 0 \<or> out = []")
  case True
  then show ?thesis using assms(2,4) by (auto simp: runPostProcess_def split: if_splits)
next
  case False
  then obtain scores idx order where r: "length (objScores cs) = length [0..n - 1]"
    "inverseSortWithIndices F (objScores cs) [0..n - 1] = Inr (scores, idx)"
    "class_loop F n (bboxes cs) (classId cs) (nms_threshold params) (sort (remdups (classId cs))) idx = Inr order"
    "output_loop F y params n (bboxes cs) (classId cs) (zip scores order) 0 [] = Inr out"
    using assms(2,4) by (auto simp: runPostProcess_def returns split: if_splits)
  have s: "length scores = length idx" "sorted_wrt (\<lambda>a b. f_le F b a) scores"
    using inverseSort_sorted [OF assms(1,3) r(1,2)] by auto
  then have "map fst (zip scores order) = scores" using length_class_loop [OF r(3)] by simp
  then have "sorted_wrt (\<lambda>a b. f_le F b a) (map out_score ([] :: 'a ObjDetectOutputBox list) @ map fst (zip scores order))"
    using s(2) by simp
  from output_loop_sorted [OF r(4) this] show ?thesis by (simp add: sorted_wrt_map)
qed

definition two_cells :: dnnOutput where
  "two_cells = \<lparr>tensor_index = 0, tensor_buf = Some ((replicate 255 0)[4 := 64, 5 := 64, 89 := 32, 92 := 64]),
     tensor_size = 255, dataType = ''INT8''\<rparr>"

theorem detections_ranked_witness:
  "\<exists>out. runPostProcess exact_fp newYoloPostProcess demo_params [two_cells] [] = Inr (0, out) \<and>
     map out_score out = [1, 1 / 2] \<and> length out \<le> 64 \<and>
     sorted_wrt (\<lambda>a b. f_le exact_fp (out_score b) (out_score a)) out"
proof -
  have t: "tensors_loop exact_fp demo_params 0 [two_cells] (0, \<lparr>bboxes = [], objScores = [], classId = []\<rparr>) =
      Inr (2, \<lparr>bboxes = [-4, -4, 0, 0, -4, -4, 0, 0], objScores = [1, 1 / 2], classId = [0, 2]\<rparr>)"
    by code_simp
  let ?box = "\<lambda>sc. \<lparr>out_bbox = \<lparr>bb_left = 0, bb_right = 0, bb_top = 0, bb_bottom = 0\<rparr>,
    out_score = sc, out_label = ''unknown''\<rparr>"
  have r: "runPostProcess exact_fp newYoloPostProcess demo_params [two_cells] [] =
      Inr (0, [?box 1, ?box (1 / 2)])"
    by code_simp
  have "ordered_floats exact_fp" by (auto simp: ordered_floats_def exact_fp_def)
  from detections_ranked [OF this t _ r] show ?thesis using r by (simp add: exact_fp_def)
qed

text \<open>
  Two candidates with the same finite score make the call of \<open>std::sort\<close> meaningless: \<open>>=\<close> holds
  between them both ways.
\<close>

lemma equal_scores_undefined:
  assumes "f_finite F x" and "f_le F x x"
  shows "inverseSortWithIndices F [x, x] [0, 1] = Inl (Undefined ''std::sort needs a strict weak ordering'')"
  using assms by (simp add: inverseSortWithIndices_def std_sort_def)

end
