(* ===== verification/ZmqIpc.thy ===== *)
theory ZmqIpc
  imports Prelude
begin

text \<open>
  Message passing over ZeroMQ and a shared memory segment (\<open>midware/zeromq_ipc\<close>: \<open>zmqPublisher.*\<close>,
  \<open>zmqSubscriber.*\<close>, \<open>sharedMemPublisher.*\<close>, \<open>sharedMemSubscriber.*\<close>). A ZeroMQ socket is the list of
  frames that passed or wait on it; the segment is a list of bytes both sides see. The publisher's
  and the subscriber's objects are records; each method holds its mutex where it touches the object.
\<close>

section \<open>ZmqPublisher\<close>

text \<open>A frame and its \<open>more\<close> flag.\<close>

type_synonym frame = "bytes \<times> bool"

record ZmqPublisher =
  pub_topic :: string
  pub_sync_topic :: string
  pub_sent :: "frame list"

definition newZmqPublisher :: "string \<Rightarrow> ZmqPublisher" where
  "newZmqPublisher topic = \<lparr>pub_topic = topic, pub_sync_topic = [], pub_sent = []\<rparr>"

text \<open>
  \<open>sendData(data, size, more)\<close>; \<open>sent\<close> tells whether \<open>send\<close> took the message (an empty result
  otherwise). The return value is the number of bytes.
\<close>

definition zmq_sendData_more :: "bool \<Rightarrow> bytes \<Rightarrow> bool \<Rightarrow> ZmqPublisher \<Rightarrow> nat \<times> ZmqPublisher" where
  "zmq_sendData_more sent data m p =
     (if sent then (length data, p\<lparr>pub_sent := pub_sent p @ [(data, m)]\<rparr>) else (0, p))"

text \<open>\<open>sendData(data, size)\<close> returns an \<open>int\<close>.\<close>

definition zmq_sendData :: "bool \<Rightarrow> bytes \<Rightarrow> ZmqPublisher \<Rightarrow> int \<times> ZmqPublisher" where
  "zmq_sendData sent data p =
     (case zmq_sendData_more sent data False p of (n, p') \<Rightarrow> (sint (word_of_nat n :: 32 word), p'))"

definition zmq_sendDataMore :: "bool \<Rightarrow> bytes \<Rightarrow> ZmqPublisher \<Rightarrow> nat \<times> ZmqPublisher" where
  "zmq_sendDataMore sent data p = zmq_sendData_more sent data True p"

definition zmq_sendDataLast :: "bool \<Rightarrow> bytes \<Rightarrow> ZmqPublisher \<Rightarrow> nat \<times> ZmqPublisher" where
  "zmq_sendDataLast sent data p = zmq_sendData_more sent data False p"

text \<open>\<open>requests\<close> are what arrives on the synchronisation socket; the answer is one empty message.\<close>

definition waitSync :: "string \<Rightarrow> bytes list \<Rightarrow> ZmqPublisher \<Rightarrow> (ZmqPublisher, int \<times> bytes list) outcome" where
  "waitSync sync_topic requests p =
     (let p' = p\<lparr>pub_sync_topic := sync_topic\<rparr> in
      case requests of [] \<Rightarrow> (Inl Waiting, p') | _ # _ \<Rightarrow> (Inr (0, [[]]), p'))"

section \<open>ZmqSubscriber\<close>

record ZmqSubscriber =
  sub_topic :: string
  sub_sync_topic :: string
  sub_incoming :: "frame list"

definition newZmqSubscriber :: "string \<Rightarrow> ZmqSubscriber" where
  "newZmqSubscriber topic = \<lparr>sub_topic = topic, sub_sync_topic = [], sub_incoming = []\<rparr>"

text \<open>\<open>recv\<close> takes one frame.\<close>

definition zmq_recv :: "ZmqSubscriber \<Rightarrow> (ZmqSubscriber, frame) outcome" where
  "zmq_recv s = (case sub_incoming s of [] \<Rightarrow> (Inl Waiting, s)
     | f # fs \<Rightarrow> (Inr f, s\<lparr>sub_incoming := fs\<rparr>))"

definition receiveData_vector :: "ZmqSubscriber \<Rightarrow> (ZmqSubscriber, int \<times> bytes) outcome" where
  "receiveData_vector s = andthen (zmq_recv s) (\<lambda>(d, _) s'. (Inr (0, d), s'))"

text \<open>
  \<open>receiveData(buffer, bytes)\<close>: the front part of one frame, as much as \<open>bytes\<close> allows. The result
  pairs the return value with the buffer.
\<close>

definition receiveData :: "bytes \<Rightarrow> nat \<Rightarrow> ZmqSubscriber \<Rightarrow> (ZmqSubscriber, nat \<times> bytes) outcome" where
  "receiveData buffer n s =
     andthen (zmq_recv s) (\<lambda>(d, _) s'.
       let actual_bytes = min (length d) n in
       (case memcpy_at 0 (take actual_bytes d) buffer of
          Inl e \<Rightarrow> Inl e | Inr b \<Rightarrow> Inr (actual_bytes, b), s'))"

text \<open>
  \<open>receiveDataMore(buffer, bytes)\<close>: the frames of one message, one behind the other. The loop runs
  while the last frame has its \<open>more\<close> flag set; a frame that does not fit ends it with 0.
\<close>

fun more_frames :: "bytes \<Rightarrow> nat \<Rightarrow> nat \<Rightarrow> bool \<Rightarrow> frame list \<Rightarrow> (frame list, nat \<times> bytes) outcome" where
  "more_frames buffer n bytes_index False q = (Inr (bytes_index, buffer), q)"
| "more_frames buffer n bytes_index True [] = (Inl Waiting, [])"
| "more_frames buffer n bytes_index True ((d, m) # q) =
     (if n - bytes_index < length d then (Inr (0, buffer), q)
      else case memcpy_at bytes_index d buffer of
        Inl e \<Rightarrow> (Inl e, q)
      | Inr b \<Rightarrow> more_frames b n (bytes_index + length d) m q)"

definition receiveDataMore :: "bytes \<Rightarrow> nat \<Rightarrow> ZmqSubscriber \<Rightarrow> (ZmqSubscriber, nat \<times> bytes) outcome" where
  "receiveDataMore buffer n s =
     andthen (zmq_recv s) (\<lambda>(d, m) s'.
       if n < length d then (Inr (0, buffer), s')
       else case memcpy_at 0 d buffer of
         Inl e \<Rightarrow> (Inl e, s')
       | Inr b \<Rightarrow> (case more_frames b n (length d) m (sub_incoming s') of
           (r, q) \<Rightarrow> (r, s'\<lparr>sub_incoming := q\<rparr>)))"

fun more_frames_vector :: "bytes \<Rightarrow> bool \<Rightarrow> frame list \<Rightarrow> (frame list, int \<times> bytes) outcome" where
  "more_frames_vector data False q = (Inr (0, data), q)"
| "more_frames_vector data True [] = (Inl Waiting, [])"
| "more_frames_vector data True ((d, m) # q) = more_frames_vector (data @ d) m q"

definition receiveDataMore_vector :: "ZmqSubscriber \<Rightarrow> (ZmqSubscriber, int \<times> bytes) outcome" where
  "receiveDataMore_vector s =
     andthen (zmq_recv s) (\<lambda>(d, m) s'.
       case more_frames_vector d m (sub_incoming s') of (r, q) \<Rightarrow> (r, s'\<lparr>sub_incoming := q\<rparr>))"

definition replySync :: "string \<Rightarrow> bytes list \<Rightarrow> ZmqSubscriber \<Rightarrow> (ZmqSubscriber, int) outcome" where
  "replySync sync_topic replies s =
     (let s' = s\<lparr>sub_sync_topic := sync_topic\<rparr> in
      case replies of [] \<Rightarrow> (Inl Waiting, s') | _ # _ \<Rightarrow> (Inr 0, s'))"

section \<open>SharedMemPublisher\<close>

text \<open>
  The segment is an argument of the operations that read or write it. \<open>m_shm_slots\<close> holds the
  offsets of the slots from \<open>m_shm_base_ptr\<close>; \<open>pub_mapped\<close> says that the base is a valid mapping.
\<close>

record SharedMemPublisher =
  m_slots :: nat
  m_single_buffer_size :: nat
  m_shm_name :: string
  m_shm_fd :: fd
  pub_mapped :: bool
  m_shm_slots :: "nat list"
  m_current_slot_index :: nat
  m_zmq_msg_pub :: ZmqPublisher

definition MAX_BUFFER_SLOTS_COUNT :: nat where "MAX_BUFFER_SLOTS_COUNT = 32"

text \<open>\<open>single_buffer_size * slots\<close> in \<open>size_t\<close>.\<close>

definition total_size :: "nat \<Rightarrow> nat \<Rightarrow> nat" where
  "total_size single slots = (single * slots) mod 2 ^ 64"

definition slot_offsets :: "nat \<Rightarrow> nat \<Rightarrow> nat list" where
  "slot_offsets single slots = map (\<lambda>i. i * single) [0..<slots]"

text \<open>
  The constructor with \<open>initSharedMemory\<close>: \<open>fd\<close>, \<open>trunc\<close> and \<open>mapped\<close> are the answers of
  \<open>shm_open\<close>, \<open>ftruncate\<close> and \<open>mmap\<close>. The new segment is all zero.
\<close>

definition newSharedMemPublisher ::
  "fd \<Rightarrow> int \<Rightarrow> bool \<Rightarrow> string \<Rightarrow> string \<Rightarrow> nat \<Rightarrow> nat \<Rightarrow> (SharedMemPublisher \<times> bytes) result" where
  "newSharedMemPublisher d trunc mapped topic shm_name slots single_buffer_size =
     (if MAX_BUFFER_SLOTS_COUNT < slots
      then Inl (Throw ''slots must be less than or equal to MAX_BUFFER_SLOTS_COUNT'')
      else if d = -1 \<or> trunc = -1 \<or> \<not> mapped then Inl (Throw ''SharedMemPublisher initialization failed'')
      else Inr (\<lparr>m_slots = slots, m_single_buffer_size = single_buffer_size, m_shm_name = shm_name,
        m_shm_fd = d, pub_mapped = True, m_shm_slots = slot_offsets single_buffer_size slots,
        m_current_slot_index = 0, m_zmq_msg_pub = newZmqPublisher topic\<rparr>,
        replicate (total_size single_buffer_size slots) 0))"

definition pub_cleanupSharedMemory :: "SharedMemPublisher \<Rightarrow> SharedMemPublisher" where
  "pub_cleanupSharedMemory p = p\<lparr>pub_mapped := False, m_shm_fd := -1\<rparr>"

definition getMaxSlotsCount :: "SharedMemPublisher \<Rightarrow> nat" where
  "getMaxSlotsCount p = MAX_BUFFER_SLOTS_COUNT"

definition getCurrentSlotIndex :: "SharedMemPublisher \<Rightarrow> nat" where
  "getCurrentSlotIndex p = m_current_slot_index p"

definition resetCurrentSlotIndex :: "SharedMemPublisher \<Rightarrow> SharedMemPublisher" where
  "resetCurrentSlotIndex p = p\<lparr>m_current_slot_index := 0\<rparr>"

definition getFreeSlotIndex :: "SharedMemPublisher \<Rightarrow> (SharedMemPublisher, nat) outcome" where
  "getFreeSlotIndex p =
     (if m_slots p = 0 then (Inl (Undefined ''modulo zero''), p)
      else (Inr (m_current_slot_index p),
            p\<lparr>m_current_slot_index := (m_current_slot_index p + 1) mod m_slots p\<rparr>))"

text \<open>The result of \<open>send\<close> is not looked at.\<close>

definition publishData ::
  "bool \<Rightarrow> bytes \<Rightarrow> bytes \<Rightarrow> nat \<Rightarrow> SharedMemPublisher \<times> bytes \<Rightarrow> (SharedMemPublisher \<times> bytes, int) outcome" where
  "publishData sent msg shm_data slot_index ps =
     (case ps of (p, shm) \<Rightarrow>
      if m_slots p \<le> slot_index then (Inr (-1), ps)
      else if m_single_buffer_size p < length shm_data then (Inr (-1), ps)
      else case memcpy_at (m_shm_slots p ! slot_index) shm_data shm of
        Inl e \<Rightarrow> (Inl e, ps)
      | Inr shm' \<Rightarrow>
          (Inr 0, (p\<lparr>m_zmq_msg_pub := snd (zmq_sendData sent msg (m_zmq_msg_pub p))\<rparr>, shm')))"

section \<open>SharedMemSubscriber\<close>

record SharedMemSubscriber =
  sub_slots :: nat
  sub_single_buffer_size :: nat
  sub_shm_name :: string
  sub_shm_fd :: fd
  sub_mapped :: bool
  sub_shm_slots :: "nat list"
  m_zmq_msg_sub :: ZmqSubscriber

definition newSharedMemSubscriber ::
  "fd \<Rightarrow> bool \<Rightarrow> string \<Rightarrow> string \<Rightarrow> nat \<Rightarrow> nat \<Rightarrow> SharedMemSubscriber result" where
  "newSharedMemSubscriber d mapped topic shm_name slots single_buffer_size =
     (if d = -1 \<or> \<not> mapped then Inl (Throw ''SharedMemSubscriber initialization failed'')
      else Inr \<lparr>sub_slots = slots, sub_single_buffer_size = single_buffer_size, sub_shm_name = shm_name,
        sub_shm_fd = d, sub_mapped = True, sub_shm_slots = slot_offsets single_buffer_size slots,
        m_zmq_msg_sub = newZmqSubscriber topic\<rparr>)"

definition sub_cleanupSharedMemory :: "SharedMemSubscriber \<Rightarrow> SharedMemSubscriber" where
  "sub_cleanupSharedMemory s = s\<lparr>sub_mapped := False, sub_shm_fd := -1, sub_shm_slots := []\<rparr>"

definition receiveMsg :: "bytes \<Rightarrow> nat \<Rightarrow> SharedMemSubscriber \<Rightarrow> (SharedMemSubscriber, nat \<times> bytes) outcome" where
  "receiveMsg msg_buffer msg_size s =
     (case receiveData msg_buffer msg_size (m_zmq_msg_sub s) of (r, z) \<Rightarrow> (r, s\<lparr>m_zmq_msg_sub := z\<rparr>))"

text \<open>The segment is only read; the result pairs the return value with the caller's buffer.\<close>

definition receiveSharedMemData ::
  "bytes \<Rightarrow> nat \<Rightarrow> nat \<Rightarrow> SharedMemSubscriber \<Rightarrow> bytes \<Rightarrow> (int \<times> bytes) result" where
  "receiveSharedMemData data_buffer data_size slot_index s shm =
     (if sub_slots s \<le> slot_index then Inr (-1, data_buffer)
      else
        (let actual_bytes = min (sub_single_buffer_size s) data_size;
             off = sub_shm_slots s ! slot_index
         in if length shm < off + actual_bytes then Inl (Undefined ''memcpy out of range'')
            else rbind (memcpy_at 0 (take actual_bytes (drop off shm)) data_buffer)
              (\<lambda>b. Inr (sint (word_of_nat actual_bytes :: 32 word), b))))"

section \<open>Multi-part messages\<close>

text \<open>A message in parts, sent as the interface asks: all but the last with \<open>sendDataMore\<close>.\<close>

fun send_parts :: "bytes list \<Rightarrow> ZmqPublisher \<Rightarrow> ZmqPublisher" where
  "send_parts [] p = p"
| "send_parts [d] p = snd (zmq_sendDataLast True d p)"
| "send_parts (d # ds) p = send_parts ds (snd (zmq_sendDataMore True d p))"

fun frames_of :: "bytes list \<Rightarrow> frame list" where
  "frames_of [] = []"
| "frames_of [d] = [(d, False)]"
| "frames_of (d # ds) = (d, True) # frames_of ds"

lemma send_parts_frames: "pub_sent (send_parts ds p) = pub_sent p @ frames_of ds"
  by (induction ds p rule: send_parts.induct)
    (simp_all add: zmq_sendDataLast_def zmq_sendDataMore_def zmq_sendData_more_def)

lemma frames_of_Cons: "frames_of (d # ds) = (d, ds \<noteq> []) # frames_of ds"
  by (cases ds) simp_all

lemma more_frames_all:
  assumes "i + length (concat ds) \<le> n" and "n \<le> length buffer"
  shows "more_frames buffer n i (ds \<noteq> []) (frames_of ds @ rest) =
     (Inr (i + length (concat ds), take i buffer @ concat ds @ drop (i + length (concat ds)) buffer), rest)"
  using assms
proof (induction ds arbitrary: buffer i)
  case (Cons d ds)
  have m: "memcpy_at i d buffer = Inr (take i buffer @ d @ drop (i + length d) buffer)"
    using Cons.prems by (intro memcpy_at_ok) simp
  have "take (i + length d) (take i buffer @ d @ drop (i + length d) buffer) = take i buffer @ d"
    using Cons.prems by simp
  moreover have "drop (i + length d + length (concat ds)) (take i buffer @ d @ drop (i + length d) buffer) =
      drop (i + length d + length (concat ds)) buffer"
    using Cons.prems by (cases "length buffer \<le> i"; cases d) (simp_all add: ac_simps)
  moreover have "\<not> n - i < length d" using Cons.prems by simp
  ultimately show ?case
    using m Cons.prems Cons.IH [of "i + length d" "take i buffer @ d @ drop (i + length d) buffer"]
    by (simp add: frames_of_Cons add.assoc)
qed simp

lemma receiveDataMore_parts:
  assumes "ds \<noteq> []" and "length (concat ds) \<le> n" and "n \<le> length buffer"
    and "sub_incoming s = frames_of ds @ rest"
  shows "receiveDataMore buffer n s =
     (Inr (length (concat ds), concat ds @ drop (length (concat ds)) buffer), s\<lparr>sub_incoming := rest\<rparr>)"
proof -
  obtain d es where ds: "ds = d # es" using assms(1) by (cases ds) auto
  have m: "memcpy_at 0 d buffer = Inr (d @ drop (length d) buffer)"
    using assms by (simp add: memcpy_at_ok ds)
  have "more_frames (d @ drop (length d) buffer) n (length d) (es \<noteq> []) (frames_of es @ rest) =
      (Inr (length d + length (concat es), d @ concat es @ drop (length d + length (concat es)) buffer), rest)"
    using more_frames_all [of "length d" es n "d @ drop (length d) buffer" rest] assms(2,3)
    by (simp add: ds add.commute)
  then show ?thesis
    using m assms(2,4) by (simp add: receiveDataMore_def zmq_recv_def ds frames_of_Cons)
qed

text \<open>The caller's buffer keeps its length.\<close>

lemma length_more_frames:
  "more_frames buffer n i m q = (Inr (k, buffer'), q') \<Longrightarrow> length buffer' = length buffer"
  by (induction buffer n i m q rule: more_frames.induct)
    (auto split: if_splits sum.splits dest: memcpy_at_Inr(1))

lemma length_receiveDataMore:
  "receiveDataMore buffer n s = (Inr (k, buffer'), s') \<Longrightarrow> length buffer' = length buffer"
  by (auto simp: receiveDataMore_def returns split: if_splits sum.splits prod.splits
      dest!: length_more_frames memcpy_at_Inr(1))

section \<open>The slots of the segment\<close>

text \<open>A store of \<open>slots\<close> buffers of \<open>cap\<close> bytes: writing one leaves the others alone.\<close>

locale slot_store =
  fixes put :: "nat \<Rightarrow> bytes \<Rightarrow> 's \<Rightarrow> 's"
    and get :: "nat \<Rightarrow> nat \<Rightarrow> 's \<Rightarrow> bytes"
    and ok :: "'s \<Rightarrow> bool"
    and slots :: nat
    and cap :: nat
  assumes put_ok: "ok s \<Longrightarrow> i < slots \<Longrightarrow> length d \<le> cap \<Longrightarrow> ok (put i d s)"
    and get_put: "ok s \<Longrightarrow> i < slots \<Longrightarrow> length d \<le> cap \<Longrightarrow> get i (length d) (put i d s) = d"
    and get_other: "ok s \<Longrightarrow> i < slots \<Longrightarrow> j < slots \<Longrightarrow> i \<noteq> j \<Longrightarrow> length d \<le> cap \<Longrightarrow> n \<le> cap \<Longrightarrow>
      get j n (put i d s) = get j n s"
begin

text \<open>Writes in a ring, beginning behind slot \<open>i\<close>.\<close>

fun put_ring :: "nat \<Rightarrow> bytes list \<Rightarrow> 's \<Rightarrow> 's" where
  "put_ring i [] s = s"
| "put_ring i (d # ds) s = put_ring ((i + 1) mod slots) ds (put i d s)"

lemma put_ring_ok:
  "ok s \<Longrightarrow> i < slots \<Longrightarrow> \<forall>d \<in> set ds. length d \<le> cap \<Longrightarrow> ok (put_ring i ds s)"
  by (induction ds arbitrary: i s) (simp_all add: put_ok)

lemma ring_keeps:
  assumes "ok s" and "i < slots" and "k < slots" and "length ds \<le> k" and "n \<le> cap"
    and "\<forall>d \<in> set ds. length d \<le> cap"
  shows "get ((i + k) mod slots) n (put_ring i ds s) = get ((i + k) mod slots) n s"
  using assms
proof (induction ds arbitrary: i s k)
  case (Cons d ds)
  then obtain k' where k: "k = Suc k'" by (cases k) auto
  have "(i + k) mod slots \<noteq> i"
    using Cons.prems(2,3) k by (auto simp: mod_if)
  moreover have "((i + 1) mod slots + k') mod slots = (i + k) mod slots"
    by (simp add: k mod_add_left_eq)
  ultimately show ?case
    using Cons.IH [of "put i d s" "(i + 1) mod slots" k'] Cons.prems k put_ok
      get_other [of s i "(i + k) mod slots" d n]
    by simp
qed simp

text \<open>What was put stays until the ring comes round.\<close>

lemma ring_survives:
  assumes "ok s" and "i < slots" and "\<forall>x \<in> set (d # ds). length x \<le> cap" and "length ds < slots"
  shows "get i (length d) (put_ring i (d # ds) s) = d"
proof -
  have "((i + 1) mod slots + (slots - 1)) mod slots = i"
  proof -
    have "((i + 1) mod slots + (slots - 1)) mod slots = (i + 1 + (slots - 1)) mod slots"
      by (rule mod_add_left_eq)
    then show ?thesis using assms(2) by simp
  qed
  then show ?thesis
    using ring_keeps [of "put i d s" "(i + 1) mod slots" "slots - 1" ds "length d"] assms put_ok get_put
    by simp
qed

end

definition put_slot :: "nat \<Rightarrow> nat \<Rightarrow> bytes \<Rightarrow> bytes \<Rightarrow> bytes" where
  "put_slot single i d shm = (case memcpy_at (i * single) d shm of Inl _ \<Rightarrow> shm | Inr shm' \<Rightarrow> shm')"

definition get_slot :: "nat \<Rightarrow> nat \<Rightarrow> nat \<Rightarrow> bytes \<Rightarrow> bytes" where
  "get_slot single i n shm = take n (drop (i * single) shm)"

definition segment_ok :: "nat \<Rightarrow> nat \<Rightarrow> bytes \<Rightarrow> bool" where
  "segment_ok single slots shm \<longleftrightarrow> length shm = single * slots"

lemma slot_end: "i < slots \<Longrightarrow> n \<le> single \<Longrightarrow> i * single + n \<le> single * (slots :: nat)"
proof -
  assume "i < slots" "n \<le> single"
  then have "i * single + n \<le> Suc i * single" by simp
  also have "\<dots> \<le> slots * single" using \<open>i < slots\<close> by (intro mult_le_mono1) simp
  finally show ?thesis by (simp add: mult.commute)
qed

lemma put_slot_ok:
  assumes "segment_ok single slots shm" and "i < slots" and "length d \<le> single"
  shows "memcpy_at (i * single) d shm = Inr (put_slot single i d shm)"
proof -
  have "i * single + length d \<le> length shm"
    using slot_end [OF assms(2,3)] assms(1) by (simp add: segment_ok_def)
  from memcpy_at_ok [OF this] show ?thesis by (simp add: put_slot_def)
qed

interpretation segment: slot_store "put_slot single" "get_slot single" "segment_ok single slots" slots single
  for single slots
proof (unfold_locales, goal_cases)
  case (1 s i d)
  then show ?case using memcpy_at_Inr(1) [OF put_slot_ok] by (simp add: segment_ok_def)
next
  case (2 s i d)
  then show ?case using memcpy_at_Inr(2) [OF put_slot_ok] by (simp add: get_slot_def)
next
  case (3 s i j d n)
  have "j * single + n \<le> i * single \<or> i * single + length d \<le> j * single"
  proof (cases "j < i")
    case True
    then show ?thesis using slot_end [OF True 3(6)] by (simp add: mult.commute)
  next
    case False
    then show ?thesis using slot_end [of i j "length d" single] 3(4,5) by (simp add: mult.commute)
  qed
  then show ?case using memcpy_at_Inr(3) [OF put_slot_ok [OF 3(1,2,5)]] by (simp add: get_slot_def)
qed

section \<open>Publisher and subscriber on one segment\<close>

text \<open>An object made by the constructor, on a segment of at most \<open>2^31\<close> bytes.\<close>

definition publisher_ok :: "SharedMemPublisher \<Rightarrow> bytes \<Rightarrow> bool" where
  "publisher_ok p shm \<longleftrightarrow> m_current_slot_index p < m_slots p \<and>
     m_shm_slots p = slot_offsets (m_single_buffer_size p) (m_slots p) \<and>
     segment_ok (m_single_buffer_size p) (m_slots p) shm \<and> m_single_buffer_size p < 2 ^ 31"

definition same_segment :: "SharedMemPublisher \<Rightarrow> SharedMemSubscriber \<Rightarrow> bool" where
  "same_segment p s \<longleftrightarrow> sub_slots s = m_slots p \<and> sub_single_buffer_size s = m_single_buffer_size p \<and>
     sub_shm_slots s = slot_offsets (m_single_buffer_size p) (m_slots p)"

lemma newSharedMemPublisher_ok:
  assumes "newSharedMemPublisher d tr mp topic name slots single = Inr (p, shm)"
    and "0 < slots" and "single < 2 ^ 31"
  shows "publisher_ok p shm"
proof -
  have "slots \<le> 32" using assms(1) by (auto simp: newSharedMemPublisher_def MAX_BUFFER_SLOTS_COUNT_def split: if_splits)
  then have "single * slots \<le> 2 ^ 31 * 32" using assms(3) by (intro mult_le_mono) auto
  then have "total_size single slots = single * slots" by (simp add: total_size_def)
  then show ?thesis
    using assms by (auto simp: newSharedMemPublisher_def publisher_ok_def segment_ok_def split: if_splits)
qed

text \<open>The usual cycle: take a free slot, publish into it. The result lists the slots used.\<close>

fun publish_all ::
  "(bytes \<times> bytes) list \<Rightarrow> SharedMemPublisher \<times> bytes \<Rightarrow> (SharedMemPublisher \<times> bytes, nat list) outcome" where
  "publish_all [] ps = (Inr [], ps)"
| "publish_all ((msg, d) # ms) ps =
     (case getFreeSlotIndex (fst ps) of
        (Inl e, p') \<Rightarrow> (Inl e, (p', snd ps))
      | (Inr i, p') \<Rightarrow>
          andthen (publishData True msg d i (p', snd ps)) (\<lambda>_ ps'.
            andthen (publish_all ms ps') (\<lambda>ixs ps''. (Inr (i # ixs), ps''))))"

lemma offset_at: "i < slots \<Longrightarrow> slot_offsets single slots ! i = i * single"
  by (simp add: slot_offsets_def)

lemma publishData_ok:
  assumes "publisher_ok p shm" and "i < m_slots p" and "length d \<le> m_single_buffer_size p"
  shows "publishData sent msg d i (p, shm) =
     (Inr 0, (p\<lparr>m_zmq_msg_pub := snd (zmq_sendData sent msg (m_zmq_msg_pub p))\<rparr>,
              put_slot (m_single_buffer_size p) i d shm))"
  using assms put_slot_ok [of "m_single_buffer_size p" "m_slots p" shm i d]
  by (simp add: publishData_def publisher_ok_def offset_at)

lemma publish_all_ring:
  assumes "publisher_ok p shm" and "\<forall>md \<in> set ms. length (snd md) \<le> m_single_buffer_size p"
  shows "\<exists>ixs p'. publish_all ms (p, shm) = (Inr ixs, (p', segment.put_ring (m_single_buffer_size p)
       (m_slots p) (m_current_slot_index p) (map snd ms) shm)) \<and>
     (ms \<noteq> [] \<longrightarrow> ixs \<noteq> [] \<and> hd ixs = m_current_slot_index p) \<and>
     pub_sent (m_zmq_msg_pub p') = pub_sent (m_zmq_msg_pub p) @ map (\<lambda>md. (fst md, False)) ms"
  using assms
proof (induction ms arbitrary: p shm)
  case (Cons md ms)
  obtain msg d where md: "md = (msg, d)" by (cases md)
  have slot: "m_current_slot_index p < m_slots p" "m_slots p \<noteq> 0" "length d \<le> m_single_buffer_size p"
    using Cons.prems by (auto simp: publisher_ok_def md)
  define p1 where "p1 = p\<lparr>m_current_slot_index := (m_current_slot_index p + 1) mod m_slots p\<rparr>"
  define p2 where "p2 = p1\<lparr>m_zmq_msg_pub := snd (zmq_sendData True msg (m_zmq_msg_pub p1))\<rparr>"
  have p1: "publisher_ok p1 shm" using Cons.prems(1) slot by (simp add: publisher_ok_def p1_def)
  let ?shm = "put_slot (m_single_buffer_size p) (m_current_slot_index p) d shm"
  have pub: "publishData True msg d (m_current_slot_index p) (p1, shm) = (Inr 0, (p2, ?shm))"
    using publishData_ok [OF p1, of "m_current_slot_index p" d] slot by (simp add: p1_def p2_def)
  have p2: "publisher_ok p2 ?shm"
    using p1 segment.put_ok [of "m_single_buffer_size p" "m_slots p" shm "m_current_slot_index p" d] slot
    by (simp add: publisher_ok_def p1_def p2_def)
  have "\<forall>md \<in> set ms. length (snd md) \<le> m_single_buffer_size p2"
    using Cons.prems(2) by (simp add: p1_def p2_def)
  from Cons.IH [OF p2 this] obtain ixs p' where
    "publish_all ms (p2, ?shm) = (Inr ixs, (p', segment.put_ring (m_single_buffer_size p)
       (m_slots p) ((m_current_slot_index p + 1) mod m_slots p) (map snd ms) ?shm))"
    "pub_sent (m_zmq_msg_pub p') = pub_sent (m_zmq_msg_pub p2) @ map (\<lambda>md. (fst md, False)) ms"
    by (auto simp: p1_def p2_def)
  moreover have "pub_sent (m_zmq_msg_pub p2) = pub_sent (m_zmq_msg_pub p) @ [(msg, False)]"
    by (simp add: p1_def p2_def zmq_sendData_def zmq_sendData_more_def)
  moreover have "getFreeSlotIndex p = (Inr (m_current_slot_index p), p1)"
    using slot by (simp add: getFreeSlotIndex_def p1_def)
  ultimately show ?case using pub by (simp add: md)
qed (simp add: segment.put_ring.simps)

lemma receiveSharedMemData_slot:
  assumes "publisher_ok p shm" and "same_segment p s" and "i < m_slots p"
    and "length (get_slot (m_single_buffer_size p) i n shm) = n" and "n \<le> m_single_buffer_size p"
    and "n \<le> length buffer"
  shows "receiveSharedMemData buffer n i s shm =
     Inr (int n, get_slot (m_single_buffer_size p) i n shm @ drop n buffer)"
proof -
  have n: "n < 2 ^ 31" using assms(1,5) by (auto simp: publisher_ok_def)
  then have "sint (word_of_nat n :: 32 word) = int n"
    by simp
  moreover have "i * m_single_buffer_size p + n \<le> length shm"
    using slot_end [OF assms(3,5)] assms(1) by (simp add: publisher_ok_def segment_ok_def)
  ultimately show ?thesis
    using assms by (simp add: receiveSharedMemData_def same_segment_def offset_at get_slot_def memcpy_at_def Let_def)
qed

text \<open>One publication into the free slot, seen by a subscriber of the same segment.\<close>

lemma publish_free_slot:
  assumes "publisher_ok p shm" and "same_segment p s"
    and "length d \<le> m_single_buffer_size p" and "length d \<le> length buffer"
  defines "i \<equiv> m_current_slot_index p"
  shows "\<exists>p' p'' shm'. getFreeSlotIndex p = (Inr i, p') \<and> m_slots p' = m_slots p \<and>
    m_single_buffer_size p' = m_single_buffer_size p \<and> i < m_slots p \<and>
    publishData True msg d i (p', shm) = (Inr 0, (p'', shm')) \<and>
    receiveSharedMemData buffer (length d) i s shm' = Inr (int (length d), d @ drop (length d) buffer) \<and>
    pub_sent (m_zmq_msg_pub p'') = pub_sent (m_zmq_msg_pub p) @ [(msg, False)]"
proof -
  let ?p' = "p\<lparr>m_current_slot_index := (i + 1) mod m_slots p\<rparr>"
  let ?shm' = "put_slot (m_single_buffer_size p) i d shm"
  have i: "i < m_slots p" and ok: "segment_ok (m_single_buffer_size p) (m_slots p) shm"
    using assms(1) by (simp_all add: publisher_ok_def i_def)
  have free: "getFreeSlotIndex p = (Inr i, ?p')" using i by (simp add: getFreeSlotIndex_def i_def)
  have p': "publisher_ok ?p' shm" using assms(1) i by (simp add: publisher_ok_def)
  have "get_slot (m_single_buffer_size p) i (length d) ?shm' = d"
    by (rule segment.get_put [OF ok i assms(3)])
  moreover have "publisher_ok p ?shm'"
    using segment.put_ok [OF ok i assms(3)] assms(1) by (simp add: publisher_ok_def)
  ultimately have "receiveSharedMemData buffer (length d) i s ?shm' = Inr (int (length d), d @ drop (length d) buffer)"
    using receiveSharedMemData_slot [of p ?shm' s i "length d" buffer] assms(2-4) i by simp
  then show ?thesis
    using free publishData_ok [OF p', of i d True msg] i assms(3)
    by (simp add: zmq_sendData_def zmq_sendData_more_def)
qed

section \<open>Properties\<close>

text \<open>
  C10. A message sent in any number of parts (all but the last with \<open>sendDataMore\<close>) is received
  whole: when the frames that \<open>send\<close> took wait at the subscriber and the buffer is large enough,
  \<open>receiveDataMore\<close> puts the parts one behind the other at the beginning of the buffer, returns
  their total length, and leaves exactly the frames of the following messages.
\<close>

theorem multipart_roundtrip:
  assumes "ds \<noteq> []" and "length (concat ds) \<le> n" and "n \<le> length buffer" and "pub_sent p = []"
    and "sub_incoming s = pub_sent (send_parts ds p) @ rest"
  shows "receiveDataMore buffer n s =
     (Inr (length (concat ds), concat ds @ drop (length (concat ds)) buffer), s\<lparr>sub_incoming := rest\<rparr>)"
  using receiveDataMore_parts [OF assms(1-3), of s rest] assms(4,5) by (simp add: send_parts_frames)

theorem multipart_roundtrip_witness:
  "receiveDataMore [0, 0, 0, 0, 0] 5 ((newZmqSubscriber ''tcp'')\<lparr>sub_incoming :=
       pub_sent (send_parts [[1], [2, 3], [4]] (newZmqPublisher ''tcp'')) @ [([9], False)]\<rparr>) =
     (Inr (4, [1, 2, 3, 4, 0]), (newZmqSubscriber ''tcp'')\<lparr>sub_incoming := [([9], False)]\<rparr>)"
proof -
  have "pub_sent (newZmqPublisher ''tcp'') = []" by (simp add: newZmqPublisher_def)
  from multipart_roundtrip [of "[[1], [2, 3], [4]]" 5 "[0, 0, 0, 0, 0]", OF _ _ _ this] show ?thesis by simp
qed

text \<open>
  A part that does not fit desynchronises the subscriber: \<open>receiveDataMore\<close> returns 0 but
  leaves the rest of the message in the socket, so the next \<open>receiveData\<close> takes one of its parts
  for a message.
\<close>

theorem multipart_overflow_desynchronises:
  assumes "length d1 \<le> n" and "n \<le> length buffer" and "n < length d1 + length d2"
    and "sub_incoming s = frames_of (d1 # d2 # d3 # ds) @ rest"
  shows "\<exists>b. receiveDataMore buffer n s = (Inr (0, b), s\<lparr>sub_incoming := frames_of (d3 # ds) @ rest\<rparr>) \<and>
     receiveData_vector (s\<lparr>sub_incoming := frames_of (d3 # ds) @ rest\<rparr>) =
       (Inr (0, d3), s\<lparr>sub_incoming := frames_of ds @ rest\<rparr>)"
  using assms
  by (auto simp: receiveDataMore_def zmq_recv_def frames_of_Cons memcpy_at_ok receiveData_vector_def)

theorem multipart_overflow_desynchronises_witness:
  "\<exists>b. receiveDataMore [0, 0] 2 ((newZmqSubscriber ''tcp'')\<lparr>sub_incoming := frames_of [[1], [2, 3], [4]]\<rparr>) =
     (Inr (0, b), (newZmqSubscriber ''tcp'')\<lparr>sub_incoming := [([4], False)]\<rparr>)"
  using multipart_overflow_desynchronises [of "[1]" 2 "[0, 0]" "[2, 3]"
      "(newZmqSubscriber ''tcp'')\<lparr>sub_incoming := frames_of [[1], [2, 3], [4]]\<rparr>" "[4]" "[]" "[]"]
  by auto

text \<open>
  C5. What is published in a slot stays readable until the ring comes round: the data of a
  publication into the free slot is what \<open>receiveSharedMemData\<close> of that slot yields, after any
  number of further publications below the number of slots, and every publication announces its
  message exactly once, in order.
\<close>

theorem published_frame_survives:
  assumes "publisher_ok p shm" and "same_segment p s"
    and "\<forall>md \<in> set ((msg, d) # later). length (snd md) \<le> m_single_buffer_size p"
    and "length later < m_slots p" and "length d \<le> length buffer"
  shows "\<exists>slot ixs p' shm'. publish_all ((msg, d) # later) (p, shm) = (Inr (slot # ixs), (p', shm')) \<and>
     receiveSharedMemData buffer (length d) slot s shm' = Inr (int (length d), d @ drop (length d) buffer) \<and>
     pub_sent (m_zmq_msg_pub p') =
       pub_sent (m_zmq_msg_pub p) @ map (\<lambda>md. (fst md, False)) ((msg, d) # later)"
proof -
  let ?i = "m_current_slot_index p"
  define shm' where
    "shm' = segment.put_ring (m_single_buffer_size p) (m_slots p) ?i (map snd ((msg, d) # later)) shm"
  obtain ixs p' where run: "publish_all ((msg, d) # later) (p, shm) = (Inr ixs, (p', shm'))"
    "ixs \<noteq> []" "hd ixs = ?i"
    "pub_sent (m_zmq_msg_pub p') = pub_sent (m_zmq_msg_pub p) @ map (\<lambda>md. (fst md, False)) ((msg, d) # later)"
    using publish_all_ring [OF assms(1,3)] by (auto simp: shm'_def)
  have ok: "segment_ok (m_single_buffer_size p) (m_slots p) shm" "?i < m_slots p"
    using assms(1) by (auto simp: publisher_ok_def)
  have lens: "\<forall>x \<in> set (d # map snd later). length x \<le> m_single_buffer_size p" using assms(3) by auto
  have kept: "get_slot (m_single_buffer_size p) ?i (length d) shm' = d"
    using segment.ring_survives [OF ok lens] assms(4) by (simp add: shm'_def)
  have "publisher_ok p shm'"
    using segment.put_ring_ok [OF ok lens] assms(1) by (simp add: publisher_ok_def shm'_def)
  from receiveSharedMemData_slot [OF this assms(2) ok(2), of "length d" buffer]
  have "receiveSharedMemData buffer (length d) ?i s shm' = Inr (int (length d), d @ drop (length d) buffer)"
    using kept assms(3,5) by simp
  moreover obtain rest where "ixs = ?i # rest" using run(2,3) by (cases ixs) auto
  ultimately show ?thesis using run(1,4) by blast
qed

definition demo_publisher :: SharedMemPublisher where
  "demo_publisher = \<lparr>m_slots = 2, m_single_buffer_size = 4, m_shm_name = ''/shm'', m_shm_fd = 3,
     pub_mapped = True, m_shm_slots = slot_offsets 4 2, m_current_slot_index = 0,
     m_zmq_msg_pub = newZmqPublisher ''tcp''\<rparr>"

definition demo_subscriber :: SharedMemSubscriber where
  "demo_subscriber = \<lparr>sub_slots = 2, sub_single_buffer_size = 4, sub_shm_name = ''/shm'', sub_shm_fd = 4,
     sub_mapped = True, sub_shm_slots = slot_offsets 4 2, m_zmq_msg_sub = newZmqSubscriber ''tcp''\<rparr>"

theorem published_frame_survives_witness:
  "\<exists>slot ixs p' shm'. publish_all [([1], [5, 6, 7]), ([2], [8])] (demo_publisher, replicate 8 0) =
       (Inr (slot # ixs), (p', shm')) \<and>
     receiveSharedMemData [0, 0, 0, 0] 3 slot demo_subscriber shm' = Inr (3, [5, 6, 7, 0])"
proof -
  have a: "publisher_ok demo_publisher (replicate 8 0)"
    and b: "same_segment demo_publisher demo_subscriber"
    by (simp_all add: publisher_ok_def same_segment_def demo_publisher_def demo_subscriber_def segment_ok_def)
  have c: "\<forall>md \<in> set (([1], [5, 6, 7]) # [([2], [8])]). length (snd md) \<le> m_single_buffer_size demo_publisher"
    and d: "length [([2 :: byte], [8 :: byte])] < m_slots demo_publisher"
    and e: "length [5 :: byte, 6, 7] \<le> length [0 :: byte, 0, 0, 0]"
    by (simp_all add: demo_publisher_def)
  from published_frame_survives [OF a b c d e] obtain slot ixs p' shm' where
    "publish_all [([1], [5, 6, 7]), ([2], [8])] (demo_publisher, replicate 8 0) = (Inr (slot # ixs), (p', shm'))"
    "receiveSharedMemData [0, 0, 0, 0] (length [5 :: byte, 6, 7]) slot demo_subscriber shm' =
       Inr (int (length [5 :: byte, 6, 7]), [5, 6, 7] @ drop (length [5 :: byte, 6, 7]) [0, 0, 0, 0])"
    by blast
  then show ?thesis by (intro exI [of _ slot] exI [of _ ixs] exI [of _ p'] exI [of _ shm']) (simp add: numeral_3_eq_3)
qed

text \<open>A publisher without slots divides by zero in \<open>getFreeSlotIndex\<close>; the constructor accepts it.\<close>

lemma no_slots_undefined:
  "m_slots p = 0 \<Longrightarrow> fst (getFreeSlotIndex p) = Inl (Undefined ''modulo zero'')"
  by (simp add: getFreeSlotIndex_def)

text \<open>\<open>receiveSharedMemData\<close> returns the number of bytes, not 0 as its comment says.\<close>

lemma receive_returns_bytes:
  assumes "publisher_ok p shm" and "same_segment p s" and "i < m_slots p"
    and "n \<le> m_single_buffer_size p" and "n \<le> length buffer"
  shows "map_sum id fst (receiveSharedMemData buffer n i s shm) = Inr (int n)"
proof -
  have "length (get_slot (m_single_buffer_size p) i n shm) = n"
    using slot_end [OF assms(3,4)] assms(1) by (auto simp: get_slot_def publisher_ok_def segment_ok_def)
  from receiveSharedMemData_slot [OF assms(1-3) this assms(4,5)] show ?thesis by simp
qed

end
