(* ===== verification/Image.thy ===== *)
theory Image
  imports Prelude
begin

text \<open>
  Images as the codecs, the 2D engines and the detectors exchange them: \<open>bsp_image/ImageTypes.hpp\<close>,
  \<open>ImageFormat.hpp\<close>, \<open>ImageBuffer.hpp\<close> and \<open>OpenCvImageAdapter.hpp\<close>. A pointer is the number of an
  allocated block, the heap maps the numbers to the bytes of the blocks, and \<open>operator new\<close> hands
  out the number it is given. What the code needs of a \<open>cv::Mat\<close> is its header. The lemmas show how
  large the buffers are, that images survive the way through the adapter, and where the row stride
  of the views does not fit what the adapter expects.
\<close>

section \<open>ImageTypes\<close>

type_synonym ptr = "nat option"
type_synonym heap = "nat \<Rightarrow> bytes option"

datatype ImageMemoryType = Host | DmaBuf | SharedMemorySlot | NativeHandle
datatype ImageAccess = ReadOnly | WriteOnly | ReadWrite

record ImageSize =
  size_width :: u32
  size_height :: u32

definition ImageSize_empty :: "ImageSize \<Rightarrow> bool" where
  "ImageSize_empty s \<longleftrightarrow> size_width s = 0 \<or> size_height s = 0"

record ImageDesc =
  width :: u32
  height :: u32
  widthStride :: u32
  heightStride :: u32
  format :: string
  dataSize :: nat

definition ImageDesc_empty :: "ImageDesc \<Rightarrow> bool" where
  "ImageDesc_empty d \<longleftrightarrow> width d = 0 \<or> height d = 0 \<or> format d = []"

record ImagePlane =
  plane_data :: ptr
  plane_size :: nat
  plane_offset :: nat
  rowStride :: u32
  plane_fd :: fd

definition newImagePlane :: ImagePlane where
  "newImagePlane = \<lparr>plane_data = None, plane_size = 0, plane_offset = 0, rowStride = 0, plane_fd = -1\<rparr>"

record ImageView =
  desc :: ImageDesc
  memoryType :: ImageMemoryType
  access :: ImageAccess
  planes :: "ImagePlane list"
  planeCount :: u32

definition newImageDesc :: ImageDesc where
  "newImageDesc = \<lparr>width = 0, height = 0, widthStride = 0, heightStride = 0, format = [], dataSize = 0\<rparr>"

definition newImageView :: ImageView where
  "newImageView = \<lparr>desc = newImageDesc, memoryType = Host, access = ReadWrite,
     planes = replicate 4 newImagePlane, planeCount = 1\<rparr>"

definition view_data :: "ImageView \<Rightarrow> nat \<Rightarrow> ptr" where
  "view_data v plane = (if plane < length (planes v) then plane_data (planes v ! plane) else None)"

definition ImageView_empty :: "ImageView \<Rightarrow> bool" where
  "ImageView_empty v \<longleftrightarrow> ImageDesc_empty (desc v) \<or> planeCount v = 0 \<or> view_data v 0 = None"

definition makeHostImageView :: "ptr \<Rightarrow> ImageDesc \<Rightarrow> u32 \<Rightarrow> ImageAccess \<Rightarrow> ImageView" where
  "makeHostImageView data d row_stride acc =
     (let d' = d\<lparr>widthStride := (if widthStride d = 0 then width d else widthStride d),
                 heightStride := (if heightStride d = 0 then height d else heightStride d)\<rparr>
      in newImageView\<lparr>desc := d', memoryType := Host, access := acc, planeCount := 1,
           planes := (planes newImageView)[0 := newImagePlane\<lparr>plane_data := data, plane_size := dataSize d',
             rowStride := (if row_stride > 0 then row_stride else widthStride d'), plane_fd := -1\<rparr>]\<rparr>)"

section \<open>ImageFormat\<close>

text \<open>
  A \<open>float\<close> holds 24 significant bits: converting a natural number rounds it to the nearest such
  value, to the even one in a tie. \<open>float_shift\<close> counts the bits that are dropped.
\<close>

fun float_shift :: "nat \<Rightarrow> nat" where
  "float_shift n = (if n < 2 ^ 24 then 0 else Suc (float_shift (n div 2)))"

declare float_shift.simps [simp del]

definition to_float :: "nat \<Rightarrow> nat" where
  "to_float n =
     (let u = 2 ^ float_shift n; q = n div u; r = n mod u
      in if 2 * r > u \<or> 2 * r = u \<and> odd q then (q + 1) * u else q * u)"

text \<open>
  All entries of the table are multiples of 1/2; \<open>bytesPerPixel2\<close> is twice the entry, so that the
  products with it are natural numbers too. An unknown format throws in \<open>at\<close>.
\<close>

definition bytesPerPixelMap2 :: "(string \<times> nat) list" where
  "bytesPerPixelMap2 =
    [(''YUV420SP'', 3), (''YUV420P'', 3), (''YUV422SP'', 4), (''YUV422P'', 4), (''YUV444SP'', 6),
     (''YUV444P'', 6), (''YUV420SP_10BIT'', 4), (''YUV420P_10BIT'', 4), (''YUV422SP_10BIT'', 6),
     (''YUV422P_10BIT'', 6), (''YUV444SP_10BIT'', 8), (''YUV444P_10BIT'', 8), (''RGB888'', 6),
     (''BGR888'', 6), (''RGB565'', 4), (''RGB555'', 4), (''RGB444'', 4), (''ARGB8888'', 8),
     (''XRGB8888'', 8), (''ARGB1555'', 4), (''ARGB4444'', 4), (''ABGR8888'', 8), (''XBGR8888'', 8),
     (''BGRA8888'', 8), (''RGBA8888'', 8), (''ABGR5551'', 4), (''ABGR4444'', 4), (''RGBA2BPP'', 4),
     (''A8'', 2), (''YCbCr_444_SP'', 6), (''YCrCb_444_SP'', 6), (''Y8'', 2), (''UNKNOWN'', 0)]"

definition bytesPerPixel2 :: "string \<Rightarrow> nat result" where
  "bytesPerPixel2 fmt =
     (case map_of bytesPerPixelMap2 fmt of None \<Rightarrow> Inl (Throw ''out_of_range'') | Some b \<Rightarrow> Inr b)"

text \<open>Multiplication of floats, and the conversion back, which drops the half.\<close>

definition float_bytes :: "nat \<Rightarrow> nat \<Rightarrow> nat" where
  "float_bytes pixels b2 = to_float (to_float pixels * b2) div 2"

definition imageDataSize :: "ImageDesc \<Rightarrow> nat result" where
  "imageDataSize d =
     (let ws = (if widthStride d > 0 then widthStride d else width d);
          hs = (if heightStride d > 0 then heightStride d else height d);
          pixelCount = unat ws * unat hs
      in rbind (bytesPerPixel2 (format d)) (\<lambda>b2.
           let n = float_bytes pixelCount b2
           in if 2 ^ 64 \<le> n then Inl (Undefined ''conversion out of range'') else Inr n))"

section \<open>ImageBuffer\<close>

text \<open>\<open>release\<close> is the number of the function the destructor calls.\<close>

record ImageBuffer =
  view :: ImageView
  owner :: ptr
  nativeHandle :: ptr
  release :: ptr

definition newImageBuffer :: ImageBuffer where
  "newImageBuffer = \<lparr>view = newImageView, owner = None, nativeHandle = None, release = None\<rparr>"

definition destroyImageBuffer :: "ImageBuffer \<Rightarrow> nat list" where
  "destroyImageBuffer b = (case release b of None \<Rightarrow> [] | Some f \<Rightarrow> [f])"

text \<open>\<open>p\<close> is the block that \<open>new uint8_t[...]\<close> returns.\<close>

definition makeHostImageBuffer :: "nat \<Rightarrow> ImageDesc \<Rightarrow> heap \<Rightarrow> (heap, ImageBuffer) outcome" where
  "makeHostImageBuffer p d h =
     (case (if dataSize d = 0 then imageDataSize d else Inr (dataSize d)) of
        Inl e \<Rightarrow> (Inl e, h)
      | Inr n \<Rightarrow>
          (Inr (newImageBuffer\<lparr>owner := Some p,
             view := makeHostImageView (Some p) (d\<lparr>dataSize := n\<rparr>) 0 ReadWrite\<rparr>),
           h(p \<mapsto> replicate n 0)))"

section \<open>OpenCvImageAdapter\<close>

text \<open>
  The header of a \<open>cv::Mat\<close>: rows, columns, element type, the block its data starts in, the bytes
  from one row to the next and whether the rows follow each other without a gap. \<open>CV_8UC\<close> is the
  number OpenCV gives to the types of one byte per channel, \<open>CV_MAT_CN\<close> recovers the channels.
\<close>

record cvMat =
  mat_rows :: int
  mat_cols :: int
  mat_type :: int
  mat_data :: ptr
  mat_step :: nat
  isContinuous :: bool

definition CV_8UC :: "nat \<Rightarrow> int" where "CV_8UC n = 8 * (int n - 1)"
definition CV_MAT_CN :: "int \<Rightarrow> nat" where "CV_MAT_CN t = nat (t div 8) + 1"

definition mat_elemSize :: "cvMat \<Rightarrow> nat" where "mat_elemSize m = CV_MAT_CN (mat_type m)"

definition mat_empty :: "cvMat \<Rightarrow> bool" where
  "mat_empty m \<longleftrightarrow> mat_data m = None \<or> mat_rows m * mat_cols m = 0"

definition cvTypeForFormat :: "string \<Rightarrow> int" where
  "cvTypeForFormat fmt =
     (if fmt = ''BGR888'' \<or> fmt = ''RGB888'' then CV_8UC 3
      else if fmt = ''BGRA8888'' \<or> fmt = ''RGBA8888'' then CV_8UC 4
      else if fmt = ''GRAY8'' then CV_8UC 1
      else -1)"

definition defaultRowStride :: "ImageDesc \<Rightarrow> int \<Rightarrow> nat" where
  "defaultRowStride d cvType =
     (if widthStride d > 0 then unat (widthStride d) * CV_MAT_CN cvType else unat (width d) * CV_MAT_CN cvType)"

text \<open>\<open>None\<close> where the function returns \<open>false\<close>, otherwise the new header.\<close>

definition toMat :: "ImageView \<Rightarrow> cvMat option" where
  "toMat v =
     (let cvType = cvTypeForFormat (format (desc v))
      in if ImageView_empty v \<or> cvType < 0 \<or> memoryType v \<noteq> Host then None
         else
           (let stride = rowStride (planes v ! 0);
                step = (if stride > 0 then unat stride else defaultRowStride (desc v) cvType);
                m = \<lparr>mat_rows = sint (height (desc v)), mat_cols = sint (width (desc v)), mat_type = cvType,
                  mat_data = plane_data (planes v ! 0), mat_step = step,
                  isContinuous = (sint (height (desc v)) = 1 \<or>
                    int step = sint (width (desc v)) * int (CV_MAT_CN cvType))\<rparr>
            in if mat_empty m then None else Some m))"

text \<open>
  \<open>cvtColor code m\<close> is what OpenCV makes of a matrix; the number of the conversion is the name the
  code uses for it.
\<close>

definition toRgbMat :: "(string \<Rightarrow> cvMat \<Rightarrow> cvMat) \<Rightarrow> ImageView \<Rightarrow> cvMat option" where
  "toRgbMat cvtColor v =
     (case toMat v of None \<Rightarrow> None
      | Some m \<Rightarrow>
          (let fmt = format (desc v);
               rgb = (if fmt = ''RGB888'' then Some m
                 else if fmt = ''RGBA8888'' then Some (cvtColor ''COLOR_RGBA2RGB'' m)
                 else if fmt = ''BGRA8888'' then Some (cvtColor ''COLOR_BGRA2RGB'' m)
                 else if fmt = ''BGR888'' then Some (cvtColor ''COLOR_BGR2RGB'' m)
                 else None)
           in case rgb of None \<Rightarrow> None | Some r \<Rightarrow> if mat_empty r then None else Some r))"

text \<open>Reading \<open>n\<close> bytes of a block; the loop over the rows of a matrix with gaps.\<close>

definition read_at :: "nat \<Rightarrow> nat \<Rightarrow> bytes \<Rightarrow> bytes result" where
  "read_at off n blk =
     (if length blk < off + n then Inl (Undefined ''read out of range'') else Inr (take n (drop off blk)))"

fun copy_rows :: "bytes \<Rightarrow> nat \<Rightarrow> nat \<Rightarrow> nat list \<Rightarrow> bytes \<Rightarrow> bytes result" where
  "copy_rows src step rowBytes [] data = Inr data"
| "copy_rows src step rowBytes (row # rows) data =
     rbind (read_at (row * step) rowBytes src) (\<lambda>d.
     rbind (memcpy_at (row * rowBytes) d data) (\<lambda>data'. copy_rows src step rowBytes rows data'))"

definition fromMat ::
  "nat \<Rightarrow> cvMat \<Rightarrow> string \<Rightarrow> ImageBuffer \<Rightarrow> heap \<Rightarrow> (heap, bool \<times> ImageBuffer) outcome" where
  "fromMat p m fmt buffer h =
     (if mat_empty m then (Inr (False, buffer), h)
      else
        (let rows = nat (mat_rows m); cols = nat (mat_cols m); n = rows * cols * mat_elemSize m;
             rowBytes = cols * mat_elemSize m;
             src = (case h (the (mat_data m)) of None \<Rightarrow> [] | Some b \<Rightarrow> b);
             copied = (if isContinuous m then read_at 0 n src
               else copy_rows src (mat_step m) rowBytes [0..<rows] (replicate n 0))
         in case copied of Inl e \<Rightarrow> (Inl e, h)
          | Inr data \<Rightarrow>
              (let d = \<lparr>width = of_int (mat_cols m), height = of_int (mat_rows m),
                     widthStride = of_int (mat_cols m), heightStride = of_int (mat_rows m),
                     format = fmt, dataSize = n\<rparr>
               in (Inr (True, buffer\<lparr>view := makeHostImageView (Some p) d (word_of_nat rowBytes) ReadWrite,
                     owner := Some p\<rparr>),
                   h(p \<mapsto> data)))))"

section \<open>Sizes\<close>

lemma to_float_exact [simp]: "n < 2 ^ 24 \<Longrightarrow> to_float n = n"
  by (simp add: to_float_def float_shift.simps [of n])

lemma imageDataSize_exact:
  assumes "widthStride d > 0" and "heightStride d > 0" and "bytesPerPixel2 (format d) = Inr b"
    and "unat (widthStride d) * unat (heightStride d) * b < 2 ^ 24" and "0 < b"
  shows "imageDataSize d = Inr (unat (widthStride d) * unat (heightStride d) * b div 2)"
proof -
  let ?n = "unat (widthStride d) * unat (heightStride d)"
  have "?n * 1 \<le> ?n * b" using assms(5) by (intro mult_le_mono2) simp
  from le_less_trans [OF this assms(4)] have n: "?n < 2 ^ 24" by (simp only: mult_1_right)
  have "?n * b div 2 < 2 ^ 24" using assms(4) by (rule le_less_trans [OF div_le_dividend])
  then have "?n * b div 2 < 2 ^ 64" by simp
  then show ?thesis
    using assms n by (simp add: imageDataSize_def float_bytes_def)
qed

lemma float_shift_halves: "n \<ge> 2 ^ 24 \<Longrightarrow> float_shift n = Suc (float_shift (n div 2))"
  by (subst float_shift.simps) simp

lemma float_shift_0 [simp]: "n < 2 ^ 24 \<Longrightarrow> float_shift n = 0"
  by (subst float_shift.simps) simp

text \<open>
  Beyond 24 bits the size is rounded, and it may be rounded down: the buffer for a picture of
  4097 x 4097 pixels of four bytes is four bytes too small.
\<close>

lemma imageDataSize_rounds_down:
  "imageDataSize \<lparr>width = 4097, height = 4097, widthStride = 4097, heightStride = 4097,
     format = ''RGBA8888'', dataSize = 0\<rparr> = Inr (4 * (4097 * 4097) - 4)"
proof -
  have "to_float 16785409 = 16785408" "to_float 134283264 = 134283264"
    by (simp_all add: to_float_def float_shift_halves Let_def)
  moreover have "bytesPerPixel2 ''RGBA8888'' = Inr 8"
    by (simp add: bytesPerPixel2_def bytesPerPixelMap2_def)
  ultimately show ?thesis by (simp add: imageDataSize_def float_bytes_def)
qed

section \<open>Host buffers\<close>

text \<open>
  The type of a host image: one plane in the host's memory, whose block is as long as the plane
  and as the description says, in the way the description gives the strides.
\<close>

definition host_typed :: "heap \<Rightarrow> ImageView \<Rightarrow> bool" where
  "host_typed h v \<longleftrightarrow> memoryType v = Host \<and> planeCount v = 1 \<and> length (planes v) = 4 \<and>
     widthStride (desc v) \<ge> 1 \<and> heightStride (desc v) \<ge> 1 \<and> plane_size (planes v ! 0) = dataSize (desc v) \<and>
     (case view_data v 0 of None \<Rightarrow> False
      | Some p \<Rightarrow> (case h p of None \<Rightarrow> False | Some blk \<Rightarrow> length blk = dataSize (desc v)))"

lemma one_le_word: "(w :: u32) \<noteq> 0 \<Longrightarrow> 1 \<le> w"
  by (metis linorder_not_less word_less_1)

lemma makeHostImageView_sel:
  "desc (makeHostImageView data d rs acc) =
     d\<lparr>widthStride := (if widthStride d = 0 then width d else widthStride d),
       heightStride := (if heightStride d = 0 then height d else heightStride d)\<rparr>"
  "memoryType (makeHostImageView data d rs acc) = Host"
  "planeCount (makeHostImageView data d rs acc) = 1"
  "length (planes (makeHostImageView data d rs acc)) = 4"
  "view_data (makeHostImageView data d rs acc) 0 = data"
  "planes (makeHostImageView data d rs acc) ! 0 = \<lparr>plane_data = data, plane_size = dataSize d,
     plane_offset = 0,
     rowStride = (if rs > 0 then rs else if widthStride d = 0 then width d else widthStride d), plane_fd = -1\<rparr>"
  by (simp_all add: makeHostImageView_def newImageView_def newImagePlane_def view_data_def Let_def)

text \<open>
  C25. Buffers are typed: when \<open>makeHostImageBuffer\<close> returns for a picture that is not empty, its
  view is a host image whose block has exactly the size the view declares, all bytes are zero, no
  other block has changed, and the size is the one of the description or, where that is 0, the one
  \<open>imageDataSize\<close> computes.
\<close>

theorem makeHostImageBuffer_typed:
  assumes "makeHostImageBuffer p d h = (Inr b, h')" and "\<not> ImageDesc_empty d"
  shows "host_typed h' (view b) \<and> \<not> ImageView_empty (view b) \<and>
     h' = h(p \<mapsto> replicate (dataSize (desc (view b))) 0) \<and>
     (if dataSize d = 0 then imageDataSize d else Inr (dataSize d)) = Inr (dataSize (desc (view b)))"
proof -
  obtain n where n: "(if dataSize d = 0 then imageDataSize d else Inr (dataSize d)) = Inr n"
    and b: "b = newImageBuffer\<lparr>owner := Some p, view := makeHostImageView (Some p) (d\<lparr>dataSize := n\<rparr>) 0 ReadWrite\<rparr>"
    and h': "h' = h(p \<mapsto> replicate n 0)"
    using assms(1) unfolding makeHostImageBuffer_def by (auto split: sum.splits)
  have ne: "width d \<noteq> 0" "height d \<noteq> 0" "format d \<noteq> []" using assms(2) by (auto simp: ImageDesc_empty_def)
  show ?thesis
    using n ne unfolding b h' host_typed_def ImageView_empty_def ImageDesc_empty_def
    by (simp add: makeHostImageView_sel one_le_word)
qed

definition small_picture :: ImageDesc where
  "small_picture = \<lparr>width = 6, height = 2, widthStride = 0, heightStride = 0, format = ''YUV420SP'', dataSize = 0\<rparr>"

theorem makeHostImageBuffer_typed_witness:
  "\<exists>b h'. makeHostImageBuffer 7 small_picture (\<lambda>_. None) = (Inr b, h') \<and> host_typed h' (view b) \<and>
     dataSize (desc (view b)) = 18"
proof -
  have "bytesPerPixel2 ''YUV420SP'' = Inr 3" by (simp add: bytesPerPixel2_def bytesPerPixelMap2_def)
  then have size: "imageDataSize small_picture = Inr 18"
    by (simp add: imageDataSize_def float_bytes_def small_picture_def)
  obtain b h' where run: "makeHostImageBuffer 7 small_picture (\<lambda>_. None) = (Inr b, h')"
    using size by (simp add: makeHostImageBuffer_def small_picture_def)
  have ne: "\<not> ImageDesc_empty small_picture" and "dataSize small_picture = 0"
    by (simp_all add: ImageDesc_empty_def small_picture_def)
  note typed = makeHostImageBuffer_typed [OF run ne]
  then have "host_typed h' (view b)" by (rule conjunct1)
  moreover have "dataSize (desc (view b)) = 18"
    using conjunct2 [OF conjunct2 [OF conjunct2 [OF typed]]] size \<open>dataSize small_picture = 0\<close> by simp
  ultimately show ?thesis using run by blast
qed

section \<open>The way through OpenCV\<close>

text \<open>Row \<open>i\<close> of a matrix; a matrix that OpenCV hands out is inside its block.\<close>

definition mat_row :: "heap \<Rightarrow> cvMat \<Rightarrow> nat \<Rightarrow> bytes" where
  "mat_row h m i = take (nat (mat_cols m) * mat_elemSize m) (drop (i * mat_step m) (the (h (the (mat_data m)))))"

definition mat_ok :: "heap \<Rightarrow> cvMat \<Rightarrow> bool" where
  "mat_ok h m \<longleftrightarrow> 0 < mat_rows m \<and> 0 < mat_cols m \<and> nat (mat_cols m) * mat_elemSize m \<le> mat_step m \<and>
     (isContinuous m \<longrightarrow> mat_step m = nat (mat_cols m) * mat_elemSize m \<or> mat_rows m = 1) \<and>
     (case mat_data m of None \<Rightarrow> False | Some p \<Rightarrow>
       (case h p of None \<Rightarrow> False | Some blk \<Rightarrow>
         (nat (mat_rows m) - 1) * mat_step m + nat (mat_cols m) * mat_elemSize m \<le> length blk))"

lemma length_mat_row:
  assumes "mat_ok h m" and "j < nat (mat_rows m)"
  shows "length (mat_row h m j) = nat (mat_cols m) * mat_elemSize m"
proof -
  obtain p blk where q: "mat_data m = Some p" "h p = Some blk"
    and room: "(nat (mat_rows m) - 1) * mat_step m + nat (mat_cols m) * mat_elemSize m \<le> length blk"
    using assms(1) unfolding mat_ok_def by (auto split: option.splits)
  have "j * mat_step m \<le> (nat (mat_rows m) - 1) * mat_step m"
    using assms(2) by (intro mult_le_mono1) simp
  then have "j * mat_step m + nat (mat_cols m) * mat_elemSize m \<le> length blk" using room by linarith
  then show ?thesis using q by (simp add: mat_row_def)
qed

text \<open>Copying row by row puts the rows one behind the other.\<close>

lemma copy_rows_append:
  assumes "\<forall>i \<in> {k..<n}. i * step + rb \<le> length src" and "k \<le> n"
    and "length data = n * rb"
  shows "copy_rows src step rb [k..<n] data =
    Inr (take (k * rb) data @ concat (map (\<lambda>i. take rb (drop (i * step) src)) [k..<n]))"
  using assms
proof (induction "n - k" arbitrary: k data)
  case 0
  then show ?case by simp
next
  case (Suc d)
  then have kn: "k < n" by simp
  then have ok: "k * step + rb \<le> length src" using Suc.prems(1) by simp
  have room: "k * rb + rb \<le> n * rb"
    using mult_le_mono1 [of "Suc k" n rb] kn by simp
  let ?r = "take rb (drop (k * step) src)"
  have len: "length ?r = rb" using ok by simp
  let ?data = "take (k * rb) data @ ?r @ drop (k * rb + rb) data"
  have step1: "copy_rows src step rb [k..<n] data = copy_rows src step rb [Suc k..<n] ?data"
    using kn ok room Suc.prems(3) len by (simp add: upt_conv_Cons read_at_def memcpy_at_ok)
  have "length ?data = n * rb" using room Suc.prems(3) len by simp
  moreover have "d = n - Suc k" "Suc k \<le> n" "\<forall>i \<in> {Suc k..<n}. i * step + rb \<le> length src"
    using Suc.hyps(2) Suc.prems(1) kn by auto
  ultimately have "copy_rows src step rb [Suc k..<n] ?data = Inr (take (Suc k * rb) ?data @
      concat (map (\<lambda>i. take rb (drop (i * step) src)) [Suc k..<n]))"
    using Suc.hyps(1) by blast
  moreover have "min (n * rb) (k * rb) = k * rb" using room by simp
  then have "take (Suc k * rb) ?data = take (k * rb) data @ ?r"
    using Suc.prems(3) len by simp
  ultimately have "copy_rows src step rb [k..<n] data = Inr ((take (k * rb) data @ ?r) @
      concat (map (\<lambda>i. take rb (drop (i * step) src)) [Suc k..<n]))"
    by (simp only: step1)
  then show ?case using kn by (simp add: upt_conv_Cons)
qed

text \<open>Rows without gaps are the block itself.\<close>

lemma concat_rows_compact:
  "concat (map (\<lambda>i. take rb (drop (i * rb) src)) [0..<n]) = take (n * rb) src"
proof (induction n)
  case (Suc n)
  then show ?case by (simp add: add.commute take_add [symmetric])
qed simp

lemma take_row_of_concat:
  assumes "i < n" and "\<forall>j < n. length (f j) = rb"
  shows "take rb (drop (i * rb) (concat (map f [0..<n]))) = f i"
proof -
  have len: "length (concat (map f [0..<i])) = i * rb" if "i \<le> n" for i
    using that assms(2) by (induction i) auto
  have "[0..<n] = [0..<i] @ i # [Suc i..<n]"
    using assms(1) by (metis le_add1 add_0 less_imp_le_nat upt_add_eq_append upt_conv_Cons le_add_diff_inverse)
  then have "concat (map f [0..<n]) = concat (map f [0..<i]) @ f i @ concat (map f [Suc i..<n])" by simp
  then show ?thesis using len [of i] assms by simp
qed

text \<open>What \<open>fromMat\<close> stores, whether the matrix has gaps or not.\<close>

lemma fromMat_rows:
  assumes "mat_ok h m"
  shows "\<exists>v. fromMat p m fmt buffer h = (Inr (True, buffer\<lparr>view := v, owner := Some p\<rparr>),
      h(p \<mapsto> concat (map (mat_row h m) [0..<nat (mat_rows m)]))) \<and>
    v = makeHostImageView (Some p) \<lparr>width = of_int (mat_cols m), height = of_int (mat_rows m),
      widthStride = of_int (mat_cols m), heightStride = of_int (mat_rows m), format = fmt,
      dataSize = nat (mat_rows m) * nat (mat_cols m) * mat_elemSize m\<rparr>
      (word_of_nat (nat (mat_cols m) * mat_elemSize m)) ReadWrite"
proof -
  obtain q src where q: "mat_data m = Some q" "h q = Some src"
    and room: "(nat (mat_rows m) - 1) * mat_step m + nat (mat_cols m) * mat_elemSize m \<le> length src"
    using assms unfolding mat_ok_def by (auto split: option.splits)
  let ?n = "nat (mat_rows m)" and ?rb = "nat (mat_cols m) * mat_elemSize m"
  have pos: "0 < mat_rows m" "0 < mat_cols m" using assms by (simp_all add: mat_ok_def)
  have row: "mat_row h m = (\<lambda>i. take ?rb (drop (i * mat_step m) src))"
    by (simp add: mat_row_def q fun_eq_iff)
  have rows: "i * mat_step m + ?rb \<le> length src" if "i < ?n" for i
  proof -
    have "i * mat_step m \<le> (?n - 1) * mat_step m" using that by (intro mult_le_mono1) simp
    then show ?thesis using room by linarith
  qed
  have "(if isContinuous m then read_at 0 (?n * nat (mat_cols m) * mat_elemSize m) src
      else copy_rows src (mat_step m) ?rb [0..<?n] (replicate (?n * nat (mat_cols m) * mat_elemSize m) 0)) =
    Inr (concat (map (mat_row h m) [0..<?n]))"
  proof (cases "isContinuous m")
    case False
    then show ?thesis
      using copy_rows_append [of 0 ?n "mat_step m" ?rb src "replicate (?n * ?rb) 0"] rows
      by (simp add: row mult.assoc)
  next
    case True
    then consider "mat_step m = ?rb" | "mat_rows m = 1" using assms by (auto simp: mat_ok_def)
    then have "concat (map (mat_row h m) [0..<?n]) = take (?n * ?rb) src"
      by cases (simp_all add: row concat_rows_compact)
    moreover have "?n * ?rb \<le> length src"
    proof -
      have "(?n - 1) * ?rb \<le> (?n - 1) * mat_step m" using assms by (simp add: mat_ok_def)
      moreover have "?n * ?rb = (?n - 1) * ?rb + ?rb" using pos by (cases ?n) simp_all
      ultimately show ?thesis using room by linarith
    qed
    ultimately show ?thesis using True by (simp add: read_at_def mult.assoc)
  qed
  then show ?thesis
    using pos q by (simp add: fromMat_def mat_empty_def Let_def split del: if_split)
qed

lemma sint_of_int_small: "0 \<le> x \<Longrightarrow> x < 2 ^ 31 \<Longrightarrow> sint (word_of_int x :: u32) = x"
  by (simp add: signed_of_int signed_take_bit_int_eq_self)

lemma cvTypeForFormat_nonempty: "0 \<le> cvTypeForFormat fmt \<Longrightarrow> fmt \<noteq> []"
  by (auto simp: cvTypeForFormat_def)

lemma word_of_int_pos: "0 < x \<Longrightarrow> x < 2 ^ 31 \<Longrightarrow> (word_of_int x :: u32) \<noteq> 0"
  using sint_of_int_small [of x] by auto

text \<open>
  C24. Images survive the adapter: whatever gaps the rows of a matrix have, what \<open>fromMat\<close> stores of
  it is read back by \<open>toMat\<close> as a matrix of the same size and type without gaps, whose rows are the
  rows of the original.
\<close>

theorem mat_roundtrip:
  assumes "fromMat p m fmt buffer h = (Inr (True, b), h')" and "mat_ok h m"
    and "mat_type m = cvTypeForFormat fmt" and "0 \<le> mat_type m"
    and "mat_rows m < 2 ^ 31" and "mat_cols m * int (mat_elemSize m) < 2 ^ 31"
  shows "\<exists>m'. toMat (view b) = Some m' \<and> mat_rows m' = mat_rows m \<and> mat_cols m' = mat_cols m \<and>
     mat_type m' = mat_type m \<and> isContinuous m' \<and>
     (\<forall>i < nat (mat_rows m). mat_row h' m' i = mat_row h m i)"
proof -
  let ?n = "nat (mat_rows m)" and ?rb = "nat (mat_cols m) * mat_elemSize m"
  have pos: "0 < mat_rows m" "0 < mat_cols m" "0 < mat_elemSize m"
    using assms(2) by (auto simp: mat_ok_def mat_elemSize_def CV_MAT_CN_def)
  have "mat_cols m * 1 \<le> mat_cols m * int (mat_elemSize m)"
    using pos by (intro mult_left_mono) auto
  then have cols: "mat_cols m < 2 ^ 31" using assms(6) by linarith
  have rb: "int ?rb = mat_cols m * int (mat_elemSize m)" using pos by simp
  then have "int ?rb < int (2 ^ 31)" using assms(6) by simp
  then have rb_small: "?rb < 2 ^ 31" by (simp only: of_nat_less_iff)
  then have step: "unat (word_of_nat ?rb :: u32) = ?rb" and "0 < ?rb"
    using pos by (simp_all add: unsigned_of_nat take_bit_nat_eq_self del: of_nat_mult)
  then have step0: "(word_of_nat ?rb :: u32) > 0" by (metis unat_gt_0 word_gt_0)
  obtain v where b: "b = buffer\<lparr>view := v, owner := Some p\<rparr>"
    and h': "h' = h(p \<mapsto> concat (map (mat_row h m) [0..<?n]))"
    and v: "v = makeHostImageView (Some p) \<lparr>width = of_int (mat_cols m), height = of_int (mat_rows m),
      widthStride = of_int (mat_cols m), heightStride = of_int (mat_rows m), format = fmt,
      dataSize = ?n * nat (mat_cols m) * mat_elemSize m\<rparr> (word_of_nat ?rb) ReadWrite"
    using fromMat_rows [OF assms(2), of p fmt buffer] assms(1) by auto
  let ?m = "\<lparr>mat_rows = mat_rows m, mat_cols = mat_cols m, mat_type = mat_type m, mat_data = Some p,
    mat_step = ?rb, isContinuous = True\<rparr>"
  have words: "sint (word_of_int (mat_rows m) :: u32) = mat_rows m"
    "sint (word_of_int (mat_cols m) :: u32) = mat_cols m"
    "(word_of_int (mat_rows m) :: u32) \<noteq> 0" "(word_of_int (mat_cols m) :: u32) \<noteq> 0"
    using pos cols assms(5) by (simp_all add: sint_of_int_small word_of_int_pos)
  have "toMat v = Some ?m"
    using words pos assms(3,4) step step0 rb cvTypeForFormat_nonempty [of fmt]
    by (simp add: toMat_def v makeHostImageView_sel ImageView_empty_def ImageDesc_empty_def Let_def
        mat_empty_def mat_elemSize_def del: of_nat_mult)
  moreover have "mat_row h' ?m i = mat_row h m i" if "i < ?n" for i
  proof -
    have "take ?rb (drop (i * ?rb) (concat (map (mat_row h m) [0..<?n]))) = mat_row h m i"
      using length_mat_row [OF assms(2)] by (intro take_row_of_concat that) blast
    then show ?thesis
      unfolding mat_row_def [of h' ?m] by (simp add: h' mat_elemSize_def)
  qed
  ultimately show ?thesis by (intro exI [of _ ?m]) (simp add: b)
qed

text \<open>Two rows of two RGB pixels with a gap of two bytes.\<close>

definition padded_mat :: cvMat where
  "padded_mat = \<lparr>mat_rows = 2, mat_cols = 2, mat_type = CV_8UC 3, mat_data = Some 3, mat_step = 8,
     isContinuous = False\<rparr>"

definition padded_heap :: heap where
  "padded_heap = [3 \<mapsto> [1, 2, 3, 4, 5, 6, 0, 0, 7, 8, 9, 10, 11, 12]]"

theorem mat_roundtrip_witness:
  "\<exists>b h' m'. fromMat 9 padded_mat ''RGB888'' newImageBuffer padded_heap = (Inr (True, b), h') \<and>
     toMat (view b) = Some m' \<and> mat_row h' m' 1 = [7, 8, 9, 10, 11, 12]"
proof -
  have ok: "mat_ok padded_heap padded_mat"
    by (simp add: mat_ok_def padded_mat_def padded_heap_def mat_elemSize_def CV_MAT_CN_def CV_8UC_def)
  have ty: "mat_type padded_mat = cvTypeForFormat ''RGB888''" "0 \<le> mat_type padded_mat"
    and small: "mat_rows padded_mat < 2 ^ 31" "mat_cols padded_mat * int (mat_elemSize padded_mat) < 2 ^ 31"
    by (simp_all add: padded_mat_def cvTypeForFormat_def CV_8UC_def mat_elemSize_def CV_MAT_CN_def)
  obtain b h' where run: "fromMat 9 padded_mat ''RGB888'' newImageBuffer padded_heap = (Inr (True, b), h')"
    using fromMat_rows [OF ok] by blast
  from mat_roundtrip [OF run ok ty small] obtain m' where m': "toMat (view b) = Some m'"
    "\<forall>i < nat (mat_rows padded_mat). mat_row h' m' i = mat_row padded_heap padded_mat i" by blast
  have "mat_row padded_heap padded_mat 1 = [7, 8, 9, 10, 11, 12]" "(1 :: nat) < nat (mat_rows padded_mat)"
    by (simp_all add: mat_row_def padded_mat_def padded_heap_def mat_elemSize_def CV_MAT_CN_def CV_8UC_def)
  then have "mat_row h' m' 1 = [7, 8, 9, 10, 11, 12]" using m'(2) by metis
  then show ?thesis using run m'(1) by blast
qed

text \<open>
  A buffer made by \<open>makeHostImageBuffer\<close> gives its row stride in pixels, while \<open>toMat\<close> takes it for
  bytes: for every format with more than one byte per pixel the rows of the matrix overlap.
\<close>

lemma host_buffer_rows_overlap:
  assumes "makeHostImageBuffer p d h = (Inr b, h')" and "0 \<le> cvTypeForFormat (format d)"
    and "1 < CV_MAT_CN (cvTypeForFormat (format d))"
    and "widthStride d = width d" and "width d \<noteq> 0" and "height d \<noteq> 0"
    and "unat (width d) < 2 ^ 31" and "unat (height d) < 2 ^ 31"
  shows "\<exists>m. toMat (view b) = Some m \<and> mat_step m < nat (mat_cols m) * mat_elemSize m"
proof -
  obtain n where b: "b = newImageBuffer\<lparr>owner := Some p,
      view := makeHostImageView (Some p) (d\<lparr>dataSize := n\<rparr>) 0 ReadWrite\<rparr>"
    using assms(1) unfolding makeHostImageBuffer_def by (auto split: sum.splits)
  have small: "sint w = int (unat w)" if "unat w < 2 ^ 31" for w :: u32
  proof -
    have "int (unat w) < int (2 ^ 31)" using that by (simp only: of_nat_less_iff)
    then show ?thesis using sint_of_int_small [of "int (unat w)"] by simp
  qed
  have "0 < unat (width d)" using assms(5) by (simp add: unat_gt_0)
  then show ?thesis
    using assms(2-8) cvTypeForFormat_nonempty [of "format d"] small [OF assms(7)] small [OF assms(8)]
    by (simp add: b toMat_def makeHostImageView_sel ImageView_empty_def ImageDesc_empty_def Let_def
        mat_empty_def mat_elemSize_def word_gt_0 unsigned_eq_0_iff)
qed

end
