(* ===== verification/Rtp.thy ===== *)
theory Rtp
  imports Prelude
begin

text \<open>
  The RTP packets of the cameras: \<open>bsp/protocol/RtpHeader.hpp\<close> and \<open>RtpReader.cpp\<close>. The header is 12
  bytes in network order; the payload is the rest of the packet. A pointer into the packet is the
  offset it points to.
\<close>

record RtpHeader =
  start_of_header :: byte
  payload_type :: byte
  sequence_number :: "16 word"
  timestamp :: u32
  ssrc :: u32

record RtpPayload =
  payload_data :: "nat option"
  payload_size :: nat

definition sizeof_RtpHeader :: nat where "sizeof_RtpHeader = 12"

definition newRtpHeader :: RtpHeader where
  "newRtpHeader = \<lparr>start_of_header = 0, payload_type = 0, sequence_number = 0, timestamp = 0, ssrc = 0\<rparr>"

text \<open>
  The bytes are promoted to \<open>int\<close> and shifted. The result pairs the return value with the header,
  which keeps its old contents when the packet is too short.
\<close>

definition parseHeader :: "bytes \<Rightarrow> nat \<Rightarrow> RtpHeader \<Rightarrow> (int \<times> RtpHeader) result" where
  "parseHeader data n header =
     (if n < sizeof_RtpHeader then Inr (-1, header)
      else if length data < sizeof_RtpHeader then Inl (Undefined ''read out of range'')
      else Inr (0, \<lparr>start_of_header = data ! 0, payload_type = data ! 1,
        sequence_number = ucast (push_bit 8 (ucast (data ! 2)) OR ucast (data ! 3) :: u32),
        timestamp = push_bit 24 (ucast (data ! 4)) OR push_bit 16 (ucast (data ! 5)) OR
          push_bit 8 (ucast (data ! 6)) OR ucast (data ! 7),
        ssrc = push_bit 24 (ucast (data ! 8)) OR push_bit 16 (ucast (data ! 9)) OR
          push_bit 8 (ucast (data ! 10)) OR ucast (data ! 11)\<rparr>))"

definition extractPayload :: "nat \<Rightarrow> RtpPayload" where
  "extractPayload pkt_size =
     (if pkt_size < sizeof_RtpHeader then \<lparr>payload_data = None, payload_size = 0\<rparr>
      else \<lparr>payload_data = Some sizeof_RtpHeader, payload_size = pkt_size - sizeof_RtpHeader\<rparr>)"

text \<open>The overload that copies the payload into a vector.\<close>

definition extractPayload_vector :: "bytes \<Rightarrow> nat \<Rightarrow> bytes \<Rightarrow> (int \<times> bytes) result" where
  "extractPayload_vector pkt_data pkt_size payload =
     (if pkt_size < sizeof_RtpHeader then Inr (-1, payload)
      else if length pkt_data < pkt_size then Inl (Undefined ''read out of range'')
      else Inr (0, take (pkt_size - sizeof_RtpHeader) (drop sizeof_RtpHeader pkt_data)))"

section \<open>The packets of a sender\<close>

text \<open>What a sender puts on the wire: every field most significant byte first, then the payload.\<close>

definition rtp_packet :: "RtpHeader \<Rightarrow> bytes \<Rightarrow> bytes" where
  "rtp_packet h d = [start_of_header h, payload_type h] @ rev (le_bytes 2 (sequence_number h)) @
     rev (le_bytes 4 (timestamp h)) @ rev (le_bytes 4 (ssrc h)) @ d"

lemma length_rtp_packet [simp]: "length (rtp_packet h d) = 12 + length d"
  by (simp add: rtp_packet_def)

lemma drop_rtp_packet [simp]: "drop 12 (rtp_packet h d) = d"
  by (simp add: rtp_packet_def)

text \<open>The shifts of the reader put four bytes in network order together again.\<close>

lemma le_bytes_4: "le_bytes 4 w = [ucast w, ucast (drop_bit 8 w), ucast (drop_bit 16 w), ucast (drop_bit 24 w)]"
  by (simp add: le_bytes_def upt_conv_Cons)

lemma le_bytes_2: "le_bytes 2 w = [ucast w, ucast (drop_bit 8 w)]"
  by (simp add: le_bytes_def upt_conv_Cons)

lemma be_word_4:
  fixes w :: u32
  shows "push_bit 24 (ucast (ucast (drop_bit 24 w) :: byte)) OR push_bit 16 (ucast (ucast (drop_bit 16 w) :: byte)) OR
     push_bit 8 (ucast (ucast (drop_bit 8 w) :: byte)) OR ucast (ucast w :: byte) = w"
proof -
  have "le_word (le_bytes 4 w) = w" by (rule le_word_le_bytes) simp
  then show ?thesis
    by (simp add: le_bytes_4 push_bit_or push_bit_push_bit ac_simps)
qed

lemma be_word_2:
  fixes w :: "16 word"
  shows "ucast (push_bit 8 (ucast (ucast (drop_bit 8 w) :: byte)) OR ucast (ucast w :: byte) :: u32) = w"
proof -
  have "le_word (le_bytes 2 w) = w" by (rule le_word_le_bytes) simp
  then show ?thesis
    by (intro bit_word_eqI) (auto simp: le_bytes_2 bit_simps)
qed

text \<open>
  What a sender writes is what the reader reads: on the packet of any header and payload,
  with any bytes behind it in the buffer, \<open>parseHeader\<close> returns 0 and exactly the fields of the
  header, and the payload it locates, copied or pointed to, is the payload of the packet.
\<close>

theorem rtp_roundtrip:
  "parseHeader (rtp_packet h d @ rest) (length (rtp_packet h d)) h0 = Inr (0, h) \<and>
   extractPayload (length (rtp_packet h d)) = \<lparr>payload_data = Some 12, payload_size = length d\<rparr> \<and>
   extractPayload_vector (rtp_packet h d @ rest) (length (rtp_packet h d)) old = Inr (0, d)"
proof -
  have "rtp_packet h d @ rest = [start_of_header h, payload_type h,
      ucast (drop_bit 8 (sequence_number h)), ucast (sequence_number h),
      ucast (drop_bit 24 (timestamp h)), ucast (drop_bit 16 (timestamp h)), ucast (drop_bit 8 (timestamp h)),
      ucast (timestamp h), ucast (drop_bit 24 (ssrc h)), ucast (drop_bit 16 (ssrc h)),
      ucast (drop_bit 8 (ssrc h)), ucast (ssrc h)] @ d @ rest"
    by (simp add: rtp_packet_def le_bytes_2 le_bytes_4)
  then have "parseHeader (rtp_packet h d @ rest) (length (rtp_packet h d)) h0 = Inr (0, h)"
    by (simp add: parseHeader_def sizeof_RtpHeader_def be_word_2 be_word_4)
  moreover have "take (length d) (drop 12 (rtp_packet h d @ rest)) = d" by simp
  ultimately show ?thesis
    by (simp add: extractPayload_def extractPayload_vector_def sizeof_RtpHeader_def)
qed

end
