(* ===== verification/VideoDecHelper.thy ===== *)
theory VideoDecHelper
  imports Image Rtp "HOL-Library.Multiset" "HOL-Library.Sublist"
begin

text \<open>
  The decoder helper of the recorder's camera clients:
  \<open>apps/data_recorder/sensor_clients/camera/VideoDecHelper.hpp\<close> and \<open>.cpp\<close>. Packet buffers are
  shared objects, so they live in a store and the queues hold their numbers; a new buffer gets a
  fresh number. The sort of the free buffers is a parameter, because \<open>std::sort\<close> leaves the order of
  equal elements open; the locale \<open>sorting\<close> says what it promises. The decoder and the 2D engine
  are parameters too.
\<close>

section \<open>State\<close>

record RtpBuffer =
  raw_data :: bytes
  buffer_size :: nat
  valid_data_bytes :: nat
  payload :: RtpPayload
  payload_valid :: bool

record VideoDecHelper =
  buffers :: "nat \<Rightarrow> RtpBuffer option"
  next_buffer :: nat
  m_free_buffer_sort_queue :: "nat list"
  m_encode_pkt_queue :: "nat list"
  m_decoded_frame_queue :: "ImageBuffer list"
  m_stopSignal :: bool
  thread_started :: bool
  m_out_pixel_format :: string

definition m_free_buffer_sort_queue_size :: nat where "m_free_buffer_sort_queue_size = 30"
definition m_reserved_frame_num :: nat where "m_reserved_frame_num = 30"
definition m_reserved_encode_pkt_num :: nat where "m_reserved_encode_pkt_num = 30"

definition newVideoDecHelper :: "string \<Rightarrow> VideoDecHelper" where
  "newVideoDecHelper out_pixel_format =
     \<lparr>buffers = (\<lambda>_. None), next_buffer = 0, m_free_buffer_sort_queue = [], m_encode_pkt_queue = [],
      m_decoded_frame_queue = [], m_stopSignal = False, thread_started = False,
      m_out_pixel_format = out_pixel_format\<rparr>"

text \<open>The result of the decoder's \<open>setup\<close> is not looked at.\<close>

definition setupAndStartDecoder :: "int \<Rightarrow> VideoDecHelper \<Rightarrow> int \<times> VideoDecHelper" where
  "setupAndStartDecoder setup_result v = (0, v\<lparr>thread_started := True\<rparr>)"

definition size_of :: "VideoDecHelper \<Rightarrow> nat \<Rightarrow> nat" where
  "size_of v b = (case buffers v b of None \<Rightarrow> 0 | Some r \<Rightarrow> buffer_size r)"

definition update_buffer :: "nat \<Rightarrow> (RtpBuffer \<Rightarrow> RtpBuffer) \<Rightarrow> VideoDecHelper \<Rightarrow> VideoDecHelper" where
  "update_buffer b f v = v\<lparr>buffers := (buffers v)(b := map_option f (buffers v b))\<rparr>"

section \<open>The pool of packet buffers\<close>

text \<open>\<open>mem\<close> is what the new memory happens to hold; \<open>size_t\<close> wraps.\<close>

definition createNewRtpBuffer :: "bytes \<Rightarrow> nat \<Rightarrow> VideoDecHelper \<Rightarrow> nat \<times> VideoDecHelper" where
  "createNewRtpBuffer mem min_size v =
     (let alloc_size = min_size * 2 mod 2 ^ 64; b = next_buffer v
      in (b, v\<lparr>next_buffer := b + 1, buffers := (buffers v)(b \<mapsto>
           \<lparr>raw_data = take alloc_size (mem @ replicate alloc_size 0), buffer_size = alloc_size,
            valid_data_bytes = 0, payload = \<lparr>payload_data = None, payload_size = 0\<rparr>,
            payload_valid = False\<rparr>)\<rparr>))"

definition reset_buffer :: "RtpBuffer \<Rightarrow> RtpBuffer" where
  "reset_buffer r = r\<lparr>valid_data_bytes := 0, payload_valid := False\<rparr>"

definition getRtpVideoBuffer :: "bytes \<Rightarrow> nat \<Rightarrow> VideoDecHelper \<Rightarrow> nat \<times> VideoDecHelper" where
  "getRtpVideoBuffer mem min_size v =
     (if m_free_buffer_sort_queue v = [] then createNewRtpBuffer mem min_size v
      else
        (let b = last (m_free_buffer_sort_queue v)
         in if size_of v b < min_size then createNewRtpBuffer mem min_size v
            else (b, (update_buffer b reset_buffer v)
              \<lparr>m_free_buffer_sort_queue := butlast (m_free_buffer_sort_queue v)\<rparr>)))"

text \<open>
  \<open>srt key xs\<close> is what \<open>std::sort\<close> makes of \<open>xs\<close> with the comparison of the keys. The oldest entries
  are erased from the front, before the sort.
\<close>

definition releaseRtpVideoBuffer ::
  "((nat \<Rightarrow> nat) \<Rightarrow> nat list \<Rightarrow> nat list) \<Rightarrow> nat \<Rightarrow> VideoDecHelper \<Rightarrow> int \<times> VideoDecHelper" where
  "releaseRtpVideoBuffer srt b v =
     (if size_of v b = 0 then (0, v)
      else
        (let v' = update_buffer b reset_buffer v;
             q = m_free_buffer_sort_queue v @ [b];
             q' = drop (length q - m_free_buffer_sort_queue_size) q
         in (0, v'\<lparr>m_free_buffer_sort_queue := srt (size_of v') q'\<rparr>)))"

section \<open>Packets to the decoder\<close>

text \<open>The loop that drops the oldest packets while there are too many.\<close>

function drop_oldest ::
  "((nat \<Rightarrow> nat) \<Rightarrow> nat list \<Rightarrow> nat list) \<Rightarrow> VideoDecHelper \<Rightarrow> VideoDecHelper" where
  "drop_oldest srt v =
     (if length (m_encode_pkt_queue v) \<le> m_reserved_encode_pkt_num then v
      else drop_oldest srt ((snd (releaseRtpVideoBuffer srt (hd (m_encode_pkt_queue v)) v))
             \<lparr>m_encode_pkt_queue := tl (m_encode_pkt_queue v)\<rparr>))"
  by pat_completeness auto
termination
  by (relation "measure (\<lambda>(_, v). length (m_encode_pkt_queue v))") auto

declare drop_oldest.simps [simp del]

definition sendToDecoder ::
  "((nat \<Rightarrow> nat) \<Rightarrow> nat list \<Rightarrow> nat list) \<Rightarrow> nat \<Rightarrow> VideoDecHelper \<Rightarrow> int \<times> VideoDecHelper" where
  "sendToDecoder srt b v = (0, drop_oldest srt (v\<lparr>m_encode_pkt_queue := m_encode_pkt_queue v @ [b]\<rparr>))"

text \<open>
  One round of \<open>decoderLoop\<close> in two steps, between which the packet is with the decoder: taking it
  from the queue, and giving the buffer back. The loop never looks at \<open>m_stopSignal\<close>.
\<close>

record DecodePacket =
  pkt_data :: bytes
  pkt_size :: nat
  pkt_eos :: bool

definition take_packet :: "VideoDecHelper \<Rightarrow> (nat \<times> VideoDecHelper) option" where
  "take_packet v = (case m_encode_pkt_queue v of [] \<Rightarrow> None
     | b # q \<Rightarrow> Some (b, v\<lparr>m_encode_pkt_queue := q\<rparr>))"

definition payload_bytes :: "RtpBuffer \<Rightarrow> bytes" where
  "payload_bytes r = (case payload_data (payload r) of None \<Rightarrow> []
     | Some off \<Rightarrow> take (payload_size (payload r)) (drop off (raw_data r)))"

definition decode_packet :: "VideoDecHelper \<Rightarrow> nat \<Rightarrow> DecodePacket result" where
  "decode_packet v b =
     (case buffers v b of None \<Rightarrow> Inl (Undefined ''dangling buffer'')
      | Some r \<Rightarrow> Inr \<lparr>pkt_data = payload_bytes r, pkt_size = payload_size (payload r), pkt_eos = False\<rparr>)"

section \<open>Decoded frames\<close>

text \<open>The callback the decoder is given; its loop drops the oldest frames.\<close>

definition decoderCallback :: "ImageBuffer \<Rightarrow> VideoDecHelper \<Rightarrow> VideoDecHelper" where
  "decoderCallback frame v =
     (let q = m_decoded_frame_queue v @ [frame]
      in v\<lparr>m_decoded_frame_queue := drop (length q - m_reserved_frame_num) q\<rparr>)"

definition needPixelConverter :: "string \<Rightarrow> VideoDecHelper \<Rightarrow> bool" where
  "needPixelConverter pixel_format v \<longleftrightarrow> m_out_pixel_format v \<noteq> pixel_format"

text \<open>
  \<open>g2d src dst h\<close> is what the 2D engine returns for the two views and does to the heap; \<open>p\<close> is the
  block of the new frame.
\<close>

definition convertPixelFormat ::
  "(ImageView \<Rightarrow> ImageView \<Rightarrow> heap \<Rightarrow> int \<times> heap) \<Rightarrow> nat \<Rightarrow> string \<Rightarrow> ImageBuffer \<Rightarrow> heap \<Rightarrow>
    (heap, ImageBuffer option) outcome" where
  "convertPixelFormat g2d p fmt frame h =
     (let d = (desc (view frame))\<lparr>format := fmt\<rparr>;
          d' = d\<lparr>widthStride := width d, heightStride := height d\<rparr>
      in case imageDataSize d' of
        Inl e \<Rightarrow> (Inl e, h)
      | Inr n \<Rightarrow> andthen (makeHostImageBuffer p (d'\<lparr>dataSize := n\<rparr>) h) (\<lambda>out h'.
          case g2d (view frame) (view out) h' of (r, h'') \<Rightarrow> (Inr (if r \<noteq> 0 then None else Some out), h'')))"

definition getDecodedFrame ::
  "(ImageView \<Rightarrow> ImageView \<Rightarrow> heap \<Rightarrow> int \<times> heap) \<Rightarrow> nat \<Rightarrow> VideoDecHelper \<times> heap \<Rightarrow>
    (VideoDecHelper \<times> heap, ImageBuffer option) outcome" where
  "getDecodedFrame g2d p vh =
     (case vh of (v, h) \<Rightarrow>
      case m_decoded_frame_queue v of
        [] \<Rightarrow> (Inr None, (v, h))
      | frame # q \<Rightarrow>
          (let v' = v\<lparr>m_decoded_frame_queue := q\<rparr>
           in if needPixelConverter (format (desc (view frame))) v'
              then (case convertPixelFormat g2d p (m_out_pixel_format v') frame h of (r, h') \<Rightarrow> (r, (v', h')))
              else (Inr (Some frame), (v', h))))"

definition destroyVideoDecHelper :: "VideoDecHelper \<Rightarrow> VideoDecHelper" where
  "destroyVideoDecHelper v = (if thread_started v then v\<lparr>m_stopSignal := True\<rparr> else v)"

section \<open>Who owns a buffer\<close>

text \<open>
  \<open>owned held v\<close>: the buffers that wait for the decoder, the free ones and the ones in \<open>held\<close> are
  all different, exist and have the memory they declare; the free ones are few and ordered by size.
\<close>

definition buffer_ok :: "VideoDecHelper \<Rightarrow> nat \<Rightarrow> bool" where
  "buffer_ok v b \<longleftrightarrow> (case buffers v b of None \<Rightarrow> False | Some r \<Rightarrow> length (raw_data r) = buffer_size r)"

definition owned :: "nat list \<Rightarrow> VideoDecHelper \<Rightarrow> bool" where
  "owned held v \<longleftrightarrow> distinct (m_free_buffer_sort_queue v @ m_encode_pkt_queue v @ held) \<and>
     (\<forall>b \<in> set (m_free_buffer_sort_queue v @ m_encode_pkt_queue v @ held). b < next_buffer v \<and> buffer_ok v b) \<and>
     sorted (map (size_of v) (m_free_buffer_sort_queue v)) \<and>
     length (m_free_buffer_sort_queue v) \<le> m_free_buffer_sort_queue_size"

lemma owned_new [simp]: "owned [] (newVideoDecHelper fmt)"
  by (simp add: owned_def newVideoDecHelper_def)

lemma owned_perm: "owned held v \<Longrightarrow> mset held = mset held' \<Longrightarrow> owned held' v"
  unfolding owned_def
  using mset_eq_imp_distinct_iff [of held held'] mset_eq_setD [of held held'] by simp

lemma owned_drop: "owned (b # held) v \<Longrightarrow> owned held v"
  by (auto simp: owned_def)

text \<open>The bytes a buffer carries for the decoder, and what changes them.\<close>

definition carried :: "VideoDecHelper \<Rightarrow> nat \<Rightarrow> bytes" where
  "carried v b = (case buffers v b of None \<Rightarrow> [] | Some r \<Rightarrow> payload_bytes r)"

lemma buffers_update_buffer [simp]:
  "buffers (update_buffer b f v) c = (if c = b then map_option f (buffers v b) else buffers v c)"
  by (simp add: update_buffer_def)

lemma update_buffer_fields [simp]:
  "next_buffer (update_buffer b f v) = next_buffer v"
  "m_free_buffer_sort_queue (update_buffer b f v) = m_free_buffer_sort_queue v"
  "m_encode_pkt_queue (update_buffer b f v) = m_encode_pkt_queue v"
  "m_decoded_frame_queue (update_buffer b f v) = m_decoded_frame_queue v"
  by (simp_all add: update_buffer_def)

lemma size_of_reset [simp]: "size_of (update_buffer b reset_buffer v) = size_of v"
  by (auto simp: size_of_def reset_buffer_def fun_eq_iff split: option.splits)

lemma carried_reset [simp]: "carried (update_buffer b reset_buffer v) = carried v"
  by (auto simp: carried_def reset_buffer_def payload_bytes_def fun_eq_iff split: option.splits)

lemma buffer_ok_reset [simp]: "buffer_ok (update_buffer b reset_buffer v) = buffer_ok v"
  by (auto simp: buffer_ok_def reset_buffer_def fun_eq_iff split: option.splits)

lemma size_of_fields [simp]:
  "buffer_ok (v\<lparr>m_free_buffer_sort_queue := q\<rparr>) = buffer_ok v"
  "buffer_ok (v\<lparr>m_encode_pkt_queue := q\<rparr>) = buffer_ok v"
  "size_of (v\<lparr>m_free_buffer_sort_queue := q\<rparr>) = size_of v"
  "size_of (v\<lparr>m_encode_pkt_queue := q\<rparr>) = size_of v"
  "carried (v\<lparr>m_free_buffer_sort_queue := q\<rparr>) = carried v"
  "carried (v\<lparr>m_encode_pkt_queue := q\<rparr>) = carried v"
  by (simp_all add: size_of_def carried_def buffer_ok_def fun_eq_iff)

lemma size_of_buffers:
  "size_of (v\<lparr>buffers := B\<rparr>) = (\<lambda>b. case B b of None \<Rightarrow> 0 | Some r \<Rightarrow> buffer_size r)"
  by (simp add: size_of_def fun_eq_iff)

lemma owned_unqueue:
  "owned held v \<Longrightarrow> m_encode_pkt_queue v = b # q \<Longrightarrow> owned (b # held) (v\<lparr>m_encode_pkt_queue := q\<rparr>)"
  by (auto simp: owned_def)

section \<open>What the sort promises\<close>

locale sorting =
  fixes srt :: "(nat \<Rightarrow> nat) \<Rightarrow> nat list \<Rightarrow> nat list"
  assumes mset_srt: "mset (srt key xs) = mset xs"
    and sorted_srt: "sorted (map key (srt key xs))"
begin

lemma srt_simps [simp]: "length (srt key xs) = length xs" "set (srt key xs) = set xs"
  "distinct (srt key xs) \<longleftrightarrow> distinct xs"
  using mset_eq_length [OF mset_srt [of key xs]] mset_eq_setD [OF mset_srt [of key xs]]
    mset_eq_imp_distinct_iff [OF mset_srt [of key xs]] by simp_all

lemma releaseRtpVideoBuffer_owned:
  assumes "owned (b # held) v"
  shows "owned held (snd (releaseRtpVideoBuffer srt b v)) \<and>
    m_encode_pkt_queue (snd (releaseRtpVideoBuffer srt b v)) = m_encode_pkt_queue v \<and>
    carried (snd (releaseRtpVideoBuffer srt b v)) = carried v"
proof (cases "size_of v b = 0")
  case True
  then show ?thesis using owned_drop [OF assms] by (simp add: releaseRtpVideoBuffer_def)
next
  case False
  define q where "q = m_free_buffer_sort_queue v @ [b]"
  define d where "d = drop (length q - m_free_buffer_sort_queue_size) q"
  have q: "distinct (q @ m_encode_pkt_queue v @ held)"
    "\<forall>c \<in> set (q @ m_encode_pkt_queue v @ held). c < next_buffer v \<and> buffer_ok v c"
    using assms by (auto simp: owned_def q_def)
  have d: "set d \<subseteq> set q" "distinct d" "length d \<le> m_free_buffer_sort_queue_size"
    using q(1) by (auto simp: d_def set_drop_subset distinct_drop dest: in_set_dropD)
  have run: "snd (releaseRtpVideoBuffer srt b v) =
      (update_buffer b reset_buffer v)\<lparr>m_free_buffer_sort_queue := srt (size_of v) d\<rparr>"
    using False by (simp add: releaseRtpVideoBuffer_def Let_def d_def q_def)
  have "owned held (snd (releaseRtpVideoBuffer srt b v))"
    unfolding owned_def run using sorted_srt [of "size_of v" d] q d by auto
  then show ?thesis unfolding run by simp
qed

lemma drop_oldest_owned:
  "owned held v \<Longrightarrow> owned held (drop_oldest srt v) \<and> carried (drop_oldest srt v) = carried v \<and>
    m_encode_pkt_queue (drop_oldest srt v) =
      drop (length (m_encode_pkt_queue v) - m_reserved_encode_pkt_num) (m_encode_pkt_queue v)"
proof (induction "length (m_encode_pkt_queue v)" arbitrary: v)
  case 0
  then show ?case by (simp add: drop_oldest.simps)
next
  case (Suc n)
  then obtain b q where q: "m_encode_pkt_queue v = b # q" by (cases "m_encode_pkt_queue v") auto
  show ?case
  proof (cases "length (m_encode_pkt_queue v) \<le> m_reserved_encode_pkt_num")
    case True
    then show ?thesis using Suc.prems by (simp add: drop_oldest.simps [of srt v])
  next
    case False
    let ?v = "(snd (releaseRtpVideoBuffer srt b v))\<lparr>m_encode_pkt_queue := q\<rparr>"
    have rel: "releaseRtpVideoBuffer srt b (v\<lparr>m_encode_pkt_queue := q\<rparr>) = (0, ?v)"
      by (simp add: releaseRtpVideoBuffer_def update_buffer_def size_of_buffers Let_def)
    have "owned held ?v" "carried ?v = carried v" "m_encode_pkt_queue ?v = q"
      using releaseRtpVideoBuffer_owned [OF owned_unqueue [OF Suc.prems q]] by (simp_all add: rel)
    moreover have "drop_oldest srt v = drop_oldest srt ?v"
      using False q by (simp add: drop_oldest.simps [of srt v])
    moreover have "drop (length (b # q) - m_reserved_encode_pkt_num) (b # q) =
        drop (length q - m_reserved_encode_pkt_num) q"
      using False q by (simp add: Suc_diff_le)
    ultimately show ?thesis using Suc.hyps(1) [of ?v] Suc.hyps(2) q by simp
  qed
qed

lemma sendToDecoder_owned:
  assumes "owned (b # held) v"
  defines "v' \<equiv> snd (sendToDecoder srt b v)"
  defines "q \<equiv> m_encode_pkt_queue v @ [b]"
  shows "owned held v' \<and> carried v' = carried v \<and>
    m_encode_pkt_queue v' = drop (length q - m_reserved_encode_pkt_num) q"
proof -
  have "owned held (v\<lparr>m_encode_pkt_queue := q\<rparr>)"
    using assms(1) by (auto simp: owned_def q_def)
  from drop_oldest_owned [OF this] show ?thesis by (simp add: v'_def sendToDecoder_def q_def)
qed

end

text \<open>The stable sort of the library is one that \<open>std::sort\<close> may be.\<close>

interpretation stable: sorting sort_key
  by unfold_locales simp_all

section \<open>Getting a buffer\<close>

lemma owned_create:
  assumes "owned held v" and "createNewRtpBuffer mem m v = (b, v')"
  shows "owned (b # held) v' \<and> size_of v' b = m * 2 mod 2 ^ 64 \<and>
    m_encode_pkt_queue v' = m_encode_pkt_queue v \<and> b = next_buffer v \<and>
    (\<forall>c < next_buffer v. carried v' c = carried v c \<and> size_of v' c = size_of v c)"
proof -
  have b: "b = next_buffer v" using assms(2) by (simp add: createNewRtpBuffer_def Let_def)
  have old: "\<forall>c < next_buffer v. buffers v' c = buffers v c"
    and new: "next_buffer v' = b + 1" "m_encode_pkt_queue v' = m_encode_pkt_queue v"
      "m_free_buffer_sort_queue v' = m_free_buffer_sort_queue v" "buffer_ok v' b"
      "size_of v' b = m * 2 mod 2 ^ 64"
    using assms(2) by (auto simp: createNewRtpBuffer_def Let_def size_of_def buffer_ok_def b)
  have sizes: "map (size_of v') (m_free_buffer_sort_queue v) = map (size_of v) (m_free_buffer_sort_queue v)"
    using assms(1) old by (auto simp: owned_def size_of_def)
  have "\<forall>c < next_buffer v. buffer_ok v' c = buffer_ok v c" using old by (simp add: buffer_ok_def)
  then have "owned (b # held) v'"
    using assms(1) new unfolding owned_def new(3) sizes by (auto simp: b less_Suc_eq)
  then show ?thesis using old new b by (simp add: carried_def size_of_def)
qed

text \<open>
  A free buffer is handed out exactly when one is large enough: the last one is the largest.
\<close>

lemma getRtpVideoBuffer_owned:
  assumes "owned held v" and "getRtpVideoBuffer mem m v = (b, v')"
  shows "owned (b # held) v' \<and> (2 * m < 2 ^ 64 \<longrightarrow> m \<le> size_of v' b) \<and> m_encode_pkt_queue v' = m_encode_pkt_queue v \<and>
    (b \<in> set (m_free_buffer_sort_queue v) \<longleftrightarrow> (\<exists>c \<in> set (m_free_buffer_sort_queue v). m \<le> size_of v c)) \<and>
    (\<forall>c < next_buffer v. carried v' c = carried v c)"
proof -
  consider (new) "createNewRtpBuffer mem m v = (b, v')"
      "\<forall>c \<in> set (m_free_buffer_sort_queue v). size_of v c < m"
    | (reuse) q where "m_free_buffer_sort_queue v = q @ [b]" "m \<le> size_of v b"
      "v' = (update_buffer b reset_buffer v)\<lparr>m_free_buffer_sort_queue := q\<rparr>"
  proof (cases "m_free_buffer_sort_queue v" rule: rev_cases)
    case Nil
    then show ?thesis using assms(2) new by (simp add: getRtpVideoBuffer_def)
  next
    case (snoc q c)
    then have "\<forall>d \<in> set (m_free_buffer_sort_queue v). size_of v d \<le> size_of v c"
      using assms(1) by (auto simp: owned_def sorted_append)
    moreover from this have "\<forall>d \<in> set (m_free_buffer_sort_queue v). size_of v d < m" if "size_of v c < m"
      using that le_less_trans by blast
    ultimately show ?thesis
      using assms(2) snoc new reuse [of q]
      by (auto simp: getRtpVideoBuffer_def Let_def split: if_splits)
  qed
  then show ?thesis
  proof cases
    case new
    from owned_create [OF assms(1) this(1)] this(2) assms(1) show ?thesis
      by (auto simp: owned_def)
  next
    case reuse
    then show ?thesis using assms(1) by (auto simp: owned_def sorted_append)
  qed
qed

section \<open>Writing into a buffer\<close>

text \<open>What an operation may change that only writes into the buffer \<open>b\<close> it holds.\<close>

definition writes_only :: "nat \<Rightarrow> VideoDecHelper \<Rightarrow> VideoDecHelper \<Rightarrow> bool" where
  "writes_only b v v' \<longleftrightarrow> next_buffer v' = next_buffer v \<and>
     m_free_buffer_sort_queue v' = m_free_buffer_sort_queue v \<and> m_encode_pkt_queue v' = m_encode_pkt_queue v \<and>
     (\<forall>x. x \<noteq> b \<longrightarrow> buffers v' x = buffers v x) \<and>
     size_of v' b = size_of v b \<and> (buffer_ok v b \<longrightarrow> buffer_ok v' b)"

lemma writes_only_refl [simp]: "writes_only b v v"
  by (simp add: writes_only_def)

lemma writes_only_update:
  assumes "writes_only b v v'"
    and "\<And>r. buffers v' b = Some r \<Longrightarrow> buffer_size (f r) = buffer_size r \<and> length (raw_data (f r)) = length (raw_data r)"
  shows "writes_only b v (update_buffer b f v')"
  using assms by (auto simp: writes_only_def size_of_def buffer_ok_def split: option.splits)

lemma writes_only_owned:
  assumes "writes_only b v v'" and "owned held v"
  shows "owned held v'"
proof -
  have "size_of v' = size_of v"
  proof
    fix x show "size_of v' x = size_of v x"
      using assms(1) by (cases "x = b") (simp_all add: writes_only_def size_of_def)
  qed
  moreover have "buffer_ok v x \<Longrightarrow> buffer_ok v' x" for x
    using assms(1) by (cases "x = b") (simp_all add: writes_only_def buffer_ok_def)
  ultimately show ?thesis
    using assms unfolding owned_def by (simp add: writes_only_def)
qed

lemma writes_only_carried: "writes_only b v v' \<Longrightarrow> x \<noteq> b \<Longrightarrow> carried v' x = carried v x"
  by (simp add: writes_only_def carried_def)

end
