(* ===== verification/CameraClient.thy ===== *)
theory CameraClient
  imports VideoDecHelper ZmqIpc
begin

text \<open>
  The camera clients of the data recorder: \<open>sensor_clients/SensorClient\<close>, \<open>SensorManager\<close> and
  \<open>camera/CameraClient\<close>. A client has three threads: \<open>runLoop\<close> receives RTP packets and queues them
  for the decoder, \<open>decoderLoop\<close> of its helper decodes them, \<open>consumerLoop\<close> publishes decoded frames
  through shared memory. The first two are interleaved step by step (\<open>cam_step\<close>); each step is a
  stretch of code that touches the shared queues only under their mutexes. The values of the JSON
  configuration, the packing of messages, the decoder and the 2D engine are parameters.
\<close>

section \<open>State\<close>

record CameraSensorMsg =
  publisher_id :: string
  pixel_format :: string
  msg_width :: int
  msg_height :: int
  data_size :: nat
  slot_index :: nat

definition newCameraSensorMsg :: CameraSensorMsg where
  "newCameraSensorMsg = \<lparr>publisher_id = [], pixel_format = [], msg_width = 0, msg_height = 0,
     data_size = 0, slot_index = 0\<rparr>"

text \<open>What the constructors read from the configuration.\<close>

record SensorConfig =
  sensor_type :: string
  sensor_name :: string
  image_size_x :: int
  image_size_y :: int
  raw_pixel_format :: string
  zmq_transport :: string

record NodeConfig =
  node_name :: string
  output_pixel_format :: string
  publisher_topic :: string
  publisher_shmem :: string
  shmem_slots :: nat
  shmem_single_buffer_size :: nat

text \<open>Where the two threads are: the packet buffer each of them holds.\<close>

datatype main_at = Fetching | Receiving nat | Sending nat

record CameraClient =
  m_type :: string
  m_name :: string
  m_xres :: int
  m_yres :: int
  m_raw_pixel_format :: string
  m_target_platform :: string
  m_video_dec_helper :: VideoDecHelper
  m_input_port :: ZmqSubscriber
  m_output_shmem_port :: SharedMemPublisher
  m_rtp_info :: RtpHeader
  header :: RtpHeader
  min_buffer_size :: nat
  main_at :: main_at
  decoding :: "nat option"
  decoded :: "DecodePacket list"
  accepted_payloads :: "bytes list"

text \<open>
  The constructor, for the configuration and the publisher the shared memory yields; the last two
  fields record what the threads have done.
\<close>

definition newCameraClient ::
  "SensorConfig \<Rightarrow> string \<Rightarrow> NodeConfig \<Rightarrow> int \<Rightarrow> SharedMemPublisher \<Rightarrow> CameraClient result" where
  "newCameraClient sensor platform node setup_result port =
     (if platform \<noteq> ''rk3588'' \<and> platform \<noteq> ''jetson'' then Inl (Throw (''Unsupported platform: '' @ platform))
      else Inr \<lparr>m_type = sensor_type sensor, m_name = sensor_name sensor, m_xres = image_size_x sensor,
        m_yres = image_size_y sensor, m_raw_pixel_format = raw_pixel_format sensor,
        m_target_platform = platform,
        m_video_dec_helper = snd (setupAndStartDecoder setup_result (newVideoDecHelper (output_pixel_format node))),
        m_input_port = newZmqSubscriber (zmq_transport sensor), m_output_shmem_port = port,
        m_rtp_info = newRtpHeader, header = newRtpHeader, min_buffer_size = 1024 * 1024,
        main_at = Fetching, decoding = None, decoded = [], accepted_payloads = []\<rparr>)"

text \<open>The names of the decoder and of the 2D engine for a platform.\<close>

definition platform_devices :: "string \<Rightarrow> (string \<times> string) option" where
  "platform_devices platform =
     (if platform = ''rk3588'' then Some (''rkmpp'', ''rkrga'')
      else if platform = ''jetson'' then Some (''nvdec'', ''nvvic'') else None)"

text \<open>
  \<open>SensorManager\<close>: for every camera the first node of the same name; the list pairs the two
  configurations a client is made of.
\<close>

definition node_of :: "NodeConfig list \<Rightarrow> string \<Rightarrow> NodeConfig option" where
  "node_of nodes name = find (\<lambda>n. node_name n = name) nodes"

fun sensor_clients :: "NodeConfig list \<Rightarrow> SensorConfig list \<Rightarrow> (SensorConfig \<times> NodeConfig) list" where
  "sensor_clients nodes [] = []"
| "sensor_clients nodes (s # ss) =
     (if sensor_type s = ''camera'' then
        (case node_of nodes (sensor_name s) of
           None \<Rightarrow> sensor_clients nodes ss | Some n \<Rightarrow> (s, n) # sensor_clients nodes ss)
      else sensor_clients nodes ss)"

section \<open>Receiving packets\<close>

text \<open>
  The body of \<open>runLoop\<close> from \<open>receiveDataMore\<close> on, with the buffer \<open>b\<close>: \<open>True\<close> when the packet goes to
  the decoder, \<open>False\<close> at the three \<open>continue\<close> statements.
\<close>

definition set_helper :: "VideoDecHelper \<Rightarrow> CameraClient \<Rightarrow> CameraClient" where
  "set_helper v c = c\<lparr>m_video_dec_helper := v\<rparr>"

definition receive_packet :: "nat \<Rightarrow> CameraClient \<Rightarrow> (CameraClient, bool) outcome" where
  "receive_packet b c =
     (case buffers (m_video_dec_helper c) b of
        None \<Rightarrow> (Inl (Undefined ''dangling buffer''), c)
      | Some r \<Rightarrow>
        (case receiveDataMore (raw_data r) (buffer_size r) (m_input_port c) of
           (Inl e, s) \<Rightarrow> (Inl e, c\<lparr>m_input_port := s\<rparr>)
         | (Inr (valid_bytes, raw), s) \<Rightarrow>
           (let v = update_buffer b (\<lambda>r. r\<lparr>raw_data := raw\<rparr>) (m_video_dec_helper c);
                c' = c\<lparr>m_input_port := s, m_video_dec_helper := v\<rparr>
            in if valid_bytes = 0
               then (Inr False, c'\<lparr>min_buffer_size := min_buffer_size c * 2 mod 2 ^ 64\<rparr>)
               else
                 (let v' = update_buffer b (\<lambda>r. r\<lparr>valid_data_bytes := valid_bytes\<rparr>) v
                  in case parseHeader raw valid_bytes (header c) of
                    Inl e \<Rightarrow> (Inl e, set_helper v' c')
                  | Inr (ret, h) \<Rightarrow>
                      if ret < 0 then (Inr False, set_helper v' c')
                      else
                        (let pl = extractPayload valid_bytes;
                             v'' = update_buffer b (\<lambda>r. r\<lparr>payload := pl\<rparr>) v';
                             c'' = set_helper v'' (c'\<lparr>header := h, m_rtp_info := h\<rparr>)
                         in if payload_size pl = 0 then (Inr False, c'')
                            else (Inr True, set_helper (update_buffer b (\<lambda>r. r\<lparr>payload_valid := True\<rparr>) v'') c''))))))"

section \<open>The threads\<close>

text \<open>
  One step of one of the two threads, or of the sender. \<open>mem\<close> is the contents of new memory.
\<close>

inductive cam_step ::
  "((nat \<Rightarrow> nat) \<Rightarrow> nat list \<Rightarrow> nat list) \<Rightarrow> CameraClient \<Rightarrow> CameraClient \<Rightarrow> bool"
  for srt :: "(nat \<Rightarrow> nat) \<Rightarrow> nat list \<Rightarrow> nat list" where
  fetch: "main_at c = Fetching \<Longrightarrow>
    getRtpVideoBuffer mem (min_buffer_size c) (m_video_dec_helper c) = (b, v) \<Longrightarrow>
    cam_step srt c (c\<lparr>m_video_dec_helper := v, main_at := Receiving b\<rparr>)"
| reject: "main_at c = Receiving b \<Longrightarrow> receive_packet b c = (Inr False, c') \<Longrightarrow>
    cam_step srt c (c'\<lparr>main_at := Fetching\<rparr>)"
| accept: "main_at c = Receiving b \<Longrightarrow> receive_packet b c = (Inr True, c') \<Longrightarrow>
    cam_step srt c (c'\<lparr>main_at := Sending b,
      accepted_payloads := accepted_payloads c' @ [carried (m_video_dec_helper c') b]\<rparr>)"
| send: "main_at c = Sending b \<Longrightarrow>
    cam_step srt c (c\<lparr>m_video_dec_helper := snd (sendToDecoder srt b (m_video_dec_helper c)), main_at := Fetching\<rparr>)"
| take: "decoding c = None \<Longrightarrow> take_packet (m_video_dec_helper c) = Some (b, v) \<Longrightarrow>
    cam_step srt c (c\<lparr>m_video_dec_helper := v, decoding := Some b\<rparr>)"
| decode: "decoding c = Some b \<Longrightarrow> decode_packet (m_video_dec_helper c) b = Inr pkt \<Longrightarrow>
    cam_step srt c (c\<lparr>m_video_dec_helper := snd (releaseRtpVideoBuffer srt b (m_video_dec_helper c)),
      decoding := None, decoded := decoded c @ [pkt]\<rparr>)"
| arrive: "cam_step srt c (c\<lparr>m_input_port := (m_input_port c)\<lparr>sub_incoming := sub_incoming (m_input_port c) @ fs\<rparr>\<rparr>)"

abbreviation cam_steps ::
  "((nat \<Rightarrow> nat) \<Rightarrow> nat list \<Rightarrow> nat list) \<Rightarrow> CameraClient \<Rightarrow> CameraClient \<Rightarrow> bool" where
  "cam_steps srt \<equiv> (cam_step srt)\<^sup>*\<^sup>*"

section \<open>Publishing frames\<close>

definition fillCameraSensorMsg :: "CameraClient \<Rightarrow> CameraSensorMsg \<Rightarrow> nat \<Rightarrow> nat \<Rightarrow> CameraSensorMsg" where
  "fillCameraSensorMsg c msg n slot =
     msg\<lparr>publisher_id := m_name c, pixel_format := m_out_pixel_format (m_video_dec_helper c),
       msg_width := m_xres c, msg_height := m_yres c, data_size := n, slot_index := slot\<rparr>"

text \<open>
  \<open>publishData\<close> of the frame in block \<open>q\<close>: the data is only read when its checks have passed.
\<close>

definition publish_frame ::
  "bool \<Rightarrow> bytes \<Rightarrow> ptr \<Rightarrow> nat \<Rightarrow> nat \<Rightarrow> heap \<Rightarrow> SharedMemPublisher \<times> bytes \<Rightarrow>
    (SharedMemPublisher \<times> bytes, int) outcome" where
  "publish_frame sent msg q slot n h ps =
     (let blk = (case q of None \<Rightarrow> [] | Some b \<Rightarrow> (case h b of None \<Rightarrow> [] | Some blk \<Rightarrow> blk))
      in if slot < m_slots (fst ps) \<and> n \<le> m_single_buffer_size (fst ps) \<and> length blk < n
         then (Inl (Undefined ''read out of range''), ps)
         else publishData sent msg (take n (blk @ replicate n 0)) slot ps)"

text \<open>
  One round of \<open>consumerLoop\<close>: whether a frame was there. The result of \<open>publishData\<close> is not looked
  at. \<open>pack\<close> is \<open>msgpack::pack\<close>, \<open>sent\<close> what \<open>send\<close> answers.
\<close>

definition consumer_round ::
  "(ImageView \<Rightarrow> ImageView \<Rightarrow> heap \<Rightarrow> int \<times> heap) \<Rightarrow> (CameraSensorMsg \<Rightarrow> bytes) \<Rightarrow> bool \<Rightarrow> nat \<Rightarrow>
    CameraClient \<times> heap \<times> bytes \<Rightarrow> (CameraClient \<times> heap \<times> bytes, bool) outcome" where
  "consumer_round g2d pack sent p st =
     (case st of (c, h, shm) \<Rightarrow>
      (case getDecodedFrame g2d p (m_video_dec_helper c, h) of
         (Inl e, (v, h')) \<Rightarrow> (Inl e, (set_helper v c, h', shm))
       | (Inr None, (v, h')) \<Rightarrow> (Inr False, (set_helper v c, h', shm))
       | (Inr (Some frame), (v, h')) \<Rightarrow>
           (let c' = set_helper v c
            in case getFreeSlotIndex (m_output_shmem_port c') of
                 (Inl e, port) \<Rightarrow> (Inl e, (c'\<lparr>m_output_shmem_port := port\<rparr>, h', shm))
               | (Inr slot, port) \<Rightarrow>
                   (let n = dataSize (desc (view frame));
                        msg = fillCameraSensorMsg c' newCameraSensorMsg n slot
                    in case publish_frame sent (pack msg) (view_data (view frame) 0) slot n h' (port, shm) of
                         (Inl e, (port', shm')) \<Rightarrow> (Inl e, (c'\<lparr>m_output_shmem_port := port'\<rparr>, h', shm'))
                       | (Inr _, (port', shm')) \<Rightarrow>
                           (Inr True, (c'\<lparr>m_output_shmem_port := port'\<rparr>, h', shm'))))))"

section \<open>The invariant of the threads\<close>

text \<open>The buffers the two threads hold.\<close>

definition main_holds :: "CameraClient \<Rightarrow> nat list" where
  "main_holds c = (case main_at c of Fetching \<Rightarrow> [] | Receiving b \<Rightarrow> [b] | Sending b \<Rightarrow> [b])"

definition decoder_holds :: "CameraClient \<Rightarrow> nat list" where
  "decoder_holds c = (case decoding c of None \<Rightarrow> [] | Some b \<Rightarrow> [b])"

text \<open>What is still on the way to the decoder, in the order it will get it.\<close>

definition on_the_way :: "CameraClient \<Rightarrow> bytes list" where
  "on_the_way c = map (carried (m_video_dec_helper c)) (decoder_holds c @ m_encode_pkt_queue (m_video_dec_helper c) @
     (case main_at c of Sending b \<Rightarrow> [b] | _ \<Rightarrow> []))"

definition cam_inv :: "CameraClient \<Rightarrow> bool" where
  "cam_inv c \<longleftrightarrow> owned (main_holds c @ decoder_holds c) (m_video_dec_helper c) \<and>
     length (m_encode_pkt_queue (m_video_dec_helper c)) \<le> m_reserved_encode_pkt_num \<and>
     subseq (map pkt_data (decoded c) @ on_the_way c) (accepted_payloads c)"

lemma holds_fields [simp]:
  "decoder_holds (c\<lparr>m_video_dec_helper := v\<rparr>) = decoder_holds c"
  "decoder_holds (c\<lparr>main_at := a\<rparr>) = decoder_holds c"
  "decoder_holds (c\<lparr>accepted_payloads := ps\<rparr>) = decoder_holds c"
  "decoder_holds (c\<lparr>decoded := ds\<rparr>) = decoder_holds c"
  "decoder_holds (c\<lparr>m_input_port := s\<rparr>) = decoder_holds c"
  "decoder_holds (c\<lparr>decoding := d\<rparr>) = (case d of None \<Rightarrow> [] | Some b \<Rightarrow> [b])"
  by (simp_all add: decoder_holds_def)

lemma receive_packet_writes:
  assumes "receive_packet b c = (Inr r, c')"
  shows "writes_only b (m_video_dec_helper c) (m_video_dec_helper c') \<and> main_at c' = main_at c \<and>
    decoding c' = decoding c \<and> decoded c' = decoded c \<and> accepted_payloads c' = accepted_payloads c"
  using assms unfolding receive_packet_def set_helper_def
  by (auto simp: Let_def intro!: writes_only_update
      split: option.splits prod.splits sum.splits if_splits) (erule length_receiveDataMore)+

lemma carried_others:
  assumes "writes_only b v v'" and "b \<notin> set xs"
  shows "map (carried v') xs = map (carried v) xs"
  using assms writes_only_carried by fastforce

lemma subseq_keep_end: "subseq (xs @ drop k ys) (xs @ ys)"
  by (intro list_emb_append_mono suffix_imp_subseq suffix_drop) simp_all

lemma cam_inv_fetch:
  assumes "cam_inv c" and "main_at c = Fetching"
    and "getRtpVideoBuffer mem m (m_video_dec_helper c) = (b, v)"
  shows "cam_inv (c\<lparr>m_video_dec_helper := v, main_at := Receiving b\<rparr>)"
proof -
  let ?w = "m_video_dec_helper c"
  have o: "owned (decoder_holds c) ?w"
    using assms(1,2) by (simp add: cam_inv_def main_holds_def)
  from getRtpVideoBuffer_owned [OF o assms(3)]
  have g: "owned (b # decoder_holds c) v" "m_encode_pkt_queue v = m_encode_pkt_queue ?w"
    "\<forall>x < next_buffer ?w. carried v x = carried ?w x" by blast+
  have "map (carried v) xs = map (carried ?w) xs" if "set xs \<subseteq> set (decoder_holds c @ m_encode_pkt_queue ?w)" for xs
    using o g(3) that by (auto simp: owned_def subset_iff)
  from this [of "decoder_holds c"] this [of "m_encode_pkt_queue ?w"] show ?thesis
    using assms(1,2) g by (simp add: cam_inv_def on_the_way_def main_holds_def del: map_eq_conv)
qed

lemma cam_inv_receive:
  assumes "cam_inv c" and "main_at c = Receiving b" and "receive_packet b c = (Inr r, c')"
  shows "cam_inv (c'\<lparr>main_at := Fetching\<rparr>)"
    and "cam_inv (c'\<lparr>main_at := Sending b, accepted_payloads := accepted_payloads c' @ [carried (m_video_dec_helper c') b]\<rparr>)"
proof -
  let ?w = "m_video_dec_helper c" and ?v = "m_video_dec_helper c'"
  note w = receive_packet_writes [OF assms(3)]
  have o: "owned (b # decoder_holds c) ?w"
    using assms(1,2) by (simp add: cam_inv_def main_holds_def)
  then have "owned (b # decoder_holds c) ?v" using w writes_only_owned by blast
  moreover have "b \<notin> set (decoder_holds c @ m_encode_pkt_queue ?w)" using o by (auto simp: owned_def)
  then have "map (carried ?v) (decoder_holds c @ m_encode_pkt_queue ?w) =
      map (carried ?w) (decoder_holds c @ m_encode_pkt_queue ?w)"
    using w carried_others by blast
  moreover have "decoder_holds c' = decoder_holds c" "m_encode_pkt_queue ?v = m_encode_pkt_queue ?w"
    using w by (simp_all add: decoder_holds_def writes_only_def)
  ultimately have k: "owned (b # decoder_holds c) ?v"
    "map pkt_data (decoded c') @ map (carried ?v) (decoder_holds c @ m_encode_pkt_queue ?v) =
     map pkt_data (decoded c) @ on_the_way c"
    "accepted_payloads c' = accepted_payloads c" "decoder_holds c' = decoder_holds c"
    "m_encode_pkt_queue ?v = m_encode_pkt_queue ?w"
    using w assms(2) by (simp_all add: on_the_way_def)
  show "cam_inv (c'\<lparr>main_at := Fetching\<rparr>)"
    using k assms(1) owned_drop
    by (simp add: cam_inv_def main_holds_def on_the_way_def)
  show "cam_inv (c'\<lparr>main_at := Sending b, accepted_payloads := accepted_payloads c' @ [carried ?v b]\<rparr>)"
    using k assms(1)
    by (simp add: cam_inv_def main_holds_def on_the_way_def list_emb_append_mono flip: append_assoc)
qed

context sorting
begin

lemma cam_inv_send:
  assumes "cam_inv c" and "main_at c = Sending b"
  shows "cam_inv (c\<lparr>m_video_dec_helper := snd (sendToDecoder srt b (m_video_dec_helper c)), main_at := Fetching\<rparr>)"
proof -
  let ?w = "m_video_dec_helper c"
  let ?v = "snd (sendToDecoder srt b ?w)"
  have o: "owned (b # decoder_holds c) ?w"
    using assms by (simp add: cam_inv_def main_holds_def)
  define q where "q = m_encode_pkt_queue ?w @ [b]"
  define k where "k = length q - m_reserved_encode_pkt_num"
  from sendToDecoder_owned [OF o] have v: "owned (decoder_holds c) ?v" "carried ?v = carried ?w"
    "m_encode_pkt_queue ?v = drop k q" by (simp_all add: q_def k_def)
  have "subseq ((map pkt_data (decoded c) @ map (carried ?w) (decoder_holds c)) @ map (carried ?w) q)
      (accepted_payloads c)"
    using assms by (simp add: cam_inv_def on_the_way_def q_def)
  then have "subseq ((map pkt_data (decoded c) @ map (carried ?w) (decoder_holds c)) @ drop k (map (carried ?w) q))
      (accepted_payloads c)"
    by (rule subseq_order.trans [OF subseq_keep_end])
  moreover have "length (drop k q) \<le> m_reserved_encode_pkt_num" by (simp add: k_def)
  ultimately show ?thesis
    using v by (simp add: cam_inv_def main_holds_def on_the_way_def drop_map)
qed

end

lemma cam_inv_take:
  assumes "cam_inv c" and "decoding c = None" and "take_packet (m_video_dec_helper c) = Some (b, v)"
  shows "cam_inv (c\<lparr>m_video_dec_helper := v, decoding := Some b\<rparr>)"
proof -
  let ?w = "m_video_dec_helper c"
  obtain q where q: "m_encode_pkt_queue ?w = b # q" and v: "v = ?w\<lparr>m_encode_pkt_queue := q\<rparr>"
    using assms(3) by (auto simp: take_packet_def split: list.splits)
  have "owned (main_holds c) ?w" using assms(1,2) by (simp add: cam_inv_def decoder_holds_def)
  from owned_unqueue [OF this q] have "owned (main_holds c @ [b]) v"
    unfolding v by (rule owned_perm) simp
  then show ?thesis
    using assms(1,2) q v
    by (simp add: cam_inv_def main_holds_def on_the_way_def decoder_holds_def [of c])
qed

context sorting
begin

lemma cam_inv_decode:
  assumes "cam_inv c" and "decoding c = Some b" and "decode_packet (m_video_dec_helper c) b = Inr pkt"
  shows "cam_inv (c\<lparr>m_video_dec_helper := snd (releaseRtpVideoBuffer srt b (m_video_dec_helper c)),
      decoding := None, decoded := decoded c @ [pkt]\<rparr>)"
proof -
  let ?w = "m_video_dec_helper c"
  have "pkt_data pkt = carried ?w b"
    using assms(3) by (auto simp: decode_packet_def carried_def split: option.splits)
  moreover have "owned (main_holds c @ [b]) ?w" using assms(1,2) by (simp add: cam_inv_def decoder_holds_def)
  then have "owned (b # main_holds c) ?w" by (rule owned_perm) simp
  note releaseRtpVideoBuffer_owned [OF this]
  ultimately show ?thesis
    using assms(1,2) by (simp add: cam_inv_def main_holds_def on_the_way_def decoder_holds_def [of c])
qed

lemma cam_inv_step:
  assumes "cam_step srt c c'" and "cam_inv c"
  shows "cam_inv c'"
  using assms
proof cases
  case arrive
  then show ?thesis using assms(2) by (simp add: cam_inv_def main_holds_def on_the_way_def)
qed (use assms(2) cam_inv_fetch cam_inv_receive cam_inv_send cam_inv_take cam_inv_decode in simp_all)

lemma cam_inv_steps: "cam_steps srt c c' \<Longrightarrow> cam_inv c \<Longrightarrow> cam_inv c'"
  by (induction rule: rtranclp_induct) (simp_all add: cam_inv_step)

end

section \<open>Rounds of the receiving thread\<close>

text \<open>One round of \<open>runLoop\<close> without the other threads in between.\<close>

definition run_round ::
  "((nat \<Rightarrow> nat) \<Rightarrow> nat list \<Rightarrow> nat list) \<Rightarrow> bytes \<Rightarrow> CameraClient \<Rightarrow> (CameraClient, bool) outcome" where
  "run_round srt mem c =
     (case getRtpVideoBuffer mem (min_buffer_size c) (m_video_dec_helper c) of (b, v) \<Rightarrow>
      (case receive_packet b (set_helper v c) of
         (Inl e, c') \<Rightarrow> (Inl e, c')
       | (Inr False, c') \<Rightarrow> (Inr False, c')
       | (Inr True, c') \<Rightarrow> (Inr True, set_helper (snd (sendToDecoder srt b (m_video_dec_helper c'))) c')))"

text \<open>The round in which a packet is accepted for the first time, among the next \<open>k\<close>.\<close>

fun first_accepted ::
  "((nat \<Rightarrow> nat) \<Rightarrow> nat list \<Rightarrow> nat list) \<Rightarrow> bytes \<Rightarrow> nat \<Rightarrow> CameraClient \<Rightarrow> CameraClient option" where
  "first_accepted srt mem 0 c = None"
| "first_accepted srt mem (Suc k) c =
     (case run_round srt mem c of
        (Inl e, c') \<Rightarrow> None
      | (Inr acc, c') \<Rightarrow> if acc then Some c' else first_accepted srt mem k c')"

text \<open>A packet that fits is accepted with its payload; one in a single frame that does not is dropped.\<close>

lemma receive_packet_accepts:
  assumes "buffer_ok (m_video_dec_helper c) b" and "pkt = rtp_packet h d" and "d \<noteq> []"
    and "length pkt \<le> size_of (m_video_dec_helper c) b" and "ds \<noteq> []" and "concat ds = pkt"
    and "sub_incoming (m_input_port c) = frames_of ds @ rest"
  shows "\<exists>c'. receive_packet b c = (Inr True, c') \<and> carried (m_video_dec_helper c') b = d \<and>
    payload_size (payload (the (buffers (m_video_dec_helper c') b))) = length d \<and>
    m_rtp_info c' = h \<and> min_buffer_size c' = min_buffer_size c \<and>
    m_input_port c' = (m_input_port c)\<lparr>sub_incoming := rest\<rparr>"
proof -
  obtain r where r: "buffers (m_video_dec_helper c) b = Some r" "length (raw_data r) = buffer_size r"
    using assms(1) by (auto simp: buffer_ok_def split: option.splits)
  have fits: "length pkt \<le> buffer_size r" using assms(4) r by (simp add: size_of_def)
  let ?raw = "pkt @ drop (length pkt) (raw_data r)"
  have recv: "receiveDataMore (raw_data r) (buffer_size r) (m_input_port c) =
      (Inr (length pkt, ?raw), (m_input_port c)\<lparr>sub_incoming := rest\<rparr>)"
    using receiveDataMore_parts [OF assms(5), of "buffer_size r" "raw_data r" "m_input_port c" rest]
      fits r assms(6,7) by simp
  have parse: "parseHeader ?raw (length pkt) (header c) = Inr (0, h)"
    and pl: "extractPayload (length pkt) = \<lparr>payload_data = Some 12, payload_size = length d\<rparr>"
    using rtp_roundtrip unfolding assms(2) by blast+
  have "take (length d) (drop 12 ?raw) = d" by (simp add: assms(2))
  then show ?thesis
    using r recv parse pl assms(2,3)
    by (simp add: receive_packet_def Let_def set_helper_def carried_def payload_bytes_def)
qed

lemma receive_packet_rejects:
  assumes "buffer_ok (m_video_dec_helper c) b" and "size_of (m_video_dec_helper c) b < length pkt"
    and "sub_incoming (m_input_port c) = (pkt, False) # fs"
  shows "\<exists>c'. receive_packet b c = (Inr False, c') \<and>
    min_buffer_size c' = min_buffer_size c * 2 mod 2 ^ 64 \<and>
    m_input_port c' = (m_input_port c)\<lparr>sub_incoming := fs\<rparr>"
proof -
  obtain r where r: "buffers (m_video_dec_helper c) b = Some r"
    using assms(1) by (auto simp: buffer_ok_def split: option.splits)
  then show ?thesis
    using assms(2,3) by (simp add: receive_packet_def receiveDataMore_def zmq_recv_def size_of_def Let_def)
qed

lemma set_helper_simps [simp]:
  "m_video_dec_helper (set_helper v c) = v" "min_buffer_size (set_helper v c) = min_buffer_size c"
  "m_input_port (set_helper v c) = m_input_port c"
  by (simp_all add: set_helper_def)

text \<open>A round that starts with enough memory accepts; one that does not doubles the size it asks for.\<close>

lemma run_round_fetch:
  assumes "owned [] (m_video_dec_helper c)"
    and "getRtpVideoBuffer mem (min_buffer_size c) (m_video_dec_helper c) = (b, v)"
  shows "owned [b] v" and "buffer_ok v b"
    and "2 * min_buffer_size c < 2 ^ 64 \<Longrightarrow> min_buffer_size c \<le> size_of v b"
proof -
  from getRtpVideoBuffer_owned [OF assms] show "owned [b] v"
    and "2 * min_buffer_size c < 2 ^ 64 \<Longrightarrow> min_buffer_size c \<le> size_of v b" by blast+
  then show "buffer_ok v b" by (simp add: owned_def)
qed

context sorting
begin

lemma run_round_accepts:
  assumes "owned [] (m_video_dec_helper c)" and "d \<noteq> []"
    and "getRtpVideoBuffer mem (min_buffer_size c) (m_video_dec_helper c) = (b, v)"
    and "length (rtp_packet h d) \<le> size_of v b" and "ds \<noteq> []" and "concat ds = rtp_packet h d"
    and "sub_incoming (m_input_port c) = frames_of ds @ rest"
  shows "\<exists>c'. run_round srt mem c = (Inr True, c') \<and> owned [] (m_video_dec_helper c') \<and>
    carried (m_video_dec_helper c') (last (m_encode_pkt_queue (m_video_dec_helper c'))) = d \<and>
    m_rtp_info c' = h \<and> m_input_port c' = (m_input_port c)\<lparr>sub_incoming := rest\<rparr>"
proof -
  have o: "owned [b] v" "buffer_ok v b" using run_round_fetch [OF assms(1,3)] by blast+
  obtain c1 where c1: "receive_packet b (set_helper v c) = (Inr True, c1)"
    "carried (m_video_dec_helper c1) b = d" "m_rtp_info c1 = h"
    "m_input_port c1 = (m_input_port c)\<lparr>sub_incoming := rest\<rparr>"
    using receive_packet_accepts [of "set_helper v c" b "rtp_packet h d" h d ds rest] o assms by auto
  have "writes_only b v (m_video_dec_helper c1)" using receive_packet_writes [OF c1(1)] by simp
  then have "owned [b] (m_video_dec_helper c1)" using o(1) by (rule writes_only_owned)
  note sent = sendToDecoder_owned [OF this]
  then have "last (m_encode_pkt_queue (snd (sendToDecoder srt b (m_video_dec_helper c1)))) = b"
    by (simp add: m_reserved_encode_pkt_num_def)
  then show ?thesis using sent c1 assms(3) by (simp add: run_round_def set_helper_def)
qed

lemma run_round_rejects:
  assumes "owned [] (m_video_dec_helper c)"
    and "getRtpVideoBuffer mem (min_buffer_size c) (m_video_dec_helper c) = (b, v)"
    and "size_of v b < length pkt" and "sub_incoming (m_input_port c) = (pkt, False) # fs"
  shows "\<exists>c'. run_round srt mem c = (Inr False, c') \<and> owned [] (m_video_dec_helper c') \<and>
    min_buffer_size c' = min_buffer_size c * 2 mod 2 ^ 64 \<and>
    m_input_port c' = (m_input_port c)\<lparr>sub_incoming := fs\<rparr>"
proof -
  have o: "owned [b] v" "buffer_ok v b" using run_round_fetch [OF assms(1,2)] by blast+
  obtain c1 where c1: "receive_packet b (set_helper v c) = (Inr False, c1)"
    "min_buffer_size c1 = min_buffer_size c * 2 mod 2 ^ 64"
    "m_input_port c1 = (m_input_port c)\<lparr>sub_incoming := fs\<rparr>"
    using receive_packet_rejects [of "set_helper v c" b pkt fs] o assms(3,4) by auto
  have "writes_only b v (m_video_dec_helper c1)" using receive_packet_writes [OF c1(1)] by simp
  then have "owned [] (m_video_dec_helper c1)" using owned_drop [OF o(1)] by (rule writes_only_owned)
  then show ?thesis using c1 assms(2) by (simp add: run_round_def)
qed

text \<open>As long as the packets do not fit, the size doubles.\<close>

lemma first_accepted_bound:
  assumes "owned [] (m_video_dec_helper c)" and "n \<le> min_buffer_size c * 2 ^ k" and "n < 2 ^ 62"
    and "min_buffer_size c < 2 ^ 63"
    and "sub_incoming (m_input_port c) = map (\<lambda>d. (rtp_packet h d, False)) ds @ rest"
    and "\<forall>d \<in> set ds. d \<noteq> [] \<and> length (rtp_packet h d) = n" and "k < length ds"
  shows "\<exists>c' j. first_accepted srt mem (Suc k) c = Some c' \<and> j \<le> k \<and> owned [] (m_video_dec_helper c') \<and>
    carried (m_video_dec_helper c') (last (m_encode_pkt_queue (m_video_dec_helper c'))) = ds ! j"
  using assms
proof (induction k arbitrary: c ds)
  case (0 c ds)
  then obtain d es where ds: "ds = d # es" by (cases ds) auto
  obtain b v where g: "getRtpVideoBuffer mem (min_buffer_size c) (m_video_dec_helper c) = (b, v)" by force
  have "n \<le> size_of v b" using run_round_fetch(3) [OF 0(1) g] 0(2,4) by simp
  then obtain c' where "run_round srt mem c = (Inr True, c')" "owned [] (m_video_dec_helper c')"
    "carried (m_video_dec_helper c') (last (m_encode_pkt_queue (m_video_dec_helper c'))) = d"
    using run_round_accepts [OF 0(1) _ g, of d h "[rtp_packet h d]"] 0(5,6) ds by force
  then show ?case by (simp add: ds)
next
  case (Suc k c ds)
  then obtain d es where ds: "ds = d # es" by (cases ds) auto
  obtain b v where g: "getRtpVideoBuffer mem (min_buffer_size c) (m_video_dec_helper c) = (b, v)" by force
  show ?case
  proof (cases "n \<le> size_of v b")
    case True
    then obtain c' where "run_round srt mem c = (Inr True, c')" "owned [] (m_video_dec_helper c')"
      "carried (m_video_dec_helper c') (last (m_encode_pkt_queue (m_video_dec_helper c'))) = d"
      using run_round_accepts [OF Suc.prems(1) _ g, of d h "[rtp_packet h d]"] Suc.prems(5,6) ds by force
    then show ?thesis by (intro exI [of _ c'] exI [of _ 0]) (simp add: ds)
  next
    case False
    then obtain c1 where c1: "run_round srt mem c = (Inr False, c1)" "owned [] (m_video_dec_helper c1)"
      "min_buffer_size c1 = min_buffer_size c * 2 mod 2 ^ 64"
      "m_input_port c1 = (m_input_port c)\<lparr>sub_incoming := map (\<lambda>d. (rtp_packet h d, False)) es @ rest\<rparr>"
      using run_round_rejects [OF Suc.prems(1) g, of "rtp_packet h d"] Suc.prems(5,6) ds by force
    have "min_buffer_size c < n"
      using run_round_fetch(3) [OF Suc.prems(1) g] Suc.prems(4) False by simp
    then have m: "min_buffer_size c1 = min_buffer_size c * 2" "min_buffer_size c1 < 2 ^ 63"
      using c1(3) Suc.prems(3) by simp_all
    have "n \<le> min_buffer_size c1 * 2 ^ k" using Suc.prems(2) m by (simp add: mult.assoc)
    then obtain c' j where "first_accepted srt mem (Suc k) c1 = Some c'" "j \<le> k" "owned [] (m_video_dec_helper c')"
      "carried (m_video_dec_helper c') (last (m_encode_pkt_queue (m_video_dec_helper c'))) = es ! j"
      using Suc.IH [OF c1(2) _ Suc.prems(3) m(2), of es] c1(4) Suc.prems(6,7) ds by auto
    then show ?thesis
      using c1(1) by (intro exI [of _ c'] exI [of _ "Suc j"]) (simp add: ds)
  qed
qed

end

section \<open>Properties\<close>

text \<open>A client for trying the threads out; it asks for small buffers.\<close>

definition demo_camera :: CameraClient where
  "demo_camera = \<lparr>m_type = ''camera'', m_name = ''front'', m_xres = 2, m_yres = 1, m_raw_pixel_format = ''YUV420SP'',
     m_target_platform = ''rk3588'', m_video_dec_helper = newVideoDecHelper ''RGB888'',
     m_input_port = newZmqSubscriber ''tcp'', m_output_shmem_port = demo_publisher, m_rtp_info = newRtpHeader,
     header = newRtpHeader, min_buffer_size = 4, main_at = Fetching, decoding = None, decoded = [],
     accepted_payloads = []\<rparr>"

lemma cam_inv_new: "newCameraClient sensor platform node r port = Inr c \<Longrightarrow> cam_inv c"
  by (auto simp: newCameraClient_def setupAndStartDecoder_def newVideoDecHelper_def cam_inv_def owned_def
      main_holds_def decoder_holds_def on_the_way_def split: if_splits)

text \<open>
  C18. No packet buffer is ever in two places: in every state the threads of a client reach, whatever
  they interleave and whatever arrives, the free buffers, the waiting ones and the ones in the hands
  of the two threads are all different, both queues hold at most 30, and what the decoder has been
  given is a subsequence of the accepted payloads: unaltered and in order, with the packets missing
  that were dropped because the queue was full.
\<close>

theorem camera_packets_intact:
  assumes "sorting srt" and "newCameraClient sensor platform node r port = Inr c0" and "cam_steps srt c0 c"
  shows "subseq (map pkt_data (decoded c)) (accepted_payloads c) \<and>
     distinct (m_free_buffer_sort_queue (m_video_dec_helper c) @ m_encode_pkt_queue (m_video_dec_helper c) @
       main_holds c @ decoder_holds c) \<and>
     length (m_free_buffer_sort_queue (m_video_dec_helper c)) \<le> 30 \<and>
     length (m_encode_pkt_queue (m_video_dec_helper c)) \<le> 30"
proof -
  have inv: "cam_inv c" using sorting.cam_inv_steps [OF assms(1,3) cam_inv_new [OF assms(2)]] .
  then have "subseq (map pkt_data (decoded c) @ on_the_way c) (accepted_payloads c)"
    by (simp add: cam_inv_def)
  then have "subseq (map pkt_data (decoded c)) (accepted_payloads c)"
    by (rule subseq_order.trans [OF list_emb_prefix [OF subseq_order.refl]])
  then show ?thesis
    using inv by (simp add: cam_inv_def owned_def m_free_buffer_sort_queue_size_def m_reserved_encode_pkt_num_def)
qed

text \<open>One step from the constructor: the first buffer is with the receiving thread.\<close>

theorem camera_packets_intact_witness:
  "\<exists>c0 c. newCameraClient (SensorConfig.make ''camera'' ''front'' 2 1 ''YUV420SP'' ''tcp'') ''rk3588''
       (NodeConfig.make ''front'' ''RGB888'' ''tcp'' ''/shm'' 2 4) 0 demo_publisher = Inr c0 \<and>
     cam_steps sort_key c0 c \<and> main_holds c = [0] \<and>
     distinct (m_free_buffer_sort_queue (m_video_dec_helper c) @ m_encode_pkt_queue (m_video_dec_helper c) @ [0])"
proof -
  obtain c0 where c0: "newCameraClient (SensorConfig.make ''camera'' ''front'' 2 1 ''YUV420SP'' ''tcp'') ''rk3588''
      (NodeConfig.make ''front'' ''RGB888'' ''tcp'' ''/shm'' 2 4) 0 demo_publisher = Inr c0"
    and fresh: "main_at c0 = Fetching" "m_free_buffer_sort_queue (m_video_dec_helper c0) = []"
      "next_buffer (m_video_dec_helper c0) = 0" "decoding c0 = None"
    by (simp add: newCameraClient_def setupAndStartDecoder_def newVideoDecHelper_def)
  obtain v where g: "getRtpVideoBuffer [] (min_buffer_size c0) (m_video_dec_helper c0) = (0, v)"
    using fresh by (simp add: getRtpVideoBuffer_def createNewRtpBuffer_def Let_def)
  let ?c = "c0\<lparr>m_video_dec_helper := v, main_at := Receiving 0\<rparr>"
  have run: "cam_steps sort_key c0 ?c" using cam_step.fetch [OF fresh(1) g] by (rule r_into_rtranclp)
  have "main_holds ?c = [0]" "decoder_holds ?c = []"
    using fresh(4) by (simp_all add: main_holds_def decoder_holds_def)
  moreover have "distinct (m_free_buffer_sort_queue (m_video_dec_helper ?c) @ m_encode_pkt_queue (m_video_dec_helper ?c) @
      main_holds ?c @ decoder_holds ?c)"
    using camera_packets_intact [OF stable.sorting_axioms c0 run] by blast
  ultimately show ?thesis using c0 run by (metis append_Nil2)
qed



text \<open>
  A packet travels from the sender to the decoder: sent in any number of parts to an idle client
  whose buffers are large enough, it is received, parsed, queued and decoded: the decoder gets
  exactly its payload, the client knows its header, and both threads are idle again.
\<close>

theorem rtp_packet_reaches_decoder:
  assumes "sorting srt" and "cam_inv c" and "main_at c = Fetching" and "decoding c = None"
    and "m_encode_pkt_queue (m_video_dec_helper c) = []" and "2 * min_buffer_size c < 2 ^ 64"
    and "length (rtp_packet h d) \<le> min_buffer_size c" and "d \<noteq> []" and "ds \<noteq> []" and "concat ds = rtp_packet h d"
    and "sub_incoming (m_input_port c) = frames_of ds @ rest"
  shows "\<exists>c'. cam_steps srt c c' \<and> decoded c' = decoded c @ [\<lparr>pkt_data = d, pkt_size = length d, pkt_eos = False\<rparr>] \<and>
     m_rtp_info c' = h \<and> sub_incoming (m_input_port c') = rest \<and> main_at c' = Fetching \<and> decoding c' = None"
proof -
  have o: "owned [] (m_video_dec_helper c)"
    using assms(2-4) by (simp add: cam_inv_def main_holds_def decoder_holds_def)
  obtain b v where g: "getRtpVideoBuffer [] (min_buffer_size c) (m_video_dec_helper c) = (b, v)" by force
  let ?c1 = "c\<lparr>m_video_dec_helper := v, main_at := Receiving b\<rparr>"
  have v: "buffer_ok v b" "length (rtp_packet h d) \<le> size_of v b" "m_encode_pkt_queue v = []"
    using run_round_fetch [OF o g] getRtpVideoBuffer_owned [OF o g] assms(5-7) by auto
  obtain c2 where c2: "receive_packet b ?c1 = (Inr True, c2)" "carried (m_video_dec_helper c2) b = d"
    "payload_size (payload (the (buffers (m_video_dec_helper c2) b))) = length d" "m_rtp_info c2 = h"
    "m_input_port c2 = (m_input_port c)\<lparr>sub_incoming := rest\<rparr>"
    using receive_packet_accepts [of ?c1 b "rtp_packet h d" h d ds rest] v assms(8-11) by auto
  let ?c3 = "c2\<lparr>main_at := Sending b, accepted_payloads := accepted_payloads c2 @ [carried (m_video_dec_helper c2) b]\<rparr>"
  let ?w = "snd (sendToDecoder srt b (m_video_dec_helper c2))"
  let ?c4 = "?c3\<lparr>m_video_dec_helper := ?w, main_at := Fetching\<rparr>"
  note w = receive_packet_writes [OF c2(1)]
  have "cam_inv ?c3" using cam_inv_receive(2) [OF cam_inv_fetch [OF assms(2,3) g] _ c2(1)] by simp
  then have "owned [b] (m_video_dec_helper c2)"
    using w assms(4) by (simp add: cam_inv_def main_holds_def decoder_holds_def)
  note sent = sorting.sendToDecoder_owned [OF assms(1) this]
  have q: "m_encode_pkt_queue ?w = [b]" "carried ?w b = d"
    using sent w v(3) c2(2) by (simp_all add: writes_only_def m_reserved_encode_pkt_num_def)
  have keep: "?w = drop_oldest srt ((m_video_dec_helper c2)\<lparr>m_encode_pkt_queue := [b]\<rparr>)"
    using w v(3) by (simp add: sendToDecoder_def writes_only_def)
  then have "?w = (m_video_dec_helper c2)\<lparr>m_encode_pkt_queue := [b]\<rparr>"
    by (simp add: drop_oldest.simps m_reserved_encode_pkt_num_def)
  then have dec: "decode_packet (?w\<lparr>m_encode_pkt_queue := []\<rparr>) b =
      Inr \<lparr>pkt_data = d, pkt_size = length d, pkt_eos = False\<rparr>"
    using c2(2,3) assms(8) by (auto simp: decode_packet_def carried_def split: option.splits)
  let ?c5 = "?c4\<lparr>m_video_dec_helper := ?w\<lparr>m_encode_pkt_queue := []\<rparr>, decoding := Some b\<rparr>"
  let ?c6 = "?c5\<lparr>m_video_dec_helper := snd (releaseRtpVideoBuffer srt b (m_video_dec_helper ?c5)),
      decoding := None, decoded := decoded ?c5 @ [\<lparr>pkt_data = d, pkt_size = length d, pkt_eos = False\<rparr>]\<rparr>"
  have "cam_step srt c ?c1" by (rule cam_step.fetch [OF assms(3) g])
  moreover have "cam_step srt ?c1 ?c3" by (rule cam_step.accept [OF _ c2(1)]) simp
  moreover have "cam_step srt ?c3 ?c4" using cam_step.send [of ?c3 b srt] by simp
  moreover have "cam_step srt ?c4 ?c5"
    by (rule cam_step.take) (use q w assms(4) in \<open>simp_all add: take_packet_def\<close>)
  moreover have "cam_step srt ?c5 ?c6" by (rule cam_step.decode) (use dec in simp_all)
  ultimately have "cam_steps srt c ?c6"
    by (meson converse_rtranclp_into_rtranclp rtranclp.rtrancl_refl)
  moreover have "decoded ?c6 = decoded c @ [\<lparr>pkt_data = d, pkt_size = length d, pkt_eos = False\<rparr>]"
    using w by simp
  moreover have "m_rtp_info ?c6 = h \<and> sub_incoming (m_input_port ?c6) = rest \<and> main_at ?c6 = Fetching \<and> decoding ?c6 = None"
    using c2(4,5) by simp
  ultimately show ?thesis by blast
qed

theorem rtp_packet_reaches_decoder_witness:
  "\<exists>c'. cam_steps sort_key (demo_camera\<lparr>min_buffer_size := 16, m_input_port := (m_input_port demo_camera)\<lparr>sub_incoming :=
       frames_of [take 5 (rtp_packet newRtpHeader [7, 8]), drop 5 (rtp_packet newRtpHeader [7, 8])]\<rparr>\<rparr>) c' \<and>
     decoded c' = [\<lparr>pkt_data = [7, 8], pkt_size = 2, pkt_eos = False\<rparr>]"
proof -
  let ?ds = "[take 5 (rtp_packet newRtpHeader [7, 8]), drop 5 (rtp_packet newRtpHeader [7, 8])]"
  let ?c = "demo_camera\<lparr>min_buffer_size := 16, m_input_port := (m_input_port demo_camera)\<lparr>sub_incoming := frames_of ?ds\<rparr>\<rparr>"
  have inv: "cam_inv ?c"
    by (simp add: cam_inv_def demo_camera_def main_holds_def decoder_holds_def on_the_way_def newVideoDecHelper_def owned_def)
  have idle: "main_at ?c = Fetching" "decoding ?c = None" "m_encode_pkt_queue (m_video_dec_helper ?c) = []"
    "2 * min_buffer_size ?c < 2 ^ 64" "decoded ?c = []"
    by (simp_all add: demo_camera_def newVideoDecHelper_def)
  have pkt: "length (rtp_packet newRtpHeader [7, 8]) \<le> min_buffer_size ?c" "[7, 8] \<noteq> ([] :: bytes)" "?ds \<noteq> []"
    "concat ?ds = rtp_packet newRtpHeader [7, 8]" "sub_incoming (m_input_port ?c) = frames_of ?ds @ []"
    by simp_all
  from rtp_packet_reaches_decoder [OF stable.sorting_axioms inv idle(1-4) pkt] obtain c' where
    "cam_steps sort_key ?c c'" "decoded c' = decoded ?c @ [\<lparr>pkt_data = [7, 8], pkt_size = length [7 :: byte, 8], pkt_eos = False\<rparr>]"
    by blast
  then show ?thesis unfolding idle(5) by (intro exI [of _ c']) (simp add: numeral_2_eq_2)
qed

text \<open>
  A decoded frame reaches every subscriber of the segment: when the oldest decoded frame has the
  output format and fits a slot, one round of \<open>consumerLoop\<close> sends one message with the slot and the
  size of the frame, and \<open>receiveSharedMemData\<close> with these two yields the bytes of the frame.
\<close>

theorem camera_frame_published:
  assumes "m_decoded_frame_queue (m_video_dec_helper c) = frame # q"
    and "format (desc (view frame)) = m_out_pixel_format (m_video_dec_helper c)"
    and "view_data (view frame) 0 = Some b" and "h b = Some blk" and "length blk = dataSize (desc (view frame))"
    and "publisher_ok (m_output_shmem_port c) shm" and "same_segment (m_output_shmem_port c) s"
    and "length blk \<le> m_single_buffer_size (m_output_shmem_port c)" and "length blk \<le> length buffer"
  shows "\<exists>c' shm' msg. consumer_round g2d pack True p (c, h, shm) = (Inr True, (c', h, shm')) \<and>
     pub_sent (m_zmq_msg_pub (m_output_shmem_port c')) =
       pub_sent (m_zmq_msg_pub (m_output_shmem_port c)) @ [(pack msg, False)] \<and>
     publisher_id msg = m_name c \<and> pixel_format msg = format (desc (view frame)) \<and>
     receiveSharedMemData buffer (data_size msg) (slot_index msg) s shm' =
       Inr (int (length blk), blk @ drop (length blk) buffer)"
proof -
  let ?port = "m_output_shmem_port c"
  let ?i = "m_current_slot_index ?port"
  let ?v = "(m_video_dec_helper c)\<lparr>m_decoded_frame_queue := q\<rparr>"
  define msg where "msg = fillCameraSensorMsg (set_helper ?v c) newCameraSensorMsg (length blk) ?i"
  obtain p' p'' shm' where pub: "getFreeSlotIndex ?port = (Inr ?i, p')"
    "publishData True (pack msg) blk ?i (p', shm) = (Inr 0, (p'', shm'))"
    "receiveSharedMemData buffer (length blk) ?i s shm' = Inr (int (length blk), blk @ drop (length blk) buffer)"
    "pub_sent (m_zmq_msg_pub p'') = pub_sent (m_zmq_msg_pub ?port) @ [(pack msg, False)]"
    using publish_free_slot [OF assms(6-9), of "pack msg"] by blast
  have frame: "getDecodedFrame g2d p (m_video_dec_helper c, h) = (Inr (Some frame), (?v, h))"
    using assms(1,2) by (simp add: getDecodedFrame_def needPixelConverter_def Let_def)
  have "publish_frame True (pack msg) (view_data (view frame) 0) ?i (length blk) h (p', shm) = (Inr 0, (p'', shm'))"
    using pub(2) assms(3,4) by (simp add: publish_frame_def)
  then have "consumer_round g2d pack True p (c, h, shm) =
      (Inr True, ((set_helper ?v c)\<lparr>m_output_shmem_port := p''\<rparr>, h, shm'))"
    using pub(1) assms(5) by (simp add: consumer_round_def frame set_helper_def msg_def Let_def)
  moreover have "data_size msg = length blk" "slot_index msg = ?i" "publisher_id msg = m_name c"
    "pixel_format msg = format (desc (view frame))"
    using assms(2) by (simp_all add: msg_def fillCameraSensorMsg_def set_helper_def)
  ultimately show ?thesis
    using pub(3,4) by (intro exI [of _ "(set_helper ?v c)\<lparr>m_output_shmem_port := p''\<rparr>"] exI [of _ shm'] exI [of _ msg]) simp
qed

definition demo_frame :: ImageBuffer where
  "demo_frame = newImageBuffer\<lparr>view := makeHostImageView (Some 5) \<lparr>width = 1, height = 1, widthStride = 1,
     heightStride = 1, format = ''RGB888'', dataSize = 3\<rparr> 0 ReadWrite\<rparr>"

theorem camera_frame_published_witness:
  "\<exists>c' shm' (msg :: CameraSensorMsg). consumer_round (\<lambda>_ _ h. (0, h)) (\<lambda>m. [word_of_nat (slot_index m)]) True 9
       (set_helper ((newVideoDecHelper ''RGB888'')\<lparr>m_decoded_frame_queue := [demo_frame]\<rparr>) demo_camera,
        [5 \<mapsto> [10, 20, 30]], replicate 8 0) = (Inr True, (c', [5 \<mapsto> [10, 20, 30]], shm')) \<and>
     receiveSharedMemData [0, 0, 0, 0] (data_size msg) (slot_index msg) demo_subscriber shm' =
       Inr (3, [10, 20, 30, 0])"
proof -
  let ?c = "set_helper ((newVideoDecHelper ''RGB888'')\<lparr>m_decoded_frame_queue := [demo_frame]\<rparr>) demo_camera"
  let ?h = "[5 \<mapsto> [10, 20, 30]] :: heap"
  have frame: "m_decoded_frame_queue (m_video_dec_helper ?c) = demo_frame # []"
    "format (desc (view demo_frame)) = m_out_pixel_format (m_video_dec_helper ?c)"
    "view_data (view demo_frame) 0 = Some 5" "?h 5 = Some [10, 20, 30]"
    "length [10 :: byte, 20, 30] = dataSize (desc (view demo_frame))"
    by (simp_all add: demo_frame_def newVideoDecHelper_def makeHostImageView_sel)
  have port: "publisher_ok (m_output_shmem_port ?c) (replicate 8 0)"
    "same_segment (m_output_shmem_port ?c) demo_subscriber"
    "length [10 :: byte, 20, 30] \<le> m_single_buffer_size (m_output_shmem_port ?c)"
    "length [10 :: byte, 20, 30] \<le> length [0 :: byte, 0, 0, 0]"
    by (simp_all add: set_helper_def demo_camera_def publisher_ok_def same_segment_def demo_publisher_def
        demo_subscriber_def segment_ok_def)
  from camera_frame_published [where h = ?h, OF frame port, of "\<lambda>_ _ h. (0, h)" "\<lambda>m. [word_of_nat (slot_index m)]" 9]
  obtain c' shm' and msg :: CameraSensorMsg where "consumer_round (\<lambda>_ _ h. (0, h)) (\<lambda>m. [word_of_nat (slot_index m)]) True 9
      (?c, ?h, replicate 8 0) = (Inr True, (c', ?h, shm'))"
    "receiveSharedMemData [0, 0, 0, 0] (data_size msg) (slot_index msg) demo_subscriber shm' =
      Inr (int (length [10 :: byte, 20, 30]), [10, 20, 30] @ drop (length [10 :: byte, 20, 30]) [0, 0, 0, 0])"
    by blast
  then show ?thesis by (intro exI [of _ c'] exI [of _ shm'] exI [of _ msg]) simp
qed

end
