(* ===== verification/RkMppCodecHeader.thy ===== *)
theory RkMppCodecHeader
  imports Image
begin

text \<open>
  The names of codings and frame formats of the Rockchip media process platform:
  \<open>video/rkmppCodecHeader.hpp\<close>. The enumerators belong to the platform; the tables use the ones below.
\<close>

section \<open>Names of codings and frame formats\<close>

datatype MppCodingType =
  MPP_VIDEO_CodingUnused | MPP_VIDEO_CodingAutoDetect | MPP_VIDEO_CodingMPEG2 |
  MPP_VIDEO_CodingH263 | MPP_VIDEO_CodingMPEG4 | MPP_VIDEO_CodingWMV | MPP_VIDEO_CodingRV |
  MPP_VIDEO_CodingAVC | MPP_VIDEO_CodingMJPEG | MPP_VIDEO_CodingVP8 | MPP_VIDEO_CodingVP9 |
  MPP_VIDEO_CodingVC1 | MPP_VIDEO_CodingFLV1 | MPP_VIDEO_CodingDIVX3 | MPP_VIDEO_CodingVP6 |
  MPP_VIDEO_CodingHEVC | MPP_VIDEO_CodingAVSPLUS | MPP_VIDEO_CodingAVS | MPP_VIDEO_CodingAVS2 |
  MPP_VIDEO_CodingAV1

datatype MppFrameFormat =
  MPP_FMT_YUV420SP | MPP_FMT_YUV420SP_10BIT | MPP_FMT_YUV422SP | MPP_FMT_YUV422SP_10BIT |
  MPP_FMT_YUV420P | MPP_FMT_YUV420SP_VU | MPP_FMT_YUV422P | MPP_FMT_YUV422SP_VU |
  MPP_FMT_YUV422_YUYV | MPP_FMT_YUV422_YVYU | MPP_FMT_YUV422_UYVY | MPP_FMT_YUV422_VYUY |
  MPP_FMT_YUV400 | MPP_FMT_YUV440SP | MPP_FMT_YUV411SP | MPP_FMT_YUV444SP | MPP_FMT_YUV444P |
  MPP_FMT_RGB565 | MPP_FMT_BGR565 | MPP_FMT_RGB555 | MPP_FMT_BGR555 | MPP_FMT_RGB444 |
  MPP_FMT_BGR444 | MPP_FMT_RGB888 | MPP_FMT_BGR888 | MPP_FMT_RGB101010 | MPP_FMT_BGR101010 |
  MPP_FMT_ARGB8888 | MPP_FMT_ABGR8888 | MPP_FMT_BGRA8888 | MPP_FMT_RGBA8888

definition strToMppCodingMap :: "(string \<times> MppCodingType) list" where
  "strToMppCodingMap =
   [(''auto_detect'', MPP_VIDEO_CodingAutoDetect), (''mpeg2'', MPP_VIDEO_CodingMPEG2),
    (''h263'', MPP_VIDEO_CodingH263), (''mpeg4'', MPP_VIDEO_CodingMPEG4),
    (''wmv'', MPP_VIDEO_CodingWMV), (''rv'', MPP_VIDEO_CodingRV), (''h264'', MPP_VIDEO_CodingAVC),
    (''mjpeg'', MPP_VIDEO_CodingMJPEG), (''vp8'', MPP_VIDEO_CodingVP8), (''vp9'', MPP_VIDEO_CodingVP9),
    (''vc1'', MPP_VIDEO_CodingVC1), (''flv1'', MPP_VIDEO_CodingFLV1),
    (''divx3'', MPP_VIDEO_CodingDIVX3), (''vp6'', MPP_VIDEO_CodingVP6),
    (''h265'', MPP_VIDEO_CodingHEVC), (''avsplus'', MPP_VIDEO_CodingAVSPLUS),
    (''avs'', MPP_VIDEO_CodingAVS), (''avs2'', MPP_VIDEO_CodingAVS2), (''av1'', MPP_VIDEO_CodingAV1)]"

definition mppCodingToStrMap :: "(MppCodingType \<times> string) list" where
  "mppCodingToStrMap =
   [(MPP_VIDEO_CodingAutoDetect, ''auto_detect''), (MPP_VIDEO_CodingMPEG2, ''mpeg2''),
    (MPP_VIDEO_CodingH263, ''h263''), (MPP_VIDEO_CodingMPEG4, ''mpeg4''),
    (MPP_VIDEO_CodingWMV, ''wmv''), (MPP_VIDEO_CodingRV, ''rv''), (MPP_VIDEO_CodingAVC, ''h264''),
    (MPP_VIDEO_CodingMJPEG, ''mjpeg''), (MPP_VIDEO_CodingVP8, ''vp8''), (MPP_VIDEO_CodingVP9, ''vp9''),
    (MPP_VIDEO_CodingVC1, ''vc1''), (MPP_VIDEO_CodingFLV1, ''flv1''),
    (MPP_VIDEO_CodingDIVX3, ''divx3''), (MPP_VIDEO_CodingVP6, ''vp6''),
    (MPP_VIDEO_CodingHEVC, ''h265''), (MPP_VIDEO_CodingAVSPLUS, ''avsplus''),
    (MPP_VIDEO_CodingAVS, ''avs''), (MPP_VIDEO_CodingAVS2, ''avs2''), (MPP_VIDEO_CodingAV1, ''av1'')]"

definition strToMppFrameFormatMap :: "(string \<times> MppFrameFormat) list" where
  "strToMppFrameFormatMap =
   [(''YUV420SP'', MPP_FMT_YUV420SP), (''YUV420SP_10BIT'', MPP_FMT_YUV420SP_10BIT),
    (''YUV422SP'', MPP_FMT_YUV422SP), (''YUV422SP_10BIT'', MPP_FMT_YUV422SP_10BIT),
    (''YUV420P'', MPP_FMT_YUV420P), (''YUV420SP_VU'', MPP_FMT_YUV420SP_VU),
    (''YUV422P'', MPP_FMT_YUV422P), (''YUV422SP_VU'', MPP_FMT_YUV422SP_VU),
    (''YUV422_YUYV'', MPP_FMT_YUV422_YUYV), (''YUV422_YVYU'', MPP_FMT_YUV422_YVYU),
    (''YUV422_UYVY'', MPP_FMT_YUV422_UYVY), (''YUV422_VYUY'', MPP_FMT_YUV422_VYUY),
    (''YUV400'', MPP_FMT_YUV400), (''YUV440SP'', MPP_FMT_YUV440SP), (''YUV411SP'', MPP_FMT_YUV411SP),
    (''YUV444SP'', MPP_FMT_YUV444SP), (''YUV444P'', MPP_FMT_YUV444P), (''RGB565'', MPP_FMT_RGB565),
    (''BGR565'', MPP_FMT_BGR565), (''RGB555'', MPP_FMT_RGB555), (''BGR555'', MPP_FMT_BGR555),
    (''RGB444'', MPP_FMT_RGB444), (''BGR444'', MPP_FMT_BGR444), (''RGB888'', MPP_FMT_RGB888),
    (''BGR888'', MPP_FMT_BGR888), (''RGB101010'', MPP_FMT_RGB101010),
    (''BGR101010'', MPP_FMT_BGR101010), (''ARGB8888'', MPP_FMT_ARGB8888),
    (''ABGR8888'', MPP_FMT_ABGR8888), (''BGRA8888'', MPP_FMT_BGRA8888), (''RGBA8888'', MPP_FMT_RGBA8888)]"

definition mppFrameFormatToStrMap :: "(MppFrameFormat \<times> string) list" where
  "mppFrameFormatToStrMap =
   [(MPP_FMT_YUV420SP, ''YUV420SP''), (MPP_FMT_YUV420SP_10BIT, ''YUV420SP_10BIT''),
    (MPP_FMT_YUV422SP, ''YUV422SP''), (MPP_FMT_YUV422SP_10BIT, ''YUV422SP_10BIT''),
    (MPP_FMT_YUV420P, ''YUV420P''), (MPP_FMT_YUV420SP_VU, ''YUV420SP_VU''),
    (MPP_FMT_YUV422P, ''YUV422P''), (MPP_FMT_YUV422SP_VU, ''YUV422SP_VU''),
    (MPP_FMT_YUV422_YUYV, ''YUV422_YUYV''), (MPP_FMT_YUV422_YVYU, ''YUV422_YVYU''),
    (MPP_FMT_YUV422_UYVY, ''YUV422_UYVY''), (MPP_FMT_YUV422_VYUY, ''YUV422_VYUY''),
    (MPP_FMT_YUV400, ''YUV400''), (MPP_FMT_YUV440SP, ''YUV440SP''), (MPP_FMT_YUV411SP, ''YUV411SP''),
    (MPP_FMT_YUV444SP, ''YUV444SP''), (MPP_FMT_YUV444P, ''YUV444P''), (MPP_FMT_RGB565, ''RGB565''),
    (MPP_FMT_BGR565, ''BGR565''), (MPP_FMT_RGB555, ''RGB555''), (MPP_FMT_BGR555, ''BGR555''),
    (MPP_FMT_RGB444, ''RGB444''), (MPP_FMT_BGR444, ''BGR444''), (MPP_FMT_RGB888, ''RGB888''),
    (MPP_FMT_BGR888, ''BGR888''), (MPP_FMT_RGB101010, ''RGB101010''),
    (MPP_FMT_BGR101010, ''BGR101010''), (MPP_FMT_ARGB8888, ''ARGB8888''),
    (MPP_FMT_ABGR8888, ''ABGR8888''), (MPP_FMT_BGRA8888, ''BGRA8888''), (MPP_FMT_RGBA8888, ''RGBA8888'')]"

definition at_table :: "('a \<times> 'b) list \<Rightarrow> 'a \<Rightarrow> 'b result" where
  "at_table tab k = (case map_of tab k of None \<Rightarrow> Inl (Throw ''out_of_range'') | Some v \<Rightarrow> Inr v)"

definition strToMppCoding :: "string \<Rightarrow> MppCodingType result" where
  "strToMppCoding = at_table strToMppCodingMap"

definition mppCodingToStr :: "MppCodingType \<Rightarrow> string result" where
  "mppCodingToStr = at_table mppCodingToStrMap"

definition strToMppFrameFormat :: "string \<Rightarrow> MppFrameFormat result" where
  "strToMppFrameFormat = at_table strToMppFrameFormatMap"

definition mppFrameFormatToStr :: "MppFrameFormat \<Rightarrow> string result" where
  "mppFrameFormatToStr = at_table mppFrameFormatToStrMap"

text \<open>Each pair of tables is one correspondence, read from both sides.\<close>

lemma at_table_iff:
  assumes "distinct (map fst t)"
  shows "at_table t k = Inr v \<longleftrightarrow> (k, v) \<in> set t"
proof -
  have "at_table t k = Inr v \<longleftrightarrow> map_of t k = Some v"
    by (simp add: at_table_def split: option.split)
  then show ?thesis using map_of_eq_Some_iff [OF assms, of k v] by (rule trans)
qed

lemma at_table_inverse:
  assumes "distinct (map fst t)" and "t' = map prod.swap t" and "distinct (map fst t')"
  shows "at_table t a = Inr b \<longleftrightarrow> at_table t' b = Inr a"
  unfolding at_table_iff [OF assms(1)] at_table_iff [OF assms(3)] by (force simp: assms(2) image_iff)

lemma coding_names: "strToMppCoding s = Inr c \<longleftrightarrow> mppCodingToStr c = Inr s"
  unfolding strToMppCoding_def mppCodingToStr_def
  by (rule at_table_inverse) (simp_all add: strToMppCodingMap_def mppCodingToStrMap_def)

lemma format_names: "strToMppFrameFormat s = Inr f \<longleftrightarrow> mppFrameFormatToStr f = Inr s"
  unfolding strToMppFrameFormat_def mppFrameFormatToStr_def
  by (rule at_table_inverse) (simp_all add: strToMppFrameFormatMap_def mppFrameFormatToStrMap_def)

end
