(* ===== verification/RkMppDec.thy ===== *)
theory RkMppDec
  imports RkMppCodecHeader
begin

text \<open>
  The Rockchip decoder: \<open>bsp_codec/IDecoder\<close> and \<open>video/rkmppDec\<close>. The
  media process platform (MPP) is not part of the repository: what its calls answer is listed in
  the arguments, one answer per call in the order of the calls. Handles are modelled by whether
  they are set; sleeping and time stamps are left out, since nothing depends on them.
\<close>

section \<open>The decoder\<close>

record DecodeConfig =
  encoding :: string
  dec_fps :: int

text \<open>A packet as the caller passes it; \<open>pkt_bytes\<close> is what it points to.\<close>

record mppDecodePacket =
  pkt_bytes :: bytes
  eos_flag :: bool

record rkmppDec =
  encoding_type :: MppCodingType
  fps :: int
  need_split :: nat
  mpp_ctx :: bool
  live_cfgs :: nat
  frm_grp :: bool
  frame_count :: nat
  frame_num :: nat
  ctx_eos :: bool
  max_usage :: nat
  has_callback :: bool
  m_packet :: bool
  m_frame :: bool
  mem :: heap
  fresh :: nat
  delivered :: "ImageBuffer list"

definition newRkmppDec :: rkmppDec where
  "newRkmppDec = \<lparr>encoding_type = MPP_VIDEO_CodingUnused, fps = 0, need_split = 1, mpp_ctx = False, live_cfgs = 0,
     frm_grp = False, frame_count = 0, frame_num = 0, ctx_eos = False, max_usage = 0, has_callback = False,
     m_packet = False, m_frame = False, mem = (\<lambda>_. None), fresh = 0, delivered = []\<rparr>"

definition setDecodeReadyCallback :: "bool \<Rightarrow> rkmppDec \<Rightarrow> rkmppDec" where
  "setDecodeReadyCallback cb d = d\<lparr>has_callback := cb\<rparr>"

definition dec_destroy :: "rkmppDec \<Rightarrow> rkmppDec" where
  "dec_destroy d = d\<lparr>mpp_ctx := False, frm_grp := False\<rparr>"

definition dec_tearDown :: "rkmppDec \<Rightarrow> int \<times> rkmppDec" where "dec_tearDown d = (0, d)"

text \<open>
  \<open>setup\<close>: the answers of \<open>mpp_create\<close>, \<open>mpp_init\<close> and the three calls on the configuration object,
  which is given back only when all of them succeed.
\<close>

record setup_answers =
  create_ret :: int
  init_ret :: int
  get_cfg_ret :: int
  split_ret :: int
  set_cfg_ret :: int

definition dec_setup :: "setup_answers \<Rightarrow> DecodeConfig \<Rightarrow> rkmppDec \<Rightarrow> int \<times> rkmppDec" where
  "dec_setup ans cfg d =
     (case strToMppCoding (encoding cfg) of
        Inl _ \<Rightarrow> (-1, d)
      | Inr ty \<Rightarrow>
          (let d1 = d\<lparr>encoding_type := ty, fps := dec_fps cfg\<rparr>
           in if create_ret ans \<noteq> 0 then (-1, d1)
              else
                (let d2 = d1\<lparr>mpp_ctx := True\<rparr>
                 in if init_ret ans \<noteq> 0 then (-1, d2)
                    else
                      (let d3 = d2\<lparr>live_cfgs := live_cfgs d2 + 1\<rparr>
                       in if get_cfg_ret ans \<noteq> 0 then (-1, d3)
                          else if split_ret ans \<noteq> 0 then (-1, d3)
                          else if set_cfg_ret ans \<noteq> 0 then (-1, d3)
                          else (0, d3\<lparr>live_cfgs := live_cfgs d3 - 1\<rparr>)))))"

section \<open>decode\<close>

text \<open>
  A frame as \<open>decode_get_frame\<close> hands it out; for a frame that only announces a change, \<open>group_rets\<close>
  are the answers of the calls on the buffer group, 0 meaning success. \<open>usage\<close> is the memory the
  group reports after the call.
\<close>

record mppFrame =
  hor_stride :: u32
  ver_stride :: u32
  hor_width :: u32
  ver_height :: u32
  info_change :: bool
  frame_fmt :: MppFrameFormat
  frame_bytes :: bytes
  frame_eos :: bool
  group_rets :: "int list"

datatype mpp_ret = MPP_OK | MPP_ERR_TIMEOUT | MPP_NOK

record get_answer =
  get_ret :: mpp_ret
  got :: "mppFrame option"
  usage :: nat

text \<open>
  The change of the buffer group: it is created, or cleared when it exists, and limited; the first
  call that fails ends the round. \<open>None\<close> stands for \<open>break\<close>.
\<close>

definition change_group :: "int list \<Rightarrow> rkmppDec \<Rightarrow> rkmppDec option \<times> rkmppDec" where
  "change_group rets d =
     (let n = (if frm_grp d then 3 else 4);
          d' = (if frm_grp d \<or> (rets \<noteq> [] \<and> hd rets \<noteq> 0) then d else d\<lparr>frm_grp := True\<rparr>)
      in if list_all (\<lambda>r. r = 0) (take n rets) then (Some d', d') else (None, d'))"

text \<open>The picture the callback gets: its size is computed from width and height, not from the strides.\<close>

definition frame_desc :: "mppFrame \<Rightarrow> ImageDesc result" where
  "frame_desc f =
     rbind (mppFrameFormatToStr (frame_fmt f)) (\<lambda>s.
     rbind (bytesPerPixel2 s) (\<lambda>b2.
       let n = float_bytes (unat (hor_width f) * unat (ver_height f)) b2
       in if 2 ^ 64 \<le> n then Inl (Undefined ''conversion out of range'')
          else Inr \<lparr>width = hor_width f, height = ver_height f, widthStride = hor_stride f,
            heightStride = ver_stride f, format = s, dataSize = n\<rparr>))"

definition deliver :: "mppFrame \<Rightarrow> rkmppDec \<Rightarrow> (rkmppDec, unit) outcome" where
  "deliver f d =
     (case frame_desc f of
        Inl e \<Rightarrow> (Inl e, d)
      | Inr dsc \<Rightarrow>
        (case makeHostImageBuffer (fresh d) dsc (mem d) of
           (Inl e, h) \<Rightarrow> (Inl e, d)
         | (Inr b, h) \<Rightarrow>
           (case (if length (frame_bytes f) < dataSize dsc then Inl (Undefined ''read out of range'')
                  else memcpy_at 0 (take (dataSize dsc) (frame_bytes f)) (case h (fresh d) of None \<Rightarrow> [] | Some k \<Rightarrow> k)) of
              Inl e \<Rightarrow> (Inl e, d)
            | Inr blk \<Rightarrow> (Inr (), d\<lparr>mem := h(fresh d \<mapsto> blk), fresh := fresh d + 1, delivered := delivered d @ [b]\<rparr>))))"

text \<open>\<open>1000 / m_params.fps\<close> is computed for every frame.\<close>

definition take_frame :: "mppFrame \<Rightarrow> rkmppDec \<Rightarrow> (rkmppDec, unit) outcome" where
  "take_frame f d =
     andthen (if has_callback d then deliver f (d\<lparr>frame_count := frame_count d + 1\<rparr>)
              else (Inr (), d\<lparr>frame_count := frame_count d + 1\<rparr>))
       (\<lambda>_ d'. if fps d' = 0 then (Inl (Undefined ''division by zero''), d') else (Inr (), d'))"

text \<open>
  The inner loop over the answers of \<open>decode_get_frame\<close>; \<open>tries\<close> counts the repetitions after a
  timeout that are left. The result is the last \<open>ret\<close>.
\<close>

fun get_frames :: "bool \<Rightarrow> bool \<Rightarrow> nat \<Rightarrow> get_answer list \<Rightarrow> rkmppDec \<Rightarrow>
    (rkmppDec \<times> get_answer list, mpp_ret) outcome" where
  "get_frames eos done tries [] d = (Inl Waiting, (d, []))"
| "get_frames eos done tries (a # as) d =
     (if get_ret a = MPP_ERR_TIMEOUT \<and> 0 < tries then get_frames eos done (tries - 1) as d
      else if get_ret a \<noteq> MPP_OK then (Inr (get_ret a), (d, as))
      else
        (case got a of
           None \<Rightarrow>
             (let d' = (if frm_grp d then d\<lparr>m_frame := False, max_usage := max (max_usage d) (usage a)\<rparr>
                else d\<lparr>m_frame := False\<rparr>)
              in if eos \<and> done then get_frames eos done tries as d'
                 else if 0 < frame_num d' \<and> frame_num d' \<le> frame_count d'
                 then (Inr MPP_OK, (d'\<lparr>ctx_eos := True\<rparr>, as))
                 else (Inr MPP_OK, (d', as)))
         | Some f \<Rightarrow>
             (let r = (if info_change f
                  then (case change_group (group_rets f) d of
                     (None, d') \<Rightarrow> (Inr False, d'\<lparr>m_frame := True\<rparr>) | (Some d', _) \<Rightarrow> (Inr True, d'))
                  else andthen (take_frame f d) (\<lambda>_ d'. (Inr True, d')))
              in case r of
                   (Inl e, d') \<Rightarrow> (Inl e, (d', as))
                 | (Inr False, d') \<Rightarrow> (Inr MPP_NOK, (d', as))
                 | (Inr True, d') \<Rightarrow>
                     (let d'' = (if frm_grp d' then d'\<lparr>m_frame := False, max_usage := max (max_usage d') (usage a)\<rparr>
                        else d'\<lparr>m_frame := False\<rparr>)
                      in if eos \<and> done \<and> \<not> frame_eos f then get_frames eos done tries as d''
                         else if frame_eos f then (Inr MPP_OK, (d'', as))
                         else if 0 < frame_num d'' \<and> frame_num d'' \<le> frame_count d''
                         then (Inr MPP_OK, (d''\<lparr>ctx_eos := True\<rparr>, as))
                         else get_frames eos done tries as d''))))"

text \<open>The outer loop over the answers of \<open>decode_put_packet\<close>, repeated until the packet is taken.\<close>

fun put_packet :: "bool \<Rightarrow> bool list \<Rightarrow> get_answer list \<Rightarrow> rkmppDec \<Rightarrow> (rkmppDec, mpp_ret) outcome" where
  "put_packet eos [] as d = (Inl Waiting, d)"
| "put_packet eos (ok # puts) as d =
     (case get_frames eos ok 5 as d of
        (Inl e, (d', _)) \<Rightarrow> (Inl e, d')
      | (Inr ret, (d', as')) \<Rightarrow>
          if 0 < frame_num d' \<and> frame_num d' \<le> frame_count d' then (Inr ret, d'\<lparr>ctx_eos := True\<rparr>)
          else if ok then (Inr ret, d')
          else put_packet eos puts as' d')"

definition rk_decode :: "mppDecodePacket \<Rightarrow> bool list \<Rightarrow> get_answer list \<Rightarrow> rkmppDec \<Rightarrow> (rkmppDec, mpp_ret) outcome" where
  "rk_decode pkt puts as d =
     andthen (put_packet (eos_flag pkt) puts as (d\<lparr>m_packet := True\<rparr>)) (\<lambda>ret d'. (Inr ret, d'\<lparr>m_packet := False\<rparr>))"

text \<open>
  The decoder knows names the image table does not: a frame in one of these formats makes \<open>decode\<close>
  throw, in the thread of the caller.
\<close>

lemma unknown_size_throws:
  "frame_fmt f = MPP_FMT_YUV420SP_VU \<Longrightarrow> frame_desc f = Inl (Throw ''out_of_range'')"
  by (simp add: frame_desc_def mppFrameFormatToStr_def mppFrameFormatToStrMap_def at_table_def bytesPerPixel2_def
      bytesPerPixelMap2_def)

section \<open>Delivery\<close>

text \<open>The bytes of the picture the callback gets, and when a frame can be handed on.\<close>

definition picture :: "mppFrame \<Rightarrow> bytes" where
  "picture f = (case frame_desc f of Inl _ \<Rightarrow> [] | Inr dsc \<Rightarrow> take (dataSize dsc) (frame_bytes f))"

definition frame_ready :: "mppFrame \<Rightarrow> bool" where
  "frame_ready f \<longleftrightarrow> \<not> info_change f \<and>
     (case frame_desc f of Inl _ \<Rightarrow> False | Inr dsc \<Rightarrow> 0 < dataSize dsc \<and> dataSize dsc \<le> length (frame_bytes f))"

definition contents :: "heap \<Rightarrow> ImageBuffer \<Rightarrow> bytes option" where
  "contents h b = (case owner b of None \<Rightarrow> None | Some p \<Rightarrow> h p)"

lemma take_frame_ready:
  assumes "frame_ready f" and "has_callback d" and "fps d \<noteq> 0"
  shows "\<exists>b. take_frame f d = (Inr (), d\<lparr>frame_count := frame_count d + 1,
      mem := (mem d)(fresh d \<mapsto> picture f), fresh := fresh d + 1, delivered := delivered d @ [b]\<rparr>) \<and>
    owner b = Some (fresh d)"
proof -
  obtain dsc where dsc: "frame_desc f = Inr dsc" and size: "0 < dataSize dsc" "dataSize dsc \<le> length (frame_bytes f)"
    using assms(1) by (auto simp: frame_ready_def split: sum.splits)
  have "memcpy_at 0 (take (dataSize dsc) (frame_bytes f)) (replicate (dataSize dsc) 0) = Inr (picture f)"
    using size by (simp add: memcpy_at_ok picture_def dsc)
  then show ?thesis
    using assms(2,3) size
    by (intro exI [of _ "newImageBuffer\<lparr>owner := Some (fresh d), view := makeHostImageView (Some (fresh d)) dsc 0 ReadWrite\<rparr>"])
      (simp add: take_frame_def deliver_def dsc makeHostImageBuffer_def newImageBuffer_def)
qed

text \<open>One frame after the other, until the decoder has none.\<close>

definition answers_frame :: "get_answer \<Rightarrow> bool" where
  "answers_frame a \<longleftrightarrow> get_ret a = MPP_OK \<and>
     (case got a of None \<Rightarrow> False | Some f \<Rightarrow> frame_ready f \<and> \<not> frame_eos f)"

lemma get_frames_delivers:
  assumes "list_all answers_frame as" and "get_ret a0 = MPP_OK" and "got a0 = None"
    and "has_callback d" and "fps d \<noteq> 0" and "frame_num d = 0" and "\<not> eos"
  shows "\<exists>d' bs. get_frames eos done n (as @ a0 # rest) d = (Inr MPP_OK, (d', rest)) \<and>
    frame_num d' = 0 \<and> frame_count d' = frame_count d + length as \<and> \<not> m_frame d' \<and>
    delivered d' = delivered d @ bs \<and> (\<forall>p < fresh d. mem d' p = mem d p) \<and>
    map (contents (mem d')) bs = map (\<lambda>a. Some (picture (the (got a)))) as"
  using assms
proof (induction as arbitrary: d)
  case Nil
  then show ?case by (cases "frm_grp d") (simp_all add: Let_def)
next
  case (Cons a as)
  obtain f where f: "get_ret a = MPP_OK" "got a = Some f" "frame_ready f" "\<not> frame_eos f"
    using Cons.prems(1) by (auto simp: answers_frame_def split: option.splits)
  obtain b where b: "owner b = Some (fresh d)" and tf: "take_frame f d = (Inr (), d\<lparr>frame_count := frame_count d + 1,
      mem := (mem d)(fresh d \<mapsto> picture f), fresh := fresh d + 1, delivered := delivered d @ [b]\<rparr>)"
    using take_frame_ready [OF f(3) Cons.prems(4,5)] by blast
  define d1 where "d1 = d\<lparr>frame_count := frame_count d + 1, mem := (mem d)(fresh d \<mapsto> picture f),
      fresh := fresh d + 1, delivered := delivered d @ [b]\<rparr>"
  define d2 where "d2 = (if frm_grp d1 then d1\<lparr>m_frame := False, max_usage := max (max_usage d1) (usage a)\<rparr>
      else d1\<lparr>m_frame := False\<rparr>)"
  have d2: "has_callback d2" "fps d2 \<noteq> 0" "frame_num d2 = 0" "frame_count d2 = frame_count d + 1"
    "fresh d2 = fresh d + 1" "mem d2 = (mem d)(fresh d \<mapsto> picture f)" "delivered d2 = delivered d @ [b]"
    using Cons.prems(4-6) by (simp_all add: d2_def d1_def)
  have "\<not> info_change f" using f(3) by (simp add: frame_ready_def)
  then have step: "get_frames eos done n ((a # as) @ a0 # rest) d = get_frames eos done n (as @ a0 # rest) d2"
    using f tf d2(3) Cons.prems(7) unfolding d1_def [symmetric] by (simp add: Let_def d2_def [symmetric])
  obtain d' bs where run: "get_frames eos done n (as @ a0 # rest) d2 = (Inr MPP_OK, (d', rest))"
    and keeps: "frame_num d' = 0" "frame_count d' = frame_count d2 + length as" "\<not> m_frame d'"
      "delivered d' = delivered d2 @ bs"
    and old: "\<forall>p < fresh d2. mem d' p = mem d2 p"
    and new: "map (contents (mem d')) bs = map (\<lambda>a. Some (picture (the (got a)))) as"
    using Cons.IH [OF _ Cons.prems(2,3) d2(1-3) Cons.prems(7)] Cons.prems(1) by auto
  have "contents (mem d') b = Some (picture f)"
    using old d2(5,6) by (simp add: contents_def b)
  moreover have "\<forall>p < fresh d. mem d' p = mem d p" using old d2(5,6) by simp
  ultimately show ?case
    using run keeps new f(2) d2(4,7) unfolding step
    by (intro exI [of _ d'] exI [of _ "b # bs"]) simp
qed


definition demo_mpp_frame :: mppFrame where
  "demo_mpp_frame = \<lparr>hor_stride = 4, ver_stride = 2, hor_width = 2, ver_height = 2, info_change = False,
     frame_fmt = MPP_FMT_YUV420SP, frame_bytes = [1, 2, 3, 4, 5, 6, 7, 8], frame_eos = False, group_rets = []\<rparr>"

definition demo_answer :: get_answer where
  "demo_answer = \<lparr>get_ret = MPP_OK, got = Some demo_mpp_frame, usage = 64\<rparr>"

definition none_answer :: get_answer where "none_answer = \<lparr>get_ret = MPP_OK, got = None, usage = 64\<rparr>"

lemma demo_desc: "frame_desc demo_mpp_frame = Inr \<lparr>width = 2, height = 2, widthStride = 4, heightStride = 2,
    format = ''YUV420SP'', dataSize = 6\<rparr>"
  by (simp add: frame_desc_def demo_mpp_frame_def mppFrameFormatToStr_def mppFrameFormatToStrMap_def at_table_def
      bytesPerPixel2_def bytesPerPixelMap2_def float_bytes_def)


text \<open>
  Before \<open>setup\<close> with a frame rate the decoder divides by zero at its first picture, after the callback
  has run; and the size of the picture ignores the strides it declares, so a reader who trusts them
  (\<open>imageDataSize\<close>) reads past the block.
\<close>

lemma no_fps_no_decode:
  "frame_ready f \<Longrightarrow> has_callback d \<Longrightarrow> fps d = 0 \<Longrightarrow>
    \<exists>d'. take_frame f d = (Inl (Undefined ''division by zero''), d')"
  using take_frame_ready [of f "d\<lparr>fps := 1\<rparr>"]
  by (auto simp: take_frame_def deliver_def split: sum.splits prod.splits)

lemma picture_smaller_than_declared:
  "\<exists>dsc. frame_desc demo_mpp_frame = Inr dsc \<and> imageDataSize dsc = Inr 12 \<and> dataSize dsc = 6"
proof -
  have "bytesPerPixel2 ''YUV420SP'' = Inr 3" by (simp add: bytesPerPixel2_def bytesPerPixelMap2_def)
  then show ?thesis by (simp add: demo_desc imageDataSize_def float_bytes_def)
qed

text \<open>
  The last packet keeps \<open>decode\<close> in its loop: as long as the decoder answers without the last frame,
  it asks again.
\<close>

lemma last_packet_waits:
  assumes "\<forall>a \<in> set as. get_ret a = MPP_OK \<and> got a = None"
  shows "\<exists>d'. get_frames True True n as d = (Inl Waiting, (d', []))"
  using assms
proof (induction as arbitrary: d)
  case (Cons a as)
  define d' where "d' = (if frm_grp d then d\<lparr>m_frame := False, max_usage := max (max_usage d) (usage a)\<rparr>
    else d\<lparr>m_frame := False\<rparr>)"
  have a: "get_ret a = MPP_OK" "got a = None" using Cons.prems by simp_all
  have "get_frames True True n (a # as) d = get_frames True True n as d'"
    by (simp only: get_frames.simps a Let_def d'_def [symmetric] option.case mpp_ret.distinct simp_thms if_True if_False)
  moreover have "\<forall>a \<in> set as. get_ret a = MPP_OK \<and> got a = None" using Cons.prems by simp
  ultimately show ?case using Cons.IH [of d'] by metis
qed simp

text \<open>
  A rejected configuration leaves an object behind: when a call fails after \<open>mpp_init\<close> has
  succeeded, \<open>setup\<close> returns -1 and one more configuration object is alive.
\<close>

lemma setup_leaks_cfg:
  assumes "strToMppCoding (encoding cfg) = Inr ty" and "create_ret ans = 0" and "init_ret ans = 0"
    and "get_cfg_ret ans \<noteq> 0 \<or> split_ret ans \<noteq> 0 \<or> set_cfg_ret ans \<noteq> 0"
  shows "fst (dec_setup ans cfg d) = -1" and "live_cfgs (snd (dec_setup ans cfg d)) = live_cfgs d + 1"
  using assms by (auto simp: dec_setup_def Let_def)

end
