(* ===== verification/RkMppEnc.thy ===== *)
theory RkMppEnc
  imports RkMppCodecHeader "HOL-Library.Signed_Division"
begin

text \<open>
  The Rockchip encoder: \<open>bsp_codec/IEncoder\<close> and \<open>video/rkmppEnc\<close>. What the calls of the media process
  platform answer is listed in the arguments; handles are modelled by whether they are set. \<open>RK_U32\<close>
  wraps, an overflow of \<open>RK_S32\<close> is undefined.
\<close>

unbundle bit_operations_syntax

section \<open>State\<close>

datatype MppEncRcMode = MPP_ENC_RC_MODE_VBR | MPP_ENC_RC_MODE_CBR | MPP_ENC_RC_MODE_FIXQP |
  MPP_ENC_RC_MODE_AVBR | MPP_ENC_RC_MODE_OTHER

record EncodeConfig =
  encodingType :: string
  cfg_frameFormat :: string
  cfg_fps :: int
  cfg_width :: u32
  cfg_height :: u32
  cfg_hor_stride :: u32
  cfg_ver_stride :: u32

record EncodePacket =
  max_size :: nat
  pkt_len :: nat
  encode_pkt :: bytes

text \<open>The values handed to the configuration object of the platform.\<close>

datatype cfg_value = Num int | Format MppFrameFormat | Coding MppCodingType | Named string

record rkmppEncParams =
  p_encoding_type :: MppCodingType
  p_width :: u32
  p_height :: u32
  p_hor_stride :: u32
  p_ver_stride :: u32
  p_frameFormat :: MppFrameFormat
  split_mode :: u32
  split_arg :: u32
  split_out :: u32
  fps_in_flex :: int
  fps_in_den :: int
  fps_in_num :: int
  fps_out_flex :: int
  fps_out_den :: int
  fps_out_num :: int
  bps :: int
  bps_max :: int
  bps_min :: int
  rc_mode :: int
  gop_len :: int
  qp_init :: int
  constraint_set :: u32
  rotation :: u32
  mirroring :: u32
  flip :: u32
  each_idr :: bool

definition newRkmppEncParams :: rkmppEncParams where
  "newRkmppEncParams = \<lparr>p_encoding_type = MPP_VIDEO_CodingAVC, p_width = 0, p_height = 0, p_hor_stride = 0,
     p_ver_stride = 0, p_frameFormat = MPP_FMT_YUV420P, split_mode = 0, split_arg = 0, split_out = 0,
     fps_in_flex = 0, fps_in_den = 1, fps_in_num = 30, fps_out_flex = 0, fps_out_den = 1, fps_out_num = 30,
     bps = 0, bps_max = 0, bps_min = 0, rc_mode = 0, gop_len = 0, qp_init = 0, constraint_set = 0,
     rotation = 0, mirroring = 0, flip = 0, each_idr = False\<rparr>"

text \<open>\<open>applied\<close> is the configuration the platform has accepted, \<open>to_callback\<close> what the callback was given.\<close>

record rkmppEnc =
  m_params :: rkmppEncParams
  enc_ctx :: bool
  buf_grp :: bool
  pkt_buf :: bool
  md_info :: bool
  frm_buf :: ptr
  mdinfo_size :: nat
  frame_size :: nat
  enc_callback :: bool
  live_enc_cfgs :: nat
  applied :: "(string \<times> cfg_value) list option"
  to_callback :: "bytes list"

definition newRkmppEnc :: rkmppEnc where
  "newRkmppEnc = \<lparr>m_params = newRkmppEncParams, enc_ctx = False, buf_grp = False, pkt_buf = False, md_info = False,
     frm_buf = None, mdinfo_size = 0, frame_size = 0, enc_callback = False, live_enc_cfgs = 0, applied = None,
     to_callback = []\<rparr>"

definition setEncodeReadyCallback :: "bool \<Rightarrow> rkmppEnc \<Rightarrow> rkmppEnc" where
  "setEncodeReadyCallback cb e = e\<lparr>enc_callback := cb\<rparr>"

definition enc_destroy :: "rkmppEnc \<Rightarrow> rkmppEnc" where
  "enc_destroy e = e\<lparr>enc_ctx := False, frm_buf := None, pkt_buf := False, md_info := False, buf_grp := False\<rparr>"

definition getFrameSize :: "rkmppEnc \<Rightarrow> nat" where "getFrameSize e = frame_size e"

definition enc_tearDown :: "rkmppEnc \<Rightarrow> int \<times> rkmppEnc" where "enc_tearDown e = (0, e)"

section \<open>Sizes\<close>

definition MPP_ALIGN :: "u32 \<Rightarrow> u32 \<Rightarrow> u32" where
  "MPP_ALIGN x a = (x + a - 1) AND NOT (a - 1)"

text \<open>The products are computed in 32 bits; the result passes through \<open>int\<close> into a \<open>size_t\<close>.\<close>

definition calculateFrameSize :: "MppFrameFormat \<Rightarrow> rkmppEncParams \<Rightarrow> int" where
  "calculateFrameSize frameFormat p =
     (let a = MPP_ALIGN (p_hor_stride p) 64 * MPP_ALIGN (p_ver_stride p) 64
      in if frameFormat \<in> {MPP_FMT_YUV420SP, MPP_FMT_YUV420P} then sint (a * 3 div 2)
         else if frameFormat \<in> {MPP_FMT_YUV422_YUYV, MPP_FMT_YUV422_YVYU, MPP_FMT_YUV422_UYVY, MPP_FMT_YUV422_VYUY,
           MPP_FMT_YUV422P, MPP_FMT_YUV422SP} then sint (a * 2)
         else if frameFormat \<in> {MPP_FMT_RGB444, MPP_FMT_BGR444, MPP_FMT_RGB555, MPP_FMT_BGR555, MPP_FMT_RGB565,
           MPP_FMT_BGR565, MPP_FMT_RGB888, MPP_FMT_BGR888, MPP_FMT_RGB101010, MPP_FMT_BGR101010, MPP_FMT_ARGB8888,
           MPP_FMT_ABGR8888, MPP_FMT_BGRA8888, MPP_FMT_RGBA8888} then sint a
         else sint (a * 4))"

text \<open>The parts of \<open>parseConfig\<close>: missing strides, the bit rate, the room for motion information.\<close>

definition derive_strides :: "rkmppEncParams \<Rightarrow> rkmppEncParams" where
  "derive_strides p =
     (let p' = (if p_hor_stride p = 0 then p\<lparr>p_hor_stride := MPP_ALIGN (p_width p) 16\<rparr> else p)
      in if p_ver_stride p' = 0 then p'\<lparr>p_ver_stride := MPP_ALIGN (p_height p') 16\<rparr> else p')"

definition derive_bps :: "rkmppEncParams \<Rightarrow> rkmppEncParams result" where
  "derive_bps p =
     (if bps p \<noteq> 0 then Inr p
      else if fps_out_den p = 0 then Inl (Undefined ''division by zero'')
      else Inr (p\<lparr>bps := sint (p_width p * p_height p div 8 * of_int (fps_out_num p sdiv fps_out_den p))\<rparr>))"

definition motion_info_size :: "rkmppEncParams \<Rightarrow> nat" where
  "motion_info_size p =
     unat (if p_encoding_type p = MPP_VIDEO_CodingHEVC
       then drop_bit 5 (MPP_ALIGN (p_hor_stride p) 32) * drop_bit 5 (MPP_ALIGN (p_ver_stride p) 32) * 16
       else drop_bit 6 (MPP_ALIGN (p_hor_stride p) 64) * drop_bit 4 (MPP_ALIGN (p_ver_stride p) 16) * 16)"

definition parseConfig :: "EncodeConfig \<Rightarrow> rkmppEnc \<Rightarrow> (rkmppEnc, int) outcome" where
  "parseConfig cfg e =
     (let p = (m_params e)\<lparr>p_width := cfg_width cfg, p_height := cfg_height cfg,
            p_hor_stride := cfg_hor_stride cfg, p_ver_stride := cfg_ver_stride cfg\<rparr>
      in case strToMppFrameFormat (cfg_frameFormat cfg) of
           Inl x \<Rightarrow> (Inl x, e\<lparr>m_params := p\<rparr>)
         | Inr f \<Rightarrow>
             (let p' = derive_strides (p\<lparr>p_frameFormat := f\<rparr>)
              in case derive_bps p' of
                   Inl x \<Rightarrow> (Inl x, e\<lparr>m_params := p'\<rparr>)
                 | Inr p'' \<Rightarrow>
                     (Inr 0, e\<lparr>m_params := p'', mdinfo_size := motion_info_size p'',
                        frame_size := nat (calculateFrameSize f p'' mod 2 ^ 64)\<rparr>)))"

section \<open>The configuration object\<close>

definition s32 :: "int \<Rightarrow> int result" where
  "s32 v = (if - (2 ^ 31) \<le> v \<and> v < 2 ^ 31 then Inr v else Inl (Undefined ''signed overflow''))"

text \<open>\<open>rc_of\<close> names the rate control modes; the bounds are only computed when they are not given.\<close>

definition rate_bounds :: "(int \<Rightarrow> MppEncRcMode) \<Rightarrow> rkmppEncParams \<Rightarrow> (string \<times> cfg_value) list result" where
  "rate_bounds rc_of p =
     (let upper = (if bps_max p \<noteq> 0 then Inr (bps_max p) else rbind (s32 (bps p * 17)) (\<lambda>v. Inr (v sdiv 16)));
          lower = (\<lambda>k. if bps_min p \<noteq> 0 then Inr (bps_min p) else rbind (s32 (bps p * k)) (\<lambda>v. Inr (v sdiv 16)));
          bounds = (\<lambda>k. rbind upper (\<lambda>u. rbind (lower k) (\<lambda>l.
            Inr [(''rc:bps_max'', Num u), (''rc:bps_min'', Num l)])))
      in case rc_of (rc_mode p) of
           MPP_ENC_RC_MODE_FIXQP \<Rightarrow> Inr []
         | MPP_ENC_RC_MODE_CBR \<Rightarrow> bounds 15
         | MPP_ENC_RC_MODE_VBR \<Rightarrow> bounds 1
         | MPP_ENC_RC_MODE_AVBR \<Rightarrow> bounds 1
         | MPP_ENC_RC_MODE_OTHER \<Rightarrow> bounds 15)"

definition qp_settings :: "(int \<Rightarrow> MppEncRcMode) \<Rightarrow> rkmppEncParams \<Rightarrow> (string \<times> cfg_value) list" where
  "qp_settings rc_of p =
     (let ty = p_encoding_type p
      in if ty = MPP_VIDEO_CodingAVC \<or> ty = MPP_VIDEO_CodingHEVC then
           (case rc_of (rc_mode p) of
              MPP_ENC_RC_MODE_FIXQP \<Rightarrow>
                [(''rc:qp_init'', Num (qp_init p)), (''rc:qp_max'', Num (qp_init p)), (''rc:qp_min'', Num (qp_init p)),
                 (''rc:qp_max_i'', Num (qp_init p)), (''rc:qp_min_i'', Num (qp_init p)), (''rc:qp_ip'', Num 0)]
            | MPP_ENC_RC_MODE_OTHER \<Rightarrow> []
            | _ \<Rightarrow>
                [(''rc:qp_init'', Num (-1)), (''rc:qp_max'', Num 51), (''rc:qp_min'', Num 10),
                 (''rc:qp_max_i'', Num 51), (''rc:qp_min_i'', Num 10), (''rc:qp_ip'', Num 2)])
         else if ty = MPP_VIDEO_CodingVP8 then
           [(''rc:qp_init'', Num 40), (''rc:qp_max'', Num 127), (''rc:qp_min'', Num 0),
            (''rc:qp_max_i'', Num 127), (''rc:qp_min_i'', Num 0), (''rc:qp_ip'', Num 6)]
         else if ty = MPP_VIDEO_CodingMJPEG then
           [(''jpeg:q_factor'', Num 80), (''jpeg:qf_max'', Num 99), (''jpeg:qf_min'', Num 1)]
         else [])"

definition codec_settings :: "rkmppEncParams \<Rightarrow> (string \<times> cfg_value) list" where
  "codec_settings p =
     (''codec:type'', Coding (p_encoding_type p)) #
     (if p_encoding_type p = MPP_VIDEO_CodingAVC then
        [(''h264:profile'', Num 100), (''h264:level'', Num 40), (''h264:cabac_en'', Num 1),
         (''h264:cabac_idc'', Num 0), (''h264:trans8x8'', Num 1)] @
        (if constraint_set p AND 0x3f0000 \<noteq> 0 then [(''h264:constraint_set'', Num (sint (constraint_set p)))] else [])
      else [])"

definition split_settings :: "rkmppEncParams \<Rightarrow> (string \<times> cfg_value) list" where
  "split_settings p =
     (if split_mode p \<noteq> 0
      then [(''split:mode'', Num (sint (split_mode p))), (''split:arg'', Num (sint (split_arg p))),
            (''split:out'', Num (sint (split_out p)))]
      else [])"

text \<open>Everything \<open>setupMppEncCfg\<close> writes, in its order.\<close>

definition enc_settings :: "(int \<Rightarrow> MppEncRcMode) \<Rightarrow> rkmppEncParams \<Rightarrow> (string \<times> cfg_value) list result" where
  "enc_settings rc_of p =
     rbind (if gop_len p \<noteq> 0 then Inr (gop_len p) else s32 (fps_out_num p * 2)) (\<lambda>gop.
     rbind (rate_bounds rc_of p) (\<lambda>rates.
       Inr ([(''prep:width'', Num (sint (p_width p))), (''prep:height'', Num (sint (p_height p))),
             (''prep:hor_stride'', Num (sint (p_hor_stride p))), (''prep:ver_stride'', Num (sint (p_ver_stride p))),
             (''prep:format'', Format (p_frameFormat p)), (''rc:mode'', Num (rc_mode p)),
             (''rc:fps_in_flex'', Num (fps_in_flex p)), (''rc:fps_in_num'', Num (fps_in_num p)),
             (''rc:fps_in_denorm'', Num (fps_in_den p)), (''rc:fps_out_flex'', Num (fps_out_flex p)),
             (''rc:fps_out_num'', Num (fps_out_num p)), (''rc:fps_out_denorm'', Num (fps_out_den p)),
             (''rc:gop'', Num gop), (''rc:drop_mode'', Named ''MPP_ENC_RC_DROP_FRM_DISABLED''),
             (''rc:drop_thd'', Num 20), (''rc:drop_gap'', Num 1), (''rc:bps_target'', Num (bps p))] @
            rates @ qp_settings rc_of p @ codec_settings p @ split_settings p @
            [(''prep:mirroring'', Num (sint (mirroring p))), (''prep:rotation'', Num (sint (rotation p))),
             (''prep:flip'', Num (sint (flip p)))])))"

text \<open>
  The answers of \<open>mpp_enc_cfg_init\<close> and of the two \<open>control\<close> calls; the object is released on the
  error paths only.
\<close>

definition setupMppEncCfg ::
  "(int \<Rightarrow> MppEncRcMode) \<Rightarrow> int \<Rightarrow> int \<Rightarrow> int \<Rightarrow> rkmppEnc \<Rightarrow> (rkmppEnc, int) outcome" where
  "setupMppEncCfg rc_of init_ret set_ret header_ret e =
     (if init_ret \<noteq> 0 then (Inr (-1), e)
      else
        (let e1 = e\<lparr>live_enc_cfgs := live_enc_cfgs e + 1\<rparr>
         in case enc_settings rc_of (m_params e) of
              Inl x \<Rightarrow> (Inl x, e1)
            | Inr settings \<Rightarrow>
                if set_ret \<noteq> 0 then (Inr (-1), e)
                else
                  (let e2 = e1\<lparr>applied := Some settings\<rparr>
                   in if p_encoding_type (m_params e) \<in> {MPP_VIDEO_CodingAVC, MPP_VIDEO_CodingHEVC}
                      then (let e3 = e2\<lparr>m_params := (m_params e2)\<lparr>each_idr := True\<rparr>\<rparr>
                            in if header_ret \<noteq> 0 then (Inr (-1), e3\<lparr>live_enc_cfgs := live_enc_cfgs e\<rparr>)
                               else (Inr header_ret, e3))
                      else (Inr set_ret, e2))))"

text \<open>The answers of the calls in \<open>setup\<close>, in their order; 0 is success.\<close>

record enc_setup_answers =
  group_ret :: int
  pkt_ret :: int
  info_ret :: int
  ctx_ret :: int
  timeout_ret :: int
  init_enc_ret :: int
  cfg_init_ret :: int
  cfg_set_ret :: int
  header_ret :: int

definition enc_setup ::
  "(int \<Rightarrow> MppEncRcMode) \<Rightarrow> enc_setup_answers \<Rightarrow> EncodeConfig \<Rightarrow> rkmppEnc \<Rightarrow> (rkmppEnc, int) outcome" where
  "enc_setup rc_of ans cfg e =
     andthen (parseConfig cfg e) (\<lambda>_ e1.
       if group_ret ans \<noteq> 0 then (Inr (-1), e1)
       else
         (let e2 = e1\<lparr>buf_grp := True\<rparr>
          in if pkt_ret ans \<noteq> 0 then (Inr (-1), e2)
             else
               (let e3 = e2\<lparr>pkt_buf := True\<rparr>
                in if info_ret ans \<noteq> 0 then (Inr (-1), e3)
                   else
                     (let e4 = e3\<lparr>md_info := True\<rparr>
                      in if ctx_ret ans \<noteq> 0 then (Inr (-1), e4)
                         else
                           (let e5 = e4\<lparr>enc_ctx := True\<rparr>
                            in if timeout_ret ans \<noteq> 0 \<or> init_enc_ret ans \<noteq> 0 then (Inr (-1), e5)
                               else setupMppEncCfg rc_of (cfg_init_ret ans) (cfg_set_ret ans) (header_ret ans) e5)))))"

section \<open>Encoding\<close>

text \<open>
  \<open>p\<close> is what \<open>mpp_buffer_get\<close> yields when the buffer does not exist yet, \<open>buf_fd\<close> its descriptor. The
  buffer is described as \<open>YUV420SP\<close> whatever the configuration says.
\<close>

definition getInputBuffer :: "ptr \<Rightarrow> (nat \<Rightarrow> fd) \<Rightarrow> rkmppEnc \<Rightarrow> ImageBuffer option \<times> rkmppEnc" where
  "getInputBuffer p buf_fd e =
     (let e' = (if frm_buf e = None then e\<lparr>frm_buf := p\<rparr> else e)
      in case frm_buf e' of
           None \<Rightarrow> (None, e')
         | Some b \<Rightarrow>
             (Some (newImageBuffer\<lparr>nativeHandle := Some b, view := newImageView\<lparr>
                desc := \<lparr>width = p_width (m_params e'), height = p_height (m_params e'),
                  widthStride = p_hor_stride (m_params e'), heightStride = p_ver_stride (m_params e'),
                  format = ''YUV420SP'', dataSize = frame_size e'\<rparr>,
                memoryType := DmaBuf, planeCount := 1,
                planes := (planes newImageView)[0 := newImagePlane\<lparr>plane_data := Some b, plane_size := frame_size e',
                  rowStride := p_hor_stride (m_params e'), plane_fd := buf_fd b\<rparr>]\<rparr>\<rparr>), e'))"

text \<open>
  What \<open>encode_get_packet\<close> answers: \<open>None\<close> is an error, \<open>Some None\<close> no packet. The loop goes on while
  \<open>eoi\<close> is 0; \<open>encode_pkt\<close> is never enlarged, and its \<open>data()\<close> is null when it is empty. The check
  before the copy adds \<open>log_len\<close>, which is still 0, instead of the length of the packet.
\<close>

record enc_packet =
  enc_bytes :: bytes
  is_partition :: bool
  is_eoi :: bool

definition copy_packet :: "nat \<Rightarrow> bytes \<Rightarrow> EncodePacket \<Rightarrow> (nat \<times> EncodePacket) result" where
  "copy_packet out_len d out =
     (if encode_pkt out \<noteq> [] \<and> 0 < max_size out \<and> out_len < max_size out
      then rbind (memcpy_at out_len d (encode_pkt out)) (\<lambda>v. Inr (out_len + length d, out\<lparr>encode_pkt := v\<rparr>))
      else Inr (out_len, out))"

fun get_packets ::
  "bool \<Rightarrow> nat \<Rightarrow> enc_packet option option list \<Rightarrow> rkmppEnc \<times> EncodePacket \<Rightarrow>
    (rkmppEnc \<times> EncodePacket, nat option) outcome" where
  "get_packets eoi out_len [] eo = (Inl Waiting, eo)"
| "get_packets eoi out_len (None # as) eo = (Inr None, eo)"
| "get_packets eoi out_len (Some None # as) eo =
     (if eoi then (Inr (Some out_len), eo) else get_packets eoi out_len as eo)"
| "get_packets eoi out_len (Some (Some p) # as) (e, out) =
     (let e' = (if enc_callback e then e\<lparr>to_callback := to_callback e @ [enc_bytes p]\<rparr> else e)
      in case copy_packet out_len (enc_bytes p) out of
           Inl x \<Rightarrow> (Inl x, (e', out))
         | Inr (n, out') \<Rightarrow>
             (let eoi' = (if is_partition p then is_eoi p else eoi)
              in if eoi' then (Inr (Some n), (e', out')) else get_packets eoi' n as (e', out')))"

definition encode ::
  "int \<Rightarrow> int \<Rightarrow> enc_packet option option list \<Rightarrow> ImageBuffer \<Rightarrow> rkmppEnc \<times> EncodePacket \<Rightarrow>
    (rkmppEnc \<times> EncodePacket, int) outcome" where
  "encode frame_ret put_ret as input eo =
     (if frame_ret \<noteq> 0 then (Inr (-1), eo)
      else if nativeHandle input = None then (Inl (Throw ''bad any_cast''), eo)
      else if put_ret \<noteq> 0 then (Inr (-1), eo)
      else andthen (get_packets True 0 as eo) (\<lambda>r (e, out).
        case r of None \<Rightarrow> (Inr (-1), (e, out))
        | Some n \<Rightarrow> (Inr (sint (word_of_nat n :: u32)), (e, out\<lparr>pkt_len := n\<rparr>))))"

text \<open>\<open>None\<close> when the call for the header fails.\<close>

definition getEncoderHeader :: "bytes option \<Rightarrow> bytes \<Rightarrow> rkmppEnc \<Rightarrow> int \<times> bytes" where
  "getEncoderHeader answer headBuf e =
     (if p_encoding_type (m_params e) \<in> {MPP_VIDEO_CodingAVC, MPP_VIDEO_CodingHEVC}
      then (case answer of None \<Rightarrow> (-1, headBuf) | Some h \<Rightarrow> (sint (word_of_nat (length h) :: u32), h))
      else (0, headBuf))"

section \<open>Alignment and sizes\<close>

lemma and_not_mask_word: "(w :: 'a :: len word) AND NOT (mask k) = push_bit k (drop_bit k w)"
  by (rule bit_word_eqI) (auto simp: bit_simps)

lemma unat_exp_u32:
  assumes "k < 32"
  shows "unat (2 ^ k :: u32) = 2 ^ k"
proof -
  have "unat (word_of_nat (2 ^ k) :: u32) = take_bit 32 (2 ^ k)" by (simp only: unsigned_of_nat) simp
  also have "\<dots> = 2 ^ k"
    using power_strict_increasing [of k 32 "2 :: nat"] assms by (intro take_bit_nat_eq_self) simp
  finally show ?thesis by simp
qed

lemma unat_mask_u32: "k < 32 \<Longrightarrow> unat (mask k :: u32) = 2 ^ k - 1"
  unfolding mask_eq_exp_minus_1 by (simp add: unat_minus_one unat_exp_u32)

lemma sint_small: "unat (w :: u32) < 2 ^ 31 \<Longrightarrow> sint w = int (unat w)"
  using sint_word_of_nat [of "unat w"] by simp

lemma unat_align:
  assumes "unat x + 2 ^ k \<le> 2 ^ 32" and "0 < k" and "k < 32"
  shows "unat (MPP_ALIGN x (2 ^ k)) = (unat x + (2 ^ k - 1)) div 2 ^ k * 2 ^ k"
proof -
  have m: "MPP_ALIGN x (2 ^ k) = push_bit k (drop_bit k (x + mask k))"
    by (simp add: MPP_ALIGN_def mask_eq_exp_minus_1 and_not_mask_word [unfolded mask_eq_exp_minus_1] add_diff_eq)
  have "unat (mask k :: u32) = 2 ^ k - 1" by (rule unat_mask_u32 [OF assms(3)])
  then have s: "unat (x + mask k) = unat x + (2 ^ k - 1)"
    using assms(1) by (simp add: unat_word_ariths)
  let ?q = "(unat x + (2 ^ k - 1)) div 2 ^ k"
  have d: "unat (drop_bit k (x + mask k)) = ?q" by (subst unat_drop_bit_eq) (simp only: s drop_bit_eq_div)
  have "?q * 2 ^ k \<le> unat x + (2 ^ k - 1)" by (rule div_times_less_eq_dividend)
  also have "\<dots> < 2 ^ 32"
    using assms(1) one_le_power [of "2 :: nat" k] by linarith
  finally have "?q * 2 ^ k < 2 ^ 32" .
  then show ?thesis by (simp add: m push_bit_eq_mult unat_word_ariths d unat_exp_u32 [OF assms(3)])
qed

lemma align_bounds:
  assumes "unat x + 2 ^ k \<le> 2 ^ 32" and "0 < k" and "k < 32"
  shows "unat x \<le> unat (MPP_ALIGN x (2 ^ k))" and "unat (MPP_ALIGN x (2 ^ k)) < unat x + 2 ^ k"
proof -
  let ?n = "unat x + (2 ^ k - 1)" and ?m = "2 ^ k :: nat"
  have "?n div ?m * ?m + ?n mod ?m = ?n" by (rule div_mult_mod_eq)
  moreover have "?n mod ?m < ?m" by simp
  moreover have "0 < ?m" by simp
  ultimately have "unat x \<le> ?n div ?m * ?m" "?n div ?m * ?m < unat x + ?m" by linarith+
  then show "unat x \<le> unat (MPP_ALIGN x (2 ^ k))" "unat (MPP_ALIGN x (2 ^ k)) < unat x + 2 ^ k"
    by (simp_all only: unat_align [OF assms])
qed

text \<open>What a configuration that is accepted leaves behind.\<close>

lemma derive_strides_sel:
  "p_hor_stride (derive_strides p) = (if p_hor_stride p = 0 then MPP_ALIGN (p_width p) 16 else p_hor_stride p)"
  "p_ver_stride (derive_strides p) = (if p_ver_stride p = 0 then MPP_ALIGN (p_height p) 16 else p_ver_stride p)"
  "p_width (derive_strides p) = p_width p" "p_height (derive_strides p) = p_height p"
  "p_frameFormat (derive_strides p) = p_frameFormat p" "bps (derive_strides p) = bps p"
  "fps_out_num (derive_strides p) = fps_out_num p" "fps_out_den (derive_strides p) = fps_out_den p"
  by (simp_all add: derive_strides_def Let_def)

lemma derive_bps_Inr:
  assumes "derive_bps p = Inr q"
  shows "p_hor_stride q = p_hor_stride p" "p_ver_stride q = p_ver_stride p" "p_width q = p_width p"
    "p_height q = p_height p" "p_frameFormat q = p_frameFormat p"
  using assms by (auto simp: derive_bps_def split: if_splits)

lemma parseConfig_result:
  assumes "parseConfig cfg e = (Inr r, e')"
  shows "strToMppFrameFormat (cfg_frameFormat cfg) = Inr (p_frameFormat (m_params e'))"
    and "p_hor_stride (m_params e') =
      (if cfg_hor_stride cfg = 0 then MPP_ALIGN (cfg_width cfg) 16 else cfg_hor_stride cfg)"
    and "p_ver_stride (m_params e') =
      (if cfg_ver_stride cfg = 0 then MPP_ALIGN (cfg_height cfg) 16 else cfg_ver_stride cfg)"
    and "frame_size e' = nat (calculateFrameSize (p_frameFormat (m_params e')) (m_params e') mod 2 ^ 64)"
    and "p_width (m_params e') = cfg_width cfg" and "p_height (m_params e') = cfg_height cfg"
proof -
  define p where "p = (m_params e)\<lparr>p_width := cfg_width cfg, p_height := cfg_height cfg,
    p_hor_stride := cfg_hor_stride cfg, p_ver_stride := cfg_ver_stride cfg\<rparr>"
  obtain f where f: "strToMppFrameFormat (cfg_frameFormat cfg) = Inr f"
    using assms by (cases "strToMppFrameFormat (cfg_frameFormat cfg)") (simp_all add: parseConfig_def Let_def)
  obtain q where q: "derive_bps (derive_strides (p\<lparr>p_frameFormat := f\<rparr>)) = Inr q"
    using assms by (cases "derive_bps (derive_strides (p\<lparr>p_frameFormat := f\<rparr>))")
      (simp_all add: parseConfig_def Let_def f p_def)
  have e': "m_params e' = q" "frame_size e' = nat (calculateFrameSize f q mod 2 ^ 64)"
    using assms q unfolding parseConfig_def p_def by (auto simp: f)
  note sel = derive_bps_Inr [OF q] derive_strides_sel
  show "strToMppFrameFormat (cfg_frameFormat cfg) = Inr (p_frameFormat (m_params e'))"
    "frame_size e' = nat (calculateFrameSize (p_frameFormat (m_params e')) (m_params e') mod 2 ^ 64)"
    by (simp_all add: f e' sel)
  show "p_hor_stride (m_params e') = (if cfg_hor_stride cfg = 0 then MPP_ALIGN (cfg_width cfg) 16 else cfg_hor_stride cfg)"
    "p_ver_stride (m_params e') = (if cfg_ver_stride cfg = 0 then MPP_ALIGN (cfg_height cfg) 16 else cfg_ver_stride cfg)"
    "p_width (m_params e') = cfg_width cfg" "p_height (m_params e') = cfg_height cfg"
    by (simp_all add: e' sel p_def)
qed

lemma stride_bounds:
  fixes w st :: u32
  assumes "s = (if st = 0 then MPP_ALIGN w 16 else st)" and "n = (if st = 0 then unat w + 15 else unat st)"
    and "n + 63 < 2 ^ 32"
  shows "unat s \<le> n" and "st = 0 \<Longrightarrow> unat w \<le> unat s"
proof -
  have "unat w \<le> unat s \<and> unat s \<le> n" if "st = 0"
    using align_bounds [of w 4] assms that by simp
  then show "unat s \<le> n" "st = 0 \<Longrightarrow> unat w \<le> unat s"
    using assms by (cases "st = 0"; simp)+
qed

text \<open>
  C28. The input buffer of the encoder holds the picture: when a configuration for a planar or
  semi-planar 4:2:0 picture is accepted and the picture is small enough for the 32-bit products,
  the size of the buffer is at least one and a half times the product of the strides the encoder
  works with, and strides it derives itself are not below width and height.
\<close>

theorem frame_buffer_suffices:
  assumes "parseConfig cfg e = (Inr r, e')" and "p_frameFormat (m_params e') \<in> {MPP_FMT_YUV420SP, MPP_FMT_YUV420P}"
    and "w = (if cfg_hor_stride cfg = 0 then unat (cfg_width cfg) + 15 else unat (cfg_hor_stride cfg))"
    and "h = (if cfg_ver_stride cfg = 0 then unat (cfg_height cfg) + 15 else unat (cfg_ver_stride cfg))"
    and "(w + 63) * (h + 63) * 3 < 2 ^ 32"
  shows "unat (p_hor_stride (m_params e')) * unat (p_ver_stride (m_params e')) * 3 div 2 \<le> frame_size e' \<and>
     (cfg_hor_stride cfg = 0 \<longrightarrow> unat (cfg_width cfg) \<le> unat (p_hor_stride (m_params e'))) \<and>
     (cfg_ver_stride cfg = 0 \<longrightarrow> unat (cfg_height cfg) \<le> unat (p_ver_stride (m_params e')))"
proof -
  let ?hs = "p_hor_stride (m_params e')" and ?vs = "p_ver_stride (m_params e')"
  note parsed = parseConfig_result [OF assms(1)]
  have "(w + 63) * 1 \<le> (w + 63) * ((h + 63) * 3)" "(h + 63) * 1 \<le> (h + 63) * ((w + 63) * 3)"
    by (rule mult_le_mono2; simp)+
  then have small: "w + 63 < 2 ^ 32" "h + 63 < 2 ^ 32" using assms(5) by (simp_all add: algebra_simps)
  note hs = stride_bounds [OF parsed(2) assms(3) small(1)] and vs = stride_bounds [OF parsed(3) assms(4) small(2)]
  define A where "A = MPP_ALIGN ?hs 64"
  define B where "B = MPP_ALIGN ?vs 64"
  have A: "unat ?hs \<le> unat A" "unat A \<le> w + 63" using align_bounds [of ?hs 6] hs(1) small(1) by (simp_all add: A_def)
  have B: "unat ?vs \<le> unat B" "unat B \<le> h + 63" using align_bounds [of ?vs 6] vs(1) small(2) by (simp_all add: B_def)
  have "unat A * unat B * 3 \<le> (w + 63) * (h + 63) * 3" using A(2) B(2) by (intro mult_le_mono) simp_all
  then have room: "unat A * unat B * 3 < 2 ^ 32" using assms(5) by linarith
  then have "unat (A * B) = unat A * unat B" by (simp add: unat_word_ariths)
  then have "unat (A * B * 3) = unat A * unat B * 3" using room by (simp add: unat_word_ariths)
  then have n: "unat (A * B * 3 div 2) = unat A * unat B * 3 div 2" by (simp add: unat_div)
  have "unat A * unat B * 3 div 2 < 2 ^ 31" using room by simp
  then have size: "sint (A * B * 3 div 2) = int (unat A * unat B * 3 div 2)" using n sint_small by metis
  define n where "n = unat A * unat B * 3 div 2"
  have n64: "n < 2 ^ 64" using room by (simp add: n_def)
  have "calculateFrameSize (p_frameFormat (m_params e')) (m_params e') = sint (A * B * 3 div 2)"
    using assms(2) by (simp only: calculateFrameSize_def Let_def A_def B_def if_True)
  then have "frame_size e' = nat (int n mod 2 ^ 64)" unfolding parsed(4) size n_def by (simp only:)
  also have "\<dots> = n" using n64 by simp
  finally have "frame_size e' = unat A * unat B * 3 div 2" by (simp only: n_def)
  moreover have "unat ?hs * unat ?vs * 3 div 2 \<le> unat A * unat B * 3 div 2"
    using A(1) B(1) by (intro div_le_mono mult_le_mono) simp_all
  ultimately show ?thesis using hs(2) vs(2) by simp
qed

definition full_hd :: EncodeConfig where
  "full_hd = \<lparr>encodingType = ''h264'', cfg_frameFormat = ''YUV420SP'', cfg_fps = 30, cfg_width = 1920,
     cfg_height = 1080, cfg_hor_stride = 0, cfg_ver_stride = 0\<rparr>"

lemma full_hd_parsed: "\<exists>e'. parseConfig full_hd newRkmppEnc = (Inr 0, e') \<and> p_frameFormat (m_params e') = MPP_FMT_YUV420SP"
proof -
  have "strToMppFrameFormat ''YUV420SP'' = Inr MPP_FMT_YUV420SP"
    by (simp add: strToMppFrameFormat_def strToMppFrameFormatMap_def at_table_def)
  then show ?thesis
    by (simp add: parseConfig_def full_hd_def newRkmppEnc_def newRkmppEncParams_def derive_bps_def derive_strides_def)
qed

theorem frame_buffer_suffices_witness:
  "\<exists>e'. parseConfig full_hd newRkmppEnc = (Inr 0, e') \<and> 1920 \<le> unat (p_hor_stride (m_params e')) \<and>
     1920 * 1080 * 3 div 2 \<le> frame_size e'"
proof -
  obtain e' where e': "parseConfig full_hd newRkmppEnc = (Inr 0, e')" "p_frameFormat (m_params e') = MPP_FMT_YUV420SP"
    using full_hd_parsed by blast
  have fmt: "p_frameFormat (m_params e') \<in> {MPP_FMT_YUV420SP, MPP_FMT_YUV420P}" using e'(2) by simp
  note suffices = frame_buffer_suffices [OF e'(1) fmt refl refl]
  have bounds: "unat (p_hor_stride (m_params e')) * unat (p_ver_stride (m_params e')) * 3 div 2 \<le> frame_size e'"
    "1920 \<le> unat (p_hor_stride (m_params e'))" "1080 \<le> unat (p_ver_stride (m_params e'))"
    using suffices by (simp_all add: full_hd_def)
  have "1920 * 1080 * 3 div 2 \<le> unat (p_hor_stride (m_params e')) * unat (p_ver_stride (m_params e')) * 3 div 2"
    using bounds(2,3) by (intro div_le_mono mult_le_mono) simp_all
  then show ?thesis using bounds e'(1) by (intro exI [of _ e']) simp
qed

text \<open>
  Pictures with three or four bytes per pixel get one byte per pixel: the strides are counted in
  pixels here, although the size is the one for strides in bytes.
\<close>

lemma rgb_frame_too_small:
  "calculateFrameSize MPP_FMT_RGB888 (newRkmppEncParams\<lparr>p_hor_stride := 64, p_ver_stride := 64\<rparr>) = 4096"
  by (simp add: calculateFrameSize_def MPP_ALIGN_def newRkmppEncParams_def)

text \<open>Coding and frame rate of the configuration are not looked at.\<close>

lemma coding_and_fps_ignored: "parseConfig (cfg\<lparr>encodingType := t, cfg_fps := n\<rparr>) e = parseConfig cfg e"
  by (simp add: parseConfig_def)

section \<open>Bit rates\<close>

text \<open>
  The bit rates handed to the platform are ordered and computed without overflow, unless they are
  fixed by hand or the picture is enormous.
\<close>

lemma rate_bounds_ordered:
  assumes "0 \<le> bps p" and "bps p * 17 < 2 ^ 31" and "bps_max p = 0" and "bps_min p = 0"
    and "rc_of (rc_mode p) \<noteq> MPP_ENC_RC_MODE_FIXQP"
  shows "\<exists>u l. rate_bounds rc_of p = Inr [(''rc:bps_max'', Num u), (''rc:bps_min'', Num l)] \<and>
    0 \<le> l \<and> l \<le> bps p \<and> bps p \<le> u"
proof -
  have s: "s32 (bps p * k) = Inr (bps p * k)" "bps p * k sdiv 16 = bps p * k div 16" "bps p * k div 16 \<le> bps p * k"
    if "1 \<le> k" "k \<le> 17" for k
  proof -
    have "0 \<le> bps p * k" "bps p * k \<le> bps p * 17" using assms(1) that by (simp_all add: mult_left_mono)
    then show "s32 (bps p * k) = Inr (bps p * k)" "bps p * k sdiv 16 = bps p * k div 16" "bps p * k div 16 \<le> bps p * k"
      using assms(2) by (simp_all add: s32_def signed_divide_int_def sgn_if)
  qed
  have low: "0 \<le> bps p * k div 16 \<and> bps p * k div 16 \<le> bps p" if "1 \<le> k" "k \<le> 16" for k
  proof -
    have "bps p * k \<le> bps p * 16" using assms(1) that by (simp add: mult_left_mono)
    moreover have "0 \<le> bps p * k" using assms(1) that by simp
    ultimately show ?thesis by (simp add: zdiv_mono1 [of "bps p * k" "bps p * 16" 16, simplified] pos_imp_zdiv_nonneg_iff)
  qed
  have "bps p \<le> bps p * 17 div 16" using assms(1) by simp
  then show ?thesis
    using s [of 17] s [of 15] s [of 1] low [of 15] low [of 1] assms(3-5)
    by (cases "rc_of (rc_mode p)") (simp_all add: rate_bounds_def)
qed

section \<open>The output of encode\<close>

text \<open>
  The packets of one frame: single, or partitions of which the last is marked. \<open>ends\<close> says that the
  loop stops after the last one.
\<close>

definition ends :: "bool \<Rightarrow> enc_packet list \<Rightarrow> enc_packet \<Rightarrow> bool" where
  "ends eoi qs p \<longleftrightarrow> list_all (\<lambda>q. is_partition q \<and> \<not> is_eoi q) qs \<and>
     (if is_partition p then is_eoi p else eoi \<and> qs = [])"

definition notified :: "rkmppEnc \<Rightarrow> enc_packet list \<Rightarrow> rkmppEnc" where
  "notified e ps = (if enc_callback e then e\<lparr>to_callback := to_callback e @ map enc_bytes ps\<rparr> else e)"

lemma notified_simps:
  "notified (notified e ps) qs = notified e (ps @ qs)"
  "(if enc_callback e then e\<lparr>to_callback := to_callback e @ [enc_bytes p]\<rparr> else e) = notified e [p]"
  by (simp_all add: notified_def)

lemma copy_packet_fits:
  assumes "out_len + length d \<le> length (encode_pkt out)" and "max_size out = length (encode_pkt out)"
  shows "copy_packet out_len d out = Inr (out_len + length d, out\<lparr>encode_pkt :=
    take out_len (encode_pkt out) @ d @ drop (out_len + length d) (encode_pkt out)\<rparr>)"
proof (cases "out_len < max_size out")
  case True
  then have "encode_pkt out \<noteq> []" using assms(2) by auto
  then show ?thesis using True assms by (simp add: copy_packet_def memcpy_at_ok)
next
  case False
  then have "length d = 0" using assms by linarith
  then have "d = []" by simp
  then show ?thesis using False assms by (cases out) (simp add: copy_packet_def)
qed

lemma get_packets_collects:
  assumes "ends eoi qs p" and "max_size out = length (encode_pkt out)"
    and "out_len + length (concat (map enc_bytes (qs @ [p]))) \<le> length (encode_pkt out)"
  shows "get_packets eoi out_len (map (\<lambda>p. Some (Some p)) (qs @ [p]) @ rest) (e, out) =
    (let d = concat (map enc_bytes (qs @ [p])); n = out_len + length d
     in (Inr (Some n), (notified e (qs @ [p]),
          out\<lparr>encode_pkt := take out_len (encode_pkt out) @ d @ drop n (encode_pkt out)\<rparr>)))"
  using assms
proof (induction qs arbitrary: eoi out_len e out)
  case Nil
  then show ?case
    using copy_packet_fits [of out_len "enc_bytes p" out]
    by (simp add: ends_def notified_simps Let_def)
next
  case (Cons q qs)
  let ?v = "encode_pkt out"
  define v where "v = take out_len ?v @ enc_bytes q @ drop (out_len + length (enc_bytes q)) ?v"
  define ds where "ds = concat (map enc_bytes (qs @ [p]))"
  have room: "out_len + length (enc_bytes q) + length ds \<le> length ?v" using Cons.prems(3) by (simp add: ds_def)
  have q: "is_partition q" "\<not> is_eoi q" "ends False qs p" using Cons.prems(1) by (auto simp: ends_def split: if_splits)
  have copy: "copy_packet out_len (enc_bytes q) out = Inr (out_len + length (enc_bytes q), out\<lparr>encode_pkt := v\<rparr>)"
    unfolding v_def using room Cons.prems(2) by (intro copy_packet_fits) simp_all
  have len: "length v = length ?v" using room by (simp add: v_def)
  have step: "get_packets eoi out_len (map (\<lambda>p. Some (Some p)) ((q # qs) @ [p]) @ rest) (e, out) =
      get_packets False (out_len + length (enc_bytes q)) (map (\<lambda>p. Some (Some p)) (qs @ [p]) @ rest)
        (notified e [q], out\<lparr>encode_pkt := v\<rparr>)"
    using q copy by (simp add: notified_simps Let_def)
  have "take (out_len + length (enc_bytes q)) v = take out_len ?v @ enc_bytes q"
    "drop (out_len + length (enc_bytes q) + length ds) v = drop (out_len + length (enc_bytes q) + length ds) ?v"
    using room by (simp_all add: v_def add.commute add.left_commute)
  moreover have "get_packets False (out_len + length (enc_bytes q)) (map (\<lambda>p. Some (Some p)) (qs @ [p]) @ rest)
        (notified e [q], out\<lparr>encode_pkt := v\<rparr>) =
      (Inr (Some (out_len + length (enc_bytes q) + length ds)), (notified e ((q # qs) @ [p]),
        out\<lparr>encode_pkt := take (out_len + length (enc_bytes q)) v @ ds @
          drop (out_len + length (enc_bytes q) + length ds) v\<rparr>))"
    using Cons.IH [OF q(3), of "out\<lparr>encode_pkt := v\<rparr>" "out_len + length (enc_bytes q)" "notified e [q]"]
      Cons.prems(2) len room
    by (simp only: Let_def ds_def notified_simps append_Cons append_Nil) simp
  moreover have "concat (map enc_bytes ((q # qs) @ [p])) = enc_bytes q @ ds" by (simp add: ds_def)
  ultimately show ?case unfolding step Let_def by (simp add: add.assoc)
qed

text \<open>
  \<open>encode\<close> collects the frame: when the platform takes the frame and answers with its packets,
  one or several partitions, and the vector has room for all of them, the result and \<open>pkt_len\<close> are
  the number of bytes, the vector starts with the packets one behind the other and keeps its
  length, and the callback, if there is one, has been given the packets in this order.
\<close>

theorem encode_collects:
  assumes "ends True qs p" and "nativeHandle input \<noteq> None"
    and "length (concat (map enc_bytes (qs @ [p]))) \<le> length (encode_pkt out)"
    and "max_size out = length (encode_pkt out)" and "length (encode_pkt out) < 2 ^ 31"
  shows "\<exists>out'. encode 0 0 (map (\<lambda>p. Some (Some p)) (qs @ [p]) @ rest) input (e, out) =
       (Inr (int (pkt_len out')), (notified e (qs @ [p]), out')) \<and>
     take (pkt_len out') (encode_pkt out') = concat (map enc_bytes (qs @ [p])) \<and>
     pkt_len out' = length (concat (map enc_bytes (qs @ [p]))) \<and> length (encode_pkt out') = length (encode_pkt out)"
proof -
  define d where "d = concat (map enc_bytes (qs @ [p]))"
  have run: "get_packets True 0 (map (\<lambda>p. Some (Some p)) (qs @ [p]) @ rest) (e, out) =
      (Inr (Some (length d)), (notified e (qs @ [p]), out\<lparr>encode_pkt := d @ drop (length d) (encode_pkt out)\<rparr>))"
    using get_packets_collects [OF assms(1,4), of 0 rest e] assms(3) by (simp add: d_def Let_def del: map_append)
  have "length d < 2 ^ 31" using assms(3,5) unfolding d_def by linarith
  then have "sint (word_of_nat (length d) :: u32) = int (length d)" by simp
  then show ?thesis
    using assms(2,3) unfolding d_def [symmetric]
    by (intro exI [of _ "out\<lparr>encode_pkt := d @ drop (length d) (encode_pkt out), pkt_len := length d\<rparr>"])
      (simp add: encode_def run del: map_append)
qed

definition two_partitions :: "enc_packet list" where
  "two_partitions = [\<lparr>enc_bytes = [1, 2, 3], is_partition = True, is_eoi = False\<rparr>,
     \<lparr>enc_bytes = [4, 5], is_partition = True, is_eoi = True\<rparr>]"

theorem encode_collects_witness:
  "\<exists>out'. encode 0 0 (map (\<lambda>p. Some (Some p)) two_partitions) (newImageBuffer\<lparr>nativeHandle := Some 1\<rparr>)
       (newRkmppEnc, \<lparr>max_size = 8, pkt_len = 0, encode_pkt = replicate 8 0\<rparr>) = (Inr 5, (newRkmppEnc, out')) \<and>
     take 5 (encode_pkt out') = [1, 2, 3, 4, (5 :: byte)]"
proof -
  let ?p = "\<lparr>enc_bytes = [4, 5], is_partition = True, is_eoi = True\<rparr>"
  let ?q = "\<lparr>enc_bytes = [1, 2, 3], is_partition = True, is_eoi = False\<rparr>"
  let ?out = "\<lparr>max_size = 8, pkt_len = 0, encode_pkt = replicate 8 0\<rparr>"
  let ?in = "newImageBuffer\<lparr>nativeHandle := Some 1\<rparr>"
  have prems: "ends True [?q] ?p" "nativeHandle ?in \<noteq> None"
    "length (concat (map enc_bytes ([?q] @ [?p]))) \<le> length (encode_pkt ?out)"
    "max_size ?out = length (encode_pkt ?out)" "length (encode_pkt ?out) < 2 ^ 31"
    by (simp_all add: ends_def newImageBuffer_def)
  have "notified newRkmppEnc [?q, ?p] = newRkmppEnc" by (simp add: notified_def newRkmppEnc_def)
  then show ?thesis
    using encode_collects [OF prems, of "[]" newRkmppEnc] by (auto simp: two_partitions_def eval_nat_numeral)
qed

text \<open>The bound before the copy does not count the packet: a packet that is too long is written past the vector.\<close>

lemma encode_overflow:
  assumes "out_len < max_size out" and "max_size out = length (encode_pkt out)"
    and "length (encode_pkt out) < out_len + length d"
  shows "\<exists>f. copy_packet out_len d out = Inl f"
  using assms by (auto simp: copy_packet_def memcpy_at_def)

end
