(* ===== verification/DnnEngine.thy ===== *)
theory DnnEngine
  imports YoloPostProcess
begin

text \<open>
  The inference engine: \<open>bsp_dnn/IDnnEngine\<close> and its implementation \<open>dnnEngine_impl/rknn\<close>. The RKNN
  runtime is not part of the repository: what its calls answer is in the arguments. The interface is
  a record of functions with a locale for its contract: outputs that were handed out are given back.
\<close>

section \<open>The interface\<close>

record dnnInputShape =
  shape_width :: nat
  shape_height :: nat
  shape_channel :: nat

record dnnInput =
  in_index :: nat
  in_buf :: bytes
  in_size :: nat
  in_shape :: dnnInputShape
  in_dataType :: string

definition newDnnInput :: dnnInput where
  "newDnnInput = \<lparr>in_index = 0, in_buf = [], in_size = 0,
     in_shape = \<lparr>shape_width = 0, shape_height = 0, shape_channel = 0\<rparr>, in_dataType = ''UINT8''\<rparr>"

definition newDnnOutput :: dnnOutput where
  "newDnnOutput = \<lparr>tensor_index = 0, tensor_buf = None, tensor_size = 0, dataType = ''INT8''\<rparr>"

record ('e, 'f) IDnnEngine =
  eng_loadModel :: "string \<Rightarrow> 'e \<Rightarrow> ('e, unit) outcome"
  eng_getInputShape :: "'e \<Rightarrow> (int \<times> dnnInputShape) result"
  eng_getOutputQuantParams :: "int list \<Rightarrow> 'f list \<Rightarrow> 'e \<Rightarrow> (int \<times> int list \<times> 'f list) result"
  eng_pushInputData :: "dnnInput \<Rightarrow> 'e \<Rightarrow> ('e, int) outcome"
  eng_popOutputData :: "dnnOutput list \<Rightarrow> 'e \<Rightarrow> ('e, int \<times> dnnOutput list) outcome"
  eng_runInference :: "'e \<Rightarrow> ('e, int) outcome"
  eng_releaseOutputData :: "dnnOutput list \<Rightarrow> 'e \<Rightarrow> 'e \<times> int \<times> dnnOutput list"

text \<open>
  \<open>lent\<close> counts the sets of outputs that are in the hands of the caller: one more after a pop, and a
  release gives one back.
\<close>

locale engine_outputs =
  fixes E :: "('e, 'f) IDnnEngine" and lent :: "'e \<Rightarrow> nat" and ready :: "'e \<Rightarrow> bool"
  assumes push_lent: "ready e \<Longrightarrow> lent (snd (eng_pushInputData E inp e)) = lent e \<and>
      ready (snd (eng_pushInputData E inp e))"
    and run_lent: "ready e \<Longrightarrow> lent (snd (eng_runInference E e)) = lent e \<and> ready (snd (eng_runInference E e))"
    and pop_lent: "ready e \<Longrightarrow> lent (snd (eng_popOutputData E outs e)) \<le> lent e + 1 \<and>
      ready (snd (eng_popOutputData E outs e))"
    and release_lent: "ready e \<Longrightarrow> lent (fst (eng_releaseOutputData E outs e)) = lent e - 1 \<and>
      ready (fst (eng_releaseOutputData E outs e))"
begin

text \<open>One inference: whatever the calls answer, a release at the end leaves nothing with the caller.\<close>

lemma inference_balanced:
  assumes "ready e" and "lent e = 0"
    and "eng_pushInputData E inp e = (r1, e1)" and "eng_runInference E e1 = (r2, e2)"
    and "eng_popOutputData E outs e2 = (r3, e3)" and "eng_releaseOutputData E outs' e3 = (e4, r4)"
  shows "lent e3 \<le> 1" and "ready e3" and "lent e4 = 0" and "ready e4"
proof -
  have "lent e1 = 0" "ready e1" using push_lent [OF assms(1), of inp] assms(2,3) by simp_all
  then have "lent e2 = 0" "ready e2" using run_lent [of e1] assms(4) by simp_all
  then show e3: "lent e3 \<le> 1" "ready e3" using pop_lent [of e2 outs] assms(5) by simp_all
  then show "lent e4 = 0" "ready e4" using release_lent [OF e3(2), of outs'] assms(6) by simp_all
qed

end

section \<open>rknn\<close>

text \<open>Types of the runtime: the attributes of a tensor, its memory layout, one output.\<close>

datatype rknn_tensor_format = RKNN_TENSOR_NCHW | RKNN_TENSOR_NHWC

datatype rknn_tensor_type = RKNN_TENSOR_FLOAT32 | RKNN_TENSOR_FLOAT16 | RKNN_TENSOR_INT8 | RKNN_TENSOR_UINT8 |
  RKNN_TENSOR_INT16 | RKNN_TENSOR_UINT16 | RKNN_TENSOR_INT32 | RKNN_TENSOR_UINT32 | RKNN_TENSOR_INT64 |
  RKNN_TENSOR_BOOL | RKNN_TENSOR_INT4 | RKNN_TENSOR_BFLOAT16

record 'f rknn_tensor_attr =
  attr_index :: nat
  attr_fmt :: rknn_tensor_format
  attr_dims :: "u32 list"
  attr_zp :: int
  attr_scale :: 'f

record rknn_input =
  input_index :: nat
  input_type :: rknn_tensor_type
  input_size :: u32
  input_fmt :: rknn_tensor_format
  input_buf :: bytes

record rknn_output =
  output_index :: nat
  want_float :: bool
  output_buf :: "bytes option"
  output_size :: nat

record 'f rknn =
  m_model_data :: "bytes option"
  m_model_size :: int
  m_rknnCtx :: bool
  n_input :: nat
  n_output :: nat
  m_input_attrs :: "'f rknn_tensor_attr list"
  m_output_attrs :: "'f rknn_tensor_attr list"
  m_inputs :: "rknn_input option"
  m_outputs :: "rknn_output list"
  outputs_lent :: nat

definition newRknn :: "'f rknn" where
  "newRknn = \<lparr>m_model_data = None, m_model_size = 0, m_rknnCtx = False, n_input = 0, n_output = 0,
     m_input_attrs = [], m_output_attrs = [], m_inputs = None, m_outputs = [], outputs_lent = 0\<rparr>"

definition destroyRknn :: "'f rknn \<Rightarrow> 'f rknn" where
  "destroyRknn r = r\<lparr>m_rknnCtx := False, m_model_data := None\<rparr>"

definition dataTypeMap :: "(string \<times> rknn_tensor_type) list" where
  "dataTypeMap =
    [(''FP32'', RKNN_TENSOR_FLOAT32), (''FP16'', RKNN_TENSOR_FLOAT16), (''INT8'', RKNN_TENSOR_INT8),
     (''UINT8'', RKNN_TENSOR_UINT8), (''INT16'', RKNN_TENSOR_INT16), (''UINT16'', RKNN_TENSOR_UINT16),
     (''INT32'', RKNN_TENSOR_INT32), (''UINT32'', RKNN_TENSOR_UINT32), (''INT64'', RKNN_TENSOR_INT64),
     (''BOOL'', RKNN_TENSOR_BOOL), (''INT4'', RKNN_TENSOR_INT4), (''BFLOAT16'', RKNN_TENSOR_BFLOAT16)]"

text \<open>
  The model file: \<open>None\<close> when it does not open, otherwise its bytes; the size passes through an
  \<open>int32_t\<close>, and \<open>seek_ret\<close> is what the second \<open>fseek\<close> answers. The result is \<open>None\<close> for a null
  pointer. How much \<open>fread\<close> reads is not checked.
\<close>

definition loadModelData :: "bytes \<Rightarrow> int \<Rightarrow> int \<Rightarrow> bytes option result" where
  "loadModelData file seek_ret sz =
     (if seek_ret \<noteq> 0 then Inr None
      else if sz < 0 then Inl (Throw ''bad_array_new_length'')
      else Inr (Some (take (nat sz) file)))"

definition loadModelFile :: "bytes option \<Rightarrow> int \<Rightarrow> 'f rknn \<Rightarrow> ('f rknn, bytes option) outcome" where
  "loadModelFile file seek_ret r =
     (case file of None \<Rightarrow> (Inr None, r)
      | Some f \<Rightarrow>
          (let sz = sint (word_of_nat (length f) :: u32)
           in (loadModelData f seek_ret sz, r\<lparr>m_model_size := sz\<rparr>)))"

text \<open>
  The answers while a model is loaded: \<open>rknn_init\<close>, the numbers of inputs and outputs and their
  attributes, \<open>None\<close> where a query fails, which only is logged.
\<close>

record 'f load_answers =
  la_file :: "bytes option"
  la_seek :: int
  la_init :: int
  la_io_num :: "(nat \<times> nat) option"
  la_input_attr :: "nat \<Rightarrow> 'f rknn_tensor_attr option"
  la_output_attr :: "nat \<Rightarrow> 'f rknn_tensor_attr option"

definition query_attrs :: "'f \<Rightarrow> (nat \<Rightarrow> 'f rknn_tensor_attr option) \<Rightarrow> nat \<Rightarrow> 'f rknn_tensor_attr list" where
  "query_attrs zero answer n =
     map (\<lambda>i. case answer i of Some a \<Rightarrow> a
       | None \<Rightarrow> \<lparr>attr_index = i, attr_fmt = RKNN_TENSOR_NCHW, attr_dims = replicate 16 0, attr_zp = 0,
           attr_scale = zero\<rparr>) [0..<n]"

definition loadModel :: "'f \<Rightarrow> 'f load_answers \<Rightarrow> string \<Rightarrow> 'f rknn \<Rightarrow> ('f rknn, unit) outcome" where
  "loadModel zero ans modelPath r =
     (if modelPath = [] then (Inl (Throw ''modelPath is empty.''), r)
      else andthen (loadModelFile (la_file ans) (la_seek ans) r) (\<lambda>data r1.
        let r2 = r1\<lparr>m_model_data := data\<rparr>
        in if data = None then (Inl (Throw ''load model failed.''), r2)
           else if la_init ans < 0 then (Inl (Throw ''rknn_init failed.''), r2)
           else
             (let (ni, no) = (case la_io_num ans of None \<Rightarrow> (n_input r2, n_output r2) | Some io \<Rightarrow> io)
              in (Inr (), r2\<lparr>m_rknnCtx := True, n_input := ni, n_output := no,
                    m_input_attrs := query_attrs zero (la_input_attr ans) ni,
                    m_output_attrs := query_attrs zero (la_output_attr ans) no, m_inputs := None\<rparr>))))"

text \<open>The first attribute, and a dimension of it; reading an empty vector has no meaning.\<close>

definition dim :: "'f rknn \<Rightarrow> nat \<Rightarrow> u32 result" where
  "dim r i =
     (case m_input_attrs r of [] \<Rightarrow> Inl (Undefined ''index out of range'')
      | a # _ \<Rightarrow> if i < length (attr_dims a) then Inr (attr_dims a ! i) else Inl (Undefined ''index out of range''))"

definition getInputShape :: "'f rknn \<Rightarrow> (int \<times> dnnInputShape) result" where
  "getInputShape r =
     (case m_input_attrs r of [] \<Rightarrow> Inl (Undefined ''index out of range'')
      | a # _ \<Rightarrow>
          (let (h, w, c) = (if attr_fmt a = RKNN_TENSOR_NCHW then (2, 3, 1) else (1, 2, 3))
           in rbind (dim r h) (\<lambda>dh. rbind (dim r w) (\<lambda>dw. rbind (dim r c) (\<lambda>dc.
                Inr (0, \<lparr>shape_width = unat dw, shape_height = unat dh, shape_channel = unat dc\<rparr>))))))"

text \<open>The parameters are appended to what the caller passes.\<close>

definition getOutputQuantParams ::
  "int list \<Rightarrow> 'f list \<Rightarrow> 'f rknn \<Rightarrow> (int \<times> int list \<times> 'f list) result" where
  "getOutputQuantParams zeroPoints scales r =
     (if length (m_output_attrs r) < n_output r then Inl (Undefined ''index out of range'')
      else Inr (0, zeroPoints @ map attr_zp (take (n_output r) (m_output_attrs r)),
             scales @ map attr_scale (take (n_output r) (m_output_attrs r))))"

text \<open>\<open>set_ret\<close> is what \<open>rknn_inputs_set\<close> answers. The size is the one of the model, not of the data.\<close>

definition pushInputData :: "int \<Rightarrow> dnnInput \<Rightarrow> 'f rknn \<Rightarrow> ('f rknn, int) outcome" where
  "pushInputData set_ret inputData r =
     (if in_size inputData = 0 then (Inr (-1), r)
      else case map_of dataTypeMap (in_dataType inputData) of
        None \<Rightarrow> (Inl (Throw ''out_of_range''), r)
      | Some ty \<Rightarrow>
          (case rbind (dim r 1) (\<lambda>d1. rbind (dim r 2) (\<lambda>d2. rbind (dim r 3) (\<lambda>d3. Inr (d1 * d2 * d3)))) of
             Inl e \<Rightarrow> (Inl e, r)
           | Inr n \<Rightarrow>
               (Inr set_ret, r\<lparr>m_inputs := Some \<lparr>input_index = in_index inputData, input_type = ty, input_size = n,
                  input_fmt = attr_fmt (hd (m_input_attrs r)), input_buf = in_buf inputData\<rparr>\<rparr>)))"

definition runInference :: "int \<Rightarrow> 'f rknn \<Rightarrow> ('f rknn, int) outcome" where
  "runInference run_ret r = (Inr run_ret, r)"

text \<open>
  \<open>got\<close> is what \<open>rknn_outputs_get\<close> answers: an error code, or the buffer and size of every index. The vector
  of the caller is filled also when the call has failed, from what is in \<open>m_outputs\<close> then.
\<close>

definition output_slots :: "nat \<Rightarrow> rknn_output list \<Rightarrow> rknn_output list" where
  "output_slots n outs =
     (if length outs \<noteq> n
      then map (\<lambda>i. \<lparr>output_index = i, want_float = False, output_buf = None, output_size = 0\<rparr>) [0..<n]
      else outs)"

definition popOutputData ::
  "int + (nat \<Rightarrow> bytes \<times> nat) \<Rightarrow> dnnOutput list \<Rightarrow> 'f rknn \<Rightarrow> ('f rknn, int \<times> dnnOutput list) outcome" where
  "popOutputData got outputVector r =
     (let outs = output_slots (n_output r) (m_outputs r);
          (ret, outs', lent) = (case got of
             Inl err \<Rightarrow> (err, outs, outputs_lent r)
           | Inr bufs \<Rightarrow> (0, map (\<lambda>o'. o'\<lparr>output_buf := Some (fst (bufs (output_index o'))),
                 output_size := snd (bufs (output_index o'))\<rparr>) outs, outputs_lent r + 1))
      in (Inr (ret, map (\<lambda>o'. \<lparr>tensor_index = output_index o', tensor_buf = output_buf o', tensor_size = output_size o',
              dataType = (if want_float o' then ''float32'' else ''int8'')\<rparr>) outs'),
          r\<lparr>m_outputs := outs', outputs_lent := lent\<rparr>))"

definition releaseOutputData :: "dnnOutput list \<Rightarrow> 'f rknn \<Rightarrow> 'f rknn \<times> int \<times> dnnOutput list" where
  "releaseOutputData outputVector r =
     (if 0 < length (m_outputs r) then (r\<lparr>outputs_lent := outputs_lent r - 1\<rparr>, 0, [])
      else (r, 0, outputVector))"

text \<open>\<open>IDnnEngine::create\<close>, for the platforms the library is built for.\<close>

definition create_engine :: "bool \<Rightarrow> bool \<Rightarrow> string \<Rightarrow> string result" where
  "create_engine jetson rk35xx dnnType =
     (if jetson \<and> dnnType = ''trt'' then Inr ''tensorrt''
      else if rk35xx \<and> dnnType = ''rknn'' then Inr ''rknn''
      else Inl (Throw (''Invalid DNN type '' @ dnnType)))"

section \<open>rknn is an engine\<close>

record 'f rknn_answers =
  ans_zero :: 'f
  ans_load :: "'f load_answers"
  ans_set :: int
  ans_run :: int
  ans_get :: "int + (nat \<Rightarrow> bytes \<times> nat)"

definition rknn_engine :: "'f rknn_answers \<Rightarrow> ('f rknn, 'f) IDnnEngine" where
  "rknn_engine ans = \<lparr>eng_loadModel = loadModel (ans_zero ans) (ans_load ans), eng_getInputShape = getInputShape,
     eng_getOutputQuantParams = getOutputQuantParams, eng_pushInputData = pushInputData (ans_set ans),
     eng_popOutputData = popOutputData (ans_get ans), eng_runInference = runInference (ans_run ans),
     eng_releaseOutputData = releaseOutputData\<rparr>"

definition rknn_ready :: "'f rknn \<Rightarrow> bool" where
  "rknn_ready r \<longleftrightarrow> 0 < n_output r \<and> (m_outputs r = [] \<longrightarrow> outputs_lent r = 0)"

lemma output_slots_nonempty: "0 < n \<Longrightarrow> output_slots n outs \<noteq> []"
  by (auto simp: output_slots_def)

interpretation rknn: engine_outputs "rknn_engine (ans :: 'f rknn_answers)" outputs_lent rknn_ready
proof
  fix e :: "'f rknn" and inp outs
  assume ready: "rknn_ready e"
  show "outputs_lent (snd (eng_pushInputData (rknn_engine ans) inp e)) = outputs_lent e \<and>
      rknn_ready (snd (eng_pushInputData (rknn_engine ans) inp e))"
    using ready by (simp add: rknn_engine_def pushInputData_def rknn_ready_def split: option.split sum.split)
  show "outputs_lent (snd (eng_runInference (rknn_engine ans) e)) = outputs_lent e \<and>
      rknn_ready (snd (eng_runInference (rknn_engine ans) e))"
    using ready by (simp add: rknn_engine_def runInference_def)
  show "outputs_lent (snd (eng_popOutputData (rknn_engine ans) outs e)) \<le> outputs_lent e + 1 \<and>
      rknn_ready (snd (eng_popOutputData (rknn_engine ans) outs e))"
    using ready output_slots_nonempty [of "n_output e" "m_outputs e"]
    by (simp add: rknn_engine_def popOutputData_def rknn_ready_def Let_def split: sum.split)
  show "outputs_lent (fst (eng_releaseOutputData (rknn_engine ans) outs e)) = outputs_lent e - 1 \<and>
      rknn_ready (fst (eng_releaseOutputData (rknn_engine ans) outs e))"
    using ready by (simp add: rknn_engine_def releaseOutputData_def rknn_ready_def)
qed

text \<open>A failed inference shows the caller the outputs of the one before.\<close>

lemma failed_get_repeats:
  assumes "length (m_outputs r) = n_output r"
  shows "\<exists>outs. popOutputData (Inl err) v r = (Inr (err, outs), r) \<and>
     map tensor_buf outs = map output_buf (m_outputs r)"
  using assms by (cases r) (simp add: popOutputData_def output_slots_def Let_def)

end
