(* ===== verification/DnnDetector.thy ===== *)
theory DnnDetector
  imports DnnEngine Image "HOL-Library.Signed_Division"
begin

text \<open>
  The object detector: \<open>bsp_dnn/dnnObjDetector\<close> over an engine and a plugin, and the two plugins for
  YOLOv5 (\<open>rknn/yolo/rknnYolov5\<close>, \<open>RGArknnYolov5\<close> with \<open>common/G2dPreprocessHelper\<close>). Loading of shared
  libraries, OpenCV and the 2D engine are in the arguments.
\<close>

section \<open>Plugins\<close>

text \<open>
  \<open>preProcess\<close> and \<open>postProcess\<close> change the plugin and, in place, the parameters and the vectors they
  are given, also when they throw.
\<close>

record ('p, 'f) IDnnObjDetectorPlugin =
  plug_preProcess :: "ImageView \<Rightarrow> 'p \<times> 'f ObjDetectParams \<times> dnnInput \<Rightarrow>
    ('p \<times> 'f ObjDetectParams \<times> dnnInput, int) outcome"
  plug_postProcess :: "string \<Rightarrow> 'f ObjDetectParams \<Rightarrow> dnnOutput list \<Rightarrow>
    'p \<times> 'f ObjDetectOutputBox list \<Rightarrow> ('p \<times> 'f ObjDetectOutputBox list, int) outcome"

definition RKNN_YOLOV5_OUTPUT_BATCH :: nat where "RKNN_YOLOV5_OUTPUT_BATCH = 3"

text \<open>
  What the plugin uses of OpenCV: colour conversion, \<open>resize\<close> with the same factor for both
  directions, and \<open>copyMakeBorder\<close> with the widths top, bottom, left, right, which throws for a
  negative one; its result is a continuous matrix, given with its bytes.
\<close>

record 'f cv_ops =
  cv_cvtColor :: "string \<Rightarrow> cvMat \<Rightarrow> cvMat"
  cv_resize :: "'f \<Rightarrow> cvMat \<Rightarrow> cvMat"
  cv_border :: "int \<Rightarrow> int \<Rightarrow> int \<Rightarrow> int \<Rightarrow> cvMat \<Rightarrow> cvMat \<times> bytes"

definition copyMakeBorder ::
  "'f cv_ops \<Rightarrow> int \<Rightarrow> int \<Rightarrow> int \<Rightarrow> int \<Rightarrow> cvMat \<Rightarrow> (cvMat \<times> bytes) result" where
  "copyMakeBorder cv t b l r m =
     (if t < 0 \<or> b < 0 \<or> l < 0 \<or> r < 0 then Inl (Throw ''cv::Exception'') else Inr (cv_border cv t b l r m))"

definition resize_buf :: "nat \<Rightarrow> bytes \<Rightarrow> bytes" where
  "resize_buf n buf = take n buf @ replicate (n - length buf) 0"

text \<open>The frame around the resized picture, for the room left in both directions.\<close>

definition letterbox :: "int \<Rightarrow> int \<Rightarrow> int bboxRect" where
  "letterbox pad_width pad_height =
     \<lparr>bb_left = pad_width sdiv 2, bb_right = pad_width - pad_width sdiv 2,
      bb_top = pad_height sdiv 2, bb_bottom = pad_height - pad_height sdiv 2\<rparr>"

definition rknnYolov5_preProcess ::
  "('f, 'd) fp \<Rightarrow> 'f cv_ops \<Rightarrow> ImageView \<Rightarrow> YoloPostProcess \<times> 'f ObjDetectParams \<times> dnnInput \<Rightarrow>
    (YoloPostProcess \<times> 'f ObjDetectParams \<times> dnnInput, int) outcome" where
  "rknnYolov5_preProcess F cv img st =
     (case st of (y, params, outputData) \<Rightarrow>
      if ImageView_empty img then (Inl (Throw ''inputData.image is empty.''), st)
      else case toRgbMat (cv_cvtColor cv) img of
        None \<Rightarrow> (Inl (Throw ''Failed to convert inputData.image to RGB cv::Mat.''), st)
      | Some rgb \<Rightarrow>
          (let min_scale = (if f_less F (scale_height params) (scale_width params)
                 then scale_height params else scale_width params);
               params1 = params\<lparr>scale_width := min_scale, scale_height := min_scale\<rparr>;
               resized = cv_resize cv min_scale rgb;
               p = letterbox (to_int32 (model_input_width params) - mat_cols resized)
                 (to_int32 (model_input_height params) - mat_rows resized);
               params2 = params1\<lparr>pads := p\<rparr>
           in case copyMakeBorder cv (bb_top p) (bb_bottom p) (bb_left p) (bb_right p) resized of
                Inl e \<Rightarrow> (Inl e, (y, params2, outputData))
              | Inr (padded, d) \<Rightarrow>
                  (let n = nat (mat_rows padded * mat_cols padded) * mat_elemSize padded;
                       out = outputData\<lparr>in_index := 0, in_size := n, in_buf := resize_buf n (in_buf outputData),
                         in_dataType := ''UINT8'',
                         in_shape := \<lparr>shape_width = model_input_width params, shape_height = model_input_height params,
                           shape_channel = model_input_channel params\<rparr>\<rparr>
                   in case rbind (read_at 0 n d) (\<lambda>v. memcpy_at 0 v (in_buf out)) of
                        Inl e \<Rightarrow> (Inl e, (y, params2, out))
                      | Inr b \<Rightarrow> (Inr 0, (y, params2, out\<lparr>in_buf := b\<rparr>)))))"

text \<open>\<open>file\<close> is what the label file holds.\<close>

definition yolov5_postProcess ::
  "('f, 'd) fp \<Rightarrow> string list option \<Rightarrow> string \<Rightarrow> 'f ObjDetectParams \<Rightarrow> dnnOutput list \<Rightarrow>
    YoloPostProcess \<times> 'f ObjDetectOutputBox list \<Rightarrow> (YoloPostProcess \<times> 'f ObjDetectOutputBox list, int) outcome" where
  "yolov5_postProcess F file labelTextPath params inputData st =
     (case st of (y, outputData) \<Rightarrow>
      if length inputData \<noteq> RKNN_YOLOV5_OUTPUT_BATCH \<or> labelTextPath = []
      then (Inl (Throw ''The size of inputData is not equal to RKNN_YOLOV5_OUTPUT_BATCH or labelTextPath is empty.''), st)
      else case initLabelMap labelTextPath file y of (ret, y') \<Rightarrow>
        if ret \<noteq> 0 then (Inr ret, (y', outputData))
        else case runPostProcess F y' params inputData outputData of
          Inl e \<Rightarrow> (Inl e, (y', outputData))
        | Inr (r, out) \<Rightarrow> (Inr r, (y', out)))"

definition rknnYolov5 ::
  "('f, 'd) fp \<Rightarrow> 'f cv_ops \<Rightarrow> string list option \<Rightarrow> (YoloPostProcess, 'f) IDnnObjDetectorPlugin" where
  "rknnYolov5 F cv file =
     \<lparr>plug_preProcess = rknnYolov5_preProcess F cv, plug_postProcess = yolov5_postProcess F file\<rparr>"

section \<open>The plugin on the 2D engine\<close>

text \<open>
  The answers of the engine: the two buffers, the results of \<open>imageResize\<close> and \<open>syncBuffer\<close> and the
  bytes the output memory holds afterwards. The last component counts the buffers not released.
\<close>

record g2d_answers =
  g2d_in_buffer :: bool
  g2d_out_buffer :: bool
  resize_ret :: int
  sync_ret :: int
  g2d_pixels :: bytes

definition g2dResizeToHost ::
  "g2d_answers \<Rightarrow> bool \<Rightarrow> nat \<Rightarrow> bytes \<Rightarrow> u32 \<Rightarrow> u32 \<Rightarrow> string \<Rightarrow> (int \<times> bytes \<times> ImageView \<times> int) result" where
  "g2dResizeToHost ans sync p storage w h fmt =
     (let d = \<lparr>width = w, height = h, widthStride = w, heightStride = h, format = fmt, dataSize = 0\<rparr>
      in rbind (imageDataSize d) (\<lambda>n.
           let d' = d\<lparr>dataSize := n\<rparr>;
               storage' = resize_buf n storage;
               output = makeHostImageView (Some p) d' w ReadWrite;
               live = (if g2d_in_buffer ans then 1 else 0) + (if g2d_out_buffer ans then 1 else 0)
           in if \<not> g2d_in_buffer ans \<or> \<not> g2d_out_buffer ans
              then Inr (-1, storage', output, live - (if g2d_in_buffer ans then 1 else 0) - (if g2d_out_buffer ans then 1 else 0))
              else
                (let ret = (if resize_ret ans = 0 \<and> sync then sync_ret ans else resize_ret ans)
                 in Inr (ret, take n (g2d_pixels ans @ drop (length (g2d_pixels ans)) storage'), output, live - 2))))"

record RGArknnYolov5 =
  m_yoloPostProcess :: YoloPostProcess
  m_g2d :: bool
  m_rknn_input_buf :: bytes

definition RGArknnYolov5_preProcess ::
  "g2d_answers \<Rightarrow> nat \<Rightarrow> ImageView \<Rightarrow> RGArknnYolov5 \<times> 'f ObjDetectParams \<times> dnnInput \<Rightarrow>
    (RGArknnYolov5 \<times> 'f ObjDetectParams \<times> dnnInput, int) outcome" where
  "RGArknnYolov5_preProcess ans p img st =
     (case st of (r, params, outputData) \<Rightarrow>
      if ImageView_empty img then (Inl (Throw ''inputData.image is empty.''), st)
      else if \<not> m_g2d r then (Inl (Throw ''m_g2d is nullptr.''), st)
      else case g2dResizeToHost ans True p (m_rknn_input_buf r) (word_of_nat (model_input_width params))
          (word_of_nat (model_input_height params)) ''RGB888'' of
        Inl e \<Rightarrow> (Inl e, st)
      | Inr (ret, storage, rgb888Image, _) \<Rightarrow>
          (let r' = r\<lparr>m_rknn_input_buf := storage\<rparr>
           in if ret \<noteq> 0 then (Inl (Throw ''imageResize failed with code: ''), (r', params, outputData))
              else
                (let n = dataSize (desc rgb888Image);
                     out = outputData\<lparr>in_index := 0, in_size := n, in_buf := resize_buf n (in_buf outputData),
                       in_dataType := ''UINT8'',
                       in_shape := \<lparr>shape_width = model_input_width params, shape_height = model_input_height params,
                         shape_channel = model_input_channel params\<rparr>\<rparr>
                 in case rbind (read_at 0 n storage) (\<lambda>v. memcpy_at 0 v (in_buf out)) of
                      Inl e \<Rightarrow> (Inl e, (r', params, out))
                    | Inr b \<Rightarrow> (Inr 0, (r', params, out\<lparr>in_buf := b\<rparr>)))))"

definition RGArknnYolov5_postProcess ::
  "('f, 'd) fp \<Rightarrow> string list option \<Rightarrow> string \<Rightarrow> 'f ObjDetectParams \<Rightarrow> dnnOutput list \<Rightarrow>
    RGArknnYolov5 \<times> 'f ObjDetectOutputBox list \<Rightarrow> (RGArknnYolov5 \<times> 'f ObjDetectOutputBox list, int) outcome" where
  "RGArknnYolov5_postProcess F file labelTextPath params inputData st =
     (case st of (r, outputData) \<Rightarrow>
      case yolov5_postProcess F file labelTextPath params inputData (m_yoloPostProcess r, outputData) of
        (ret, (y', out)) \<Rightarrow> (ret, (r\<lparr>m_yoloPostProcess := y'\<rparr>, out)))"

definition RGArknnYolov5_plugin ::
  "('f, 'd) fp \<Rightarrow> g2d_answers \<Rightarrow> nat \<Rightarrow> string list option \<Rightarrow> (RGArknnYolov5, 'f) IDnnObjDetectorPlugin" where
  "RGArknnYolov5_plugin F ans p file =
     \<lparr>plug_preProcess = RGArknnYolov5_preProcess ans p, plug_postProcess = RGArknnYolov5_postProcess F file\<rparr>"

section \<open>The detector\<close>

text \<open>\<open>lib_opens\<close> is the number of \<open>dlopen\<close> calls not undone by a \<open>dlclose\<close>.\<close>

record ('p, 'e, 'f) dnnObjDetector =
  m_pluginLibraryHandle :: bool
  m_dnnPluginHandle :: "'p option"
  m_dnnEngine :: 'e
  m_dataInput :: "ImageView option"
  m_dataOutputVector :: "'f ObjDetectOutputBox list"
  m_labelTextPath :: string
  lib_opens :: int

text \<open>\<open>opened\<close>, \<open>create\<close> are the answers of \<open>dlopen\<close> and of \<open>dlsym\<close>; the plugin is what \<open>create\<close> returns.\<close>

definition newDnnObjDetector ::
  "'e result \<Rightarrow> bool \<Rightarrow> 'p option option \<Rightarrow> string \<Rightarrow> string \<Rightarrow> ('p, 'e, 'f) dnnObjDetector result" where
  "newDnnObjDetector engine opened create pluginPath labelTextPath =
     rbind engine (\<lambda>e.
       let d = \<lparr>m_pluginLibraryHandle = False, m_dnnPluginHandle = None, m_dnnEngine = e, m_dataInput = None,
         m_dataOutputVector = [], m_labelTextPath = labelTextPath, lib_opens = 0\<rparr>
       in if pluginPath = [] then Inr d
          else if \<not> opened then Inl (Throw ''dlerror'')
          else case create of
            None \<Rightarrow> Inl (Throw ''dlerror'')
          | Some None \<Rightarrow> Inl (Throw ''Failed to create plugin instance.'')
          | Some (Some p) \<Rightarrow> Inr (d\<lparr>m_pluginLibraryHandle := True, m_dnnPluginHandle := Some p, lib_opens := 1\<rparr>))"

text \<open>A destructor that throws ends the program; the library is closed by hand and by its pointer.\<close>

definition destroyDnnObjDetector ::
  "bool \<Rightarrow> ('p, 'e, 'f) dnnObjDetector \<Rightarrow> (('p, 'e, 'f) dnnObjDetector, unit) outcome" where
  "destroyDnnObjDetector has_destroy d =
     (if m_dnnPluginHandle d \<noteq> None \<and> \<not> has_destroy then (Inl (Abort ''terminate''), d)
      else
        (let d' = d\<lparr>m_dnnPluginHandle := None\<rparr>
         in if m_pluginLibraryHandle d'
            then (Inr (), d'\<lparr>m_pluginLibraryHandle := False, lib_opens := lib_opens d' - 1 - 1\<rparr>)
            else (Inr (), d')))"

definition det_loadModel ::
  "('e, 'f) IDnnEngine \<Rightarrow> string \<Rightarrow> ('p, 'e, 'f) dnnObjDetector \<Rightarrow> (('p, 'e, 'f) dnnObjDetector, unit) outcome" where
  "det_loadModel E path d = (case eng_loadModel E path (m_dnnEngine d) of (r, e) \<Rightarrow> (r, d\<lparr>m_dnnEngine := e\<rparr>))"

definition det_getInputShape :: "('e, 'f) IDnnEngine \<Rightarrow> ('p, 'e, 'f) dnnObjDetector \<Rightarrow> (int \<times> dnnInputShape) result" where
  "det_getInputShape E d = eng_getInputShape E (m_dnnEngine d)"

definition det_getOutputQuantParams ::
  "('e, 'f) IDnnEngine \<Rightarrow> int list \<Rightarrow> 'f list \<Rightarrow> ('p, 'e, 'f) dnnObjDetector \<Rightarrow> (int \<times> int list \<times> 'f list) result" where
  "det_getOutputQuantParams E zps scs d = eng_getOutputQuantParams E zps scs (m_dnnEngine d)"

definition det_pushInputData :: "ImageView \<Rightarrow> ('p, 'e, 'f) dnnObjDetector \<Rightarrow> ('p, 'e, 'f) dnnObjDetector" where
  "det_pushInputData v d = d\<lparr>m_dataInput := Some v\<rparr>"

definition det_popOutputData :: "('p, 'e, 'f) dnnObjDetector \<Rightarrow> 'f ObjDetectOutputBox list" where
  "det_popOutputData d = m_dataOutputVector d"

text \<open>
  Pushing the input, running the network and fetching the outputs, whose results are not looked at;
  without a plugin, and with one.
\<close>

definition infer ::
  "('e, 'f) IDnnEngine \<Rightarrow> dnnInput \<Rightarrow> ('p, 'e, 'f) dnnObjDetector \<Rightarrow> (('p, 'e, 'f) dnnObjDetector, dnnOutput list) outcome" where
  "infer E inp d =
     (case eng_pushInputData E inp (m_dnnEngine d) of
        (Inl x, e1) \<Rightarrow> (Inl x, d\<lparr>m_dnnEngine := e1\<rparr>)
      | (Inr _, e1) \<Rightarrow>
          (case andthen (eng_runInference E e1) (\<lambda>_. eng_popOutputData E []) of
             (Inl x, e3) \<Rightarrow> (Inl x, d\<lparr>m_dnnEngine := e3\<rparr>)
           | (Inr (_, outs), e3) \<Rightarrow> (Inr outs, d\<lparr>m_dnnEngine := e3\<rparr>)))"

definition runObjDetect ::
  "('e, 'f) IDnnEngine \<Rightarrow> ('p, 'f) IDnnObjDetectorPlugin \<Rightarrow> ('p, 'e, 'f) dnnObjDetector \<times> 'f ObjDetectParams \<Rightarrow>
    (('p, 'e, 'f) dnnObjDetector \<times> 'f ObjDetectParams, int) outcome" where
  "runObjDetect E P dp =
     (case dp of (d, params) \<Rightarrow>
      case m_dataInput d of
        None \<Rightarrow> (Inl (Undefined ''null dereference''), dp)
      | Some img \<Rightarrow>
        (case (if m_pluginLibraryHandle d then m_dnnPluginHandle d else None) of
           None \<Rightarrow>
             (case infer E newDnnInput d of
                (Inl x, d1) \<Rightarrow> (Inl x, (d1, params)) | (Inr _, d1) \<Rightarrow> (Inr 0, (d1, params)))
         | Some p \<Rightarrow>
             (case plug_preProcess P img (p, params, newDnnInput) of
                (Inl x, (p1, params1, _)) \<Rightarrow> (Inl x, (d\<lparr>m_dnnPluginHandle := Some p1\<rparr>, params1))
              | (Inr _, (p1, params1, inp)) \<Rightarrow>
                  (case infer E inp (d\<lparr>m_dnnPluginHandle := Some p1\<rparr>) of
                     (Inl x, d1) \<Rightarrow> (Inl x, (d1, params1))
                   | (Inr outs, d1) \<Rightarrow>
                       (case plug_postProcess P (m_labelTextPath d1) params1 outs (p1, []) of
                          (Inl x, (p2, boxes)) \<Rightarrow>
                            (Inl x, (d1\<lparr>m_dnnPluginHandle := Some p2, m_dataOutputVector := boxes\<rparr>, params1))
                        | (Inr ret, (p2, boxes)) \<Rightarrow>
                            (Inr ret, (d1\<lparr>m_dnnPluginHandle := Some p2, m_dataOutputVector := boxes,
                               m_dnnEngine := fst (eng_releaseOutputData E outs (m_dnnEngine d1))\<rparr>, params1)))))))"

section \<open>The input of the network\<close>

text \<open>What OpenCV documents: three channels after a conversion, the sizes and bytes of a bordered matrix.\<close>

definition cv_documented :: "'f cv_ops \<Rightarrow> bool" where
  "cv_documented cv \<longleftrightarrow>
     (\<forall>c m. mat_type (cv_cvtColor cv c m) = CV_8UC 3) \<and> (\<forall>f m. mat_type (cv_resize cv f m) = mat_type m) \<and>
     (\<forall>t b l r m. case cv_border cv t b l r m of (m', d) \<Rightarrow>
        mat_rows m' = mat_rows m + t + b \<and> mat_cols m' = mat_cols m + l + r \<and> mat_type m' = mat_type m \<and>
        length d = nat (mat_rows m' * mat_cols m') * mat_elemSize m')"

lemma cv_border_sizes:
  assumes "cv_documented cv" and "cv_border cv t b l r m = (m', d)"
  shows "mat_rows m' = mat_rows m + t + b" "mat_cols m' = mat_cols m + l + r" "mat_type m' = mat_type m"
    "length d = nat (mat_rows m' * mat_cols m') * mat_elemSize m'"
proof -
  note doc = assms(1) [unfolded cv_documented_def, THEN conjunct2, THEN conjunct2, THEN spec, of t, THEN spec, of b,
    THEN spec, of l, THEN spec, of r, THEN spec, of m]
  show "mat_rows m' = mat_rows m + t + b" "mat_cols m' = mat_cols m + l + r" "mat_type m' = mat_type m"
    "length d = nat (mat_rows m' * mat_cols m') * mat_elemSize m'"
    using doc by (simp_all add: assms(2))
qed

lemma toMat_type:
  assumes "toMat v = Some m"
  shows "mat_type m = cvTypeForFormat (format (desc v))"
  using assms by (auto simp: toMat_def Let_def split: if_splits)

lemma toRgbMat_channels:
  assumes "cv_documented cv" and "toRgbMat (cv_cvtColor cv) v = Some m"
  shows "mat_type m = CV_8UC 3"
proof -
  obtain m0 where m0: "toMat v = Some m0" using assms(2) by (cases "toMat v") (simp_all add: toRgbMat_def)
  have c: "mat_type (cv_cvtColor cv c x) = CV_8UC 3" for c x using assms(1) by (simp add: cv_documented_def)
  show ?thesis
    using assms(2) c toMat_type [OF m0]
    by (auto simp: toRgbMat_def m0 Let_def cvTypeForFormat_def split: if_splits)
qed

lemma letterbox_sums:
  "bb_left (letterbox w h) + bb_right (letterbox w h) = w" "bb_top (letterbox w h) + bb_bottom (letterbox w h) = h"
  by (simp_all add: letterbox_def)

lemma letterbox_centred:
  assumes "0 \<le> w" and "0 \<le> h"
  shows "0 \<le> bb_left (letterbox w h)" "bb_left (letterbox w h) \<le> bb_right (letterbox w h)"
    "bb_right (letterbox w h) \<le> bb_left (letterbox w h) + 1"
    "0 \<le> bb_top (letterbox w h)" "bb_top (letterbox w h) \<le> bb_bottom (letterbox w h)"
    "bb_bottom (letterbox w h) \<le> bb_top (letterbox w h) + 1"
proof -
  have "x sdiv 2 = x div 2" if "0 \<le> x" for x :: int
    using that by (cases "x = 0") (simp_all add: signed_divide_int_def)
  then have "w sdiv 2 = w div 2" "h sdiv 2 = h div 2" using assms by simp_all
  then show "0 \<le> bb_left (letterbox w h)" "bb_left (letterbox w h) \<le> bb_right (letterbox w h)"
    "bb_right (letterbox w h) \<le> bb_left (letterbox w h) + 1"
    "0 \<le> bb_top (letterbox w h)" "bb_top (letterbox w h) \<le> bb_bottom (letterbox w h)"
    "bb_bottom (letterbox w h) \<le> bb_top (letterbox w h) + 1"
    using assms unfolding letterbox_def by simp_all
qed

lemma copyMakeBorder_nonneg:
  assumes "copyMakeBorder cv (bb_top (letterbox w h)) (bb_bottom (letterbox w h)) (bb_left (letterbox w h))
    (bb_right (letterbox w h)) m = Inr md"
  shows "0 \<le> w \<and> 0 \<le> h"
  using assms letterbox_sums [of w h] by (auto simp: copyMakeBorder_def split: if_splits)

lemma length_resize_buf [simp]: "length (resize_buf n buf) = n"
  by (simp add: resize_buf_def)

text \<open>
  C26. The input of the network is complete and centred: when \<open>preProcess\<close> of the YOLOv5 plugin
  returns, the buffer holds exactly the model's width times its height times three bytes, both
  directions have been scaled by the same factor, the smaller of the two, and the frame around the
  picture fills the model's input, with the two sides of each direction differing by at most one
  pixel.
\<close>

theorem letterbox_fills_input:
  assumes "cv_documented cv" and "model_input_width params < 2 ^ 31" and "model_input_height params < 2 ^ 31"
    and "rknnYolov5_preProcess F cv v (y, params, inp) = (Inr ret, (y', params', out))"
  shows "\<exists>rgb. toRgbMat (cv_cvtColor cv) v = Some rgb \<and>
     (let resized = cv_resize cv (scale_width params') rgb; b = pads params'
      in length (in_buf out) = in_size out \<and>
         in_size out = model_input_width params * model_input_height params * 3 \<and>
         scale_height params' = scale_width params' \<and>
         scale_width params' = (if f_less F (scale_height params) (scale_width params)
           then scale_height params else scale_width params) \<and>
         bb_left b + mat_cols resized + bb_right b = int (model_input_width params) \<and>
         bb_top b + mat_rows resized + bb_bottom b = int (model_input_height params) \<and>
         0 \<le> bb_left b \<and> \<bar>bb_right b - bb_left b\<bar> \<le> 1 \<and> 0 \<le> bb_top b \<and> \<bar>bb_bottom b - bb_top b\<bar> \<le> 1)"
proof -
  define s where "s = (if f_less F (scale_height params) (scale_width params)
    then scale_height params else scale_width params)"
  obtain rgb where rgb: "toRgbMat (cv_cvtColor cv) v = Some rgb" and ne: "\<not> ImageView_empty v"
    using assms(4) by (auto simp: rknnYolov5_preProcess_def split: if_splits option.splits)
  define m where "m = cv_resize cv s rgb"
  have dims: "to_int32 (model_input_width params) = int (model_input_width params)"
    "to_int32 (model_input_height params) = int (model_input_height params)"
    using assms(2,3) by (simp_all add: to_int32_def)
  define w where "w = int (model_input_width params) - mat_cols m"
  define h where "h = int (model_input_height params) - mat_rows m"
  define p where "p = letterbox w h"
  obtain pm d where bord: "copyMakeBorder cv (bb_top p) (bb_bottom p) (bb_left p) (bb_right p) m = Inr (pm, d)"
    using assms(4) ne rgb
    by (cases "copyMakeBorder cv (bb_top p) (bb_bottom p) (bb_left p) (bb_right p) m")
      (auto simp: rknnYolov5_preProcess_def dims Let_def s_def m_def w_def h_def p_def)
  have wh: "0 \<le> w" "0 \<le> h" using copyMakeBorder_nonneg bord unfolding p_def by blast+
  define n where "n = nat (mat_rows pm * mat_cols pm) * mat_elemSize pm"
  have "cv_border cv (bb_top p) (bb_bottom p) (bb_left p) (bb_right p) m = (pm, d)"
    using bord by (simp add: copyMakeBorder_def split: if_splits)
  then have pm: "mat_rows pm = mat_rows m + bb_top p + bb_bottom p" "mat_cols pm = mat_cols m + bb_left p + bb_right p"
    "mat_type pm = mat_type m" "length d = n"
    unfolding n_def by (rule cv_border_sizes [OF assms(1)])+
  have "mat_type m = CV_8UC 3"
    using toRgbMat_channels [OF assms(1) rgb] assms(1) by (simp add: m_def cv_documented_def)
  then have "mat_elemSize pm = 3" using pm(3) by (simp add: mat_elemSize_def CV_8UC_def CV_MAT_CN_def)
  moreover have "mat_rows pm = int (model_input_height params)" "mat_cols pm = int (model_input_width params)"
    using pm(1,2) letterbox_sums [of w h] unfolding p_def w_def h_def by simp_all
  ultimately have n: "n = model_input_width params * model_input_height params * 3"
    by (simp add: n_def nat_mult_distrib mult.commute)
  have out: "params' = params\<lparr>scale_width := s, scale_height := s, pads := p\<rparr>" "in_size out = n" "length (in_buf out) = n"
    using assms(4) ne rgb bord pm(4)
    by (auto simp: rknnYolov5_preProcess_def dims Let_def s_def [symmetric] m_def [symmetric] w_def [symmetric]
        h_def [symmetric] p_def [symmetric] n_def [symmetric] read_at_def memcpy_at_def)
  have fields: "scale_width params' = s" "scale_height params' = s" "pads params' = p" by (simp_all add: out(1))
  note sums = letterbox_sums [of w h, folded p_def] and centred = letterbox_centred [OF wh, folded p_def]
  show ?thesis
    unfolding fields Let_def
  proof (intro exI [of _ rgb] conjI)
    show "toRgbMat (cv_cvtColor cv) v = Some rgb" by (rule rgb)
    show "length (in_buf out) = in_size out" "in_size out = model_input_width params * model_input_height params * 3"
      using out n by simp_all
    show "s = s" by (rule refl)
    show "s = (if f_less F (scale_height params) (scale_width params) then scale_height params else scale_width params)"
      by (rule s_def)
    show "bb_left p + mat_cols (cv_resize cv s rgb) + bb_right p = int (model_input_width params)"
      "bb_top p + mat_rows (cv_resize cv s rgb) + bb_bottom p = int (model_input_height params)"
      using sums unfolding w_def h_def m_def by linarith+
    show "0 \<le> bb_left p" "0 \<le> bb_top p" by (rule centred)+
    show "\<bar>bb_right p - bb_left p\<bar> \<le> 1" "\<bar>bb_bottom p - bb_top p\<bar> \<le> 1" using centred by linarith+
  qed
qed

definition demo_cv :: "rat cv_ops" where
  "demo_cv = \<lparr>cv_cvtColor = (\<lambda>c m. m\<lparr>mat_type := CV_8UC 3\<rparr>),
     cv_resize = (\<lambda>f m. m\<lparr>mat_rows := \<lfloor>f * of_int (mat_rows m)\<rfloor>, mat_cols := \<lfloor>f * of_int (mat_cols m)\<rfloor>\<rparr>),
     cv_border = (\<lambda>t b l r m. let m' = m\<lparr>mat_rows := mat_rows m + t + b, mat_cols := mat_cols m + l + r\<rparr>
       in (m', replicate (nat (mat_rows m' * mat_cols m') * mat_elemSize m') 128))\<rparr>"

lemma demo_cv_documented: "cv_documented demo_cv"
  by (simp add: cv_documented_def demo_cv_def Let_def mat_elemSize_def)

definition wide_picture :: ImageView where
  "wide_picture = makeHostImageView (Some 1) \<lparr>width = 8, height = 4, widthStride = 8, heightStride = 4,
     format = ''RGB888'', dataSize = 96\<rparr> 24 ReadOnly"

definition square_params :: "rat ObjDetectParams" where
  "square_params = demo_params\<lparr>model_input_width := 4, model_input_height := 4, scale_width := 1 / 2, scale_height := 1\<rparr>"

lemma wide_picture_mat:
  "toRgbMat c wide_picture = Some \<lparr>mat_rows = 4, mat_cols = 8, mat_type = CV_8UC 3, mat_data = Some 1, mat_step = 24,
     isContinuous = True\<rparr>"
  by (simp add: toRgbMat_def toMat_def wide_picture_def makeHostImageView_sel cvTypeForFormat_def ImageView_empty_def
      ImageDesc_empty_def CV_8UC_def CV_MAT_CN_def mat_empty_def Let_def)

theorem letterbox_fills_input_witness:
  "\<exists>y' params' out. rknnYolov5_preProcess exact_fp demo_cv wide_picture (newYoloPostProcess, square_params, newDnnInput) =
       (Inr 0, (y', params', out)) \<and> length (in_buf out) = 48 \<and> bb_left (pads params') = 0 \<and> bb_top (pads params') = 1"
proof -
  let ?m = "\<lparr>mat_rows = 4, mat_cols = 8, mat_type = CV_8UC 3, mat_data = Some 1, mat_step = 24, isContinuous = True\<rparr>"
  have r: "cv_resize demo_cv (1 / 2) ?m = ?m\<lparr>mat_rows := 2, mat_cols := 4\<rparr>" by (simp add: demo_cv_def)
  have "(case rknnYolov5_preProcess exact_fp demo_cv wide_picture (newYoloPostProcess, square_params, newDnnInput) of
      (ret, (y', params', out)) \<Rightarrow> (ret, scale_width params')) = (Inr 0, 1 / 2)" by code_simp
  then obtain y' params' out where run: "rknnYolov5_preProcess exact_fp demo_cv wide_picture
      (newYoloPostProcess, square_params, newDnnInput) = (Inr 0, (y', params', out))"
    and p: "scale_width params' = 1 / 2" by (auto split: prod.splits)
  have sizes: "model_input_width square_params = 4" "model_input_height square_params = 4"
    by (simp_all add: square_params_def)
  have prems: "model_input_width square_params < 2 ^ 31" "model_input_height square_params < 2 ^ 31"
    by (simp_all add: sizes)
  have r': "mat_cols (cv_resize demo_cv (1 / 2) ?m) = 4" "mat_rows (cv_resize demo_cv (1 / 2) ?m) = 2" unfolding r by simp_all
  obtain rgb where "toRgbMat (cv_cvtColor demo_cv) wide_picture = Some rgb"
    and geo: "length (in_buf out) = 48" "bb_left (pads params') + mat_cols (cv_resize demo_cv (1 / 2) rgb) + bb_right (pads params') = 4"
      "bb_top (pads params') + mat_rows (cv_resize demo_cv (1 / 2) rgb) + bb_bottom (pads params') = 4"
      "0 \<le> bb_left (pads params')" "\<bar>bb_right (pads params') - bb_left (pads params')\<bar> \<le> 1"
      "0 \<le> bb_top (pads params')" "\<bar>bb_bottom (pads params') - bb_top (pads params')\<bar> \<le> 1"
    using letterbox_fills_input [OF demo_cv_documented prems run] unfolding Let_def p sizes by auto
  then have "rgb = ?m" using wide_picture_mat by simp
  then have "bb_left (pads params') = 0" "bb_top (pads params') = 1" using geo r' by simp_all
  then show ?thesis using run geo(1) by blast
qed

section \<open>Detections\<close>

lemma output_loop_count:
  "output_loop F y params n fb ids ss k out = Inr r \<Longrightarrow> length r \<le> length out + (MAX_OBJ_NUM - k)"
proof (induction ss arbitrary: k out)
  case (Cons s ss)
  obtain score m where s: "s = (score, m)" by (cases s)
  show ?case
  proof (cases "m = -1 \<or> MAX_OBJ_NUM \<le> k \<or> m < 0 \<or> n \<le> m \<or> int (length fb) \<le> m * 4 + 3")
    case True
    then show ?thesis using Cons by (simp add: s)
  next
    case False
    then obtain b where "output_loop F y params n fb ids ss (k + 1) (out @ [b]) = Inr r"
      using Cons.prems by (auto simp: s returns)
    from Cons.IH [OF this] have "length r \<le> Suc (length out) + (MAX_OBJ_NUM - (k + 1))" by simp
    moreover have "k < MAX_OBJ_NUM" using False by simp
    ultimately show ?thesis by arith
  qed
qed simp

lemma runPostProcess_count:
  assumes "runPostProcess F y params tensors [] = Inr (ret, out)"
  shows "length out \<le> 64"
  using assms output_loop_count [of F y params _ _ _ _ 0 "[]"]
  by (fastforce simp: runPostProcess_def returns MAX_OBJ_NUM_def split: if_splits)

lemma yolov5_postProcess_count:
  assumes "yolov5_postProcess F file path params tensors (y, []) = (Inr ret, (y', boxes))"
  shows "length boxes \<le> 64"
  using assms runPostProcess_count
  by (fastforce simp: yolov5_postProcess_def split: if_splits prod.splits sum.splits)

section \<open>Outputs go back to the engine\<close>

context engine_outputs
begin

lemma infer_lent:
  assumes "infer E inp d = (r, d')" and "ready (m_dnnEngine d)" and "lent (m_dnnEngine d) = 0"
  shows "ready (m_dnnEngine d') \<and> lent (m_dnnEngine d') \<le> 1 \<and>
    m_pluginLibraryHandle d' = m_pluginLibraryHandle d \<and> m_dnnPluginHandle d' = m_dnnPluginHandle d"
proof -
  obtain r1 e1 where push: "eng_pushInputData E inp (m_dnnEngine d) = (r1, e1)" by (rule prod.exhaust)
  obtain e2 r2 where run: "eng_runInference E e1 = (r2, e2)" by (rule prod.exhaust)
  obtain r3 e3 where pop: "eng_popOutputData E [] e2 = (r3, e3)" by (rule prod.exhaust)
  obtain e4 r4 where rel: "eng_releaseOutputData E [] e3 = (e4, r4)" by (rule prod.exhaust)
  have e1: "ready e1" "lent e1 = 0" using push_lent [OF assms(2), of inp] push assms(3) by simp_all
  then have e2: "ready e2" "lent e2 = 0" using run_lent [of e1] run by simp_all
  note e3 = inference_balanced [OF assms(2,3) push run pop rel]
  show ?thesis
    using assms(1) push run pop e1 e2 e3 by (auto simp: infer_def andthen_def split: sum.splits prod.splits)
qed

lemma runObjDetect_balanced:
  assumes "runObjDetect E P (d, params) = (Inr ret, (d', params'))"
    and "ready (m_dnnEngine d)" and "lent (m_dnnEngine d) = 0"
    and "m_pluginLibraryHandle d" and "m_dnnPluginHandle d = Some p"
  shows "ready (m_dnnEngine d') \<and> lent (m_dnnEngine d') = 0 \<and> m_pluginLibraryHandle d' \<and>
    (\<exists>p1 p2 outs. m_dnnPluginHandle d' = Some p2 \<and>
      plug_postProcess P (m_labelTextPath d') params' outs (p1, []) = (Inr ret, (p2, m_dataOutputVector d')))"
proof -
  obtain v where v: "m_dataInput d = Some v"
    using assms(1) by (auto simp: runObjDetect_def split: option.splits)
  obtain r0 p1 params1 inp where pre: "plug_preProcess P v (p, params, newDnnInput) = (r0, (p1, params1, inp))"
    by (metis prod.exhaust)
  define d0 where "d0 = d\<lparr>m_dnnPluginHandle := Some p1\<rparr>"
  obtain r1 d1 where inf: "infer E inp d0 = (r1, d1)" by (rule prod.exhaust)
  obtain outs where outs: "r1 = Inr outs" and r0: "\<exists>x. r0 = Inr x"
    using assms(1,4,5) v pre inf
    by (auto simp: runObjDetect_def d0_def split: sum.splits prod.splits)
  obtain r2 p2 boxes where post: "plug_postProcess P (m_labelTextPath d1) params1 outs (p1, []) = (r2, (p2, boxes))"
    by (metis prod.exhaust)
  have d': "r2 = Inr ret" "params' = params1" "d' = d1\<lparr>m_dnnPluginHandle := Some p2, m_dataOutputVector := boxes,
      m_dnnEngine := fst (eng_releaseOutputData E outs (m_dnnEngine d1))\<rparr>"
    using assms(1,4,5) v pre inf outs r0 post
    by (auto simp: runObjDetect_def d0_def split: sum.splits prod.splits)
  have "ready (m_dnnEngine d1) \<and> lent (m_dnnEngine d1) \<le> 1 \<and> m_pluginLibraryHandle d1"
    using infer_lent [OF inf] assms(2-4) by (simp add: d0_def)
  then show ?thesis
    using release_lent [of "m_dnnEngine d1" outs] d' post by auto
qed

end

definition detector_ok :: "('p, 'f rknn, 'f) dnnObjDetector \<Rightarrow> bool" where
  "detector_ok d \<longleftrightarrow> m_pluginLibraryHandle d \<and> m_dnnPluginHandle d \<noteq> None \<and> rknn_ready (m_dnnEngine d) \<and>
     outputs_lent (m_dnnEngine d) = 0"

text \<open>
  C27. A detection leaves the detector as it found it: whenever \<open>runObjDetect\<close> returns, on the RKNN
  engine with the YOLOv5 plugin and whatever the runtime answers, all outputs have been given back
  to the engine, the plugin is in place, and at most 64 boxes are waiting to be fetched.
\<close>

theorem detector_keeps_ok:
  assumes "detector_ok d"
    and "runObjDetect (rknn_engine ans) (rknnYolov5 F cv file) (d, params) = (Inr ret, (d', params'))"
  shows "detector_ok d' \<and> length (det_popOutputData d') \<le> 64"
proof -
  obtain p where d: "rknn_ready (m_dnnEngine d)" "outputs_lent (m_dnnEngine d) = 0" "m_pluginLibraryHandle d"
    "m_dnnPluginHandle d = Some p" using assms(1) by (auto simp: detector_ok_def)
  note b = rknn.runObjDetect_balanced [OF assms(2) d]
  obtain p1 p2 outs where "yolov5_postProcess F file (m_labelTextPath d') params' outs (p1, []) =
      (Inr ret, (p2, m_dataOutputVector d'))" "m_dnnPluginHandle d' = Some p2"
    using b by (auto simp: rknnYolov5_def)
  then have "length (m_dataOutputVector d') \<le> 64" "m_dnnPluginHandle d' \<noteq> None"
    using yolov5_postProcess_count by auto
  then show ?thesis using b by (simp add: detector_ok_def det_popOutputData_def)
qed

definition demo_attr :: "rat rknn_tensor_attr" where
  "demo_attr = \<lparr>attr_index = 0, attr_fmt = RKNN_TENSOR_NHWC, attr_dims = [1, 8, 8, 3], attr_zp = 0, attr_scale = 1\<rparr>"

definition loaded_rknn :: "rat rknn" where
  "loaded_rknn = newRknn\<lparr>m_rknnCtx := True, n_input := 1, n_output := 3, m_input_attrs := [demo_attr],
     m_output_attrs := [demo_attr, demo_attr, demo_attr]\<rparr>"

definition demo_answers :: "rat rknn_answers" where
  "demo_answers = \<lparr>ans_zero = 0, ans_load = \<lparr>la_file = None, la_seek = 0, la_init = 0, la_io_num = None,
     la_input_attr = (\<lambda>_. None), la_output_attr = (\<lambda>_. None)\<rparr>, ans_set = 0, ans_run = 0,
     ans_get = Inr (\<lambda>i. if i = 0 then (the (tensor_buf two_cells), 255) else ([], 0))\<rparr>"

definition demo_detector :: "(YoloPostProcess, rat rknn, rat) dnnObjDetector" where
  "demo_detector = \<lparr>m_pluginLibraryHandle = True, m_dnnPluginHandle = Some newYoloPostProcess, m_dnnEngine = loaded_rknn,
     m_dataInput = Some wide_picture, m_dataOutputVector = [], m_labelTextPath = ''labels.txt'', lib_opens = 1\<rparr>"

theorem detector_keeps_ok_witness:
  "\<exists>d' params'. runObjDetect (rknn_engine demo_answers) (rknnYolov5 exact_fp demo_cv (Some [''person'']))
       (demo_detector, demo_params) = (Inr 0, (d', params')) \<and>
     map out_label (det_popOutputData d') = [''person'', ''unknown''] \<and> detector_ok d' \<and> length (det_popOutputData d') \<le> 64"
proof -
  have "(case runObjDetect (rknn_engine demo_answers) (rknnYolov5 exact_fp demo_cv (Some [''person'']))
      (demo_detector, demo_params) of (ret, (d', params')) \<Rightarrow> (ret, map out_label (det_popOutputData d'))) =
      (Inr 0, [''person'', ''unknown''])" by code_simp
  then obtain d' params' where run: "runObjDetect (rknn_engine demo_answers)
      (rknnYolov5 exact_fp demo_cv (Some [''person''])) (demo_detector, demo_params) = (Inr 0, (d', params'))"
    and l: "map out_label (det_popOutputData d') = [''person'', ''unknown'']" by (auto split: prod.splits)
  have "detector_ok demo_detector"
    by (simp add: detector_ok_def demo_detector_def rknn_ready_def loaded_rknn_def newRknn_def)
  note ok = detector_keeps_ok [OF this run]
  show ?thesis
    by (rule exI [of _ d'], rule exI [of _ params']) (intro conjI run l ok [THEN conjunct1] ok [THEN conjunct2])
qed

text \<open>Without a plugin, and when \<open>postProcess\<close> throws, the outputs stay with the caller.\<close>

lemma no_plugin_leaks:
  assumes "m_dataInput d \<noteq> None" and "m_dnnPluginHandle d = None" and "0 < n_output (m_dnnEngine d)"
  shows "\<exists>d'. runObjDetect (rknn_engine (ans\<lparr>ans_get := Inr bufs\<rparr>)) P (d, params) = (Inr 0, (d', params)) \<and>
    outputs_lent (m_dnnEngine d') = outputs_lent (m_dnnEngine d) + 1"
  using assms by (auto simp: runObjDetect_def infer_def rknn_engine_def pushInputData_def newDnnInput_def runInference_def
      popOutputData_def Let_def)

text \<open>The library is closed twice.\<close>

lemma library_closed_twice:
  "m_pluginLibraryHandle d \<Longrightarrow> \<exists>d'. destroyDnnObjDetector True d = (Inr (), d') \<and> lib_opens d' = lib_opens d - 2"
  by (simp add: destroyDnnObjDetector_def)

end
