(* ===== verification/ObjDetector.thy ===== *)
theory ObjDetector
  imports CameraClient DnnDetector
begin

text \<open>
  The object detector of the data recorder (\<open>apps/data_recorder/obj_detector\<close>): \<open>runLoop\<close> receives the
  announcements of camera frames, copies the frames out of shared memory into reused buffers and
  queues them; \<open>inferenceLoop\<close> runs the detector on them and publishes frame and boxes. The two
  threads are interleaved step by step; a step touches a queue only under its mutex. Option parsing
  has been done, \<open>msgpack\<close> is a parameter (\<open>unpack\<close> answers \<open>None\<close> when it throws), and the FPS counter
  is left out.
\<close>

section \<open>State\<close>

definition MAX_BOXES :: nat where "MAX_BOXES = 64"
definition m_free_frames_queue_size :: nat where "m_free_frames_queue_size = 50"
definition m_inference_frames_queue_size :: nat where "m_inference_frames_queue_size = 50"

record 'f ObjDetectMsg =
  det_publisher_id :: string
  original_frame :: CameraSensorMsg
  output_boxes :: "'f ObjDetectOutputBox list"
  valid_box_count :: u32

definition newObjDetectOutputBox :: "('f, 'd) fp \<Rightarrow> 'f ObjDetectOutputBox" where
  "newObjDetectOutputBox F = \<lparr>out_bbox = \<lparr>bb_left = 0, bb_right = 0, bb_top = 0, bb_bottom = 0\<rparr>,
     out_score = f_of_int F 0, out_label = []\<rparr>"

definition newObjDetectMsg :: "('f, 'd) fp \<Rightarrow> 'f ObjDetectMsg" where
  "newObjDetectMsg F = \<lparr>det_publisher_id = [], original_frame = newCameraSensorMsg,
     output_boxes = replicate MAX_BOXES (newObjDetectOutputBox F), valid_box_count = 0\<rparr>"

text \<open>Where the two threads are, with the frames they hold.\<close>

datatype run_at = Awaiting | Preparing CameraSensorMsg | Copying ImageBuffer CameraSensorMsg |
  Queueing ImageBuffer | Trimming
datatype infer_at = Looking | Inferring ImageBuffer | Returning ImageBuffer

text \<open>
  The memory of the frames and the two segments are part of the state. The last two fields record
  what was in the slot of every frame copied and what was published.
\<close>

record ('p, 'e, 'f) ObjDetector =
  od_name :: string
  m_input_shmem_port :: SharedMemSubscriber
  od_output_shmem_port :: SharedMemPublisher
  m_dnnObjDetector :: "('p, 'e, 'f) dnnObjDetector"
  m_objDetectParams :: "'f ObjDetectParams"
  m_free_frames_queue :: "ImageBuffer list"
  m_inference_frames_queue :: "ImageBuffer list"
  msg_buffer :: bytes
  frames_heap :: heap
  in_segment :: bytes
  out_segment :: bytes
  run_at :: run_at
  infer_at :: infer_at
  frames_copied :: "bytes list"
  frames_published :: "bytes list"

text \<open>\<open>setObjDetectParams\<close>: what the options hold is in \<open>o'\<close>, the results of the engine are not looked at.\<close>

definition setObjDetectParams ::
  "('e, 'f) IDnnEngine \<Rightarrow> 'f ObjDetectParams \<Rightarrow> ('p, 'e, 'f) ObjDetector \<Rightarrow> (('p, 'e, 'f) ObjDetector, unit) outcome" where
  "setObjDetectParams E o' s =
     (case det_getInputShape E (m_dnnObjDetector s) of
        Inl x \<Rightarrow> (Inl x, s)
      | Inr (_, shape) \<Rightarrow>
          (let p = (m_objDetectParams s)\<lparr>model_input_width := shape_width shape, model_input_height := shape_height shape,
                 model_input_channel := shape_channel shape, conf_threshold := conf_threshold o',
                 nms_threshold := nms_threshold o', pads := pads o'\<rparr>
           in case det_getOutputQuantParams E (quantize_zero_points p) (quantize_scales p) (m_dnnObjDetector s) of
                Inl x \<Rightarrow> (Inl x, s\<lparr>m_objDetectParams := p\<rparr>)
              | Inr (_, zps, scs) \<Rightarrow>
                  (Inr (), s\<lparr>m_objDetectParams := p\<lparr>quantize_zero_points := zps, quantize_scales := scs\<rparr>\<rparr>)))"

section \<open>runLoop\<close>

text \<open>\<open>while (queue.size() >= n) queue.pop()\<close>.\<close>

fun trim :: "nat \<Rightarrow> 'a list \<Rightarrow> 'a list" where
  "trim n (f # q) = (if n \<le> length (f # q) then trim n q else f # q)"
| "trim n [] = []"

text \<open>
  The front of the loop: the message and the trimming of the queue; \<open>None\<close> at the two \<open>continue\<close>
  statements, for an empty message and for one that does not unpack.
\<close>

definition od_receive ::
  "(bytes \<Rightarrow> CameraSensorMsg option) \<Rightarrow> ('p, 'e, 'f) ObjDetector \<Rightarrow> (('p, 'e, 'f) ObjDetector, CameraSensorMsg option) outcome" where
  "od_receive unpack s =
     (case receiveMsg (msg_buffer s) 4096 (m_input_shmem_port s) of
        (Inl e, port) \<Rightarrow> (Inl e, s\<lparr>m_input_shmem_port := port\<rparr>)
      | (Inr (msg_size, buf), port) \<Rightarrow>
          (let s' = s\<lparr>m_input_shmem_port := port, msg_buffer := buf\<rparr>
           in if msg_size = 0 then (Inr None, s')
              else (Inr (unpack (take msg_size buf)),
                    s'\<lparr>m_inference_frames_queue := trim m_inference_frames_queue_size (m_inference_frames_queue s')\<rparr>)))"

text \<open>
  The buffer for a frame: the oldest free one as it is, or a new one; \<open>alloc\<close> is the block \<open>new\<close>
  yields, with its contents, \<open>None\<close> when it throws.
\<close>

definition newFrame :: "nat \<Rightarrow> CameraSensorMsg \<Rightarrow> ImageBuffer" where
  "newFrame b msg = newImageBuffer\<lparr>owner := Some b, view := makeHostImageView (Some b)
     \<lparr>width = word_of_int (msg_width msg), height = word_of_int (msg_height msg),
      widthStride = word_of_int (msg_width msg), heightStride = word_of_int (msg_height msg),
      format = pixel_format msg, dataSize = data_size msg\<rparr> (word_of_int (msg_width msg)) ReadWrite\<rparr>"

definition frame_for ::
  "(nat \<times> bytes) option \<Rightarrow> CameraSensorMsg \<Rightarrow> ('p, 'e, 'f) ObjDetector \<Rightarrow> ('p, 'e, 'f) ObjDetector \<times> ImageBuffer option" where
  "frame_for alloc msg s =
     (case m_free_frames_queue s of
        [] \<Rightarrow> (case alloc of
          None \<Rightarrow> (s, None)
        | Some (b, junk) \<Rightarrow>
            (s\<lparr>frames_heap := (frames_heap s)(b \<mapsto> take (data_size msg) (junk @ replicate (data_size msg) 0))\<rparr>,
             Some (newFrame b msg)))
      | f # q \<Rightarrow> (s\<lparr>m_free_frames_queue := q\<rparr>, Some f))"

text \<open>The memory behind a frame, and the copy out of shared memory, whose result is not looked at.\<close>

definition frame_bytes :: "heap \<Rightarrow> ImageBuffer \<Rightarrow> bytes" where
  "frame_bytes h f = (case view_data (view f) 0 of None \<Rightarrow> [] | Some b \<Rightarrow> (case h b of None \<Rightarrow> [] | Some blk \<Rightarrow> blk))"

definition fill_frame ::
  "ImageBuffer \<Rightarrow> CameraSensorMsg \<Rightarrow> ('p, 'e, 'f) ObjDetector \<Rightarrow> (('p, 'e, 'f) ObjDetector, unit) outcome" where
  "fill_frame f msg s =
     (case receiveSharedMemData (frame_bytes (frames_heap s) f) (data_size msg) (slot_index msg)
         (m_input_shmem_port s) (in_segment s) of
        Inl e \<Rightarrow> (Inl e, s)
      | Inr (_, blk) \<Rightarrow>
          (Inr (), case view_data (view f) 0 of None \<Rightarrow> s | Some b \<Rightarrow> s\<lparr>frames_heap := (frames_heap s)(b \<mapsto> blk)\<rparr>))"

definition queue_frame :: "ImageBuffer \<Rightarrow> ('p, 'e, 'f) ObjDetector \<Rightarrow> ('p, 'e, 'f) ObjDetector" where
  "queue_frame f s = s\<lparr>m_inference_frames_queue := m_inference_frames_queue s @ [f]\<rparr>"

definition trim_free :: "('p, 'e, 'f) ObjDetector \<Rightarrow> ('p, 'e, 'f) ObjDetector" where
  "trim_free s = s\<lparr>m_free_frames_queue := trim m_free_frames_queue_size (m_free_frames_queue s)\<rparr>"

section \<open>inferenceLoop\<close>

text \<open>\<open>runDnnInference\<close>: every exception ends in an empty list of boxes.\<close>

definition runDnnInference ::
  "('f, 'd) fp \<Rightarrow> ('e, 'f) IDnnEngine \<Rightarrow> ('p, 'f) IDnnObjDetectorPlugin \<Rightarrow> ImageBuffer \<Rightarrow> ('p, 'e, 'f) ObjDetector \<Rightarrow>
    (('p, 'e, 'f) ObjDetector, 'f ObjDetectOutputBox list) outcome" where
  "runDnnInference F E P frame s =
     (let v = view frame in
      if view_data v 0 = None \<or> dataSize (desc v) = 0 then (Inr [], s)
      else
        (let s1 = s\<lparr>m_dnnObjDetector := det_pushInputData v (m_dnnObjDetector s)\<rparr>
         in if width (desc v) = 0 \<or> height (desc v) = 0 then (Inr [], s1)
            else
              (let par = m_objDetectParams s1;
                   sw = f_div F (f_of_int F (int (model_input_width par))) (f_of_int F (uint (width (desc v))));
                   sh = f_div F (f_of_int F (int (model_input_height par))) (f_of_int F (uint (height (desc v))));
                   s2 = s1\<lparr>m_objDetectParams := par\<lparr>scale_width := sw, scale_height := sh\<rparr>\<rparr>
               in if f_le F sw (f_of_int F 0) \<or> f_le F sh (f_of_int F 0) then (Inr [], s2)
                  else case runObjDetect E P (m_dnnObjDetector s2, m_objDetectParams s2) of
                    (r, (d, par')) \<Rightarrow>
                      (let s3 = s2\<lparr>m_dnnObjDetector := d, m_objDetectParams := par'\<rparr>
                       in case r of
                            Inl (Throw _) \<Rightarrow> (Inr [], s3)
                          | Inl e \<Rightarrow> (Inl e, s3)
                          | Inr ret \<Rightarrow> (Inr (if ret = 0 then det_popOutputData d else []), s3)))))"

text \<open>\<open>publishObjDetectResults\<close>: at most 64 boxes are copied and counted.\<close>

fun copy_boxes :: "nat \<Rightarrow> 'f ObjDetectOutputBox list \<Rightarrow> 'f ObjDetectMsg \<Rightarrow> 'f ObjDetectMsg" where
  "copy_boxes i [] m = m"
| "copy_boxes i (b # bs) m =
     (if i < MAX_BOXES
      then copy_boxes (i + 1) bs (m\<lparr>output_boxes := (output_boxes m)[i := b], valid_box_count := valid_box_count m + 1\<rparr>)
      else m)"

definition detect_msg ::
  "('f, 'd) fp \<Rightarrow> 'f ObjDetectOutputBox list \<Rightarrow> string \<Rightarrow> ImageBuffer \<Rightarrow> nat \<Rightarrow> 'f ObjDetectMsg" where
  "detect_msg F boxes name frame slot =
     copy_boxes 0 boxes ((newObjDetectMsg F)\<lparr>det_publisher_id := name,
       original_frame := \<lparr>publisher_id = name, pixel_format = format (desc (view frame)),
         msg_width = sint (width (desc (view frame))), msg_height = sint (height (desc (view frame))),
         data_size = dataSize (desc (view frame)), slot_index = slot\<rparr>\<rparr>)"

definition publishObjDetectResults ::
  "('f, 'd) fp \<Rightarrow> ('f ObjDetectMsg \<Rightarrow> bytes) \<Rightarrow> bool \<Rightarrow> 'f ObjDetectOutputBox list \<Rightarrow> ImageBuffer \<Rightarrow>
    ('p, 'e, 'f) ObjDetector \<Rightarrow> (('p, 'e, 'f) ObjDetector, unit) outcome" where
  "publishObjDetectResults F pack sent boxes frame s =
     (case getFreeSlotIndex (od_output_shmem_port s) of
        (Inl e, port) \<Rightarrow> (Inl e, s\<lparr>od_output_shmem_port := port\<rparr>)
      | (Inr slot, port) \<Rightarrow>
          (case publish_frame sent (pack (detect_msg F boxes (od_name s) frame slot)) (view_data (view frame) 0) slot
              (dataSize (desc (view frame))) (frames_heap s) (port, out_segment s) of
             (r, (port', shm)) \<Rightarrow>
               (map_sum id (\<lambda>_. ()) r, s\<lparr>od_output_shmem_port := port', out_segment := shm\<rparr>)))"

definition inference_round ::
  "('f, 'd) fp \<Rightarrow> ('e, 'f) IDnnEngine \<Rightarrow> ('p, 'f) IDnnObjDetectorPlugin \<Rightarrow> ('f ObjDetectMsg \<Rightarrow> bytes) \<Rightarrow> bool \<Rightarrow>
    ImageBuffer \<Rightarrow> ('p, 'e, 'f) ObjDetector \<Rightarrow> (('p, 'e, 'f) ObjDetector, unit) outcome" where
  "inference_round F E P pack sent frame s =
     andthen (runDnnInference F E P frame s) (\<lambda>boxes s'. publishObjDetectResults F pack sent boxes frame s')"

definition return_frame :: "ImageBuffer \<Rightarrow> ('p, 'e, 'f) ObjDetector \<Rightarrow> ('p, 'e, 'f) ObjDetector" where
  "return_frame f s =
     (if length (m_free_frames_queue s) < m_free_frames_queue_size
      then s\<lparr>m_free_frames_queue := m_free_frames_queue s @ [f]\<rparr> else s)"

section \<open>The threads\<close>

text \<open>
  The engine, the plugin and what \<open>send\<close> answers are free in every step. Memory given
  back is not handed out again under the same name. The camera may write to its segment and announce
  frames at any time.
\<close>

definition slot_bytes :: "CameraSensorMsg \<Rightarrow> ('p, 'e, 'f) ObjDetector \<Rightarrow> bytes" where
  "slot_bytes msg s = get_slot (sub_single_buffer_size (m_input_shmem_port s)) (slot_index msg) (data_size msg) (in_segment s)"

inductive od_step ::
  "('f, 'd) fp \<Rightarrow> (bytes \<Rightarrow> CameraSensorMsg option) \<Rightarrow> ('f ObjDetectMsg \<Rightarrow> bytes) \<Rightarrow>
    ('p, 'e, 'f) ObjDetector \<Rightarrow> ('p, 'e, 'f) ObjDetector \<Rightarrow> bool"
  for F :: "('f, 'd) fp" and unpack :: "bytes \<Rightarrow> CameraSensorMsg option" and pack :: "'f ObjDetectMsg \<Rightarrow> bytes" where
  skip: "run_at s = Awaiting \<Longrightarrow> od_receive unpack s = (Inr None, s') \<Longrightarrow> od_step F unpack pack s s'"
| receive: "run_at s = Awaiting \<Longrightarrow> od_receive unpack s = (Inr (Some msg), s') \<Longrightarrow>
    od_step F unpack pack s (s'\<lparr>run_at := Preparing msg\<rparr>)"
| no_memory: "run_at s = Preparing msg \<Longrightarrow> frame_for None msg s = (s', None) \<Longrightarrow>
    od_step F unpack pack s (s'\<lparr>run_at := Awaiting\<rparr>)"
| prepare: "run_at s = Preparing msg \<Longrightarrow> frames_heap s b = None \<Longrightarrow> frame_for (Some (b, junk)) msg s = (s', Some f) \<Longrightarrow>
    od_step F unpack pack s (s'\<lparr>run_at := Copying f msg\<rparr>)"
| copy: "run_at s = Copying f msg \<Longrightarrow> fill_frame f msg s = (Inr (), s') \<Longrightarrow>
    od_step F unpack pack s (s'\<lparr>run_at := Queueing f, frames_copied := frames_copied s' @ [slot_bytes msg s]\<rparr>)"
| queue: "run_at s = Queueing f \<Longrightarrow> od_step F unpack pack s ((queue_frame f s)\<lparr>run_at := Trimming\<rparr>)"
| trim: "run_at s = Trimming \<Longrightarrow> od_step F unpack pack s ((trim_free s)\<lparr>run_at := Awaiting\<rparr>)"
| take: "infer_at s = Looking \<Longrightarrow> m_inference_frames_queue s = f # q \<Longrightarrow>
    od_step F unpack pack s (s\<lparr>m_inference_frames_queue := q, infer_at := Inferring f\<rparr>)"
| infer: "infer_at s = Inferring f \<Longrightarrow> inference_round F E P pack sent f s = (Inr (), s') \<Longrightarrow>
    od_step F unpack pack s (s'\<lparr>infer_at := Returning f,
      frames_published := frames_published s' @ [take (dataSize (desc (view f))) (frame_bytes (frames_heap s) f)]\<rparr>)"
| give_back: "infer_at s = Returning f \<Longrightarrow> od_step F unpack pack s ((return_frame f s)\<lparr>infer_at := Looking\<rparr>)"
| camera: "length shm = length (in_segment s) \<Longrightarrow>
    od_step F unpack pack s (s\<lparr>in_segment := shm, m_input_shmem_port := (m_input_shmem_port s)\<lparr>m_zmq_msg_sub :=
      (m_zmq_msg_sub (m_input_shmem_port s))\<lparr>sub_incoming := sub_incoming (m_zmq_msg_sub (m_input_shmem_port s)) @ fs\<rparr>\<rparr>\<rparr>)"

abbreviation od_steps where "od_steps F unpack pack \<equiv> (od_step F unpack pack)\<^sup>*\<^sup>*"

section \<open>Ownership of the frames\<close>

definition block_of :: "ImageBuffer \<Rightarrow> ptr" where "block_of f = view_data (view f) 0"

definition frame_ok :: "nat \<Rightarrow> heap \<Rightarrow> ImageBuffer \<Rightarrow> bool" where
  "frame_ok n h f \<longleftrightarrow> dataSize (desc (view f)) = n \<and>
     (\<exists>b blk. block_of f = Some b \<and> h b = Some blk \<and> length blk = n)"

definition owns :: "nat \<Rightarrow> heap \<Rightarrow> ImageBuffer list \<Rightarrow> bool" where
  "owns n h fs \<longleftrightarrow> (\<forall>f \<in> set fs. frame_ok n h f) \<and> distinct (map block_of fs)"

lemma owns_Cons: "owns n h (f # fs) \<longleftrightarrow> frame_ok n h f \<and> block_of f \<notin> block_of ` set fs \<and> owns n h fs"
  by (auto simp: owns_def)

lemma owns_sub:
  assumes "owns n h fs" and "mset gs \<subseteq># mset fs"
  shows "owns n h gs"
proof -
  obtain rest where "mset fs = mset gs + mset rest" using assms(2) by (metis ex_mset mset_subset_eq_exists_conv)
  then have m: "mset fs = mset (gs @ rest)" by simp
  then have "set fs = set (gs @ rest)" by (rule mset_eq_setD)
  moreover have "mset (map block_of fs) = mset (map block_of (gs @ rest))" using m by (metis mset_map)
  then have "distinct (map block_of fs) = distinct (map block_of (gs @ rest))" by (rule mset_eq_imp_distinct_iff)
  ultimately show ?thesis using assms(1) by (auto simp: owns_def)
qed

lemma frame_bytes_other: "block_of g \<noteq> Some b \<Longrightarrow> frame_bytes (h(b \<mapsto> blk)) g = frame_bytes h g"
  by (auto simp: frame_bytes_def block_of_def split: option.splits)

lemma frame_bytes_ok:
  assumes "frame_ok n h f"
  shows "length (frame_bytes h f) = n"
  using assms by (auto simp: frame_ok_def frame_bytes_def block_of_def)

lemma owns_write:
  assumes "owns n h fs" and "length blk = n"
  shows "owns n (h(b \<mapsto> blk)) fs"
  using assms by (auto simp: owns_def frame_ok_def) metis

lemma owns_others:
  assumes "owns n h (f # fs)" and "block_of f = Some b" and "g \<in> set fs"
  shows "frame_bytes (h(b \<mapsto> blk)) g = frame_bytes h g"
proof (rule frame_bytes_other)
  show "block_of g \<noteq> Some b" using assms by (auto simp: owns_Cons image_iff)
qed

lemma owns_fresh:
  assumes "owns n h fs" and "h b = None" and "g \<in> set fs"
  shows "block_of g \<noteq> Some b"
  using assms by (auto simp: owns_def frame_ok_def)

definition run_frames :: "('p, 'e, 'f) ObjDetector \<Rightarrow> ImageBuffer list" where
  "run_frames s = (case run_at s of Copying f _ \<Rightarrow> [f] | Queueing f \<Rightarrow> [f] | _ \<Rightarrow> [])"

definition infer_frames :: "('p, 'e, 'f) ObjDetector \<Rightarrow> ImageBuffer list" where
  "infer_frames s = (case infer_at s of Looking \<Rightarrow> [] | Inferring f \<Rightarrow> [f] | Returning f \<Rightarrow> [f])"

definition all_frames :: "('p, 'e, 'f) ObjDetector \<Rightarrow> ImageBuffer list" where
  "all_frames s = run_frames s @ infer_frames s @ m_free_frames_queue s @ m_inference_frames_queue s"

text \<open>The frames that wait to be published, in this order.\<close>

definition waiting :: "('p, 'e, 'f) ObjDetector \<Rightarrow> ImageBuffer list" where
  "waiting s = (case infer_at s of Inferring f \<Rightarrow> [f] | _ \<Rightarrow> []) @ m_inference_frames_queue s @
     (case run_at s of Queueing f \<Rightarrow> [f] | _ \<Rightarrow> [])"

text \<open>All frames have \<open>n\<close> bytes, both segments have slots for them, messages name a slot.\<close>

definition ports_ok :: "nat \<Rightarrow> ('p, 'e, 'f) ObjDetector \<Rightarrow> bool" where
  "ports_ok n s \<longleftrightarrow> publisher_ok (od_output_shmem_port s) (out_segment s) \<and>
     n \<le> m_single_buffer_size (od_output_shmem_port s) \<and>
     n \<le> sub_single_buffer_size (m_input_shmem_port s) \<and>
     sub_shm_slots (m_input_shmem_port s) =
       slot_offsets (sub_single_buffer_size (m_input_shmem_port s)) (sub_slots (m_input_shmem_port s)) \<and>
     segment_ok (sub_single_buffer_size (m_input_shmem_port s)) (sub_slots (m_input_shmem_port s)) (in_segment s)"

definition announces :: "nat \<Rightarrow> nat \<Rightarrow> CameraSensorMsg \<Rightarrow> bool" where
  "announces n slots msg \<longleftrightarrow> data_size msg = n \<and> slot_index msg < slots"

fun announced :: "run_at \<Rightarrow> CameraSensorMsg list" where
  "announced (Preparing msg) = [msg]"
| "announced (Copying f msg) = [msg]"
| "announced _ = []"

definition od_inv :: "nat \<Rightarrow> ('p, 'e, 'f) ObjDetector \<Rightarrow> bool" where
  "od_inv n s \<longleftrightarrow> ports_ok n s \<and> owns n (frames_heap s) (all_frames s) \<and>
     length (m_free_frames_queue s) \<le> m_free_frames_queue_size \<and>
     length (m_inference_frames_queue s) + (if run_at s \<in> {Awaiting, Trimming} then 0 else 1) \<le> m_inference_frames_queue_size \<and>
     (\<forall>msg \<in> set (announced (run_at s)). announces n (sub_slots (m_input_shmem_port s)) msg) \<and>
     subseq (frames_published s @ map (frame_bytes (frames_heap s)) (waiting s)) (frames_copied s)"

lemma trim_drop: "\<exists>k. trim n q = drop k q" "0 < n \<Longrightarrow> length (trim n q) < n"
proof -
  show "\<exists>k. trim n q = drop k q"
  proof (induction q)
    case (Cons f q)
    then show ?case
      by (cases "n \<le> length (f # q)") (metis drop_Suc_Cons trim.simps(1), metis drop0 trim.simps(1))
  qed simp
  show "0 < n \<Longrightarrow> length (trim n q) < n" by (induction q) auto
qed

lemma subseq_drop_middle: "subseq (xs @ ys @ drop k zs) (xs @ ys @ zs)"
  using subseq_keep_end [of "xs @ ys" k zs] by simp

lemma mset_drop: "mset (drop k xs) \<subseteq># mset xs"
  by (metis append_take_drop_id mset_append mset_subset_eq_add_right)

lemma waiting_frames: "set (waiting s) \<subseteq> set (all_frames s)"
  by (auto simp: waiting_def all_frames_def run_frames_def infer_frames_def split: infer_at.splits run_at.splits)

lemma receiveMsg_port:
  assumes "receiveMsg buf k port = (r, port')"
  shows "sub_slots port' = sub_slots port \<and> sub_single_buffer_size port' = sub_single_buffer_size port \<and>
    sub_shm_slots port' = sub_shm_slots port"
  using assms by (auto simp: receiveMsg_def split: prod.splits)

lemma od_receive_effect:
  assumes "od_receive unpack s = (Inr r, s')"
  shows "\<exists>port buf k. s' = s\<lparr>m_input_shmem_port := port, msg_buffer := buf,
      m_inference_frames_queue := drop k (m_inference_frames_queue s)\<rparr> \<and>
    sub_slots port = sub_slots (m_input_shmem_port s) \<and>
    sub_single_buffer_size port = sub_single_buffer_size (m_input_shmem_port s) \<and>
    sub_shm_slots port = sub_shm_slots (m_input_shmem_port s) \<and>
    (r \<noteq> None \<longrightarrow> length (m_inference_frames_queue s') < m_inference_frames_queue_size \<and> (\<exists>d. unpack d = r))"
proof -
  obtain k buf port where rec: "receiveMsg (msg_buffer s) 4096 (m_input_shmem_port s) = (Inr (k, buf), port)"
    using assms by (auto simp: od_receive_def split: prod.splits sum.splits)
  note p = receiveMsg_port [OF rec]
  obtain j where j: "trim m_inference_frames_queue_size (m_inference_frames_queue s) = drop j (m_inference_frames_queue s)"
    using trim_drop(1) by blast
  show ?thesis
  proof (cases "k = 0")
    case True
    then have "r = None" "s' = s\<lparr>m_input_shmem_port := port, msg_buffer := buf\<rparr>"
      using assms rec by (simp_all add: od_receive_def)
    then show ?thesis using p
      by (intro exI [of _ port] exI [of _ buf] exI [of _ 0]) simp
  next
    case False
    then have "r = unpack (take k buf)" "s' = s\<lparr>m_input_shmem_port := port, msg_buffer := buf,
        m_inference_frames_queue := trim m_inference_frames_queue_size (m_inference_frames_queue s)\<rparr>"
      using assms rec by (simp_all add: od_receive_def)
    then show ?thesis
      using p j trim_drop(2) [of m_inference_frames_queue_size "m_inference_frames_queue s"]
      by (intro exI [of _ port] exI [of _ buf] exI [of _ j]) (auto simp: m_inference_frames_queue_size_def)
  qed
qed

text \<open>Dropping queued frames and moving the port keep the invariant; what is published stays in order.\<close>

lemma od_inv_drop:
  assumes "od_inv n s" and "run_at s = Awaiting"
    and "sub_slots port = sub_slots (m_input_shmem_port s)"
    and "sub_single_buffer_size port = sub_single_buffer_size (m_input_shmem_port s)"
    and "sub_shm_slots port = sub_shm_slots (m_input_shmem_port s)"
    and "r = Awaiting \<or> (\<exists>msg. r = Preparing msg \<and> announces n (sub_slots (m_input_shmem_port s)) msg \<and>
      length (drop k (m_inference_frames_queue s)) < m_inference_frames_queue_size)"
  shows "od_inv n (s\<lparr>m_input_shmem_port := port, msg_buffer := buf,
    m_inference_frames_queue := drop k (m_inference_frames_queue s), run_at := r\<rparr>)" (is "od_inv n ?s")
proof -
  have run: "run_frames ?s = []" "run_frames s = []" using assms(2,6) by (auto simp: run_frames_def)
  have "mset (all_frames ?s) \<subseteq># mset (all_frames s)"
    using mset_drop [of k "m_inference_frames_queue s"] by (simp add: all_frames_def run infer_frames_def)
  then have "owns n (frames_heap ?s) (all_frames ?s)" using assms(1) owns_sub by (auto simp: od_inv_def)
  moreover have "subseq (frames_published s @ map (frame_bytes (frames_heap s)) (waiting ?s))
      (frames_published s @ map (frame_bytes (frames_heap s)) (waiting s))"
    using assms(2,6) by (auto simp: waiting_def drop_map [symmetric] intro!: subseq_drop_middle)
  then have "subseq (frames_published ?s @ map (frame_bytes (frames_heap ?s)) (waiting ?s)) (frames_copied ?s)"
    using assms(1) by (auto simp: od_inv_def intro: subseq_order.trans)
  ultimately show ?thesis
    using assms by (auto simp: od_inv_def ports_ok_def announces_def)
qed

text \<open>Preparing a frame: a free one, or a new one whose memory nobody else has.\<close>

lemma frame_for_ok:
  assumes "owns n h (rs @ fs @ gs)" and "m_free_frames_queue s = fs" and "frames_heap s = h"
    and "h b = None" and "data_size msg = n" and "frame_for (Some (b, junk)) msg s = (s', Some f)"
  shows "\<exists>h' fs'. s' = s\<lparr>frames_heap := h', m_free_frames_queue := fs'\<rparr> \<and> owns n h' (f # rs @ fs' @ gs) \<and>
    length fs' \<le> length fs \<and> (\<forall>g \<in> set (rs @ gs). frame_bytes h' g = frame_bytes h g)"
proof (cases fs)
  case Nil
  let ?h = "h(b \<mapsto> take n (junk @ replicate n 0))"
  have e: "s' = s\<lparr>frames_heap := ?h\<rparr>" "f = newFrame b msg"
    using assms(2,3,5,6) Nil by (simp_all add: frame_for_def)
  have blk: "block_of f = Some b" "dataSize (desc (view f)) = n"
    using assms(5) by (simp_all add: e(2) newFrame_def block_of_def makeHostImageView_sel newImageBuffer_def)
  have other: "block_of g \<noteq> Some b" if "g \<in> set (rs @ gs)" for g
    using owns_fresh [OF assms(1,4)] that by auto
  have "owns n ?h (rs @ fs @ gs)" using owns_write [OF assms(1)] by simp
  moreover have "block_of f \<notin> block_of ` set (rs @ gs)" using other unfolding blk(1) image_iff by metis
  ultimately have "owns n ?h (f # rs @ [] @ gs)"
    using blk Nil by (simp add: owns_Cons frame_ok_def)
  moreover have "\<forall>g \<in> set (rs @ gs). frame_bytes ?h g = frame_bytes h g"
    using other frame_bytes_other by blast
  moreover have "s' = s\<lparr>frames_heap := ?h, m_free_frames_queue := []\<rparr>" using e(1) assms(2) Nil by simp
  ultimately show ?thesis using Nil by (intro exI [of _ ?h] exI [of _ "[]"]) simp
next
  case (Cons g fs')
  then have e: "s' = s\<lparr>m_free_frames_queue := fs'\<rparr>" "f = g" using assms(2,6) by (simp_all add: frame_for_def)
  have "mset (f # rs @ fs' @ gs) \<subseteq># mset (rs @ fs @ gs)" using Cons e(2) by simp
  then have "owns n h (f # rs @ fs' @ gs)" using assms(1) owns_sub by blast
  then show ?thesis
    using Cons e(1) assms(3) by (intro exI [of _ h] exI [of _ fs']) simp
qed

text \<open>The copy: with a slot and a block of the right size it succeeds and writes the bytes of the slot.\<close>

lemma fill_frame_ok:
  assumes "ports_ok n s" and "announces n (sub_slots (m_input_shmem_port s)) msg" and "frame_ok n (frames_heap s) f" and "block_of f = Some b"
  shows "fill_frame f msg s = (Inr (), s\<lparr>frames_heap := (frames_heap s)(b \<mapsto> slot_bytes msg s)\<rparr>) \<and>
    length (slot_bytes msg s) = n"
proof -
  let ?port = "m_input_shmem_port s" and ?i = "slot_index msg"
  let ?single = "sub_single_buffer_size ?port"
  have n: "n \<le> ?single" "data_size msg = n" "?i < sub_slots ?port"
    "sub_shm_slots ?port = slot_offsets ?single (sub_slots ?port)" "length (in_segment s) = ?single * sub_slots ?port"
    using assms(1,2) by (simp_all add: ports_ok_def announces_def segment_ok_def)
  have e: "?i * ?single + n \<le> length (in_segment s)" using slot_end [OF n(3,1)] n(5) by simp
  then have len: "length (slot_bytes msg s) = n" by (simp add: slot_bytes_def get_slot_def n(2))
  have "min ?single n = n" using n(1) by simp
  then have "receiveSharedMemData (frame_bytes (frames_heap s) f) n ?i ?port (in_segment s) =
      Inr (sint (word_of_nat n :: 32 word), slot_bytes msg s)"
    using n e frame_bytes_ok [OF assms(3)] len
    by (simp add: receiveSharedMemData_def offset_at slot_bytes_def get_slot_def memcpy_at_def Let_def)
  then show ?thesis using n(2) assms(4) len by (simp add: fill_frame_def block_of_def)
qed

text \<open>Publishing never fails on a frame in order.\<close>

lemma runDnnInference_frame:
  assumes "runDnnInference F E P f s = (r, s')"
  shows "s' = s\<lparr>m_dnnObjDetector := m_dnnObjDetector s', m_objDetectParams := m_objDetectParams s'\<rparr>"
  using assms unfolding runDnnInference_def Let_def
  by (auto split: if_splits prod.splits sum.splits fault.splits)

lemma publish_ok:
  assumes "ports_ok n s" and "frame_ok n (frames_heap s) f"
  shows "\<exists>port shm. publishObjDetectResults F pack sent boxes f s =
      (Inr (), s\<lparr>od_output_shmem_port := port, out_segment := shm\<rparr>) \<and>
    ports_ok n (s\<lparr>od_output_shmem_port := port, out_segment := shm\<rparr>)"
proof -
  let ?p = "od_output_shmem_port s"
  let ?p' = "?p\<lparr>m_current_slot_index := (m_current_slot_index ?p + 1) mod m_slots ?p\<rparr>"
  let ?i = "m_current_slot_index ?p"
  obtain b blk where b: "view_data (view f) 0 = Some b" "frames_heap s b = Some blk" "length blk = n"
    "dataSize (desc (view f)) = n" using assms(2) by (auto simp: frame_ok_def block_of_def)
  have i: "?i < m_slots ?p" and n: "n \<le> m_single_buffer_size ?p" and ok: "publisher_ok ?p' (out_segment s)"
    using assms(1) by (auto simp: ports_ok_def publisher_ok_def)
  define msg where "msg = pack (detect_msg F boxes (od_name s) f ?i)"
  define port where "port = ?p'\<lparr>m_zmq_msg_pub := snd (zmq_sendData sent msg (m_zmq_msg_pub ?p'))\<rparr>"
  define shm where "shm = put_slot (m_single_buffer_size ?p') ?i blk (out_segment s)"
  have "publishData sent msg blk ?i (?p', out_segment s) = (Inr 0, (port, shm))"
    using publishData_ok [OF ok, of ?i blk sent msg] i n b(3) by (simp add: port_def shm_def)
  then have "publish_frame sent msg (Some b) ?i n (frames_heap s) (?p', out_segment s) = (Inr 0, (port, shm))"
    using b by (simp add: publish_frame_def)
  then have "publishObjDetectResults F pack sent boxes f s =
      (Inr (), s\<lparr>od_output_shmem_port := port, out_segment := shm\<rparr>)"
    using b i by (simp add: publishObjDetectResults_def getFreeSlotIndex_def msg_def)
  moreover have "segment_ok (m_single_buffer_size ?p) (m_slots ?p) shm"
    using segment.put_ok [of "m_single_buffer_size ?p" "m_slots ?p" "out_segment s" ?i blk] i n b(3) assms(1)
    by (simp add: shm_def ports_ok_def publisher_ok_def)
  then have "ports_ok n (s\<lparr>od_output_shmem_port := port, out_segment := shm\<rparr>)"
    using assms(1) ok by (simp add: ports_ok_def publisher_ok_def port_def)
  ultimately show ?thesis by blast
qed

section \<open>The invariant\<close>

lemma od_inv_fields [simp]:
  "all_frames (s\<lparr>m_dnnObjDetector := d\<rparr>) = all_frames s"
  "waiting (s\<lparr>m_dnnObjDetector := d\<rparr>) = waiting s"
  "all_frames (s\<lparr>m_objDetectParams := par\<rparr>) = all_frames s"
  "waiting (s\<lparr>m_objDetectParams := par\<rparr>) = waiting s"
  "all_frames (s\<lparr>od_output_shmem_port := port\<rparr>) = all_frames s"
  "waiting (s\<lparr>od_output_shmem_port := port\<rparr>) = waiting s"
  "all_frames (s\<lparr>out_segment := shm\<rparr>) = all_frames s"
  "waiting (s\<lparr>out_segment := shm\<rparr>) = waiting s"
  "all_frames (s\<lparr>in_segment := shm\<rparr>) = all_frames s"
  "waiting (s\<lparr>in_segment := shm\<rparr>) = waiting s"
  "all_frames (s\<lparr>m_input_shmem_port := sub\<rparr>) = all_frames s"
  "waiting (s\<lparr>m_input_shmem_port := sub\<rparr>) = waiting s"
  "all_frames (s\<lparr>frames_published := ps\<rparr>) = all_frames s"
  "waiting (s\<lparr>frames_published := ps\<rparr>) = waiting s"
  "all_frames (s\<lparr>frames_copied := ps\<rparr>) = all_frames s"
  "waiting (s\<lparr>frames_copied := ps\<rparr>) = waiting s"
  by (simp_all add: all_frames_def waiting_def run_frames_def infer_frames_def)

lemma od_inv_prepare:
  assumes "od_inv n s" and "run_at s = Preparing msg" and "frames_heap s b = None"
    and "frame_for (Some (b, junk)) msg s = (s', Some f)"
  shows "od_inv n (s'\<lparr>run_at := Copying f msg\<rparr>)"
proof -
  let ?i = "infer_frames s" and ?q = "m_inference_frames_queue s"
  have run: "run_frames s = []" using assms(2) by (simp add: run_frames_def)
  have inv: "owns n (frames_heap s) (?i @ m_free_frames_queue s @ ?q)" "data_size msg = n"
    using assms(1,2) by (simp_all add: od_inv_def all_frames_def run announces_def)
  from frame_for_ok [OF inv(1) refl refl assms(3) inv(2) assms(4)]
  obtain h' fs' where e: "s' = s\<lparr>frames_heap := h', m_free_frames_queue := fs'\<rparr>"
    and o: "owns n h' (f # ?i @ fs' @ ?q)" "length fs' \<le> length (m_free_frames_queue s)"
    "\<forall>g \<in> set (?i @ ?q). frame_bytes h' g = frame_bytes (frames_heap s) g" by blast
  have "set (waiting s) \<subseteq> set (?i @ ?q)"
    using assms(2) by (auto simp: waiting_def infer_frames_def split: infer_at.splits)
  then have "map (frame_bytes h') (waiting s) = map (frame_bytes (frames_heap s)) (waiting s)" using o(3) by auto
  moreover have "waiting (s'\<lparr>run_at := Copying f msg\<rparr>) = waiting s" using assms(2) by (simp add: waiting_def e)
  moreover have "all_frames (s'\<lparr>run_at := Copying f msg\<rparr>) = f # ?i @ fs' @ ?q"
    by (simp add: all_frames_def run_frames_def infer_frames_def e)
  ultimately show ?thesis
    using assms(1,2) o(1,2) e
    by (simp add: od_inv_def ports_ok_def announces_def del: map_eq_conv)
qed

lemma od_inv_copy:
  assumes "od_inv n s" and "run_at s = Copying f msg" and "fill_frame f msg s = (Inr (), s')"
  shows "od_inv n (s'\<lparr>run_at := Queueing f, frames_copied := frames_copied s' @ [slot_bytes msg s]\<rparr>)"
proof -
  have run: "run_frames s = [f]" using assms(2) by (simp add: run_frames_def)
  have inv: "ports_ok n s" "announces n (sub_slots (m_input_shmem_port s)) msg" "owns n (frames_heap s) (all_frames s)"
    using assms(1,2) by (simp_all add: od_inv_def)
  then have f: "frame_ok n (frames_heap s) f" by (simp add: owns_Cons all_frames_def run)
  then obtain b where b: "block_of f = Some b" by (auto simp: frame_ok_def)
  let ?h = "(frames_heap s)(b \<mapsto> slot_bytes msg s)"
  note fill = fill_frame_ok [OF inv(1,2) f b]
  then have e: "s' = s\<lparr>frames_heap := ?h\<rparr>" using assms(3) by simp
  have own: "owns n ?h (all_frames s)" using owns_write [OF inv(3)] fill by blast
  have others: "frame_bytes ?h g = frame_bytes (frames_heap s) g" if "g \<in> set (waiting s)" for g
  proof -
    have "g \<in> set (infer_frames s @ m_free_frames_queue s @ m_inference_frames_queue s)"
      using that assms(2) by (auto simp: waiting_def infer_frames_def split: infer_at.splits)
    then show ?thesis using owns_others [OF _ b] inv(3) by (simp add: all_frames_def run)
  qed
  then have "map (frame_bytes ?h) (waiting s) = map (frame_bytes (frames_heap s)) (waiting s)" by simp
  moreover have "frame_bytes ?h f = slot_bytes msg s" using b by (simp add: frame_bytes_def block_of_def)
  moreover have "waiting (s'\<lparr>run_at := Queueing f\<rparr>) = waiting s @ [f]" using assms(2) by (simp add: waiting_def e)
  moreover have "all_frames (s'\<lparr>run_at := Queueing f\<rparr>) = all_frames s"
    by (simp add: all_frames_def run_frames_def infer_frames_def e assms(2))
  moreover have "subseq ((frames_published s @ map (frame_bytes (frames_heap s)) (waiting s)) @ [slot_bytes msg s])
      (frames_copied s @ [slot_bytes msg s])"
    using assms(1) by (intro list_emb_append_mono) (simp_all add: od_inv_def)
  ultimately show ?thesis
    using assms(1,2) own e
    by (simp add: od_inv_def ports_ok_def del: map_eq_conv)
qed

lemma od_inv_return:
  assumes "od_inv n s" and "infer_at s = Returning f"
  shows "od_inv n ((return_frame f s)\<lparr>infer_at := Looking\<rparr>)" (is "od_inv n ?s")
proof -
  let ?free = "m_free_frames_queue ?s"
  have free: "?free = (if length (m_free_frames_queue s) < m_free_frames_queue_size
      then m_free_frames_queue s @ [f] else m_free_frames_queue s)" by (simp add: return_frame_def)
  have "mset (all_frames ?s) \<subseteq># mset (all_frames s)"
    using assms(2) by (simp add: return_frame_def all_frames_def run_frames_def infer_frames_def)
  then have "owns n (frames_heap s) (all_frames ?s)" using assms(1) owns_sub by (auto simp: od_inv_def)
  moreover have "waiting ?s = waiting s" using assms(2) by (simp add: waiting_def return_frame_def)
  ultimately show ?thesis
    using assms free by (cases "length (m_free_frames_queue s) < m_free_frames_queue_size")
      (simp_all add: od_inv_def ports_ok_def return_frame_def)
qed

lemma od_inv_infer:
  assumes "od_inv n s" and "infer_at s = Inferring f" and "inference_round F E P pack sent f s = (Inr (), s')"
  shows "od_inv n (s'\<lparr>infer_at := Returning f,
    frames_published := frames_published s' @ [take (dataSize (desc (view f))) (frame_bytes (frames_heap s) f)]\<rparr>)"
proof -
  obtain boxes s1 where run: "runDnnInference F E P f s = (Inr boxes, s1)"
    and pub: "publishObjDetectResults F pack sent boxes f s1 = (Inr (), s')"
    using assms(3) by (auto simp: inference_round_def andthen_Inr)
  obtain d par where s1: "s1 = s\<lparr>m_dnnObjDetector := d, m_objDetectParams := par\<rparr>"
    using runDnnInference_frame [OF run] by blast
  have f: "frame_ok n (frames_heap s) f"
    using assms(1,2) by (simp add: od_inv_def all_frames_def infer_frames_def owns_def)
  have "ports_ok n s1" "frame_ok n (frames_heap s1) f" using assms(1) f by (simp_all add: s1 od_inv_def ports_ok_def)
  from publish_ok [OF this, of F pack sent boxes] pub obtain port shm
    where s': "s' = s1\<lparr>od_output_shmem_port := port, out_segment := shm\<rparr>" and ports: "ports_ok n s'" by auto
  have t: "take (dataSize (desc (view f))) (frame_bytes (frames_heap s) f) = frame_bytes (frames_heap s) f"
    using frame_bytes_ok [OF f] f by (simp add: frame_ok_def)
  have "waiting s = f # waiting (s'\<lparr>infer_at := Returning f\<rparr>)"
    using assms(2) by (simp add: s' s1 waiting_def)
  moreover have "all_frames (s'\<lparr>infer_at := Returning f\<rparr>) = all_frames s"
    using assms(2) by (simp add: s' s1 all_frames_def run_frames_def infer_frames_def)
  ultimately show ?thesis
    using assms(1,2) ports unfolding t by (simp add: od_inv_def ports_ok_def s' s1)
qed

lemma same_run: "run_at s = r \<Longrightarrow> s\<lparr>run_at := r\<rparr> = s" by auto

lemma od_inv_step:
  assumes "od_step F unpack pack s s'" and "od_inv n s"
    and "\<And>d msg. unpack d = Some msg \<Longrightarrow> announces n (sub_slots (m_input_shmem_port s)) msg"
  shows "od_inv n s'"
  using assms(1)
proof cases
  case skip
  obtain port buf k where "s' = s\<lparr>m_input_shmem_port := port, msg_buffer := buf,
      m_inference_frames_queue := drop k (m_inference_frames_queue s)\<rparr>"
    "sub_slots port = sub_slots (m_input_shmem_port s)"
    "sub_single_buffer_size port = sub_single_buffer_size (m_input_shmem_port s)"
    "sub_shm_slots port = sub_shm_slots (m_input_shmem_port s)" using od_receive_effect [OF skip(2)] by blast
  then have "od_inv n (s'\<lparr>run_at := Awaiting\<rparr>)" "run_at s' = Awaiting"
    using od_inv_drop [OF assms(2) skip(1), of port Awaiting k buf] skip(1) by simp_all
  then show ?thesis using same_run by metis
next
  case (receive msg s1)
  obtain port buf k where e: "s1 = s\<lparr>m_input_shmem_port := port, msg_buffer := buf,
      m_inference_frames_queue := drop k (m_inference_frames_queue s)\<rparr>"
    "sub_slots port = sub_slots (m_input_shmem_port s)"
    "sub_single_buffer_size port = sub_single_buffer_size (m_input_shmem_port s)"
    "sub_shm_slots port = sub_shm_slots (m_input_shmem_port s)"
    "Some msg \<noteq> None \<longrightarrow> length (m_inference_frames_queue s1) < m_inference_frames_queue_size \<and>
      (\<exists>d. unpack d = Some msg)"
    using od_receive_effect [OF receive(3)] by blast
  then have "announces n (sub_slots (m_input_shmem_port s)) msg" using assms(3) by blast
  with e show ?thesis
    using od_inv_drop [OF assms(2) receive(2) e(2-4), of "Preparing msg" k buf] receive(1) by simp
next
  case (no_memory msg s1)
  then have "s1 = s" by (auto simp: frame_for_def split: list.splits)
  then show ?thesis
    using assms(2) no_memory(1,2)
    by (simp add: od_inv_def ports_ok_def all_frames_def run_frames_def infer_frames_def waiting_def)
next
  case (prepare msg b junk s1 f)
  then show ?thesis using od_inv_prepare [OF assms(2)] by blast
next
  case (copy f msg s1)
  then show ?thesis using od_inv_copy [OF assms(2)] by blast
next
  case (queue f)
  then show ?thesis
    using assms(2)
    by (simp add: od_inv_def ports_ok_def all_frames_def run_frames_def infer_frames_def waiting_def queue_frame_def
        owns_def split: infer_at.splits)
next
  case trim
  obtain k where k: "trim m_free_frames_queue_size (m_free_frames_queue s) = drop k (m_free_frames_queue s)"
    using trim_drop(1) by blast
  have "mset (all_frames s') \<subseteq># mset (all_frames s)"
    using trim mset_drop [of k "m_free_frames_queue s"]
    by (simp add: k trim_free_def all_frames_def run_frames_def infer_frames_def)
  then have "owns n (frames_heap s) (all_frames s')" using assms(2) owns_sub by (auto simp: od_inv_def)
  then show ?thesis
    using assms(2) trim by (auto simp: od_inv_def ports_ok_def waiting_def trim_free_def k)
next
  case (take f q)
  have "mset (all_frames s') \<subseteq># mset (all_frames s)"
    using take by (simp add: all_frames_def run_frames_def infer_frames_def)
  then have "owns n (frames_heap s) (all_frames s')" using assms(2) owns_sub by (auto simp: od_inv_def)
  moreover have "waiting s' = waiting s" using take by (simp add: waiting_def)
  ultimately show ?thesis
    using assms(2) take by (simp add: od_inv_def ports_ok_def)
next
  case (infer f E P sent s1)
  then show ?thesis using od_inv_infer [OF assms(2)] by blast
next
  case (give_back f)
  then show ?thesis using od_inv_return [OF assms(2)] by blast
next
  case (camera shm fs)
  then show ?thesis
    using assms(2) by (simp add: od_inv_def ports_ok_def segment_ok_def)
qed

text \<open>No operation changes the slots of the input port.\<close>

lemma od_step_slots:
  assumes "od_step F unpack pack s s'"
  shows "sub_slots (m_input_shmem_port s') = sub_slots (m_input_shmem_port s)"
  using assms
proof cases
  case skip
  then show ?thesis using od_receive_effect by fastforce
next
  case (receive msg s1)
  then show ?thesis using od_receive_effect by fastforce
next
  case (infer f E P sent s1)
  then obtain boxes s2 where run: "runDnnInference F E P f s = (Inr boxes, s2)"
    and pub: "publishObjDetectResults F pack sent boxes f s2 = (Inr (), s1)"
    by (auto simp: inference_round_def andthen_Inr)
  obtain d par where "s2 = s\<lparr>m_dnnObjDetector := d, m_objDetectParams := par\<rparr>"
    using runDnnInference_frame [OF run] by blast
  then show ?thesis using pub infer(1) by (auto simp: publishObjDetectResults_def split: prod.splits sum.splits)
qed (auto simp: frame_for_def fill_frame_def queue_frame_def trim_free_def return_frame_def
    split: list.splits option.splits sum.splits)

lemma od_inv_steps:
  assumes "od_steps F unpack pack s s'" and "od_inv n s"
    and "\<And>d msg. unpack d = Some msg \<Longrightarrow> announces n (sub_slots (m_input_shmem_port s)) msg"
  shows "od_inv n s' \<and> sub_slots (m_input_shmem_port s') = sub_slots (m_input_shmem_port s)"
  using assms(1)
proof (induction rule: rtranclp_induct)
  case (step s1 s2)
  then show ?case using od_inv_step [OF step.hyps(2)] od_step_slots [OF step.hyps(2)] assms(3) by simp
qed (use assms(2) in simp)

section \<open>Properties\<close>

definition od_start :: "('p, 'e, 'f) ObjDetector \<Rightarrow> bool" where
  "od_start s \<longleftrightarrow> m_free_frames_queue s = [] \<and> m_inference_frames_queue s = [] \<and> run_at s = Awaiting \<and>
     infer_at s = Looking \<and> frames_copied s = [] \<and> frames_published s = []"

lemma od_start_inv:
  assumes "od_start s" and "ports_ok n s"
  shows "od_inv n s"
  using assms by (simp add: od_start_def od_inv_def all_frames_def run_frames_def infer_frames_def waiting_def owns_def)


lemma copy_boxes_result:
  assumes "length (output_boxes m) = MAX_BOXES" and "i \<le> MAX_BOXES"
  shows "output_boxes (copy_boxes i bs m) =
      take i (output_boxes m) @ take (MAX_BOXES - i) bs @ drop (i + length bs) (output_boxes m) \<and>
    valid_box_count (copy_boxes i bs m) = valid_box_count m + of_nat (min (MAX_BOXES - i) (length bs)) \<and>
    original_frame (copy_boxes i bs m) = original_frame m"
  using assms
proof (induction bs arbitrary: i m)
  case (Cons b bs)
  show ?case
  proof (cases "i < MAX_BOXES")
    case True
    let ?m = "m\<lparr>output_boxes := (output_boxes m)[i := b], valid_box_count := valid_box_count m + 1\<rparr>"
    have "take (i + 1) ((output_boxes m)[i := b]) = take i (output_boxes m) @ [b]"
      using True Cons.prems(1) by (simp add: take_Suc_conv_app_nth)
    moreover have "MAX_BOXES - i = Suc (MAX_BOXES - (i + 1))" using True by simp
    ultimately show ?thesis
      using Cons.IH [of ?m "i + 1"] Cons.prems True by simp
  qed (use Cons.prems in simp)
qed simp

lemma detect_msg_boxes:
  assumes "length boxes \<le> MAX_BOXES"
  shows "unat (valid_box_count (detect_msg F boxes name f i)) = length boxes"
    "take (length boxes) (output_boxes (detect_msg F boxes name f i)) = boxes"
    "length (output_boxes (detect_msg F boxes name f i)) = MAX_BOXES"
    "data_size (original_frame (detect_msg F boxes name f i)) = dataSize (desc (view f))"
    "slot_index (original_frame (detect_msg F boxes name f i)) = i"
    "pixel_format (original_frame (detect_msg F boxes name f i)) = format (desc (view f))"
proof -
  define m where "m = (newObjDetectMsg F)\<lparr>det_publisher_id := name,
    original_frame := \<lparr>publisher_id = name, pixel_format = format (desc (view f)),
      msg_width = sint (width (desc (view f))), msg_height = sint (height (desc (view f))),
      data_size = dataSize (desc (view f)), slot_index = i\<rparr>\<rparr>"
  have "length (output_boxes m) = MAX_BOXES" by (simp add: m_def newObjDetectMsg_def)
  from copy_boxes_result [OF this, of 0 boxes] assms
  have e: "output_boxes (detect_msg F boxes name f i) = boxes @ drop (length boxes) (output_boxes m)"
    "valid_box_count (detect_msg F boxes name f i) = of_nat (length boxes)"
    "original_frame (detect_msg F boxes name f i) = original_frame m"
    by (simp_all add: detect_msg_def m_def [symmetric]) (simp_all add: m_def newObjDetectMsg_def)
  have "length boxes < 2 ^ 32" using assms by (simp add: MAX_BOXES_def)
  then show "unat (valid_box_count (detect_msg F boxes name f i)) = length boxes" by (simp add: e unsigned_of_nat take_bit_nat_eq_self)
  show "take (length boxes) (output_boxes (detect_msg F boxes name f i)) = boxes"
    "length (output_boxes (detect_msg F boxes name f i)) = MAX_BOXES"
    "data_size (original_frame (detect_msg F boxes name f i)) = dataSize (desc (view f))"
    "slot_index (original_frame (detect_msg F boxes name f i)) = i"
    "pixel_format (original_frame (detect_msg F boxes name f i)) = format (desc (view f))"
    using assms by (simp_all add: e m_def newObjDetectMsg_def)
qed

lemma runDnnInference_count:
  assumes "runDnnInference F (rknn_engine ans) (rknnYolov5 F cv file) f s = (Inr boxes, s')"
    and "detector_ok (m_dnnObjDetector s)"
  shows "length boxes \<le> 64"
proof (cases "boxes = []")
  case False
  let ?d = "det_pushInputData (view f) (m_dnnObjDetector s)"
  obtain par d' par' where run: "runObjDetect (rknn_engine ans) (rknnYolov5 F cv file) (?d, par) = (Inr 0, (d', par'))"
    and b: "boxes = det_popOutputData d'"
    using assms(1) False unfolding runDnnInference_def Let_def
    by (auto split: if_splits prod.splits sum.splits fault.splits)
  obtain p where d: "rknn_ready (m_dnnEngine ?d)" "outputs_lent (m_dnnEngine ?d) = 0" "m_pluginLibraryHandle ?d"
    "m_dnnPluginHandle ?d = Some p" using assms(2) by (auto simp: detector_ok_def det_pushInputData_def)
  obtain p1 p2 outs where "plug_postProcess (rknnYolov5 F cv file) (m_labelTextPath d') par' outs (p1, []) =
      (Inr 0, (p2, m_dataOutputVector d'))"
    using rknn.runObjDetect_balanced [OF run d] by blast
  then show ?thesis using yolov5_postProcess_count b by (simp add: rknnYolov5_def det_popOutputData_def)
qed simp

text \<open>
  C30. No detection is lost on the way to the viewer: on the RKNN engine with the YOLOv5 plugin, one
  round of inference on a frame in order announces, in one message, all boxes the detector found,
  which are at most 64, at the front of the array and counted exactly; and the slot the message names
  holds the bytes of the frame the boxes belong to.
\<close>

theorem detections_published:
  assumes "inference_round F (rknn_engine ans) (rknnYolov5 F cv file) pack True f s = (Inr (), s')"
    and "detector_ok (m_dnnObjDetector s)" and "frame_ok n (frames_heap s) f"
    and "publisher_ok (od_output_shmem_port s) (out_segment s)" and "same_segment (od_output_shmem_port s) sub"
    and "n \<le> m_single_buffer_size (od_output_shmem_port s)" and "n \<le> length buffer"
  shows "\<exists>boxes s1 msg. runDnnInference F (rknn_engine ans) (rknnYolov5 F cv file) f s = (Inr boxes, s1) \<and>
     length boxes \<le> 64 \<and>
     pub_sent (m_zmq_msg_pub (od_output_shmem_port s')) =
       pub_sent (m_zmq_msg_pub (od_output_shmem_port s)) @ [(pack msg, False)] \<and>
     unat (valid_box_count msg) = length boxes \<and> take (length boxes) (output_boxes msg) = boxes \<and>
     receiveSharedMemData buffer (data_size (original_frame msg)) (slot_index (original_frame msg)) sub (out_segment s') =
       Inr (int n, frame_bytes (frames_heap s) f @ drop n buffer)"
proof -
  let ?port = "od_output_shmem_port s"
  let ?i = "m_current_slot_index ?port"
  obtain boxes s1 where run: "runDnnInference F (rknn_engine ans) (rknnYolov5 F cv file) f s = (Inr boxes, s1)"
    and pub: "publishObjDetectResults F pack True boxes f s1 = (Inr (), s')"
    using assms(1) by (auto simp: inference_round_def andthen_Inr)
  have count: "length boxes \<le> 64" by (rule runDnnInference_count [OF run assms(2)])
  then have "length boxes \<le> MAX_BOXES" by (simp add: MAX_BOXES_def)
  note msg = detect_msg_boxes [OF this, of F "od_name s" f ?i]
  define m where "m = detect_msg F boxes (od_name s) f ?i"
  obtain d par where s1: "s1 = s\<lparr>m_dnnObjDetector := d, m_objDetectParams := par\<rparr>"
    using runDnnInference_frame [OF run] by blast
  obtain b blk where b: "view_data (view f) 0 = Some b" "frames_heap s b = Some blk" "length blk = n"
    "dataSize (desc (view f)) = n" using assms(3) by (auto simp: frame_ok_def block_of_def)
  have fits: "length blk \<le> m_single_buffer_size ?port" "length blk \<le> length buffer" using assms(6,7) b(3) by simp_all
  obtain p' p'' shm' where slot: "getFreeSlotIndex ?port = (Inr ?i, p')"
    "publishData True (pack m) blk ?i (p', out_segment s) = (Inr 0, (p'', shm'))"
    "receiveSharedMemData buffer (length blk) ?i sub shm' = Inr (int (length blk), blk @ drop (length blk) buffer)"
    "pub_sent (m_zmq_msg_pub p'') = pub_sent (m_zmq_msg_pub ?port) @ [(pack m, False)]"
    using publish_free_slot [OF assms(4,5) fits, of "pack m"] by blast
  have "publish_frame True (pack m) (Some b) ?i n (frames_heap s) (p', out_segment s) = (Inr 0, (p'', shm'))"
    using slot(2) b by (simp add: publish_frame_def)
  then have "s' = s1\<lparr>od_output_shmem_port := p'', out_segment := shm'\<rparr>"
    using pub slot(1) b by (simp add: publishObjDetectResults_def s1 m_def)
  then have s': "od_output_shmem_port s' = p''" "out_segment s' = shm'" by simp_all
  have "frame_bytes (frames_heap s) f = blk" using b by (simp add: frame_bytes_def)
  then show ?thesis
    using run count slot(3,4) msg b(3,4) unfolding s' m_def [symmetric]
    by (intro exI [of _ boxes] exI [of _ s1] exI [of _ m]) simp
qed

text \<open>
  A reused buffer is not looked at: when a free frame is smaller than the frame announced, which
  fits its slot, \<open>runLoop\<close> takes the free frame and the copy writes over the end of its memory.
\<close>

theorem reused_frame_overrun:
  assumes "m_free_frames_queue s = f # q" and "length (frame_bytes (frames_heap s) f) < data_size msg"
    and "ports_ok (data_size msg) s" and "slot_index msg < sub_slots (m_input_shmem_port s)"
  shows "\<exists>s' e. frame_for alloc msg s = (s', Some f) \<and> fill_frame f msg s' = (Inl (Undefined e), s')"
proof -
  let ?port = "m_input_shmem_port s" and ?i = "slot_index msg"
  let ?single = "sub_single_buffer_size ?port"
  have n: "data_size msg \<le> ?single" "sub_shm_slots ?port = slot_offsets ?single (sub_slots ?port)"
    "length (in_segment s) = ?single * sub_slots ?port"
    using assms(3) by (simp_all add: ports_ok_def segment_ok_def)
  have e: "?i * ?single + data_size msg \<le> length (in_segment s)" using slot_end [OF assms(4) n(1)] n(3) by simp
  have "min ?single (data_size msg) = data_size msg" using n(1) by simp
  then have "\<exists>e. receiveSharedMemData (frame_bytes (frames_heap s) f) (data_size msg) ?i ?port (in_segment s) =
      Inl (Undefined e)"
    using n e assms(2,4) by (simp add: receiveSharedMemData_def offset_at memcpy_at_def Let_def)
  then obtain x where x: "receiveSharedMemData (frame_bytes (frames_heap s) f) (data_size msg) ?i ?port (in_segment s) =
      Inl (Undefined x)" by blast
  then have "fill_frame f msg (s\<lparr>m_free_frames_queue := q\<rparr>) = (Inl (Undefined x), s\<lparr>m_free_frames_queue := q\<rparr>)"
    by (simp add: fill_frame_def)
  then show ?thesis
    by (intro exI [of _ "s\<lparr>m_free_frames_queue := q\<rparr>"] exI [of _ x]) (simp add: frame_for_def assms(1))
qed

lemma view_newFrame [simp]:
  "view_data (view (newFrame b msg)) 0 = Some b" "dataSize (desc (view (newFrame b msg))) = data_size msg"
  "width (desc (view (newFrame b msg))) = word_of_int (msg_width msg)"
  "height (desc (view (newFrame b msg))) = word_of_int (msg_height msg)"
  by (simp_all add: newFrame_def makeHostImageView_sel newImageBuffer_def)

section \<open>Runs\<close>

text \<open>From a waiting announcement to the publication, when the detector returns.\<close>

lemma announced_frame_published:
  assumes "ports_ok n s" and "announces n (sub_slots (m_input_shmem_port s)) msg" and "run_at s = Preparing msg"
    and "frames_heap s b = None" and "m_free_frames_queue s = []" and "m_inference_frames_queue s = []"
    and "infer_at s = Looking"
    and "\<And>s'. m_dnnObjDetector s' = m_dnnObjDetector s \<Longrightarrow>
      \<exists>boxes s''. runDnnInference F E P (newFrame b msg) s' = (Inr boxes, s'')"
  shows "\<exists>s'. od_steps F unpack pack s s' \<and> frames_published s' = frames_published s @ [slot_bytes msg s]"
proof -
  let ?f = "newFrame b msg"
  let ?bytes = "slot_bytes msg s"
  have n: "data_size msg = n" using assms(2) by (simp add: announces_def)
  have f: "block_of ?f = Some b" "dataSize (desc (view ?f)) = n" by (simp_all add: block_of_def n)
  define s1 where "s1 = s\<lparr>frames_heap := (frames_heap s)(b \<mapsto> replicate n 0), run_at := Copying ?f msg\<rparr>"
  define s2 where "s2 = s1\<lparr>frames_heap := (frames_heap s1)(b \<mapsto> ?bytes), run_at := Queueing ?f,
    frames_copied := frames_copied s1 @ [?bytes]\<rparr>"
  define s3 where "s3 = (queue_frame ?f s2)\<lparr>run_at := Trimming\<rparr>"
  define s4 where "s4 = s3\<lparr>m_inference_frames_queue := [], infer_at := Inferring ?f\<rparr>"
  have "od_step F unpack pack s s1"
    using od_step.prepare [OF assms(3,4), of "[]" "s\<lparr>frames_heap := (frames_heap s)(b \<mapsto> replicate n 0)\<rparr>" ?f]
    by (simp add: frame_for_def assms(5) n s1_def)
  moreover have same: "slot_bytes msg s1 = ?bytes" by (simp add: slot_bytes_def s1_def)
  have ok: "ports_ok n s1" "announces n (sub_slots (m_input_shmem_port s1)) msg" "frame_ok n (frames_heap s1) ?f"
    using assms(1,2) f by (simp_all add: s1_def ports_ok_def frame_ok_def)
  note fill = fill_frame_ok [OF ok f(1), unfolded same]
  have "od_step F unpack pack s1 s2"
    using od_step.copy [of s1 ?f msg "s1\<lparr>frames_heap := (frames_heap s1)(b \<mapsto> ?bytes)\<rparr>"] fill
    by (simp add: s2_def same) (simp add: s1_def)
  moreover have "od_step F unpack pack s2 s3" unfolding s3_def by (rule od_step.queue) (simp add: s2_def)
  moreover have "od_step F unpack pack s3 s4"
    unfolding s4_def by (rule od_step.take) (simp_all add: s3_def s2_def s1_def queue_frame_def assms(6,7))
  moreover have s4: "infer_at s4 = Inferring ?f" "m_dnnObjDetector s4 = m_dnnObjDetector s" "ports_ok n s4"
    "frames_heap s4 b = Some ?bytes" "frames_published s4 = frames_published s"
    using assms(1) by (simp_all add: s4_def s3_def s2_def s1_def queue_frame_def ports_ok_def)
  obtain boxes s5 where run: "runDnnInference F E P ?f s4 = (Inr boxes, s5)" using assms(8) [OF s4(2)] by blast
  have bytes: "frame_bytes (frames_heap s4) ?f = ?bytes" using s4(4) f(1) by (simp add: frame_bytes_def block_of_def)
  obtain d par where s5: "s5 = s4\<lparr>m_dnnObjDetector := d, m_objDetectParams := par\<rparr>"
    using runDnnInference_frame [OF run] by blast
  have "ports_ok n s5" "frame_ok n (frames_heap s5) ?f"
    using s4(3,4) f fill by (simp_all add: s5 ports_ok_def frame_ok_def)
  from publish_ok [OF this] obtain s6 where
    pub: "publishObjDetectResults F pack True boxes ?f s5 = (Inr (), s6)" "frames_published s6 = frames_published s"
    using s4(5) s5 by fastforce
  have "inference_round F E P pack True ?f s4 = (Inr (), s6)" using run pub(1) by (simp add: inference_round_def)
  from od_step.infer [OF s4(1) this, of unpack] have
    "od_step F unpack pack s4 (s6\<lparr>infer_at := Returning ?f, frames_published := frames_published s @ [?bytes]\<rparr>)"
    using f(2) fill by (simp add: bytes pub(2))
  ultimately have "od_steps F unpack pack s (s6\<lparr>infer_at := Returning ?f, frames_published := frames_published s @ [?bytes]\<rparr>)"
    by (meson converse_rtranclp_into_rtranclp rtranclp.rtrancl_refl)
  then show ?thesis by (rule exI [of _ "s6\<lparr>infer_at := Returning ?f, frames_published := frames_published s @ [?bytes]\<rparr>", OF conjI]) simp
qed

definition demo_msg :: CameraSensorMsg where
  "demo_msg = \<lparr>publisher_id = [], pixel_format = ''RGB888'', msg_width = 1, msg_height = 1, data_size = 3, slot_index = 0\<rparr>"

definition demo_od :: "bytes \<Rightarrow> ('p, 'e, 'f) dnnObjDetector \<Rightarrow> 'f ObjDetectParams \<Rightarrow> ('p, 'e, 'f) ObjDetector" where
  "demo_od buf d par = \<lparr>od_name = ''detector'', m_input_shmem_port = demo_subscriber, od_output_shmem_port = demo_publisher,
     m_dnnObjDetector = d, m_objDetectParams = par, m_free_frames_queue = [], m_inference_frames_queue = [],
     msg_buffer = buf, frames_heap = (\<lambda>_. None), in_segment = replicate 8 0, out_segment = replicate 8 0,
     run_at = Awaiting, infer_at = Looking, frames_copied = [], frames_published = []\<rparr>"

lemma demo_ports: "ports_ok 3 (demo_od buf d par)"
  by (simp add: ports_ok_def demo_od_def publisher_ok_def demo_publisher_def demo_subscriber_def segment_ok_def)

definition busy_od :: "(YoloPostProcess, rat rknn, rat) ObjDetector" where
  "busy_od = (demo_od [] demo_detector demo_params)\<lparr>frames_heap := (\<lambda>_. None)(1 \<mapsto> [10, 20, 30])\<rparr>"

definition count_byte :: "rat ObjDetectMsg \<Rightarrow> bytes" where "count_byte m = [ucast (valid_box_count m)]"

lemma busy_round:
  "(case inference_round exact_fp (rknn_engine demo_answers) (rknnYolov5 exact_fp demo_cv (Some [''person'']))
      count_byte True (newFrame 1 demo_msg) busy_od of
    (r, s) \<Rightarrow> (r, pub_sent (m_zmq_msg_pub (od_output_shmem_port s)))) = (Inr (), [([2], False)])"
  by code_simp

theorem detections_published_witness:
  "\<exists>s' (msg :: rat ObjDetectMsg). inference_round exact_fp (rknn_engine demo_answers)
       (rknnYolov5 exact_fp demo_cv (Some [''person''])) count_byte True (newFrame 1 demo_msg) busy_od = (Inr (), s') \<and>
     unat (valid_box_count msg) \<le> 64 \<and>
     receiveSharedMemData [0, 0, 0, 0] (data_size (original_frame msg)) (slot_index (original_frame msg)) demo_subscriber
       (out_segment s') = Inr (3, [10, 20, 30, 0])"
proof -
  obtain s' where run: "inference_round exact_fp (rknn_engine demo_answers)
      (rknnYolov5 exact_fp demo_cv (Some [''person''])) count_byte True (newFrame 1 demo_msg) busy_od = (Inr (), s')"
    using busy_round by (auto split: prod.splits)
  have det: "detector_ok (m_dnnObjDetector busy_od)"
    by (simp add: busy_od_def demo_od_def detector_ok_def demo_detector_def rknn_ready_def loaded_rknn_def newRknn_def)
  have view: "view_data (view (newFrame 1 demo_msg)) 0 = Some 1" "dataSize (desc (view (newFrame 1 demo_msg))) = 3"
    by (simp_all add: newFrame_def makeHostImageView_sel newImageBuffer_def demo_msg_def)
  have heap: "frames_heap busy_od 1 = Some [10, 20, 30]" by (simp add: busy_od_def)
  then have frame: "frame_ok 3 (frames_heap busy_od) (newFrame 1 demo_msg)"
    using view by (simp add: frame_ok_def block_of_def)
  have port: "publisher_ok (od_output_shmem_port busy_od) (out_segment busy_od)"
    "same_segment (od_output_shmem_port busy_od) demo_subscriber"
    "3 \<le> m_single_buffer_size (od_output_shmem_port busy_od)" "3 \<le> length [0 :: byte, 0, 0, 0]"
    by (simp_all add: busy_od_def demo_od_def publisher_ok_def same_segment_def demo_publisher_def
        demo_subscriber_def segment_ok_def)
  have blk: "frame_bytes (frames_heap busy_od) (newFrame 1 demo_msg) = [10, 20, 30]"
    using view heap by (simp add: frame_bytes_def)
  from detections_published [OF run det frame port] obtain boxes :: "rat ObjDetectOutputBox list" and msg :: "rat ObjDetectMsg" where
    "length boxes \<le> 64" "unat (valid_box_count msg) = length boxes"
    "receiveSharedMemData [0, 0, 0, 0] (data_size (original_frame msg)) (slot_index (original_frame msg)) demo_subscriber
      (out_segment s') = Inr (int 3, frame_bytes (frames_heap busy_od) (newFrame 1 demo_msg) @ drop 3 [0, 0, 0, 0])"
    by blast
  then show ?thesis using run unfolding blk
    by (intro exI [of _ s'] exI [of _ msg]) (simp add: drop_Cons' numeral_3_eq_3)
qed

theorem reused_frame_overrun_witness:
  "\<exists>s' e. frame_for None demo_msg
       (demo_od [] demo_detector demo_params\<lparr>m_free_frames_queue := [newFrame 1 demo_msg], frames_heap := [1 \<mapsto> [9, 9]]\<rparr>) =
       (s', Some (newFrame 1 demo_msg)) \<and> fill_frame (newFrame 1 demo_msg) demo_msg s' = (Inl (Undefined e), s')"
proof (rule reused_frame_overrun)
  let ?s = "demo_od [] demo_detector demo_params\<lparr>m_free_frames_queue := [newFrame 1 demo_msg], frames_heap := [1 \<mapsto> [9, 9]]\<rparr>"
  show "m_free_frames_queue ?s = newFrame 1 demo_msg # []" by simp
  show "length (frame_bytes (frames_heap ?s) (newFrame 1 demo_msg)) < data_size demo_msg"
    by (simp add: frame_bytes_def newFrame_def makeHostImageView_sel newImageBuffer_def demo_msg_def)
  have "ports_ok 3 ?s" using demo_ports [of "[]" demo_detector demo_params] by (simp add: ports_ok_def)
  then show "ports_ok (data_size demo_msg) ?s" by (simp add: demo_msg_def)
  show "slot_index demo_msg < sub_slots (m_input_shmem_port ?s)"
    by (simp add: demo_msg_def demo_od_def demo_subscriber_def)
qed

text \<open>The two threads on one frame of the camera, with a plugin that throws.\<close>

definition throwing_plugin :: "(unit, rat) IDnnObjDetectorPlugin" where
  "throwing_plugin = \<lparr>plug_preProcess = (\<lambda>_ st. (Inl (Throw ''no input''), st)),
     plug_postProcess = (\<lambda>_ _ _ st. (Inr 0, st))\<rparr>"

definition plain_detector :: "(unit, unit, rat) dnnObjDetector" where
  "plain_detector = \<lparr>m_pluginLibraryHandle = True, m_dnnPluginHandle = Some (), m_dnnEngine = (),
     m_dataInput = None, m_dataOutputVector = [], m_labelTextPath = [], lib_opens = 1\<rparr>"

lemma plain_inference:
  assumes "m_dnnObjDetector s = plain_detector"
  shows "\<exists>boxes s'. runDnnInference exact_fp E throwing_plugin f s = (Inr boxes, s')"
  using assms unfolding runDnnInference_def Let_def
  by (auto simp: runObjDetect_def throwing_plugin_def plain_detector_def det_pushInputData_def)

definition plain_od :: "(unit, unit, rat) ObjDetector" where
  "plain_od = (demo_od [0] plain_detector demo_params)\<lparr>in_segment := [10, 20, 30, 0, 0, 0, 0, 0],
     m_input_shmem_port := demo_subscriber\<lparr>m_zmq_msg_sub := (newZmqSubscriber ''tcp'')\<lparr>sub_incoming := [([7], False)]\<rparr>\<rparr>\<rparr>"

lemma plain_receive:
  "\<exists>s. od_receive (\<lambda>_. Some demo_msg) plain_od = (Inr (Some demo_msg), s) \<and> m_dnnObjDetector s = plain_detector \<and>
     ports_ok 3 s \<and> sub_slots (m_input_shmem_port s) = 2 \<and> frames_heap s = (\<lambda>_. None) \<and> m_free_frames_queue s = [] \<and>
     m_inference_frames_queue s = [] \<and> infer_at s = Looking \<and> frames_published s = [] \<and> run_at plain_od = Awaiting \<and>
     slot_bytes demo_msg s = [10, 20, 30]"
  by (simp add: plain_od_def demo_od_def demo_subscriber_def newZmqSubscriber_def od_receive_def receiveMsg_def
      receiveData_def zmq_recv_def memcpy_at_def ports_ok_def publisher_ok_def demo_publisher_def segment_ok_def
      slot_bytes_def get_slot_def) (simp add: demo_msg_def numeral_3_eq_3)


end
