(* ===== verification/Container.thy ===== *)
theory Container
  imports YoloPostProcess
begin

text \<open>
  Containers (\<open>bsp_container\<close>): the data every container shares (\<open>ContainerHeader.hpp\<close>) and the FFmpeg
  implementation, \<open>FFmpegMuxer\<close>, \<open>FFmpegDemuxer\<close>, \<open>FFmpegStreamReader\<close>, \<open>FFmpegStreamWriter\<close>. What
  FFmpeg answers is an argument of the operations; a context is what the code reads and writes of it,
  with the packets that were accepted. The floating point operations are those of \<open>YoloPostProcess\<close>;
  \<open>to64\<close> is the conversion of a \<open>float\<close> to \<open>int64_t\<close>, which has no meaning out of range.
\<close>

section \<open>ContainerHeader\<close>

record 'f StreamCodecParams =
  codec_type :: string
  codec_name :: string
  sp_bit_rate :: int
  sample_aspect_ratio :: 'f
  frame_rate :: int
  sp_width :: int
  sp_height :: int
  sample_rate :: int
  extra_data :: bytes

record 'f StreamInfo =
  si_index :: int
  si_metadata :: "string \<Rightarrow> string option"
  disposition_list :: "string list"
  start_time :: int
  si_duration :: int
  num_of_frames :: int
  codec_params :: "'f StreamCodecParams"

record 'f ContainerInfo =
  container_type :: string
  ci_metadata :: "string \<Rightarrow> string option"
  num_of_streams :: nat
  stream_info_list :: "'f StreamInfo list"
  ci_bit_rate :: int
  packet_size :: nat

definition newContainerInfo :: "'f ContainerInfo" where
  "newContainerInfo = \<lparr>container_type = [], ci_metadata = (\<lambda>_. None), num_of_streams = 0, stream_info_list = [],
     ci_bit_rate = 0, packet_size = 0\<rparr>"

record StreamPacket =
  sp_pts :: int
  sp_dts :: int
  sp_duration :: int
  stream_index :: int
  pkt_bytes :: bytes
  useful_pkt_size :: nat
  sp_pos :: int

section \<open>FFmpeg\<close>

datatype AVMediaType = AVMEDIA_TYPE_UNKNOWN | AVMEDIA_TYPE_VIDEO | AVMEDIA_TYPE_AUDIO | AVMEDIA_TYPE_OTHER

datatype AVCodecID = AV_CODEC_ID_H264 | AV_CODEC_ID_HEVC | AV_CODEC_ID_VP9 | AV_CODEC_ID_MPEG2VIDEO | AV_CODEC_ID_MPEG4 |
  AV_CODEC_ID_AAC | AV_CODEC_ID_MP3 | AV_CODEC_ID_OTHER nat

definition strToFFmpegCodingMap :: "(string \<times> AVCodecID) list" where
  "strToFFmpegCodingMap =
     [(''h264'', AV_CODEC_ID_H264), (''hevc'', AV_CODEC_ID_HEVC), (''265'', AV_CODEC_ID_HEVC), (''vp9'', AV_CODEC_ID_VP9),
      (''mpeg2'', AV_CODEC_ID_MPEG2VIDEO), (''mpeg4'', AV_CODEC_ID_MPEG4), (''aac'', AV_CODEC_ID_AAC), (''mp3'', AV_CODEC_ID_MP3)]"

definition strToFFmpegCoding :: "string \<Rightarrow> AVCodecID result" where
  "strToFFmpegCoding str =
     (case map_of strToFFmpegCodingMap str of None \<Rightarrow> Inl (Throw ''out_of_range'') | Some c \<Rightarrow> Inr c)"

record 'q AVCodecParameters =
  par_codec_type :: AVMediaType
  par_codec_id :: AVCodecID
  par_bit_rate :: int
  par_sample_aspect_ratio :: 'q
  par_width :: int
  par_height :: int
  par_sample_rate :: int

record 'q AVStream =
  st_id :: int
  tb_num :: int
  tb_den :: int
  codecpar :: "'q AVCodecParameters"

record AVPacket =
  av_data :: bytes
  av_size :: nat
  av_pts :: int
  av_dts :: int
  av_duration :: int
  av_stream_index :: int
  av_pos :: int

text \<open>\<open>pb\<close> says that the file is open; \<open>out_header\<close>, \<open>out_packets\<close>, \<open>out_trailer\<close> are what it holds.\<close>

record 'q AVFormatContext =
  nofile :: bool
  streams :: "'q AVStream list"
  pb :: bool
  out_header :: bool
  out_packets :: "AVPacket list"
  out_trailer :: bool

text \<open>A packet as \<open>av_packet_alloc\<close> returns it, and as \<open>av_interleaved_write_frame\<close> leaves it.\<close>

definition blank_packet :: AVPacket where
  "blank_packet = \<lparr>av_data = [], av_size = 0, av_pts = 0, av_dts = 0, av_duration = 0, av_stream_index = 0, av_pos = -1\<rparr>"

section \<open>FFmpegMuxer\<close>

record 'f MuxConfig =
  ts_recreate :: bool
  video_fps :: 'f

record ('f, 'q) FFmpegMuxer =
  m_format_Ctx :: "'q AVFormatContext option"
  m_header_written :: bool
  m_path :: string
  m_packet :: "AVPacket option"
  m_mux_cfg :: "'f MuxConfig"
  m_stream_frames_count_map :: "int \<Rightarrow> int option"

definition newFFmpegMuxer :: "'f MuxConfig \<Rightarrow> ('f, 'q) FFmpegMuxer" where
  "newFFmpegMuxer cfg = \<lparr>m_format_Ctx = None, m_header_written = False, m_path = [], m_packet = None, m_mux_cfg = cfg,
     m_stream_frames_count_map = (\<lambda>_. None)\<rparr>"

text \<open>\<open>IMuxer::create\<close> and \<open>IDemuxer::create\<close>.\<close>

definition create_muxer :: "string \<Rightarrow> string result" where
  "create_muxer p = (if p = ''FFmpegMuxer'' then Inr p else Inl (Throw ''Invalid Muxer platform specified.''))"

definition create_demuxer :: "string \<Rightarrow> string result" where
  "create_demuxer p = (if p = ''FFmpegDemuxer'' then Inr p else Inl (Throw ''Invalid Demuxer platform specified.''))"

text \<open>
  \<open>openContainerMux\<close>: \<open>ctx\<close> is what \<open>avformat_alloc_output_context2\<close> yields. On success the function ends
  without a \<open>return\<close>, like \<open>endStreamMux\<close> below.
\<close>

definition openContainerMux ::
  "'q AVFormatContext option \<Rightarrow> string \<Rightarrow> 'f MuxConfig \<Rightarrow> ('f, 'q) FFmpegMuxer \<Rightarrow> (('f, 'q) FFmpegMuxer, int) outcome" where
  "openContainerMux ctx path config m =
     (case ctx of
        None \<Rightarrow> (Inr (-1), m)
      | Some c \<Rightarrow> (Inl (Undefined ''no return value''), m\<lparr>m_format_Ctx := Some c, m_path := path, m_mux_cfg := config\<rparr>))"

definition closeContainerMux :: "('f, 'q) FFmpegMuxer \<Rightarrow> ('f, 'q) FFmpegMuxer" where
  "closeContainerMux m = m\<lparr>m_format_Ctx := None\<rparr>"

definition setupVideoStreamParams ::
  "('f \<Rightarrow> 'q) \<Rightarrow> 'f StreamInfo \<Rightarrow> 'q AVStream \<Rightarrow> ('q AVStream, unit) outcome" where
  "setupVideoStreamParams d2q info s =
     (let cp = codec_params info; s1 = s\<lparr>codecpar := (codecpar s)\<lparr>par_codec_type := AVMEDIA_TYPE_VIDEO\<rparr>\<rparr>
      in case strToFFmpegCoding (codec_name cp) of
           Inl e \<Rightarrow> (Inl e, s1)
         | Inr c \<Rightarrow> (Inr (), s1\<lparr>tb_num := 1, tb_den := frame_rate cp,
             codecpar := (codecpar s1)\<lparr>par_codec_id := c, par_bit_rate := sp_bit_rate cp,
               par_sample_aspect_ratio := d2q (sample_aspect_ratio cp), par_width := sp_width cp, par_height := sp_height cp\<rparr>\<rparr>))"

definition setupAudioStreamParams :: "'f StreamInfo \<Rightarrow> 'q AVStream \<Rightarrow> ('q AVStream, unit) outcome" where
  "setupAudioStreamParams info s =
     (let cp = codec_params info; s1 = s\<lparr>codecpar := (codecpar s)\<lparr>par_codec_type := AVMEDIA_TYPE_AUDIO\<rparr>\<rparr>
      in case strToFFmpegCoding (codec_name cp) of
           Inl e \<Rightarrow> (Inl e, s1)
         | Inr c \<Rightarrow> (Inr (), s1\<lparr>tb_num := 1, tb_den := sample_rate cp,
             codecpar := (codecpar s1)\<lparr>par_codec_id := c, par_bit_rate := sp_bit_rate cp,
               par_sample_rate := sample_rate cp\<rparr>\<rparr>))"

text \<open>\<open>addStream(StreamInfo&)\<close>; \<open>fresh\<close> is the stream \<open>avformat_new_stream\<close> appends to the context.\<close>

definition register_stream :: "'q AVStream \<Rightarrow> 'q AVFormatContext \<Rightarrow> ('f, 'q) FFmpegMuxer \<Rightarrow> ('f, 'q) FFmpegMuxer" where
  "register_stream s c m = m\<lparr>m_format_Ctx := Some (c\<lparr>streams := streams c @ [s]\<rparr>)\<rparr>"

definition addStream ::
  "('f \<Rightarrow> 'q) \<Rightarrow> 'q AVStream option \<Rightarrow> 'f StreamInfo \<Rightarrow> ('f, 'q) FFmpegMuxer \<Rightarrow> (('f, 'q) FFmpegMuxer, int) outcome" where
  "addStream d2q fresh info m =
     (case m_format_Ctx m of
        None \<Rightarrow> (Inl (Undefined ''null context''), m)
      | Some c \<Rightarrow>
          (case fresh of
             None \<Rightarrow> (Inr (-1), m)
           | Some s \<Rightarrow>
               (let i = int (length (streams c)); s' = s\<lparr>st_id := i\<rparr>; kind = codec_type (codec_params info)
                in if kind \<noteq> ''video'' \<and> kind \<noteq> ''audio'' then (Inr (-1), register_stream s' c m)
                   else case (if kind = ''video'' then setupVideoStreamParams d2q info s' else setupAudioStreamParams info s') of
                     (Inl e, s'') \<Rightarrow> (Inl e, register_stream s'' c m)
                   | (Inr _, s'') \<Rightarrow>
                       (Inr i, (register_stream s'' c m)\<lparr>m_stream_frames_count_map := (m_stream_frames_count_map m)(i \<mapsto> 0)\<rparr>))))"

text \<open>\<open>addStream(strReader)\<close>: \<open>params\<close> is what the reader returns, \<open>copied\<close> the result of the copy.\<close>

definition addStream_reader ::
  "'q AVStream option \<Rightarrow> int \<Rightarrow> 'q AVCodecParameters option \<Rightarrow> ('f, 'q) FFmpegMuxer \<Rightarrow> (('f, 'q) FFmpegMuxer, int) outcome" where
  "addStream_reader fresh copied params m =
     (case params of
        None \<Rightarrow> (Inr (-1), m)
      | Some par \<Rightarrow>
          (case m_format_Ctx m of
             None \<Rightarrow> (Inl (Undefined ''null context''), m)
           | Some c \<Rightarrow>
               (case fresh of
                  None \<Rightarrow> (Inr (-1), m)
                | Some s \<Rightarrow>
                    (let i = int (length (streams c)); s' = s\<lparr>st_id := i\<rparr>
                     in if copied < 0 then (Inr (-1), register_stream s' c m)
                        else (Inr i, (register_stream (s'\<lparr>codecpar := par\<rparr>) c m)
                          \<lparr>m_stream_frames_count_map := (m_stream_frames_count_map m)(i \<mapsto> 0)\<rparr>)))))"

text \<open>
  Time stamps: the duration of a frame in units of the stream, computed in \<open>float\<close> and cut. \<open>back\<close> is 0
  for \<open>recreatePTS\<close> and 1 for \<open>recreateDTS\<close>.
\<close>

definition int64_ok :: "int \<Rightarrow> bool" where "int64_ok i \<longleftrightarrow> - (2 ^ 63) \<le> i \<and> i < 2 ^ 63"

definition duration_ts :: "('f, 'd) fp \<Rightarrow> ('f \<Rightarrow> int option) \<Rightarrow> 'f \<Rightarrow> int \<Rightarrow> int \<Rightarrow> int result" where
  "duration_ts F to64 fps num den =
     (let duration_secs = narrow F (d_div F (d_one F) (widen F fps))
      in case to64 (f_div F (f_mul F duration_secs (f_of_int F den)) (f_of_int F num)) of
           None \<Rightarrow> Inl (Undefined ''conversion out of range'')
         | Some d \<Rightarrow> Inr d)"

definition recreate_ts ::
  "('f, 'd) fp \<Rightarrow> ('f \<Rightarrow> int option) \<Rightarrow> int \<Rightarrow> int \<Rightarrow> ('f, 'q) FFmpegMuxer \<Rightarrow> int result" where
  "recreate_ts F to64 back i m =
     (case m_stream_frames_count_map m i of
        None \<Rightarrow> Inr (-1)
      | Some n \<Rightarrow>
          (case m_format_Ctx m of
             None \<Rightarrow> Inl (Undefined ''null context'')
           | Some c \<Rightarrow>
               if i < 0 \<or> int (length (streams c)) \<le> i then Inl (Undefined ''no such stream'')
               else rbind (duration_ts F to64 (video_fps (m_mux_cfg m)) (tb_num (streams c ! nat i)) (tb_den (streams c ! nat i)))
                 (\<lambda>d. if int64_ok ((n - back) * d) then Inr ((n - back) * d) else Inl (Undefined ''overflow''))))"

definition recreatePTS :: "('f, 'd) fp \<Rightarrow> ('f \<Rightarrow> int option) \<Rightarrow> int \<Rightarrow> ('f, 'q) FFmpegMuxer \<Rightarrow> int result" where
  "recreatePTS F to64 = recreate_ts F to64 0"

definition recreateDTS :: "('f, 'd) fp \<Rightarrow> ('f \<Rightarrow> int option) \<Rightarrow> int \<Rightarrow> ('f, 'q) FFmpegMuxer \<Rightarrow> int result" where
  "recreateDTS F to64 = recreate_ts F to64 1"

text \<open>
  What FFmpeg answers to one \<open>writeStreamPacket\<close>: opening the file, writing the header, which may change
  the time bases, memory for a new packet and for a larger one (\<open>None\<close> when it fails, which the code
  does not notice), and the result of writing with the packet it leaves.
\<close>

record mux_answers =
  mux_open :: int
  mux_header :: int
  mux_time_bases :: "(int \<times> int) list"
  mux_new :: "bytes option"
  mux_grow :: "bytes option"
  mux_write :: int
  mux_left :: AVPacket

definition memory :: "bytes \<Rightarrow> nat \<Rightarrow> bytes" where "memory junk n = take n (junk @ replicate n 0)"

definition FFALIGN :: "nat \<Rightarrow> nat \<Rightarrow> nat" where "FFALIGN x a = (x + a - 1) div a * a"

definition set_time_bases :: "(int \<times> int) list \<Rightarrow> 'q AVStream list \<Rightarrow> 'q AVStream list" where
  "set_time_bases tbs ss = map (\<lambda>(s, (n, d)). s\<lparr>tb_num := n, tb_den := d\<rparr>) (zip ss tbs) @ drop (length tbs) ss"

definition begin_file :: "mux_answers \<Rightarrow> ('f, 'q) FFmpegMuxer \<Rightarrow> ('f, 'q) FFmpegMuxer \<times> bool" where
  "begin_file a m =
     (if m_header_written m then (m, True)
      else case m_format_Ctx m of
        None \<Rightarrow> (m, False)
      | Some c \<Rightarrow>
          if \<not> nofile c \<and> mux_open a < 0 then (m, False)
          else
            (let c' = (if nofile c then c else c\<lparr>pb := True\<rparr>)
             in if mux_header a < 0 then (m\<lparr>m_format_Ctx := Some c'\<rparr>, False)
                else (m\<lparr>m_format_Ctx := Some (c'\<lparr>out_header := True, streams := set_time_bases (mux_time_bases a) (streams c')\<rparr>),
                  m_header_written := True\<rparr>, True)))"

definition packet_room :: "mux_answers \<Rightarrow> nat \<Rightarrow> AVPacket option \<Rightarrow> AVPacket" where
  "packet_room a n pkt =
     (let p = (case pkt of
          None \<Rightarrow> (case mux_new a of None \<Rightarrow> blank_packet | Some junk \<Rightarrow> blank_packet\<lparr>av_data := memory junk n, av_size := n\<rparr>)
        | Some p \<Rightarrow> p)
      in if av_size p < n
         then (case mux_grow a of None \<Rightarrow> p | Some junk \<Rightarrow> p\<lparr>av_data := av_data p @ memory junk (FFALIGN n 64 + 1024)\<rparr>)
           \<lparr>av_size := n\<rparr>
         else p)"

definition accept_packet :: "AVPacket \<Rightarrow> 'q AVFormatContext \<Rightarrow> 'q AVFormatContext" where
  "accept_packet p c = c\<lparr>out_packets := out_packets c @ [p\<lparr>av_data := take (av_size p) (av_data p)\<rparr>]\<rparr>"

definition writeStreamPacket ::
  "('f, 'd) fp \<Rightarrow> ('f \<Rightarrow> int option) \<Rightarrow> mux_answers \<Rightarrow> StreamPacket \<Rightarrow> ('f, 'q) FFmpegMuxer \<Rightarrow>
    (('f, 'q) FFmpegMuxer, int) outcome" where
  "writeStreamPacket F to64 a sp m0 =
     (case begin_file a m0 of
        (m, False) \<Rightarrow> (Inr (-1), m)
      | (m, True) \<Rightarrow>
          (let n = useful_pkt_size sp; i = stream_index sp; p = packet_room a n (m_packet m); m1 = m\<lparr>m_packet := Some p\<rparr>
           in if length (pkt_bytes sp) < n then (Inl (Undefined ''read out of range''), m1)
              else case memcpy_at 0 (take n (pkt_bytes sp)) (av_data p) of
                Inl e \<Rightarrow> (Inl e, m1)
              | Inr d \<Rightarrow>
                  (case (if ts_recreate (m_mux_cfg m)
                      then rbind (recreatePTS F to64 i m) (\<lambda>pts. rbind (recreateDTS F to64 i m) (\<lambda>dts. Inr (pts, dts)))
                      else Inr (sp_pts sp, sp_dts sp)) of
                     Inl e \<Rightarrow> (Inl e, m1)
                   | Inr (pts, dts) \<Rightarrow>
                       (case m_format_Ctx m of
                          None \<Rightarrow> (Inl (Undefined ''null context''), m1)
                        | Some c \<Rightarrow>
                            (let q = p\<lparr>av_data := d, av_stream_index := i, av_pts := pts, av_dts := dts, av_pos := -1\<rparr>
                             in if mux_write a < 0 then (Inr (-1), m\<lparr>m_packet := Some (mux_left a)\<rparr>)
                                else
                                  (let k = (case m_stream_frames_count_map m i of None \<Rightarrow> 0 | Some k \<Rightarrow> k)
                                   in if \<not> int_ok (k + 1) then (Inl (Undefined ''overflow''), m)
                                      else (Inr 0, m\<lparr>m_packet := Some (mux_left a), m_format_Ctx := Some (accept_packet q c),
                                        m_stream_frames_count_map := (m_stream_frames_count_map m)(i \<mapsto> k + 1)\<rparr>)))))))"

definition endStreamMux :: "('f, 'q) FFmpegMuxer \<Rightarrow> (('f, 'q) FFmpegMuxer, int) outcome" where
  "endStreamMux m =
     (case m_format_Ctx m of
        None \<Rightarrow> (Inr (-1), m)
      | Some c \<Rightarrow> (Inl (Undefined ''no return value''),
          m\<lparr>m_format_Ctx := Some (c\<lparr>out_trailer := True\<rparr>), m_packet := None, m_header_written := False\<rparr>))"

section \<open>FFmpegDemuxer and FFmpegStreamReader\<close>

text \<open>
  An input stream and context, as far as they are read; \<open>in_media\<close>, \<open>in_codec\<close> are the names FFmpeg has for
  the type, a null pointer for an unknown one, and for the codec; dictionaries are in the order of
  their iteration. \<open>in_unreleased\<close> counts packets that were overwritten without \<open>av_packet_unref\<close>.
\<close>

datatype AVDisposition = AV_DISPOSITION_DEFAULT | AV_DISPOSITION_DUB | AV_DISPOSITION_ORIGINAL | AV_DISPOSITION_COMMENT |
  AV_DISPOSITION_LYRICS | AV_DISPOSITION_KARAOKE | AV_DISPOSITION_FORCED | AV_DISPOSITION_HEARING_IMPAIRED |
  AV_DISPOSITION_VISUAL_IMPAIRED | AV_DISPOSITION_CLEAN_EFFECTS | AV_DISPOSITION_ATTACHED_PIC |
  AV_DISPOSITION_TIMED_THUMBNAILS | AV_DISPOSITION_CAPTIONS | AV_DISPOSITION_DESCRIPTIONS | AV_DISPOSITION_METADATA |
  AV_DISPOSITION_DEPENDENT | AV_DISPOSITION_STILL_IMAGE | AV_DISPOSITION_NON_DIEGETIC

record 'f AVInputStream =
  in_index :: int
  in_media :: "string option"
  in_codec :: string
  in_extradata :: bytes
  in_metadata :: "(string \<times> string) list"
  in_disposition :: "AVDisposition \<Rightarrow> bool"
  in_start_time :: int
  in_duration :: int
  in_nb_frames :: int
  in_aspect :: 'f
  in_frame_rate :: int

record 'f AVInputContext =
  iformat_name :: string
  ic_metadata :: "(string \<times> string) list"
  in_streams :: "'f AVInputStream list"
  ic_bit_rate :: int
  ic_packet_size :: nat

record 'f FFmpegDemuxer =
  in_format_Ctx :: "'f AVInputContext option"
  in_packet :: "AVPacket option"
  in_unreleased :: nat

definition newFFmpegDemuxer :: "'f FFmpegDemuxer" where
  "newFFmpegDemuxer = \<lparr>in_format_Ctx = None, in_packet = None, in_unreleased = 0\<rparr>"

text \<open>\<open>opened\<close> is the context \<open>avformat_open_input\<close> yields, \<open>found\<close> the result of \<open>avformat_find_stream_info\<close>.\<close>

definition openContainerDemux :: "'f AVInputContext option \<Rightarrow> int \<Rightarrow> 'f FFmpegDemuxer \<Rightarrow> int \<times> 'f FFmpegDemuxer" where
  "openContainerDemux opened found d =
     (case opened of
        None \<Rightarrow> (-1, d)
      | Some c \<Rightarrow> (if found < 0 then -1 else 0, d\<lparr>in_format_Ctx := Some c\<rparr>))"

definition closeContainerDemux :: "'f FFmpegDemuxer \<Rightarrow> 'f FFmpegDemuxer" where
  "closeContainerDemux d = d\<lparr>in_packet := None, in_format_Ctx := None\<rparr>"

definition getStreamDisposition :: "(AVDisposition \<Rightarrow> bool) \<Rightarrow> string list \<Rightarrow> string list" where
  "getStreamDisposition disposition dl = dl @ map snd (filter (\<lambda>x. disposition (fst x))
     [(AV_DISPOSITION_DEFAULT, ''default''), (AV_DISPOSITION_DUB, ''dub''), (AV_DISPOSITION_ORIGINAL, ''original''),
      (AV_DISPOSITION_COMMENT, ''comment''), (AV_DISPOSITION_LYRICS, ''lyrics''), (AV_DISPOSITION_KARAOKE, ''karaoke''),
      (AV_DISPOSITION_FORCED, ''forced''), (AV_DISPOSITION_HEARING_IMPAIRED, ''hearing_impaired''),
      (AV_DISPOSITION_VISUAL_IMPAIRED, ''visual_impaired''), (AV_DISPOSITION_CLEAN_EFFECTS, ''clean_effects''),
      (AV_DISPOSITION_ATTACHED_PIC, ''attached_pic''), (AV_DISPOSITION_TIMED_THUMBNAILS, ''timed_thumbnails''),
      (AV_DISPOSITION_CAPTIONS, ''captions''), (AV_DISPOSITION_DESCRIPTIONS, ''descriptions''),
      (AV_DISPOSITION_METADATA, ''metadata''), (AV_DISPOSITION_DEPENDENT, ''dependent''),
      (AV_DISPOSITION_STILL_IMAGE, ''still_image''), (AV_DISPOSITION_NON_DIEGETIC, ''non_diegetic'')])"

definition put_tags :: "(string \<times> string) list \<Rightarrow> (string \<Rightarrow> string option) \<Rightarrow> (string \<Rightarrow> string option)" where
  "put_tags tags m = fold (\<lambda>(k, v) m. m(k \<mapsto> v)) tags m"

text \<open>One stream; \<open>raw\<close> is what the members the constructor does not initialise happen to hold.\<close>

definition stream_info :: "'f StreamInfo \<Rightarrow> 'f AVInputStream \<Rightarrow> 'f StreamInfo result" where
  "stream_info raw s =
     (case in_media s of
        None \<Rightarrow> Inl (Undefined ''string from null'')
      | Some t \<Rightarrow> Inr (raw\<lparr>si_index := in_index s, si_metadata := put_tags (in_metadata s) (\<lambda>_. None),
          disposition_list := getStreamDisposition (in_disposition s) [], start_time := in_start_time s,
          si_duration := in_duration s, num_of_frames := in_nb_frames s,
          codec_params := (codec_params raw)\<lparr>codec_type := t, codec_name := in_codec s,
            extra_data := (if in_codec s = ''h264'' \<or> in_codec s = ''hevc'' then in_extradata s else []),
            sample_aspect_ratio := in_aspect s, frame_rate := in_frame_rate s\<rparr>\<rparr>))"

fun stream_loop :: "'f StreamInfo \<Rightarrow> 'f AVInputStream list \<Rightarrow> 'f ContainerInfo \<Rightarrow> ('f ContainerInfo, unit) outcome" where
  "stream_loop raw [] ci = (Inr (), ci)"
| "stream_loop raw (s # ss) ci =
     (case stream_info raw s of
        Inl e \<Rightarrow> (Inl e, ci)
      | Inr i \<Rightarrow> stream_loop raw ss (ci\<lparr>stream_info_list := stream_info_list ci @ [i]\<rparr>))"

definition getContainerInfo ::
  "'f StreamInfo \<Rightarrow> 'f FFmpegDemuxer \<Rightarrow> 'f ContainerInfo \<Rightarrow> ('f ContainerInfo, int) outcome" where
  "getContainerInfo raw d ci =
     (case in_format_Ctx d of
        None \<Rightarrow> (Inr (-1), ci)
      | Some c \<Rightarrow>
          andthen (stream_loop raw (in_streams c) (ci\<lparr>container_type := iformat_name c,
              ci_metadata := put_tags (ic_metadata c) (ci_metadata ci), num_of_streams := length (in_streams c)\<rparr>))
            (\<lambda>_ ci'. (Inr 0, ci'\<lparr>ci_bit_rate := ic_bit_rate c, packet_size := ic_packet_size c\<rparr>)))"

text \<open>\<open>frame\<close> is the packet \<open>av_read_frame\<close> yields; the caller's vector grows and is never cut.\<close>

definition store_packet :: "AVPacket \<Rightarrow> StreamPacket \<Rightarrow> StreamPacket result" where
  "store_packet p sp =
     (let buf = (if length (pkt_bytes sp) < av_size p then pkt_bytes sp @ replicate (av_size p - length (pkt_bytes sp)) 0
          else pkt_bytes sp)
      in if length (av_data p) < av_size p then Inl (Undefined ''read out of range'')
         else rbind (memcpy_at 0 (take (av_size p) (av_data p)) buf) (\<lambda>b.
           Inr (sp\<lparr>stream_index := av_stream_index p, sp_pts := av_pts p, sp_dts := av_dts p, useful_pkt_size := av_size p,
             pkt_bytes := b, sp_pos := av_pos p\<rparr>)))"

definition readStreamPacket ::
  "AVPacket option \<Rightarrow> StreamPacket \<Rightarrow> 'f FFmpegDemuxer \<Rightarrow> (StreamPacket \<times> 'f FFmpegDemuxer, int) outcome" where
  "readStreamPacket frame sp d =
     (case in_format_Ctx d of
        None \<Rightarrow> (Inr (-1), (sp, d))
      | Some c \<Rightarrow>
          (case frame of
             None \<Rightarrow> (Inr (-1), (sp, d\<lparr>in_packet := Some (case in_packet d of None \<Rightarrow> blank_packet | Some p \<Rightarrow> p)\<rparr>))
           | Some p \<Rightarrow>
               (let lost = (case in_packet d of None \<Rightarrow> 0 | Some q \<Rightarrow> if av_size q = 0 then 0 else 1);
                    d' = d\<lparr>in_packet := Some p, in_unreleased := in_unreleased d + lost\<rparr>
                in case store_packet p (sp\<lparr>sp_duration := av_duration p\<rparr>) of
                     Inl e \<Rightarrow> (Inl e, (sp, d')) | Inr sp' \<Rightarrow> (Inr 0, (sp', d')))))"

text \<open>The comparison with the number of streams is one of unsigned numbers.\<close>

definition getStreamWriter :: "int \<Rightarrow> 'f FFmpegDemuxer \<Rightarrow> 'f AVInputStream option" where
  "getStreamWriter i d =
     (case in_format_Ctx d of
        None \<Rightarrow> None
      | Some c \<Rightarrow>
          if length (in_streams c) \<le> unat (word_of_int i :: u32) then None
          else Some (in_streams c ! unat (word_of_int i :: u32)))"

text \<open>
  The reader: \<open>closed\<close> counts how often the context has been closed; after a failure of
  \<open>avformat_find_stream_info\<close> it is closed by hand, and again by the shared pointer that still holds it.
\<close>

record 'f FFmpegStreamReader =
  rd_format_Ctx :: "'f AVInputContext option"
  rd_packet :: "AVPacket option"
  rd_closed :: nat

definition openStreamReader ::
  "'f AVInputContext option \<Rightarrow> int \<Rightarrow> 'f FFmpegStreamReader \<Rightarrow> int \<times> 'f FFmpegStreamReader" where
  "openStreamReader opened found rd =
     (case opened of
        None \<Rightarrow> (-1, rd)
      | Some c \<Rightarrow> (if found < 0 then (-1, rd\<lparr>rd_format_Ctx := Some c, rd_closed := rd_closed rd + 1\<rparr>)
          else (0, rd\<lparr>rd_format_Ctx := Some c\<rparr>)))"

definition closeStreamReader :: "'f FFmpegStreamReader \<Rightarrow> 'f FFmpegStreamReader" where
  "closeStreamReader rd =
     (case rd_format_Ctx rd of None \<Rightarrow> rd | Some _ \<Rightarrow> rd\<lparr>rd_format_Ctx := None, rd_closed := rd_closed rd + 1\<rparr>)"

definition readPacket ::
  "AVPacket option \<Rightarrow> StreamPacket \<Rightarrow> 'f FFmpegStreamReader \<Rightarrow> (StreamPacket \<times> 'f FFmpegStreamReader, int) outcome" where
  "readPacket frame sp rd =
     (case rd_format_Ctx rd of
        None \<Rightarrow> (Inr (-1), (sp, rd))
      | Some c \<Rightarrow>
          (case frame of
             None \<Rightarrow> (Inr (-1), (sp, rd\<lparr>rd_packet := Some (case rd_packet rd of None \<Rightarrow> blank_packet | Some p \<Rightarrow> p)\<rparr>))
           | Some p \<Rightarrow>
               (case store_packet p sp of
                  Inl e \<Rightarrow> (Inl e, (sp, rd\<lparr>rd_packet := Some p\<rparr>))
                | Inr sp' \<Rightarrow> (Inr 0, (sp', rd\<lparr>rd_packet := Some p\<rparr>)))))"

text \<open>The parameters of the first stream, copied byte for byte with the pointer to their extra data.\<close>

definition getStreamParams :: "'f FFmpegStreamReader \<Rightarrow> 'f AVInputStream result" where
  "getStreamParams rd =
     (case rd_format_Ctx rd of
        None \<Rightarrow> Inl (Undefined ''null context'')
      | Some c \<Rightarrow> (case in_streams c of [] \<Rightarrow> Inl (Undefined ''no stream'') | s # _ \<Rightarrow> Inr s))"

definition newFFmpegStreamReader :: "'f FFmpegStreamReader" where
  "newFFmpegStreamReader = \<lparr>rd_format_Ctx = None, rd_packet = None, rd_closed = 0\<rparr>"

definition getStreamReader ::
  "'f AVInputContext option \<Rightarrow> int \<Rightarrow> ('f, 'q) FFmpegMuxer \<Rightarrow> 'f FFmpegStreamReader option" where
  "getStreamReader opened found m =
     (case m_format_Ctx m of
        None \<Rightarrow> None
      | Some _ \<Rightarrow> (case openStreamReader opened found newFFmpegStreamReader of (ret, rd) \<Rightarrow> if ret < 0 then None else Some rd))"

definition seekStreamFrame :: "int \<Rightarrow> int \<Rightarrow> 'f FFmpegDemuxer \<Rightarrow> int" where
  "seekStreamFrame i timestamp d = 0"

section \<open>FFmpegStreamWriter\<close>

record 'q FFmpegStreamWriter =
  wr_format_Ctx :: "'q AVFormatContext option"
  wr_packet :: "AVPacket option"

definition newFFmpegStreamWriter :: "'q FFmpegStreamWriter" where
  "newFFmpegStreamWriter = \<lparr>wr_format_Ctx = None, wr_packet = None\<rparr>"

definition openStreamWriter ::
  "'q AVFormatContext option \<Rightarrow> 'q AVStream option \<Rightarrow> int \<Rightarrow> int \<Rightarrow> 'q AVCodecParameters option \<Rightarrow>
    'q FFmpegStreamWriter \<Rightarrow> int \<times> 'q FFmpegStreamWriter" where
  "openStreamWriter ctx fresh copied opened params w =
     (case params of
        None \<Rightarrow> (-1, w)
      | Some par \<Rightarrow>
          (case ctx of
             None \<Rightarrow> (-1, w)
           | Some c \<Rightarrow>
               (case fresh of
                  None \<Rightarrow> (-1, w\<lparr>wr_format_Ctx := None\<rparr>)
                | Some s \<Rightarrow>
                    if copied < 0 \<or> opened < 0 then (-1, w\<lparr>wr_format_Ctx := None\<rparr>)
                    else (0, w\<lparr>wr_format_Ctx := Some (c\<lparr>streams := streams c @ [s\<lparr>codecpar := par\<rparr>], pb := True\<rparr>)\<rparr>))))"

definition closeStreamWriter :: "'q FFmpegStreamWriter \<Rightarrow> 'q FFmpegStreamWriter" where
  "closeStreamWriter w = (case wr_format_Ctx w of None \<Rightarrow> w | Some _ \<Rightarrow> w\<lparr>wr_packet := None, wr_format_Ctx := None\<rparr>)"

definition writeHeader :: "int \<Rightarrow> 'q FFmpegStreamWriter \<Rightarrow> int \<times> 'q FFmpegStreamWriter" where
  "writeHeader ret w =
     (case wr_format_Ctx w of
        None \<Rightarrow> (-1, w)
      | Some c \<Rightarrow> (if ret < 0 then (-1, w) else (0, w\<lparr>wr_format_Ctx := Some (c\<lparr>out_header := True\<rparr>)\<rparr>)))"

definition writeTrailer :: "int \<Rightarrow> 'q FFmpegStreamWriter \<Rightarrow> int \<times> 'q FFmpegStreamWriter" where
  "writeTrailer ret w =
     (case wr_format_Ctx w of
        None \<Rightarrow> (-1, w)
      | Some c \<Rightarrow> (if ret < 0 then (-1, w) else (0, w\<lparr>wr_format_Ctx := Some (c\<lparr>out_trailer := True\<rparr>)\<rparr>)))"

text \<open>Here the packet grows by the size of the data, and its whole size is copied.\<close>

definition writer_room :: "mux_answers \<Rightarrow> nat \<Rightarrow> AVPacket option \<Rightarrow> AVPacket" where
  "writer_room a n pkt =
     (let p = (case pkt of
          None \<Rightarrow> (case mux_new a of None \<Rightarrow> blank_packet | Some junk \<Rightarrow> blank_packet\<lparr>av_data := memory junk n, av_size := n\<rparr>)
        | Some p \<Rightarrow> p)
      in if av_size p < n
         then (case mux_grow a of None \<Rightarrow> p | Some junk \<Rightarrow> p\<lparr>av_data := av_data p @ memory junk n\<rparr>)\<lparr>av_size := n\<rparr>
         else p)"

definition writePacket ::
  "mux_answers \<Rightarrow> StreamPacket \<Rightarrow> 'q FFmpegStreamWriter \<Rightarrow> ('q FFmpegStreamWriter, int) outcome" where
  "writePacket a sp w =
     (case wr_format_Ctx w of
        None \<Rightarrow> (Inr (-1), w)
      | Some c \<Rightarrow>
          (let p = writer_room a (useful_pkt_size sp) (wr_packet w); w1 = w\<lparr>wr_packet := Some p\<rparr>
           in if length (pkt_bytes sp) < av_size p then (Inl (Undefined ''read out of range''), w1)
              else case memcpy_at 0 (take (av_size p) (pkt_bytes sp)) (av_data p) of
                Inl e \<Rightarrow> (Inl e, w1)
              | Inr d \<Rightarrow>
                  (let q = p\<lparr>av_data := d, av_pts := sp_pts sp, av_dts := sp_dts sp, av_stream_index := stream_index sp,
                         av_pos := sp_pos sp\<rparr>
                   in if mux_write a < 0 then (Inr (-1), w\<lparr>wr_packet := Some (mux_left a)\<rparr>)
                      else (Inr 0, w\<lparr>wr_packet := Some (mux_left a), wr_format_Ctx := Some (accept_packet q c)\<rparr>))))"

section \<open>Copying a stream\<close>

text \<open>
  \<open>MuxApp::onProcess\<close> of the samples: every packet of the reader goes to the muxer, in one object that is
  reused; the loop ends when the reader answers an error. The results of the muxer are not looked at.
\<close>

fun mux_loop ::
  "('f, 'd) fp \<Rightarrow> ('f \<Rightarrow> int option) \<Rightarrow> (AVPacket option \<times> mux_answers) list \<Rightarrow>
    StreamPacket \<times> 'f FFmpegStreamReader \<times> ('f, 'q) FFmpegMuxer \<Rightarrow>
    (StreamPacket \<times> 'f FFmpegStreamReader \<times> ('f, 'q) FFmpegMuxer, unit) outcome" where
  "mux_loop F to64 [] st = (Inl Waiting, st)"
| "mux_loop F to64 ((frame, a) # as) (sp, rd, m) =
     (case readPacket frame sp rd of
        (Inl e, (sp', rd')) \<Rightarrow> (Inl e, (sp', rd', m))
      | (Inr ret, (sp', rd')) \<Rightarrow>
          if ret < 0 then (Inr (), (sp', rd', m))
          else
            (case writeStreamPacket F to64 a sp' m of
               (Inl e, m') \<Rightarrow> (Inl e, (sp', rd', m'))
             | (Inr _, m') \<Rightarrow> mux_loop F to64 as (sp', rd', m')))"

section \<open>Writing packets\<close>

text \<open>What FFmpeg documents of a successful call: memory is there, and the packet comes back blank.\<close>

definition mux_documented :: "mux_answers \<Rightarrow> bool" where
  "mux_documented a \<longleftrightarrow> 0 \<le> mux_open a \<and> 0 \<le> mux_header a \<and> mux_new a \<noteq> None \<and> mux_grow a \<noteq> None \<and>
     0 \<le> mux_write a \<and> av_size (mux_left a) = 0"

text \<open>Between two packets: the file has been begun and the packet object is free.\<close>

definition mux_ready :: "'q AVFormatContext \<Rightarrow> ('f, 'q) FFmpegMuxer \<Rightarrow> bool" where
  "mux_ready c m \<longleftrightarrow> m_header_written m \<and> m_format_Ctx m = Some c \<and>
     (case m_packet m of None \<Rightarrow> True | Some p \<Rightarrow> av_size p = 0)"

lemma length_memory [simp]: "length (memory junk n) = n" by (simp add: memory_def)

lemma FFALIGN_ge: "x \<le> FFALIGN x 64"
proof -
  have "(x + 63) mod 64 < (64 :: nat)" by simp
  moreover have "(x + 63) div 64 * 64 + (x + 63) mod 64 = x + 63" by (rule div_mult_mod_eq)
  ultimately have "x \<le> (x + 63) div 64 * 64" by linarith
  then show ?thesis by (simp add: FFALIGN_def)
qed

lemma packet_room_size:
  assumes "mux_documented a" and "case pkt of None \<Rightarrow> True | Some p \<Rightarrow> av_size p = 0"
  shows "av_size (packet_room a n pkt) = n \<and> n \<le> length (av_data (packet_room a n pkt))"
proof (cases pkt)
  case None
  obtain junk where "mux_new a = Some junk" using assms(1) by (auto simp: mux_documented_def)
  then show ?thesis using None by (simp add: packet_room_def blank_packet_def)
next
  case (Some p)
  obtain junk where "mux_grow a = Some junk" using assms(1) by (auto simp: mux_documented_def)
  then show ?thesis using Some assms(2) FFALIGN_ge [of n] by (simp add: packet_room_def trans_le_add1)
qed

text \<open>The packet as it goes into the file.\<close>

definition stamped :: "int \<Rightarrow> int \<Rightarrow> StreamPacket \<Rightarrow> AVPacket \<Rightarrow> bool" where
  "stamped pts d sp q \<longleftrightarrow> av_data q = take (useful_pkt_size sp) (pkt_bytes sp) \<and> av_size q = useful_pkt_size sp \<and>
     av_stream_index q = stream_index sp \<and> av_pts q = pts \<and> av_dts q = pts - d"

lemma recreate_known:
  assumes "m_stream_frames_count_map m i = Some n" and "m_format_Ctx m = Some c" and "0 \<le> i" and "i < int (length (streams c))"
    and "duration_ts F to64 (video_fps (m_mux_cfg m)) (tb_num (streams c ! nat i)) (tb_den (streams c ! nat i)) = Inr d"
    and "int64_ok (n * d)" and "int64_ok ((n - 1) * d)"
  shows "recreatePTS F to64 i m = Inr (n * d)" "recreateDTS F to64 i m = Inr (n * d - d)"
  using assms by (simp_all add: recreatePTS_def recreateDTS_def recreate_ts_def left_diff_distrib)

lemma write_step:
  assumes ready: "mux_ready c m" "mux_documented a" and fits: "useful_pkt_size sp \<le> length (pkt_bytes sp)"
    and cfg: "ts_recreate (m_mux_cfg m)" and idx: "0 \<le> stream_index sp" "stream_index sp < int (length (streams c))"
    and n: "m_stream_frames_count_map m (stream_index sp) = Some n" "int_ok (n + 1)"
    and d: "duration_ts F to64 (video_fps (m_mux_cfg m)) (tb_num (streams c ! nat (stream_index sp)))
      (tb_den (streams c ! nat (stream_index sp))) = Inr d"
    and range: "int64_ok (n * d)" "int64_ok ((n - 1) * d)"
  shows "\<exists>q m'. writeStreamPacket F to64 a sp m = (Inr 0, m') \<and> stamped (n * d) d sp q \<and>
    mux_ready (c\<lparr>out_packets := out_packets c @ [q]\<rparr>) m' \<and> m_mux_cfg m' = m_mux_cfg m \<and> m_path m' = m_path m \<and>
    m_stream_frames_count_map m' = (m_stream_frames_count_map m)(stream_index sp \<mapsto> n + 1)"
proof -
  let ?n = "useful_pkt_size sp" and ?i = "stream_index sp"
  have m: "m_format_Ctx m = Some c" "begin_file a m = (m, True)"
    "case m_packet m of None \<Rightarrow> True | Some p \<Rightarrow> av_size p = 0"
    using ready(1) by (simp_all add: mux_ready_def begin_file_def)
  define p where "p = packet_room a ?n (m_packet m)"
  have p: "av_size p = ?n" "?n \<le> length (av_data p)" using packet_room_size [OF ready(2) m(3)] by (simp_all add: p_def)
  define data where "data = take ?n (pkt_bytes sp) @ drop ?n (av_data p)"
  have data: "memcpy_at 0 (take ?n (pkt_bytes sp)) (av_data p) = Inr data"
    using p(2) fits by (simp add: memcpy_at_def data_def)
  note ts = recreate_known [OF n(1) m(1) idx d range]
  define q where "q = p\<lparr>av_data := data, av_stream_index := ?i, av_pts := n * d, av_dts := n * d - d, av_pos := -1\<rparr>"
  have "writeStreamPacket F to64 a sp m = (Inr 0, m\<lparr>m_packet := Some (mux_left a), m_format_Ctx := Some (accept_packet q c),
      m_stream_frames_count_map := (m_stream_frames_count_map m)(?i \<mapsto> n + 1)\<rparr>)"
    using ready(2) fits cfg n
    by (simp add: writeStreamPacket_def m(1,2) p_def [symmetric] data ts Let_def q_def mux_documented_def)
  moreover have "stamped (n * d) d sp (q\<lparr>av_data := take (av_size q) (av_data q)\<rparr>)"
    using p fits by (simp add: stamped_def q_def data_def)
  moreover have "mux_ready (accept_packet q c) (m\<lparr>m_packet := Some (mux_left a), m_format_Ctx := Some (accept_packet q c),
      m_stream_frames_count_map := (m_stream_frames_count_map m)(?i \<mapsto> n + 1)\<rparr>)"
    using ready by (simp add: mux_ready_def mux_documented_def)
  ultimately show ?thesis unfolding accept_packet_def by (intro exI conjI) (assumption, assumption, assumption, simp_all)
qed

lemma store_packet_ok:
  assumes "av_size p \<le> length (av_data p)"
  shows "\<exists>sp'. store_packet p sp = Inr sp' \<and> take (useful_pkt_size sp') (pkt_bytes sp') = take (av_size p) (av_data p) \<and>
    useful_pkt_size sp' = av_size p \<and> av_size p \<le> length (pkt_bytes sp') \<and> stream_index sp' = av_stream_index p \<and>
    sp_pts sp' = av_pts p \<and> sp_dts sp' = av_dts p"
  using assms by (simp add: store_packet_def memcpy_at_def Let_def)

lemma readPacket_ok:
  assumes "rd_format_Ctx rd = Some rc" and "av_size p \<le> length (av_data p)"
  shows "\<exists>sp' rd'. readPacket (Some p) sp rd = (Inr 0, (sp', rd')) \<and> rd_format_Ctx rd' = Some rc \<and>
    take (useful_pkt_size sp') (pkt_bytes sp') = take (av_size p) (av_data p) \<and> useful_pkt_size sp' = av_size p \<and>
    av_size p \<le> length (pkt_bytes sp') \<and> stream_index sp' = av_stream_index p"
proof -
  obtain sp' where "store_packet p sp = Inr sp'" "take (useful_pkt_size sp') (pkt_bytes sp') = take (av_size p) (av_data p)"
    "useful_pkt_size sp' = av_size p" "av_size p \<le> length (pkt_bytes sp')" "stream_index sp' = av_stream_index p"
    using store_packet_ok [OF assms(2)] by blast
  then show ?thesis using assms(1)
    by (intro exI [of _ sp'] exI [of _ "rd\<lparr>rd_packet := Some p\<rparr>"]) (simp add: readPacket_def)
qed

text \<open>What a copy of a list of packets looks like; \<open>k\<close> counts the frames each stream has so far.\<close>

fun copied :: "(int \<Rightarrow> int) \<Rightarrow> (int \<Rightarrow> int) \<Rightarrow> AVPacket list \<Rightarrow> AVPacket list \<Rightarrow> bool" where
  "copied d k [] qs \<longleftrightarrow> qs = []"
| "copied d k (p # ps) [] \<longleftrightarrow> False"
| "copied d k (p # ps) (q # qs) \<longleftrightarrow>
     av_data q = take (av_size p) (av_data p) \<and> av_stream_index q = av_stream_index p \<and>
     av_pts q = k (av_stream_index p) * d (av_stream_index p) \<and> av_dts q = av_pts q - d (av_stream_index p) \<and>
     copied d (k(av_stream_index p := k (av_stream_index p) + 1)) ps qs"

lemma copied_at:
  assumes "copied d k ps qs"
  shows "length qs = length ps \<and> (\<forall>j < length ps. let p = ps ! j; q = qs ! j; i = av_stream_index p in
    av_data q = take (av_size p) (av_data p) \<and> av_stream_index q = i \<and>
    av_pts q = (k i + int (length (filter (\<lambda>r. av_stream_index r = i) (take j ps)))) * d i \<and> av_dts q = av_pts q - d i)"
  using assms
proof (induction d k ps qs rule: copied.induct)
  case (3 d k p ps q qs)
  note head = 3(2) [unfolded copied.simps]
  note rest = 3(1) [OF head [THEN conjunct2, THEN conjunct2, THEN conjunct2, THEN conjunct2]]
  show ?case
  proof (intro conjI allI impI)
    show "length (q # qs) = length (p # ps)" using rest by simp
    show "let p' = (p # ps) ! j; q' = (q # qs) ! j; i = av_stream_index p' in
      av_data q' = take (av_size p') (av_data p') \<and> av_stream_index q' = i \<and>
      av_pts q' = (k i + int (length (filter (\<lambda>r. av_stream_index r = i) (take j (p # ps))))) * d i \<and>
      av_dts q' = av_pts q' - d i" if "j < length (p # ps)" for j
      using rest head that by (cases j) (simp_all add: Let_def add.assoc)
  qed
qed simp_all

text \<open>The state of the muxer that a list of packets needs.\<close>

definition mux_room ::
  "('f, 'd) fp \<Rightarrow> ('f \<Rightarrow> int option) \<Rightarrow> (int \<Rightarrow> int) \<Rightarrow> (int \<Rightarrow> int) \<Rightarrow> int \<Rightarrow> 'q AVFormatContext \<Rightarrow> ('f, 'q) FFmpegMuxer \<Rightarrow> int \<Rightarrow> bool" where
  "mux_room F to64 d k n c m i \<longleftrightarrow> 0 \<le> i \<and> i < int (length (streams c)) \<and> m_stream_frames_count_map m i = Some (k i) \<and>
     0 \<le> k i \<and> k i + n < 2 ^ 31 \<and>
     duration_ts F to64 (video_fps (m_mux_cfg m)) (tb_num (streams c ! nat i)) (tb_den (streams c ! nat i)) = Inr (d i) \<and>
     (\<forall>j. - 1 \<le> j \<and> j \<le> k i + n \<longrightarrow> int64_ok (j * d i))"

lemma mux_room_next:
  assumes "mux_room F to64 d k (n + 1) c m i" and "m_mux_cfg m' = m_mux_cfg m"
    and "m_stream_frames_count_map m' = (m_stream_frames_count_map m)(j \<mapsto> k j + 1)" and "streams c' = streams c"
  shows "mux_room F to64 d (k(j := k j + 1)) n c' m' i"
  using assms by (auto simp: mux_room_def)

lemma mux_loop_copies:
  assumes "rd_format_Ctx rd = Some rc" and "mux_ready c m" and "ts_recreate (m_mux_cfg m)"
    and "\<forall>(p, a) \<in> set pas. av_size p \<le> length (av_data p) \<and> mux_documented a \<and>
      mux_room F to64 d k (int (length pas)) c m (av_stream_index p)"
  shows "\<exists>sp' rd' m' qs. mux_loop F to64 (map (apfst Some) pas @ (None, a') # rest) (sp, rd, m) = (Inr (), (sp', rd', m')) \<and>
    mux_ready (c\<lparr>out_packets := out_packets c @ qs\<rparr>) m' \<and> copied d k (map fst pas) qs"
  using assms
proof (induction pas arbitrary: k c m sp rd)
  case Nil
  then show ?case by (intro exI [of _ "[]"] exI) (simp add: readPacket_def)
next
  case (Cons pa pas)
  obtain p a where pa: "pa = (p, a)" by (cases pa)
  let ?i = "av_stream_index p"
  have head: "av_size p \<le> length (av_data p)" "mux_documented a" "mux_room F to64 d k (int (length pas) + 1) c m ?i"
    using Cons.prems(4) by (simp_all add: pa add.commute)
  obtain sp1 rd1 where rd: "readPacket (Some p) sp rd = (Inr 0, (sp1, rd1))" "rd_format_Ctx rd1 = Some rc"
    "take (useful_pkt_size sp1) (pkt_bytes sp1) = take (av_size p) (av_data p)" "useful_pkt_size sp1 = av_size p"
    "av_size p \<le> length (pkt_bytes sp1)" "stream_index sp1 = ?i"
    using readPacket_ok [OF Cons.prems(1) head(1)] by blast
  have "- 1 \<le> k ?i - 1" using head(3) by (simp add: mux_room_def)
  then have room: "0 \<le> stream_index sp1" "stream_index sp1 < int (length (streams c))"
    "m_stream_frames_count_map m (stream_index sp1) = Some (k ?i)" "int_ok (k ?i + 1)"
    "duration_ts F to64 (video_fps (m_mux_cfg m)) (tb_num (streams c ! nat (stream_index sp1)))
      (tb_den (streams c ! nat (stream_index sp1))) = Inr (d ?i)"
    "int64_ok (k ?i * d ?i)" "int64_ok ((k ?i - 1) * d ?i)"
    using head(3) unfolding rd(6) by (simp_all add: mux_room_def int_ok_def)
  have fits: "useful_pkt_size sp1 \<le> length (pkt_bytes sp1)" using rd(4,5) by simp
  from write_step [OF Cons.prems(2) head(2) fits Cons.prems(3) room] obtain q m1 where
    w: "writeStreamPacket F to64 a sp1 m = (Inr 0, m1)" "stamped (k ?i * d ?i) (d ?i) sp1 q"
    "mux_ready (c\<lparr>out_packets := out_packets c @ [q]\<rparr>) m1" "m_mux_cfg m1 = m_mux_cfg m"
    "m_stream_frames_count_map m1 = (m_stream_frames_count_map m)(?i \<mapsto> k ?i + 1)"
    unfolding rd(6) by blast
  let ?k = "k(?i := k ?i + 1)" and ?c = "c\<lparr>out_packets := out_packets c @ [q]\<rparr>"
  have room': "\<forall>(p, a) \<in> set pas. av_size p \<le> length (av_data p) \<and> mux_documented a \<and>
      mux_room F to64 d ?k (int (length pas)) ?c m1 (av_stream_index p)"
    using Cons.prems(4) mux_room_next [where k = k and j = ?i, OF _ w(4,5), of F to64 d "int (length pas)" c _ ?c]
    by (auto simp: add.commute)
  have cfg: "ts_recreate (m_mux_cfg m1)" using Cons.prems(3) w(4) by simp
  from Cons.IH [OF rd(2) w(3) cfg room'] obtain sp' rd' m' qs where
    "mux_loop F to64 (map (apfst Some) pas @ (None, a') # rest) (sp1, rd1, m1) = (Inr (), (sp', rd', m'))"
    "mux_ready (?c\<lparr>out_packets := out_packets ?c @ qs\<rparr>) m'" "copied d ?k (map fst pas) qs" by blast
  moreover have "copied d k (p # map fst pas) (q # qs)"
    using w(2) rd(3,4,6) calculation(3) by (simp add: stamped_def)
  ultimately show ?case
    using rd(1) w(1) by (intro exI [of _ sp'] exI [of _ rd'] exI [of _ m'] exI [of _ "q # qs"]) (simp add: pa)
qed

lemma write_begun:
  assumes "begin_file a m0 = (m, True)"
  shows "writeStreamPacket F to64 a sp m0 = writeStreamPacket F to64 a sp m"
proof -
  have "m_header_written m"
    using assms by (auto simp: begin_file_def Let_def split: if_splits option.splits)
  then have "begin_file a m = (m, True)" by (simp add: begin_file_def)
  then show ?thesis using assms by (simp add: writeStreamPacket_def)
qed

lemma mux_loop_begun:
  assumes "begin_file a m0 = (m, True)" and "rd_format_Ctx rd = Some rc" and "av_size p \<le> length (av_data p)"
  shows "mux_loop F to64 ((Some p, a) # as) (sp, rd, m0) = mux_loop F to64 ((Some p, a) # as) (sp, rd, m)"
proof -
  obtain sp' rd' where "readPacket (Some p) sp rd = (Inr 0, (sp', rd'))" using readPacket_ok [OF assms(2,3)] by blast
  then show ?thesis by (simp add: write_begun [OF assms(1)])
qed

text \<open>
  C38. A stream is copied whole: when the file can be begun and FFmpeg accepts the packets, the loop of
  the muxer sample ends, and the file holds the packets of the reader in their order, each with its
  own bytes although all go through one object and one buffer that only grow; the \<open>n\<close>-th packet of a
  stream, from 0, is stamped \<open>n\<close> times the frame duration for presentation and one duration less for
  decoding, also when the packets of several streams are mixed.
\<close>

theorem mux_copies_stream:
  assumes "pas \<noteq> []" and "begin_file (snd (hd pas)) m0 = (m, True)" and "mux_ready c m" and "ts_recreate (m_mux_cfg m)"
    and "rd_format_Ctx rd = Some rc"
    and "\<forall>(p, a) \<in> set pas. av_size p \<le> length (av_data p) \<and> mux_documented a \<and>
      mux_room F to64 d (\<lambda>_. 0) (int (length pas)) c m (av_stream_index p)"
  shows "\<exists>sp' rd' m' qs. mux_loop F to64 (map (apfst Some) pas @ [(None, a')]) (sp, rd, m0) = (Inr (), (sp', rd', m')) \<and>
     m_format_Ctx m' = Some (c\<lparr>out_packets := out_packets c @ qs\<rparr>) \<and> length qs = length pas \<and>
     (\<forall>j < length pas. let p = fst (pas ! j); q = qs ! j; i = av_stream_index p;
         n = int (length (filter (\<lambda>pa. av_stream_index (fst pa) = i) (take j pas))) in
       av_data q = take (av_size p) (av_data p) \<and> av_stream_index q = i \<and>
       av_pts q = n * d i \<and> av_dts q = (n - 1) * d i)"
proof -
  obtain p a rest where pas: "pas = (p, a) # rest" using assms(1) by (cases pas) auto
  have "av_size p \<le> length (av_data p)" using assms(6) by (simp add: pas)
  then have same: "mux_loop F to64 (map (apfst Some) pas @ [(None, a')]) (sp, rd, m0) =
      mux_loop F to64 (map (apfst Some) pas @ [(None, a')]) (sp, rd, m)"
    using mux_loop_begun [OF _ assms(5)] assms(2) by (simp add: pas del: mux_loop.simps)
  obtain sp' rd' m' qs where run: "mux_loop F to64 (map (apfst Some) pas @ [(None, a')]) (sp, rd, m) = (Inr (), (sp', rd', m'))"
    "mux_ready (c\<lparr>out_packets := out_packets c @ qs\<rparr>) m'" "copied d (\<lambda>_. 0) (map fst pas) qs"
    using mux_loop_copies [OF assms(5,3,4,6), of a' "[]" sp] by blast
  have "length (filter (\<lambda>r. av_stream_index r = i) (take j (map fst pas))) =
      length (filter (\<lambda>pa. av_stream_index (fst pa) = i) (take j pas))" for i j
    by (simp add: take_map filter_map comp_def)
  then show ?thesis
    using copied_at [OF run(3)] run(1,2) unfolding same
    by (intro exI [of _ sp'] exI [of _ rd'] exI [of _ m'] exI [of _ qs]) (simp add: mux_ready_def Let_def left_diff_distrib)
qed

text \<open>
  A file that was closed without \<open>endStreamMux\<close> leaves \<open>m_header_written\<close> set: the next file gets packets
  but is neither opened nor given a header.
\<close>

lemma header_lost:
  assumes "m_header_written m"
  shows "begin_file a (snd (openContainerMux (Some c) path cfg (closeContainerMux m))) =
    (snd (openContainerMux (Some c) path cfg (closeContainerMux m)), True)"
  using assms by (simp add: begin_file_def openContainerMux_def closeContainerMux_def)

lemma unsupported_stream_stays:
  assumes "m_format_Ctx m = Some c" and "codec_type (codec_params info) = ''radar''"
  shows "addStream d2q (Some s) info m =
    (Inr (-1), m\<lparr>m_format_Ctx := Some (c\<lparr>streams := streams c @ [s\<lparr>st_id := int (length (streams c))\<rparr>]\<rparr>)\<rparr>)"
  using assms by (simp add: addStream_def register_stream_def Let_def)

lemma reader_closes_twice:
  assumes "found < 0"
  shows "rd_closed (closeStreamReader (snd (openStreamReader (Some c) found newFFmpegStreamReader))) = 2"
  using assms by (simp add: openStreamReader_def closeStreamReader_def newFFmpegStreamReader_def)

text \<open>A negative index is refused, because it is compared as an unsigned number.\<close>

lemma negative_stream_refused:
  assumes "in_format_Ctx d = Some c" and "length (in_streams c) < 2 ^ 31" and "- (2 ^ 31) \<le> i" and "i < 0"
  shows "getStreamWriter i d = None"
proof -
  have "i mod 2 ^ 32 = (i + 2 ^ 32) mod 2 ^ 32" by simp
  also have "\<dots> = i + 2 ^ 32" by (rule mod_pos_pos_trivial) (use assms(3,4) in auto)
  finally have "i mod 2 ^ 32 = i + 2 ^ 32" .
  then have "unat (word_of_int i :: u32) = nat (i + 2 ^ 32)" by (simp add: unsigned_of_int take_bit_eq_mod)
  moreover have "2 ^ 31 \<le> nat (i + 2 ^ 32)" using assms(3) by simp
  ultimately show ?thesis using assms(1,2) by (simp add: getStreamWriter_def)
qed

text \<open>The description of a container lists its streams in order, behind what the list held before.\<close>

lemma stream_loop_lists:
  assumes "stream_loop raw ss ci = (Inr (), ci')"
  shows "\<exists>infos. ci' = ci\<lparr>stream_info_list := stream_info_list ci @ infos\<rparr> \<and> list_all2 (\<lambda>s i. stream_info raw s = Inr i) ss infos"
  using assms
proof (induction ss arbitrary: ci)
  case (Cons s ss)
  obtain i where i: "stream_info raw s = Inr i" using Cons.prems by (cases "stream_info raw s") simp_all
  from Cons.IH [of "ci\<lparr>stream_info_list := stream_info_list ci @ [i]\<rparr>"] Cons.prems i obtain infos where
    "ci' = ci\<lparr>stream_info_list := stream_info_list ci @ i # infos\<rparr>" "list_all2 (\<lambda>s i. stream_info raw s = Inr i) ss infos" by auto
  then show ?case using i by (intro exI [of _ "i # infos"]) simp
qed (auto intro: exI [of _ "[]"])

lemma container_listed_twice:
  assumes "in_format_Ctx d = Some c" and "getContainerInfo raw d newContainerInfo = (Inr 0, ci)"
    and "getContainerInfo raw d ci = (Inr 0, ci')"
  shows "length (stream_info_list ci') = 2 * num_of_streams ci'"
proof -
  have len: "length (stream_info_list y) = length (stream_info_list x) + length (in_streams c) \<and> num_of_streams y = length (in_streams c)"
    if info: "getContainerInfo raw d x = (Inr 0, y)" for x y
  proof -
    let ?x = "x\<lparr>container_type := iformat_name c, ci_metadata := put_tags (ic_metadata c) (ci_metadata x),
      num_of_streams := length (in_streams c)\<rparr>"
    obtain z where z: "stream_loop raw (in_streams c) ?x = (Inr (), z)"
      "y = z\<lparr>ci_bit_rate := ic_bit_rate c, packet_size := ic_packet_size c\<rparr>"
      using info assms(1) by (auto simp: getContainerInfo_def andthen_Inr)
    from stream_loop_lists [OF z(1)] show ?thesis using z(2) by (auto dest: list_all2_lengthD)
  qed
  show ?thesis using len [OF assms(2)] len [OF assms(3)] by (simp add: newContainerInfo_def)
qed

section \<open>A run\<close>

definition demo_stream :: "unit AVStream" where
  "demo_stream = \<lparr>st_id = 0, tb_num = 1, tb_den = 30, codecpar = \<lparr>par_codec_type = AVMEDIA_TYPE_VIDEO,
     par_codec_id = AV_CODEC_ID_H264, par_bit_rate = 0, par_sample_aspect_ratio = (), par_width = 0, par_height = 0,
     par_sample_rate = 0\<rparr>\<rparr>"

definition demo_context :: "unit AVFormatContext" where
  "demo_context = \<lparr>nofile = False, streams = [demo_stream], pb = False, out_header = False, out_packets = [], out_trailer = False\<rparr>"

definition demo_muxer :: "(rat, unit) FFmpegMuxer" where
  "demo_muxer = (newFFmpegMuxer \<lparr>ts_recreate = True, video_fps = 30\<rparr>)\<lparr>m_format_Ctx := Some demo_context,
     m_stream_frames_count_map := [0 \<mapsto> 0]\<rparr>"

definition demo_mux_answers :: mux_answers where
  "demo_mux_answers = \<lparr>mux_open = 0, mux_header = 0, mux_time_bases = [(1, 15360)], mux_new = Some [], mux_grow = Some [],
     mux_write = 0, mux_left = blank_packet\<rparr>"

definition small_packet :: "bytes \<Rightarrow> AVPacket" where
  "small_packet d = blank_packet\<lparr>av_data := d, av_size := length d\<rparr>"

definition begun_context :: "unit AVFormatContext" where
  "begun_context = demo_context\<lparr>pb := True, out_header := True, streams := [demo_stream\<lparr>tb_den := 15360\<rparr>]\<rparr>"

definition begun_muxer :: "(rat, unit) FFmpegMuxer" where
  "begun_muxer = demo_muxer\<lparr>m_format_Ctx := Some begun_context, m_header_written := True\<rparr>"

lemma demo_begun: "begin_file demo_mux_answers demo_muxer = (begun_muxer, True)" "mux_ready begun_context begun_muxer"
  by (simp_all add: begin_file_def demo_mux_answers_def demo_muxer_def newFFmpegMuxer_def demo_context_def begun_muxer_def
      begun_context_def set_time_bases_def mux_ready_def demo_stream_def)

lemma demo_room: "mux_room exact_fp (\<lambda>x. Some \<lfloor>x\<rfloor>) (\<lambda>_. 512) (\<lambda>_. 0) 2 begun_context begun_muxer 0"
  by (simp add: mux_room_def begun_muxer_def begun_context_def demo_muxer_def demo_context_def demo_stream_def newFFmpegMuxer_def
      duration_ts_def exact_fp_def int64_ok_def)

theorem mux_copies_stream_witness:
  "\<exists>sp' rd' (m' :: (rat, unit) FFmpegMuxer) c'.
     mux_loop exact_fp (\<lambda>x. Some \<lfloor>x\<rfloor>)
       [(Some (small_packet [1, 2, 3]), demo_mux_answers), (Some (small_packet [4]), demo_mux_answers), (None, demo_mux_answers)]
       (\<lparr>sp_pts = 0, sp_dts = 0, sp_duration = 0, stream_index = 0, pkt_bytes = [], useful_pkt_size = 0, sp_pos = 0\<rparr>,
        \<lparr>rd_format_Ctx = Some \<lparr>iformat_name = [], ic_metadata = [], in_streams = [], ic_bit_rate = 0, ic_packet_size = 0\<rparr>,
          rd_packet = None, rd_closed = 0\<rparr>, demo_muxer) = (Inr (), (sp', rd', m')) \<and>
     m_format_Ctx m' = Some c' \<and> map av_data (out_packets c') = [[1, 2, 3], [4]] \<and>
     map av_pts (out_packets c') = [0, 512] \<and> map av_dts (out_packets c') = [- 512, 0]"
proof -
  let ?pas = "[(small_packet [1, 2, 3], demo_mux_answers), (small_packet [4], demo_mux_answers)]"
  let ?sp = "\<lparr>sp_pts = 0, sp_dts = 0, sp_duration = 0, stream_index = 0, pkt_bytes = [], useful_pkt_size = 0, sp_pos = 0\<rparr>"
  let ?rd = "\<lparr>rd_format_Ctx = Some \<lparr>iformat_name = [], ic_metadata = [], in_streams = [], ic_bit_rate = 0, ic_packet_size = 0\<rparr>,
    rd_packet = None, rd_closed = 0\<rparr> :: rat FFmpegStreamReader"
  have prems: "?pas \<noteq> []" "begin_file (snd (hd ?pas)) demo_muxer = (begun_muxer, True)" "ts_recreate (m_mux_cfg begun_muxer)"
    using demo_begun by (simp_all add: begun_muxer_def demo_muxer_def newFFmpegMuxer_def)
  have all: "\<forall>(p, a) \<in> set ?pas. av_size p \<le> length (av_data p) \<and> mux_documented a \<and>
      mux_room exact_fp (\<lambda>x. Some \<lfloor>x\<rfloor>) (\<lambda>_. 512) (\<lambda>_. 0) (int (length ?pas)) begun_context begun_muxer (av_stream_index p)"
    using demo_room by (simp add: small_packet_def blank_packet_def mux_documented_def demo_mux_answers_def)
  have open_rd: "rd_format_Ctx ?rd = Some \<lparr>iformat_name = [], ic_metadata = [], in_streams = [], ic_bit_rate = 0, ic_packet_size = 0\<rparr>"
    by simp
  from mux_copies_stream [OF prems(1,2) demo_begun(2) prems(3) open_rd all, of demo_mux_answers ?sp]
  obtain sp' rd' m' qs where run: "mux_loop exact_fp (\<lambda>x. Some \<lfloor>x\<rfloor>) (map (apfst Some) ?pas @ [(None, demo_mux_answers)])
      (?sp, ?rd, demo_muxer) = (Inr (), (sp', rd', m'))" "m_format_Ctx m' = Some (begun_context\<lparr>out_packets := out_packets begun_context @ qs\<rparr>)"
    and len: "length qs = length ?pas" and q: "\<forall>j < length ?pas. let p = fst (?pas ! j); q = qs ! j; i = av_stream_index p;
         n = int (length (filter (\<lambda>pa. av_stream_index (fst pa) = i) (take j ?pas))) in
       av_data q = take (av_size p) (av_data p) \<and> av_stream_index q = i \<and> av_pts q = n * 512 \<and> av_dts q = (n - 1) * 512"
    by blast
  obtain q0 q1 where qs: "qs = [q0, q1]" using len by (auto simp: length_Suc_conv)
  have "av_data q0 = [1, 2, 3] \<and> av_pts q0 = 0 \<and> av_dts q0 = - 512" using q [THEN spec, of 0] by (simp add: qs small_packet_def blank_packet_def)
  moreover have "av_data q1 = [4] \<and> av_pts q1 = 512 \<and> av_dts q1 = 0" using q [THEN spec, of 1] by (simp add: qs small_packet_def blank_packet_def)
  ultimately show ?thesis using run
    by (intro exI [of _ sp'] exI [of _ rd'] exI [of _ m'] exI [of _ "begun_context\<lparr>out_packets := [q0, q1]\<rparr>"])
      (simp add: qs begun_context_def demo_context_def)
qed

end
