(* ===== verification/Graphics2D.thy ===== *)
theory Graphics2D
  imports Image
begin

text \<open>
  2D acceleration (\<open>bsp_g2d\<close>): the interface \<open>IGraphics2D\<close> as a record of functions, the operations on
  views it composes of them, the guards of \<open>BufferHelper.hpp\<close>, and the implementation \<open>rkrga\<close>. A
  \<open>shared_ptr<ImageBuffer>\<close> is the address of the object with its view and what its native handle
  holds. The locale \<open>g2d_surfaces\<close> states what an implementation keeps of its buffers; what the RGA
  library answers is an argument.
\<close>

section \<open>The interface\<close>

datatype BufferType = Hardware | Mapped
datatype SyncDirection = CpuToDevice | DeviceToCpu | Bidirectional

record ImageRect =
  rect_x :: int
  rect_y :: int
  rect_width :: int
  rect_height :: int

record 'h G2DBufferInternal =
  g2dPlatform :: string
  bufferType :: BufferType
  g2dBufferHandle :: "'h option"
  hostPtr :: ptr
  bufferSize :: nat

definition newG2DBufferInternal :: "'h G2DBufferInternal" where
  "newG2DBufferInternal = \<lparr>g2dPlatform = [], bufferType = Mapped, g2dBufferHandle = None, hostPtr = None, bufferSize = 0\<rparr>"

record 'h g2d_buffer =
  gb_address :: nat
  gb_view :: ImageView
  gb_native :: "'h G2DBufferInternal option"

definition getG2DBufferInternal :: "'h g2d_buffer option \<Rightarrow> 'h G2DBufferInternal option" where
  "getG2DBufferInternal buffer = (case buffer of None \<Rightarrow> None | Some b \<Rightarrow> gb_native b)"

record ('s, 'h) IGraphics2D =
  gr_createBuffer :: "BufferType \<Rightarrow> ImageView \<Rightarrow> 's \<Rightarrow> ('s, 'h g2d_buffer option) outcome"
  gr_releaseBuffer :: "'h g2d_buffer option \<Rightarrow> 's \<Rightarrow> 's"
  gr_syncBuffer :: "'h g2d_buffer option \<Rightarrow> SyncDirection \<Rightarrow> 's \<Rightarrow> ('s, int) outcome"
  gr_mapBuffer :: "'h g2d_buffer option \<Rightarrow> string \<Rightarrow> 's \<Rightarrow> 's \<times> ptr"
  gr_unmapBuffer :: "'h g2d_buffer option \<Rightarrow> 's \<Rightarrow> 's"
  gr_queryCapability :: "string \<Rightarrow> bool"
  gr_getPlatformName :: string
  gr_imageResize :: "'h g2d_buffer option \<Rightarrow> 'h g2d_buffer option \<Rightarrow> 's \<Rightarrow> ('s, int) outcome"
  gr_imageCopy :: "'h g2d_buffer option \<Rightarrow> 'h g2d_buffer option \<Rightarrow> 's \<Rightarrow> ('s, int) outcome"
  gr_imageCvtColor :: "'h g2d_buffer option \<Rightarrow> 'h g2d_buffer option \<Rightarrow> string \<Rightarrow> string \<Rightarrow> 's \<Rightarrow> ('s, int) outcome"
  gr_imageDrawRectangle :: "'h g2d_buffer option \<Rightarrow> ImageRect \<Rightarrow> u32 \<Rightarrow> int \<Rightarrow> 's \<Rightarrow> ('s, int) outcome"

text \<open>
  The operations on views all create a buffer for source and destination, run one operation on them
  and release both; an exception of one step passes through.
\<close>

definition with_buffers ::
  "('s, 'h) IGraphics2D \<Rightarrow> BufferType \<Rightarrow> ImageView \<Rightarrow> ImageView \<Rightarrow>
    ('h g2d_buffer option \<Rightarrow> 'h g2d_buffer option \<Rightarrow> 's \<Rightarrow> ('s, int) outcome) \<Rightarrow> 's \<Rightarrow> ('s, int) outcome" where
  "with_buffers G type src dst act s =
     andthen (gr_createBuffer G type src s) (\<lambda>srcBuffer s1.
     andthen (gr_createBuffer G type dst s1) (\<lambda>dstBuffer s2.
       if srcBuffer = None \<or> dstBuffer = None
       then (Inr (-1), gr_releaseBuffer G dstBuffer (gr_releaseBuffer G srcBuffer s2))
       else andthen (act srcBuffer dstBuffer s2) (\<lambda>ret s3.
         (Inr ret, gr_releaseBuffer G dstBuffer (gr_releaseBuffer G srcBuffer s3)))))"

definition imageResize_views ::
  "('s, 'h) IGraphics2D \<Rightarrow> ImageView \<Rightarrow> ImageView \<Rightarrow> BufferType \<Rightarrow> 's \<Rightarrow> ('s, int) outcome" where
  "imageResize_views G src dst type = with_buffers G type src dst (gr_imageResize G)"

definition imageCopy_views ::
  "('s, 'h) IGraphics2D \<Rightarrow> ImageView \<Rightarrow> ImageView \<Rightarrow> BufferType \<Rightarrow> 's \<Rightarrow> ('s, int) outcome" where
  "imageCopy_views G src dst type = with_buffers G type src dst (gr_imageCopy G)"

definition imageCvtColor_views ::
  "('s, 'h) IGraphics2D \<Rightarrow> ImageView \<Rightarrow> ImageView \<Rightarrow> BufferType \<Rightarrow> 's \<Rightarrow> ('s, int) outcome" where
  "imageCvtColor_views G src dst type = with_buffers G type src dst
     (\<lambda>sb db. gr_imageCvtColor G sb db (format (desc src)) (format (desc dst)))"

definition imageCvtColorToHost ::
  "('s, 'h) IGraphics2D \<Rightarrow> ImageView \<Rightarrow> ImageView \<Rightarrow> BufferType \<Rightarrow> bool \<Rightarrow> 's \<Rightarrow> ('s, int) outcome" where
  "imageCvtColorToHost G src dst type syncDstToCpu = with_buffers G type src dst
     (\<lambda>sb db s. andthen (gr_imageCvtColor G sb db (format (desc src)) (format (desc dst)) s) (\<lambda>ret s'.
       if ret = 0 \<and> syncDstToCpu \<and> type = Mapped then gr_syncBuffer G db DeviceToCpu s' else (Inr ret, s')))"

section \<open>BufferHelper\<close>

text \<open>Constructor and destructor of the two guards; the results of \<open>syncBuffer\<close> are dropped.\<close>

definition newBufferMapper ::
  "('s, 'h) IGraphics2D option \<Rightarrow> 'h g2d_buffer option \<Rightarrow> string \<Rightarrow> 's \<Rightarrow> 's \<times> ptr" where
  "newBufferMapper g buffer access_mode s =
     (case g of Some G \<Rightarrow> (if buffer \<noteq> None then gr_mapBuffer G buffer access_mode s else (s, None)) | None \<Rightarrow> (s, None))"

definition destroyBufferMapper ::
  "('s, 'h) IGraphics2D option \<Rightarrow> 'h g2d_buffer option \<Rightarrow> ptr \<Rightarrow> 's \<Rightarrow> 's" where
  "destroyBufferMapper g buffer m_data s =
     (case g of Some G \<Rightarrow> (if buffer \<noteq> None \<and> m_data \<noteq> None then gr_unmapBuffer G buffer s else s) | None \<Rightarrow> s)"

definition newBufferSyncGuard ::
  "('s, 'h) IGraphics2D option \<Rightarrow> 'h g2d_buffer option \<Rightarrow> SyncDirection \<Rightarrow> 's \<Rightarrow> ('s, unit) outcome" where
  "newBufferSyncGuard g buffer direction s =
     (case g of
        Some G \<Rightarrow> (if buffer \<noteq> None \<and> (direction = DeviceToCpu \<or> direction = Bidirectional)
          then andthen (gr_syncBuffer G buffer DeviceToCpu s) (\<lambda>_ s'. (Inr (), s')) else (Inr (), s))
      | None \<Rightarrow> (Inr (), s))"

definition destroyBufferSyncGuard ::
  "('s, 'h) IGraphics2D option \<Rightarrow> 'h g2d_buffer option \<Rightarrow> SyncDirection \<Rightarrow> 's \<Rightarrow> ('s, unit) outcome" where
  "destroyBufferSyncGuard g buffer direction s =
     (case g of
        Some G \<Rightarrow> (if buffer \<noteq> None \<and> (direction = CpuToDevice \<or> direction = Bidirectional)
          then andthen (gr_syncBuffer G buffer CpuToDevice s) (\<lambda>_ s'. (Inr (), s')) else (Inr (), s))
      | None \<Rightarrow> (Inr (), s))"

text \<open>\<open>IGraphics2D::create\<close>; \<open>rk35xx\<close> and \<open>jetson\<close> are the platforms of the build, at least one of them.\<close>

definition create_graphics :: "bool \<Rightarrow> bool \<Rightarrow> string \<Rightarrow> string result" where
  "create_graphics rk35xx jetson platform =
     (if rk35xx \<and> platform = ''rkrga'' \<or> jetson \<and> platform = ''nvvic'' then Inr platform
      else Inl (Throw (''Invalid G2D platform specified: '' @ platform)))"

section \<open>Buffers of an implementation\<close>

text \<open>
  \<open>held\<close> are the addresses of the buffers an implementation keeps memory for. A new buffer is not among
  them; releasing it gives up at most what creating it took; the other operations keep them. A call
  of \<open>createBuffer\<close> that fails may keep memory.
\<close>

locale g2d_surfaces =
  fixes G :: "('s, 'h) IGraphics2D" and held :: "'s \<Rightarrow> nat set" and ok :: "'s \<Rightarrow> bool"
  assumes create_ok: "ok s \<Longrightarrow> ok (snd (gr_createBuffer G type v s)) \<and> held s \<subseteq> held (snd (gr_createBuffer G type v s))"
    and create_held: "ok s \<Longrightarrow> gr_createBuffer G type v s = (Inr (Some b), s') \<Longrightarrow>
      gb_address b \<notin> held s \<and> held s' \<subseteq> insert (gb_address b) (held s)"
    and release_held: "ok s \<Longrightarrow> ok (gr_releaseBuffer G (Some b) s) \<and>
      held (gr_releaseBuffer G (Some b) s) = held s - {gb_address b}"
    and sync_held: "ok s \<Longrightarrow> ok (snd (gr_syncBuffer G y d s)) \<and> held (snd (gr_syncBuffer G y d s)) = held s"
    and resize_held: "ok s \<Longrightarrow> ok (snd (gr_imageResize G x y s)) \<and> held (snd (gr_imageResize G x y s)) = held s"
    and copy_held: "ok s \<Longrightarrow> ok (snd (gr_imageCopy G x y s)) \<and> held (snd (gr_imageCopy G x y s)) = held s"
    and cvt_held: "ok s \<Longrightarrow> ok (snd (gr_imageCvtColor G x y f g s)) \<and> held (snd (gr_imageCvtColor G x y f g s)) = held s"
begin

lemma with_buffers_balanced:
  assumes "ok s" and "with_buffers G type src dst act s = (Inr 0, s')"
    and keeps: "\<And>a b t. ok t \<Longrightarrow> ok (snd (act a b t)) \<and> held (snd (act a b t)) = held t"
  shows "ok s' \<and> held s' = held s"
proof -
  obtain a s1 where c1: "gr_createBuffer G type src s = (Inr a, s1)"
    using assms(2) by (auto simp: with_buffers_def andthen_Inr)
  obtain b s2 where c2: "gr_createBuffer G type dst s1 = (Inr b, s2)"
    using assms(2) c1 by (auto simp: with_buffers_def andthen_Inr)
  obtain x y where xy: "a = Some x" "b = Some y"
    using assms(2) c1 c2 by (cases a; cases b) (auto simp: with_buffers_def)
  obtain s3 where act: "act a b s2 = (Inr 0, s3)" and s': "s' = gr_releaseBuffer G b (gr_releaseBuffer G a s3)"
    using assms(2) c1 c2 xy by (auto simp: with_buffers_def andthen_Inr)
  have ok1: "ok s1" "held s \<subseteq> held s1" using create_ok [OF assms(1), of type src] c1 by simp_all
  have ok2: "ok s2" "held s1 \<subseteq> held s2" using create_ok [OF ok1(1), of type dst] c2 by simp_all
  have x: "gb_address x \<notin> held s" "held s1 \<subseteq> insert (gb_address x) (held s)"
    using create_held [OF assms(1) c1 [unfolded xy]] by simp_all
  have y: "gb_address y \<notin> held s1" "held s2 \<subseteq> insert (gb_address y) (held s1)"
    using create_held [OF ok1(1) c2 [unfolded xy]] by simp_all
  have ok3: "ok s3" "held s3 = held s2" using keeps [OF ok2(1), of a b] act by simp_all
  note r1 = release_held [OF ok3(1), of x]
  note r2 = release_held [OF r1 [THEN conjunct1], of y]
  have "held s' = held s2 - {gb_address x} - {gb_address y}" using r1 r2 ok3(2) by (simp add: s' xy)
  also have "\<dots> = held s" using x y ok1(2) ok2(2) by blast
  finally show ?thesis using r2 by (simp add: s' xy)
qed

lemma cvt_sync_held:
  assumes "ok t"
  shows "ok (snd (andthen (gr_imageCvtColor G a b f g t) (\<lambda>ret s'. if ret = 0 \<and> c then gr_syncBuffer G b d s' else (Inr ret, s')))) \<and>
    held (snd (andthen (gr_imageCvtColor G a b f g t) (\<lambda>ret s'. if ret = 0 \<and> c then gr_syncBuffer G b d s' else (Inr ret, s')))) = held t"
proof -
  obtain r t' where step: "gr_imageCvtColor G a b f g t = (r, t')" by (cases "gr_imageCvtColor G a b f g t")
  have "ok t'" "held t' = held t" using cvt_held [OF assms, of a b f g] step by simp_all
  then show ?thesis using sync_held [of t' b d] by (cases r) (simp_all add: step)
qed

text \<open>An operation on views that returns 0 leaves the implementation with the buffers it had before.\<close>

lemma views_balanced:
  assumes "ok s"
  shows "imageResize_views G src dst type s = (Inr 0, s') \<Longrightarrow> ok s' \<and> held s' = held s"
    and "imageCopy_views G src dst type s = (Inr 0, s') \<Longrightarrow> ok s' \<and> held s' = held s"
    and "imageCvtColor_views G src dst type s = (Inr 0, s') \<Longrightarrow> ok s' \<and> held s' = held s"
    and "imageCvtColorToHost G src dst type c s = (Inr 0, s') \<Longrightarrow> ok s' \<and> held s' = held s"
  unfolding imageResize_views_def imageCopy_views_def imageCvtColor_views_def imageCvtColorToHost_def
  by (erule with_buffers_balanced [OF assms], (erule resize_held copy_held cvt_held cvt_sync_held))+

end

section \<open>rkrga\<close>

datatype RgaSURF_FORMAT =
  RK_FORMAT_RGBA_8888 | RK_FORMAT_RGBX_8888 | RK_FORMAT_RGB_888 | RK_FORMAT_BGRA_8888 | RK_FORMAT_RGB_565 |
  RK_FORMAT_RGBA_5551 | RK_FORMAT_RGBA_4444 | RK_FORMAT_BGR_888 | RK_FORMAT_YCbCr_422_SP | RK_FORMAT_YCbCr_422_P |
  RK_FORMAT_YCbCr_420_SP | RK_FORMAT_YCbCr_420_P | RK_FORMAT_YCrCb_422_SP | RK_FORMAT_YCrCb_422_P |
  RK_FORMAT_YCrCb_420_SP | RK_FORMAT_YCrCb_420_P | RK_FORMAT_BPP1 | RK_FORMAT_BPP2 | RK_FORMAT_BPP4 |
  RK_FORMAT_BPP8 | RK_FORMAT_Y4 | RK_FORMAT_YCbCr_400 | RK_FORMAT_BGRX_8888 | RK_FORMAT_YVYU_422 |
  RK_FORMAT_YVYU_420 | RK_FORMAT_VYUY_422 | RK_FORMAT_VYUY_420 | RK_FORMAT_YUYV_422 | RK_FORMAT_YUYV_420 |
  RK_FORMAT_UYVY_422 | RK_FORMAT_UYVY_420 | RK_FORMAT_YCbCr_420_SP_10B | RK_FORMAT_YCrCb_420_SP_10B |
  RK_FORMAT_YCbCr_422_SP_10B | RK_FORMAT_YCrCb_422_SP_10B | RK_FORMAT_BGR_565 | RK_FORMAT_BGRA_5551 |
  RK_FORMAT_BGRA_4444 | RK_FORMAT_ARGB_8888 | RK_FORMAT_XRGB_8888 | RK_FORMAT_ARGB_5551 | RK_FORMAT_ARGB_4444 |
  RK_FORMAT_ABGR_8888 | RK_FORMAT_XBGR_8888 | RK_FORMAT_ABGR_5551 | RK_FORMAT_ABGR_4444 | RK_FORMAT_RGBA2BPP |
  RK_FORMAT_A8 | RK_FORMAT_YCbCr_444_SP | RK_FORMAT_YCrCb_444_SP | RK_FORMAT_Y8 | RK_FORMAT_UNKNOWN

definition strToRgaPixFormatMap :: "(string \<times> RgaSURF_FORMAT) list" where
  "strToRgaPixFormatMap =
    [(''RGBA8888'', RK_FORMAT_RGBA_8888), (''RGBX8888'', RK_FORMAT_RGBX_8888), (''RGB888'', RK_FORMAT_RGB_888),
     (''BGRA8888'', RK_FORMAT_BGRA_8888), (''RGB565'', RK_FORMAT_RGB_565), (''RGBA5551'', RK_FORMAT_RGBA_5551),
     (''RGBA4444'', RK_FORMAT_RGBA_4444), (''BGR888'', RK_FORMAT_BGR_888),
     (''YCbCr_422_SP'', RK_FORMAT_YCbCr_422_SP), (''YCbCr_422_P'', RK_FORMAT_YCbCr_422_P),
     (''YCbCr_420_SP'', RK_FORMAT_YCbCr_420_SP), (''YUV420SP'', RK_FORMAT_YCbCr_420_SP),
     (''YCbCr_420_P'', RK_FORMAT_YCbCr_420_P), (''YUV420P'', RK_FORMAT_YCbCr_420_P),
     (''YCrCb_422_SP'', RK_FORMAT_YCrCb_422_SP), (''YCrCb_422_P'', RK_FORMAT_YCrCb_422_P),
     (''YCrCb_420_SP'', RK_FORMAT_YCrCb_420_SP), (''YCrCb_420_P'', RK_FORMAT_YCrCb_420_P),
     (''BPP1'', RK_FORMAT_BPP1), (''BPP2'', RK_FORMAT_BPP2), (''BPP4'', RK_FORMAT_BPP4), (''BPP8'', RK_FORMAT_BPP8),
     (''Y4'', RK_FORMAT_Y4), (''YCbCr_400'', RK_FORMAT_YCbCr_400), (''BGRX8888'', RK_FORMAT_BGRX_8888),
     (''YVYU_422'', RK_FORMAT_YVYU_422), (''YVYU_420'', RK_FORMAT_YVYU_420), (''VYUY_422'', RK_FORMAT_VYUY_422),
     (''VYUY_420'', RK_FORMAT_VYUY_420), (''YUYV_422'', RK_FORMAT_YUYV_422), (''YUYV_420'', RK_FORMAT_YUYV_420),
     (''UYVY_422'', RK_FORMAT_UYVY_422), (''UYVY_420'', RK_FORMAT_UYVY_420),
     (''YCbCr_420_SP_10B'', RK_FORMAT_YCbCr_420_SP_10B), (''YCrCb_420_SP_10B'', RK_FORMAT_YCrCb_420_SP_10B),
     (''YCbCr_422_SP_10B'', RK_FORMAT_YCbCr_422_SP_10B), (''YCrCb_422_SP_10B'', RK_FORMAT_YCrCb_422_SP_10B),
     (''BGR565'', RK_FORMAT_BGR_565), (''BGRA5551'', RK_FORMAT_BGRA_5551), (''BGRA4444'', RK_FORMAT_BGRA_4444),
     (''ARGB8888'', RK_FORMAT_ARGB_8888), (''XRGB8888'', RK_FORMAT_XRGB_8888), (''ARGB5551'', RK_FORMAT_ARGB_5551),
     (''ARGB4444'', RK_FORMAT_ARGB_4444), (''ABGR8888'', RK_FORMAT_ABGR_8888), (''XBGR8888'', RK_FORMAT_XBGR_8888),
     (''ABGR5551'', RK_FORMAT_ABGR_5551), (''ABGR4444'', RK_FORMAT_ABGR_4444), (''RGBA2BPP'', RK_FORMAT_RGBA2BPP),
     (''A8'', RK_FORMAT_A8), (''YCbCr_444_SP'', RK_FORMAT_YCbCr_444_SP), (''YCrCb_444_SP'', RK_FORMAT_YCrCb_444_SP),
     (''Y8'', RK_FORMAT_Y8), (''UNKNOWN'', RK_FORMAT_UNKNOWN)]"

definition strToRgaPixFormat :: "string \<Rightarrow> RgaSURF_FORMAT result" where
  "strToRgaPixFormat str =
     (case map_of strToRgaPixFormatMap str of None \<Rightarrow> Inl (Throw ''out_of_range'') | Some f \<Rightarrow> Inr f)"

text \<open>What the \<open>wrapbuffer\<close> macros store, and the library: its two good results and its functions.\<close>

datatype rga_memory = RgaFd fd | RgaVirtual nat

record rga_buffer_t =
  rga_memory :: rga_memory
  rga_width :: int
  rga_height :: int
  rga_wstride :: int
  rga_hstride :: int
  rga_format :: RgaSURF_FORMAT

record rga_lib =
  IM_STATUS_NOERROR :: int
  IM_STATUS_SUCCESS :: int
  imcheck :: "rga_buffer_t \<Rightarrow> rga_buffer_t \<Rightarrow> int"
  imcheck_fill :: "rga_buffer_t \<Rightarrow> ImageRect \<Rightarrow> int"
  imresize :: "rga_buffer_t \<Rightarrow> rga_buffer_t \<Rightarrow> heap \<Rightarrow> int \<times> heap"
  imcopy :: "rga_buffer_t \<Rightarrow> rga_buffer_t \<Rightarrow> heap \<Rightarrow> int \<times> heap"
  imcvtcolor :: "rga_buffer_t \<Rightarrow> rga_buffer_t \<Rightarrow> RgaSURF_FORMAT \<Rightarrow> RgaSURF_FORMAT \<Rightarrow> heap \<Rightarrow> int \<times> heap"
  imrectangle :: "rga_buffer_t \<Rightarrow> ImageRect \<Rightarrow> u32 \<Rightarrow> int \<Rightarrow> heap \<Rightarrow> int \<times> heap"

text \<open>
  The class has no members; the state is the memory, the next address of \<open>make_shared\<close> and the flags of
  the calling thread that say in which functions \<open>imconfig\<close> has been called.
\<close>

record rkrga =
  rga_heap :: heap
  rga_next :: nat
  affinity_resize :: bool
  affinity_draw :: bool
  affinity_cvt :: bool

definition newRkrga :: "heap \<Rightarrow> rkrga" where
  "newRkrga h = \<lparr>rga_heap = h, rga_next = 0, affinity_resize = False, affinity_draw = False, affinity_cvt = False\<rparr>"

text \<open>The parameters of the macros are of type \<open>int\<close>.\<close>

definition rga_wrap :: "rga_memory \<Rightarrow> ImageDesc \<Rightarrow> RgaSURF_FORMAT \<Rightarrow> rga_buffer_t" where
  "rga_wrap mem d f = \<lparr>rga_memory = mem, rga_width = sint (width d), rga_height = sint (height d),
     rga_wstride = sint (if widthStride d > 0 then widthStride d else width d),
     rga_hstride = sint (if heightStride d > 0 then heightStride d else height d), rga_format = f\<rparr>"

definition rga_createBuffer :: "BufferType \<Rightarrow> ImageView \<Rightarrow> rkrga \<Rightarrow> (rkrga, rga_buffer_t g2d_buffer option) outcome" where
  "rga_createBuffer type v r =
     (let n = newG2DBufferInternal\<lparr>g2dPlatform := ''rkrga'', bufferType := type\<rparr>;
          buf = (\<lambda>m. \<lparr>gb_address = rga_next r, gb_view = v, gb_native = Some m\<rparr>);
          r' = r\<lparr>rga_next := rga_next r + 1\<rparr>; d = desc v; plane = planes v ! 0
      in case strToRgaPixFormat (format d) of
           Inl e \<Rightarrow> (Inl e, r')
         | Inr f \<Rightarrow>
             (case type of
                Hardware \<Rightarrow>
                  (if 0 \<le> plane_fd plane
                   then (Inr (Some (buf (n\<lparr>g2dBufferHandle := Some (rga_wrap (RgaFd (plane_fd plane)) d f)\<rparr>))), r')
                   else (Inr None, r'))
              | Mapped \<Rightarrow>
                  (case plane_data plane of
                     None \<Rightarrow> (Inr None, r')
                   | Some k \<Rightarrow> (Inr (Some (buf (n\<lparr>hostPtr := Some k, bufferSize := dataSize d,
                       g2dBufferHandle := Some (rga_wrap (RgaVirtual k) d f)\<rparr>))), r'))))"

definition rga_releaseBuffer :: "rga_buffer_t g2d_buffer option \<Rightarrow> rkrga \<Rightarrow> rkrga" where
  "rga_releaseBuffer buffer r = r"

definition rga_syncBuffer :: "rga_buffer_t g2d_buffer option \<Rightarrow> SyncDirection \<Rightarrow> rkrga \<Rightarrow> (rkrga, int) outcome" where
  "rga_syncBuffer buffer direction r = (Inr 0, r)"

definition rga_mapBuffer :: "rga_buffer_t g2d_buffer option \<Rightarrow> string \<Rightarrow> rkrga \<Rightarrow> rkrga \<times> ptr" where
  "rga_mapBuffer buffer access_mode r = (r, None)"

definition rga_unmapBuffer :: "rga_buffer_t g2d_buffer option \<Rightarrow> rkrga \<Rightarrow> rkrga" where
  "rga_unmapBuffer buffer r = r"

definition rga_queryCapability :: "string \<Rightarrow> bool" where
  "rga_queryCapability capability \<longleftrightarrow> capability = ''hardware_draw'' \<or> capability = ''zero_copy_cpu_access''"

text \<open>\<open>any_cast\<close> throws when there is no handle.\<close>

definition rga_handle :: "rga_buffer_t G2DBufferInternal \<Rightarrow> rga_buffer_t result" where
  "rga_handle n = (case g2dBufferHandle n of None \<Rightarrow> Inl (Throw ''bad any_cast'') | Some h \<Rightarrow> Inr h)"

definition rga_result :: "rga_lib \<Rightarrow> int \<Rightarrow> int" where
  "rga_result L ret = (if ret = IM_STATUS_SUCCESS L then 0 else -1)"

text \<open>The common part of two operations: both handles, the check, and the call.\<close>

definition rga_checked ::
  "rga_lib \<Rightarrow> rga_buffer_t G2DBufferInternal \<Rightarrow> rga_buffer_t G2DBufferInternal \<Rightarrow>
    (rga_buffer_t \<Rightarrow> rga_buffer_t \<Rightarrow> heap \<Rightarrow> int \<times> heap) \<Rightarrow> rkrga \<Rightarrow> (rkrga, int) outcome" where
  "rga_checked L sn dn call r =
     (case (rga_handle sn, rga_handle dn) of
        (Inr sh, Inr dh) \<Rightarrow>
          (let ret = imcheck L sh dh
           in if ret \<noteq> IM_STATUS_NOERROR L then (Inr ret, r)
              else (case call sh dh (rga_heap r) of (ret', h) \<Rightarrow> (Inr (rga_result L ret'), r\<lparr>rga_heap := h\<rparr>)))
      | (Inl e, _) \<Rightarrow> (Inl e, r)
      | (_, Inl e) \<Rightarrow> (Inl e, r))"

definition rga_imageResize ::
  "rga_lib \<Rightarrow> rga_buffer_t g2d_buffer option \<Rightarrow> rga_buffer_t g2d_buffer option \<Rightarrow> rkrga \<Rightarrow> (rkrga, int) outcome" where
  "rga_imageResize L src dst r =
     (case (getG2DBufferInternal src, getG2DBufferInternal dst) of
        (Some sn, Some dn) \<Rightarrow> rga_checked L sn dn (imresize L) (r\<lparr>affinity_resize := True\<rparr>)
      | _ \<Rightarrow> (Inr (-1), r))"

definition rga_imageCopy ::
  "rga_lib \<Rightarrow> rga_buffer_t g2d_buffer option \<Rightarrow> rga_buffer_t g2d_buffer option \<Rightarrow> rkrga \<Rightarrow> (rkrga, int) outcome" where
  "rga_imageCopy L src dst r =
     (case (getG2DBufferInternal src, getG2DBufferInternal dst) of
        (Some sn, Some dn) \<Rightarrow>
          (case (rga_handle sn, rga_handle dn) of
             (Inr sh, Inr dh) \<Rightarrow> (case imcopy L sh dh (rga_heap r) of (ret, h) \<Rightarrow> (Inr (rga_result L ret), r\<lparr>rga_heap := h\<rparr>))
           | (Inl e, _) \<Rightarrow> (Inl e, r)
           | (_, Inl e) \<Rightarrow> (Inl e, r))
      | _ \<Rightarrow> (Inr (-1), r))"

definition rga_imageCvtColor ::
  "rga_lib \<Rightarrow> rga_buffer_t g2d_buffer option \<Rightarrow> rga_buffer_t g2d_buffer option \<Rightarrow> string \<Rightarrow> string \<Rightarrow> rkrga \<Rightarrow> (rkrga, int) outcome" where
  "rga_imageCvtColor L src dst src_format dst_format r =
     (case (getG2DBufferInternal src, getG2DBufferInternal dst) of
        (Some sn, Some dn) \<Rightarrow>
          (let r' = r\<lparr>affinity_cvt := True\<rparr>
           in case (strToRgaPixFormat src_format, strToRgaPixFormat dst_format) of
                (Inr sf, Inr df) \<Rightarrow> rga_checked L sn dn (\<lambda>sh dh. imcvtcolor L sh dh sf df) r'
              | (Inl e, _) \<Rightarrow> (Inl e, r')
              | (_, Inl e) \<Rightarrow> (Inl e, r'))
      | _ \<Rightarrow> (Inr (-1), r))"

definition rga_imageDrawRectangle ::
  "rga_lib \<Rightarrow> rga_buffer_t g2d_buffer option \<Rightarrow> ImageRect \<Rightarrow> u32 \<Rightarrow> int \<Rightarrow> rkrga \<Rightarrow> (rkrga, int) outcome" where
  "rga_imageDrawRectangle L dst rect color thickness r =
     (case getG2DBufferInternal dst of
        None \<Rightarrow> (Inr (-1), r)
      | Some dn \<Rightarrow>
          (let r' = r\<lparr>affinity_draw := True\<rparr>
           in case rga_handle dn of
                Inl e \<Rightarrow> (Inl e, r')
              | Inr dh \<Rightarrow>
                  (let ret = imcheck_fill L dh rect
                   in if ret \<noteq> IM_STATUS_NOERROR L then (Inr ret, r')
                      else (case imrectangle L dh rect color thickness (rga_heap r') of
                        (ret', h) \<Rightarrow> (Inr (rga_result L ret'), r'\<lparr>rga_heap := h\<rparr>)))))"

definition rkrga_graphics :: "rga_lib \<Rightarrow> (rkrga, rga_buffer_t) IGraphics2D" where
  "rkrga_graphics L = \<lparr>gr_createBuffer = rga_createBuffer, gr_releaseBuffer = rga_releaseBuffer, gr_syncBuffer = rga_syncBuffer,
     gr_mapBuffer = rga_mapBuffer, gr_unmapBuffer = rga_unmapBuffer, gr_queryCapability = rga_queryCapability,
     gr_getPlatformName = ''rkrga'', gr_imageResize = rga_imageResize L, gr_imageCopy = rga_imageCopy L,
     gr_imageCvtColor = rga_imageCvtColor L, gr_imageDrawRectangle = rga_imageDrawRectangle L\<rparr>"

text \<open>RGA keeps no memory for a buffer.\<close>

interpretation rga: g2d_surfaces "rkrga_graphics L" "\<lambda>_. {}" "\<lambda>_. True" for L
  by unfold_locales simp_all

text \<open>
  An operation on two host views is one call of the library on descriptions of the two blocks, with
  the strides that were not given taken from the size.
\<close>

lemma rga_create_mapped:
  assumes "strToRgaPixFormat (format (desc v)) = Inr f" and "plane_data (planes v ! 0) = Some k"
  shows "\<exists>b. rga_createBuffer Mapped v r = (Inr (Some b), r\<lparr>rga_next := rga_next r + 1\<rparr>) \<and>
    (\<exists>n. gb_native b = Some n \<and> rga_handle n = Inr (rga_wrap (RgaVirtual k) (desc v) f))"
  using assms by (simp add: rga_createBuffer_def rga_handle_def Let_def)

lemma rga_resize_views:
  assumes "strToRgaPixFormat (format (desc src)) = Inr sf" and "plane_data (planes src ! 0) = Some sk"
    and "strToRgaPixFormat (format (desc dst)) = Inr df" and "plane_data (planes dst ! 0) = Some dk"
    and "sh = rga_wrap (RgaVirtual sk) (desc src) sf" and "dh = rga_wrap (RgaVirtual dk) (desc dst) df"
    and "imcheck L sh dh = IM_STATUS_NOERROR L" and "imresize L sh dh (rga_heap r) = (ret, h)"
  shows "\<exists>r'. imageResize_views (rkrga_graphics L) src dst Mapped r = (Inr (if ret = IM_STATUS_SUCCESS L then 0 else -1), r') \<and>
    rga_heap r' = h"
proof -
  obtain a n where a: "rga_createBuffer Mapped src r = (Inr (Some a), r\<lparr>rga_next := rga_next r + 1\<rparr>)"
    "gb_native a = Some n" "rga_handle n = Inr sh"
    using rga_create_mapped [OF assms(1,2), of r] assms(5) by blast
  let ?r = "r\<lparr>rga_next := rga_next r + 1\<rparr>"
  obtain b m where b: "rga_createBuffer Mapped dst ?r = (Inr (Some b), ?r\<lparr>rga_next := rga_next ?r + 1\<rparr>)"
    "gb_native b = Some m" "rga_handle m = Inr dh"
    using rga_create_mapped [OF assms(3,4), of ?r] assms(6) by blast
  show ?thesis
    using a b assms(7,8) by (simp add: imageResize_views_def with_buffers_def rkrga_graphics_def rga_imageResize_def
        getG2DBufferInternal_def rga_checked_def rga_releaseBuffer_def rga_result_def)
qed

text \<open>What the check answers is returned as it is, although the interface promises 0 or -1.\<close>

lemma rga_check_code_returned:
  assumes "gb_native a = Some n" and "gb_native b = Some m" and "rga_handle n = Inr sh" and "rga_handle m = Inr dh"
    and "imcheck L sh dh \<noteq> IM_STATUS_NOERROR L"
  shows "fst (rga_imageResize L (Some a) (Some b) r) = Inr (imcheck L sh dh)"
  using assms by (simp add: rga_imageResize_def getG2DBufferInternal_def rga_checked_def)

text \<open>A format the table does not know makes \<open>createBuffer\<close> throw, where the interface promises a null pointer.\<close>

lemma rga_unknown_format_throws: "format (desc v) = ''GRAY8'' \<Longrightarrow> fst (rga_createBuffer type v r) = Inl (Throw ''out_of_range'')"
  by (simp add: rga_createBuffer_def strToRgaPixFormat_def strToRgaPixFormatMap_def Let_def)

end
