(* ===== verification/NvVic.thy ===== *)
theory NvVic
  imports Graphics2D
begin

text \<open>
  The second implementation of \<open>IGraphics2D\<close>, on NVIDIA's VIC (\<open>bsp_g2d/impl/nv_vic\<close>): surfaces of several
  planes with a pitch, the copies between a surface and the packed memory of the host, the maps
  from buffers to surfaces, the image operations. What the driver answers is an argument. The lemmas
  show that the copies are inverse to each other and what the operations on host views compute.
\<close>

section \<open>Surfaces\<close>

datatype NvBufSurfaceColorFormat = NVBUF_COLOR_FORMAT_INVALID | NVBUF_COLOR_FORMAT_NV12 | NVBUF_COLOR_FORMAT_NV12_ER |
  NVBUF_COLOR_FORMAT_NV21 | NVBUF_COLOR_FORMAT_NV12_709 | NVBUF_COLOR_FORMAT_NV12_709_ER | NVBUF_COLOR_FORMAT_NV12_2020 |
  NVBUF_COLOR_FORMAT_ARGB | NVBUF_COLOR_FORMAT_xRGB | NVBUF_COLOR_FORMAT_RGBA | NVBUF_COLOR_FORMAT_YUV420 |
  NVBUF_COLOR_FORMAT_YVU420 | NVBUF_COLOR_FORMAT_YUV420_709 | NVBUF_COLOR_FORMAT_UYVY | NVBUF_COLOR_FORMAT_UYVY_ER |
  NVBUF_COLOR_FORMAT_UYVY_709 | NVBUF_COLOR_FORMAT_UYVY_709_ER | NVBUF_COLOR_FORMAT_UYVY_2020 | NVBUF_COLOR_FORMAT_OTHER nat

text \<open>One plane of a surface, with the memory it is mapped to, and the surface.\<close>

record NvPlane =
  pl_width :: u32
  pl_height :: u32
  pl_pitch :: u32
  pl_mem :: bytes

record NvBufSurface =
  surf_colorFormat :: NvBufSurfaceColorFormat
  surf_width :: u32
  surf_height :: u32
  surf_planes :: "NvPlane list"

text \<open>
  The driver: the result of opening a session, the surface that is allocated for a number, a size and
  a format, whether a plane can be mapped, and the two operations, on whole surfaces.
\<close>

record vic_lib =
  vic_session :: int
  vic_allocate :: "nat \<Rightarrow> u32 \<Rightarrow> u32 \<Rightarrow> NvBufSurfaceColorFormat \<Rightarrow> NvBufSurface option"
  vic_mappable :: "NvBufSurface \<Rightarrow> nat \<Rightarrow> bool"
  vic_transform :: "NvBufSurface \<Rightarrow> NvBufSurface \<Rightarrow> int \<times> NvBufSurface"
  vic_copy :: "NvBufSurface \<Rightarrow> NvBufSurface \<Rightarrow> int \<times> NvBufSurface"

definition formatMap :: "(string \<times> NvBufSurfaceColorFormat) list" where
  "formatMap =
    [(''RGBA8888'', NVBUF_COLOR_FORMAT_RGBA), (''RGBX8888'', NVBUF_COLOR_FORMAT_RGBA), (''BGRA8888'', NVBUF_COLOR_FORMAT_RGBA),
     (''ARGB8888'', NVBUF_COLOR_FORMAT_ARGB), (''XRGB8888'', NVBUF_COLOR_FORMAT_xRGB), (''ABGR8888'', NVBUF_COLOR_FORMAT_RGBA),
     (''XBGR8888'', NVBUF_COLOR_FORMAT_RGBA), (''YCbCr_420_SP'', NVBUF_COLOR_FORMAT_NV12), (''YUV420SP'', NVBUF_COLOR_FORMAT_NV12),
     (''YCbCr_420_P'', NVBUF_COLOR_FORMAT_YUV420), (''YUV420P'', NVBUF_COLOR_FORMAT_YUV420),
     (''YCrCb_420_SP'', NVBUF_COLOR_FORMAT_NV21), (''YCrCb_420_P'', NVBUF_COLOR_FORMAT_YVU420),
     (''YUYV_422'', NVBUF_COLOR_FORMAT_UYVY), (''UYVY_422'', NVBUF_COLOR_FORMAT_UYVY),
     (''YCbCr_422_SP'', NVBUF_COLOR_FORMAT_NV12), (''YCbCr_422_P'', NVBUF_COLOR_FORMAT_YUV420)]"

definition mapFormatStringToNvFormat :: "string \<Rightarrow> NvBufSurfaceColorFormat" where
  "mapFormatStringToNvFormat fmt = (case map_of formatMap fmt of Some f \<Rightarrow> f | None \<Rightarrow> NVBUF_COLOR_FORMAT_INVALID)"

definition fillBytesPerPixel :: "NvBufSurfaceColorFormat \<Rightarrow> u32 list" where
  "fillBytesPerPixel pixel_format =
     (if pixel_format \<in> {NVBUF_COLOR_FORMAT_NV12, NVBUF_COLOR_FORMAT_NV12_ER, NVBUF_COLOR_FORMAT_NV21,
          NVBUF_COLOR_FORMAT_NV12_709, NVBUF_COLOR_FORMAT_NV12_709_ER, NVBUF_COLOR_FORMAT_NV12_2020} then [1, 2, 0, 0]
      else if pixel_format \<in> {NVBUF_COLOR_FORMAT_ARGB, NVBUF_COLOR_FORMAT_xRGB, NVBUF_COLOR_FORMAT_RGBA} then [4, 0, 0, 0]
      else if pixel_format \<in> {NVBUF_COLOR_FORMAT_YUV420, NVBUF_COLOR_FORMAT_YVU420, NVBUF_COLOR_FORMAT_YUV420_709} then [1, 1, 1, 0]
      else if pixel_format \<in> {NVBUF_COLOR_FORMAT_UYVY, NVBUF_COLOR_FORMAT_UYVY_ER, NVBUF_COLOR_FORMAT_UYVY_709,
          NVBUF_COLOR_FORMAT_UYVY_709_ER, NVBUF_COLOR_FORMAT_UYVY_2020} then [2, 0, 0, 0]
      else [0, 0, 0, 0])"

section \<open>Copies between host and surface\<close>

text \<open>
  The rows of one plane. All products are of 32 bits; the bound is tested with the offset of the plane,
  not of the row.
\<close>

fun rows_in :: "bytes \<Rightarrow> nat \<Rightarrow> nat \<Rightarrow> u32 \<Rightarrow> u32 \<Rightarrow> u32 \<Rightarrow> u32 list \<Rightarrow> bytes \<Rightarrow> bytes result" where
  "rows_in src buffer_size offset w bpp pitch [] mem = Inr mem"
| "rows_in src buffer_size offset w bpp pitch (i # rows) mem =
     (let bytes_to_copy = unat (w * bpp)
      in if offset + bytes_to_copy \<le> buffer_size
         then rbind (read_at (offset + unat (i * w * bpp)) bytes_to_copy src) (\<lambda>d.
              rbind (memcpy_at (unat (i * pitch)) d mem) (rows_in src buffer_size offset w bpp pitch rows))
         else rows_in src buffer_size offset w bpp pitch rows mem)"

fun rows_out :: "bytes \<Rightarrow> nat \<Rightarrow> nat \<Rightarrow> u32 \<Rightarrow> u32 \<Rightarrow> u32 \<Rightarrow> u32 list \<Rightarrow> bytes \<Rightarrow> bytes result" where
  "rows_out mem buffer_size offset w bpp pitch [] dst = Inr dst"
| "rows_out mem buffer_size offset w bpp pitch (i # rows) dst =
     (let bytes_to_copy = unat (w * bpp)
      in if offset + bytes_to_copy \<le> buffer_size
         then rbind (read_at (unat (i * pitch)) bytes_to_copy mem) (\<lambda>d.
              rbind (memcpy_at (offset + unat (i * w * bpp)) d dst) (rows_out mem buffer_size offset w bpp pitch rows))
         else rows_out mem buffer_size offset w bpp pitch rows dst)"

definition plane_rows :: "NvPlane \<Rightarrow> u32 list" where
  "plane_rows p = map word_of_nat [0..<unat (pl_height p)]"

text \<open>The planes in turn; \<open>bs\<close> are the entries of the array of bytes per pixel that are left.\<close>

fun planes_in ::
  "(nat \<Rightarrow> bool) \<Rightarrow> bytes \<Rightarrow> nat \<Rightarrow> u32 list \<Rightarrow> nat \<Rightarrow> nat \<Rightarrow> NvPlane list \<Rightarrow> (NvPlane list, int) outcome" where
  "planes_in mappable src limit bs plane offset [] = (Inr 0, [])"
| "planes_in mappable src limit bs plane offset (p # ps) =
     (if \<not> mappable plane then (Inr (-1), p # ps)
      else case bs of
        [] \<Rightarrow> (Inl (Undefined ''no such plane''), p # ps)
      | b # bs' \<Rightarrow>
          (case rows_in src limit offset (pl_width p) b (pl_pitch p) (plane_rows p) (pl_mem p) of
             Inl e \<Rightarrow> (Inl e, p # ps)
           | Inr mem \<Rightarrow>
               (case planes_in mappable src limit bs' (plane + 1) (offset + unat (pl_height p * pl_width p * b)) ps of
                  (r, ps') \<Rightarrow> (r, p\<lparr>pl_mem := mem\<rparr> # ps'))))"

fun planes_out ::
  "(nat \<Rightarrow> bool) \<Rightarrow> nat \<Rightarrow> u32 list \<Rightarrow> nat \<Rightarrow> nat \<Rightarrow> NvPlane list \<Rightarrow> bytes \<Rightarrow> (bytes, int) outcome" where
  "planes_out mappable limit bs plane offset [] dst = (Inr 0, dst)"
| "planes_out mappable limit bs plane offset (p # ps) dst =
     (if \<not> mappable plane then (Inr (-1), dst)
      else case bs of
        [] \<Rightarrow> (Inl (Undefined ''no such plane''), dst)
      | b # bs' \<Rightarrow>
          (case rows_out (pl_mem p) limit offset (pl_width p) b (pl_pitch p) (plane_rows p) dst of
             Inl e \<Rightarrow> (Inl e, dst)
           | Inr dst' \<Rightarrow>
               planes_out mappable limit bs' (plane + 1) (offset + unat (pl_height p * pl_width p * b)) ps dst'))"

definition copyHostToNvBufSurface ::
  "vic_lib \<Rightarrow> bytes option \<Rightarrow> nat \<Rightarrow> NvBufSurface option \<Rightarrow> (NvBufSurface option, int) outcome" where
  "copyHostToNvBufSurface L host_ptr buffer_size surf =
     (case (host_ptr, surf) of
        (Some src, Some sf) \<Rightarrow>
          (if buffer_size = 0 then (Inr (-1), surf)
           else case planes_in (vic_mappable L sf) src buffer_size (fillBytesPerPixel (surf_colorFormat sf)) 0 0 (surf_planes sf) of
             (r, ps) \<Rightarrow> (r, Some (sf\<lparr>surf_planes := ps\<rparr>)))
      | _ \<Rightarrow> (Inr (-1), surf))"

definition copyNvBufSurfaceToHost ::
  "vic_lib \<Rightarrow> NvBufSurface option \<Rightarrow> nat \<Rightarrow> bytes option \<Rightarrow> (bytes option, int) outcome" where
  "copyNvBufSurfaceToHost L surf buffer_size host_ptr =
     (case (host_ptr, surf) of
        (Some dst, Some sf) \<Rightarrow>
          (if buffer_size = 0 then (Inr (-1), host_ptr)
           else case planes_out (vic_mappable L sf) buffer_size (fillBytesPerPixel (surf_colorFormat sf)) 0 0 (surf_planes sf) dst of
             (r, dst') \<Rightarrow> (r, Some dst'))
      | _ \<Rightarrow> (Inr (-1), host_ptr))"

section \<open>NvVicGraphics2D\<close>

text \<open>
  The members, with the surfaces that are allocated and the memory of the host. The object and the
  surface of one call of \<open>createBuffer\<close> have the same number, \<open>vic_next\<close>; \<open>mapped_addr\<close> is the number of the
  surface whose first plane is mapped.
\<close>

record MapInfo =
  mapped_addr :: ptr
  is_mapped :: bool

record NvVicGraphics2D =
  m_sessionInitialized :: bool
  m_bufferMap :: "nat \<Rightarrow> nat option"
  m_mapInfo :: "nat \<Rightarrow> MapInfo option"
  vic_surfaces :: "nat \<Rightarrow> NvBufSurface option"
  vic_host :: heap
  vic_next :: nat

definition newNvVicGraphics2D :: "vic_lib \<Rightarrow> heap \<Rightarrow> NvVicGraphics2D result" where
  "newNvVicGraphics2D L h =
     (if vic_session L \<noteq> 0 then Inl (Throw ''Failed to initialize VIC session'')
      else Inr \<lparr>m_sessionInitialized = True, m_bufferMap = (\<lambda>_. None), m_mapInfo = (\<lambda>_. None), vic_surfaces = (\<lambda>_. None),
        vic_host = h, vic_next = 0\<rparr>)"

definition destroyNvVicGraphics2D :: "NvVicGraphics2D \<Rightarrow> NvVicGraphics2D" where
  "destroyNvVicGraphics2D s = s\<lparr>vic_surfaces := (\<lambda>p. if p \<in> ran (m_bufferMap s) then None else vic_surfaces s p),
     m_bufferMap := (\<lambda>_. None), m_mapInfo := (\<lambda>_. None)\<rparr>"

text \<open>The bytes behind a pointer of the host; a pointer to freed memory has none.\<close>

definition host_block :: "heap \<Rightarrow> ptr \<Rightarrow> bytes option" where
  "host_block h p = (case p of None \<Rightarrow> None | Some k \<Rightarrow> (case h k of None \<Rightarrow> Some [] | Some b \<Rightarrow> Some b))"

definition vic_createBuffer ::
  "vic_lib \<Rightarrow> BufferType \<Rightarrow> ImageView \<Rightarrow> NvVicGraphics2D \<Rightarrow> (NvVicGraphics2D, nat g2d_buffer option) outcome" where
  "vic_createBuffer L type v s =
     (let d = desc v; colorFormat = mapFormatStringToNvFormat (format d); a = vic_next s; s0 = s\<lparr>vic_next := a + 1\<rparr>
      in if colorFormat = NVBUF_COLOR_FORMAT_INVALID then (Inr None, s0)
         else case vic_allocate L a (if widthStride d > 0 then widthStride d else width d) (height d) colorFormat of
           None \<Rightarrow> (Inr None, s0)
         | Some sf \<Rightarrow>
             (let s1 = s0\<lparr>vic_surfaces := (vic_surfaces s)(a \<mapsto> sf), m_bufferMap := (m_bufferMap s)(a \<mapsto> a),
                    m_mapInfo := (m_mapInfo s)(a \<mapsto> \<lparr>mapped_addr = None, is_mapped = False\<rparr>)\<rparr>;
                  n = newG2DBufferInternal\<lparr>g2dPlatform := ''nvvic'', bufferType := type, g2dBufferHandle := Some a\<rparr>;
                  buf = (\<lambda>m. \<lparr>gb_address = a, gb_view = v, gb_native = Some m\<rparr>); data = plane_data (planes v ! 0)
              in if type = Hardware then (Inr (Some (buf n)), s1)
                 else if data = None then (Inr None, s1)
                 else if dataSize d = 0 then (Inr (Some (buf n)), s1)
                 else case copyHostToNvBufSurface L (host_block (vic_host s) data) (dataSize d) (Some sf) of
                   (Inl e, sf') \<Rightarrow> (Inl e, s1\<lparr>vic_surfaces := (vic_surfaces s)(a := sf')\<rparr>)
                 | (Inr ret, sf') \<Rightarrow>
                     (Inr (if ret \<noteq> 0 then None else Some (buf (n\<lparr>hostPtr := data, bufferSize := dataSize d\<rparr>))),
                      s1\<lparr>vic_surfaces := (vic_surfaces s)(a := sf')\<rparr>)))"

definition vic_releaseBuffer :: "nat g2d_buffer option \<Rightarrow> NvVicGraphics2D \<Rightarrow> NvVicGraphics2D" where
  "vic_releaseBuffer buffer s =
     (case buffer of
        None \<Rightarrow> s
      | Some b \<Rightarrow>
          (let a = gb_address b;
               s1 = (case m_bufferMap s a of None \<Rightarrow> s
                 | Some p \<Rightarrow> s\<lparr>vic_surfaces := (vic_surfaces s)(p := None), m_bufferMap := (m_bufferMap s)(a := None)\<rparr>)
           in s1\<lparr>m_mapInfo := (m_mapInfo s1)(a := None)\<rparr>))"

definition getNvBufSurface :: "nat g2d_buffer option \<Rightarrow> NvVicGraphics2D \<Rightarrow> ptr" where
  "getNvBufSurface buffer s = (case buffer of None \<Rightarrow> None | Some b \<Rightarrow> m_bufferMap s (gb_address b))"

definition vic_to_device :: "vic_lib \<Rightarrow> nat G2DBufferInternal \<Rightarrow> nat \<Rightarrow> NvVicGraphics2D \<Rightarrow> (NvVicGraphics2D, int) outcome" where
  "vic_to_device L n p s =
     (case copyHostToNvBufSurface L (host_block (vic_host s) (hostPtr n)) (bufferSize n) (vic_surfaces s p) of
        (r, sf) \<Rightarrow> (r, s\<lparr>vic_surfaces := (vic_surfaces s)(p := sf)\<rparr>))"

definition vic_to_host :: "vic_lib \<Rightarrow> nat G2DBufferInternal \<Rightarrow> nat \<Rightarrow> NvVicGraphics2D \<Rightarrow> (NvVicGraphics2D, int) outcome" where
  "vic_to_host L n p s =
     (case copyNvBufSurfaceToHost L (vic_surfaces s p) (bufferSize n) (host_block (vic_host s) (hostPtr n)) of
        (r, b) \<Rightarrow> (r, (case hostPtr n of None \<Rightarrow> s | Some k \<Rightarrow> s\<lparr>vic_host := (vic_host s)(k := b)\<rparr>)))"

definition vic_syncBuffer ::
  "vic_lib \<Rightarrow> nat g2d_buffer option \<Rightarrow> SyncDirection \<Rightarrow> NvVicGraphics2D \<Rightarrow> (NvVicGraphics2D, int) outcome" where
  "vic_syncBuffer L buffer direction s =
     (case getG2DBufferInternal buffer of
        None \<Rightarrow> (Inr (-1), s)
      | Some n \<Rightarrow>
          if bufferType n \<noteq> Mapped \<or> hostPtr n = None \<or> bufferSize n = 0 then (Inr (-1), s)
          else (case getNvBufSurface buffer s of
            None \<Rightarrow> (Inr (-1), s)
          | Some p \<Rightarrow>
              andthen (if direction = CpuToDevice \<or> direction = Bidirectional then vic_to_device L n p s else (Inr 0, s)) (\<lambda>ret s1.
                if ret \<noteq> 0 then (Inr (-1), s1)
                else andthen (if direction = DeviceToCpu \<or> direction = Bidirectional then vic_to_host L n p s1 else (Inr 0, s1)) (\<lambda>ret s2.
                  (Inr (if ret \<noteq> 0 then -1 else 0), s2)))))"

definition vic_mapBuffer :: "vic_lib \<Rightarrow> nat g2d_buffer option \<Rightarrow> string \<Rightarrow> NvVicGraphics2D \<Rightarrow> NvVicGraphics2D \<times> ptr" where
  "vic_mapBuffer L buffer access_mode s =
     (case (getG2DBufferInternal buffer, buffer) of
        (Some n, Some b) \<Rightarrow>
          (if bufferType n \<noteq> Hardware then (s, None)
           else case getNvBufSurface buffer s of
             None \<Rightarrow> (s, None)
           | Some p \<Rightarrow>
               (case m_mapInfo s (gb_address b) of
                  Some i \<Rightarrow>
                    (if is_mapped i then (s, mapped_addr i)
                     else if (case vic_surfaces s p of None \<Rightarrow> True | Some sf \<Rightarrow> \<not> vic_mappable L sf 0) then (s, None)
                     else (s\<lparr>m_mapInfo := (m_mapInfo s)(gb_address b \<mapsto> \<lparr>mapped_addr = Some p, is_mapped = True\<rparr>)\<rparr>, Some p))
                | None \<Rightarrow>
                    (if (case vic_surfaces s p of None \<Rightarrow> True | Some sf \<Rightarrow> \<not> vic_mappable L sf 0) then (s, None)
                     else (s\<lparr>m_mapInfo := (m_mapInfo s)(gb_address b \<mapsto> \<lparr>mapped_addr = Some p, is_mapped = True\<rparr>)\<rparr>, Some p))))
      | _ \<Rightarrow> (s, None))"

definition vic_unmapBuffer :: "nat g2d_buffer option \<Rightarrow> NvVicGraphics2D \<Rightarrow> NvVicGraphics2D" where
  "vic_unmapBuffer buffer s =
     (case (buffer, getNvBufSurface buffer s) of
        (Some b, Some p) \<Rightarrow>
          (case m_mapInfo s (gb_address b) of
             Some i \<Rightarrow> (if is_mapped i then s\<lparr>m_mapInfo := (m_mapInfo s)(gb_address b \<mapsto> \<lparr>mapped_addr = None, is_mapped = False\<rparr>)\<rparr> else s)
           | None \<Rightarrow> s)
      | _ \<Rightarrow> s)"

definition vic_queryCapability :: "string \<Rightarrow> bool" where
  "vic_queryCapability capability \<longleftrightarrow> capability = ''requires_explicit_sync''"

text \<open>A call of the driver on two surfaces.\<close>

definition performTransform ::
  "(NvBufSurface \<Rightarrow> NvBufSurface \<Rightarrow> int \<times> NvBufSurface) \<Rightarrow> ptr \<Rightarrow> ptr \<Rightarrow> NvVicGraphics2D \<Rightarrow> (NvVicGraphics2D, int) outcome" where
  "performTransform call src dst s =
     (case (src, dst) of
        (Some p, Some q) \<Rightarrow>
          (case (vic_surfaces s p, vic_surfaces s q) of
             (Some a, Some b) \<Rightarrow> (case call a b of (ret, b') \<Rightarrow> (Inr (if ret \<noteq> 0 then -1 else 0), s\<lparr>vic_surfaces := (vic_surfaces s)(q \<mapsto> b')\<rparr>))
           | _ \<Rightarrow> (Inl (Undefined ''dangling surface''), s))
      | _ \<Rightarrow> (Inr (-1), s))"

definition vic_imageResize ::
  "vic_lib \<Rightarrow> nat g2d_buffer option \<Rightarrow> nat g2d_buffer option \<Rightarrow> NvVicGraphics2D \<Rightarrow> (NvVicGraphics2D, int) outcome" where
  "vic_imageResize L src dst s = performTransform (vic_transform L) (getNvBufSurface src s) (getNvBufSurface dst s) s"

definition vic_imageCopy ::
  "vic_lib \<Rightarrow> nat g2d_buffer option \<Rightarrow> nat g2d_buffer option \<Rightarrow> NvVicGraphics2D \<Rightarrow> (NvVicGraphics2D, int) outcome" where
  "vic_imageCopy L src dst s = performTransform (vic_copy L) (getNvBufSurface src s) (getNvBufSurface dst s) s"

definition vic_imageDrawRectangle ::
  "nat g2d_buffer option \<Rightarrow> ImageRect \<Rightarrow> u32 \<Rightarrow> int \<Rightarrow> NvVicGraphics2D \<Rightarrow> (NvVicGraphics2D, int) outcome" where
  "vic_imageDrawRectangle dst rect color thickness s = (Inr (-1), s)"

definition vic_imageCvtColor ::
  "vic_lib \<Rightarrow> nat g2d_buffer option \<Rightarrow> nat g2d_buffer option \<Rightarrow> string \<Rightarrow> string \<Rightarrow> NvVicGraphics2D \<Rightarrow> (NvVicGraphics2D, int) outcome" where
  "vic_imageCvtColor L src dst src_format dst_format s =
     (if getNvBufSurface src s = None \<or> getNvBufSurface dst s = None then (Inr (-1), s)
      else if mapFormatStringToNvFormat src_format = NVBUF_COLOR_FORMAT_INVALID \<or>
        mapFormatStringToNvFormat dst_format = NVBUF_COLOR_FORMAT_INVALID then (Inr (-1), s)
      else performTransform (vic_transform L) (getNvBufSurface src s) (getNvBufSurface dst s) s)"

definition vic_graphics :: "vic_lib \<Rightarrow> (NvVicGraphics2D, nat) IGraphics2D" where
  "vic_graphics L = \<lparr>gr_createBuffer = vic_createBuffer L, gr_releaseBuffer = vic_releaseBuffer, gr_syncBuffer = vic_syncBuffer L,
     gr_mapBuffer = vic_mapBuffer L, gr_unmapBuffer = vic_unmapBuffer, gr_queryCapability = vic_queryCapability,
     gr_getPlatformName = ''nvvic'', gr_imageResize = vic_imageResize L, gr_imageCopy = vic_imageCopy L,
     gr_imageCvtColor = vic_imageCvtColor L, gr_imageDrawRectangle = vic_imageDrawRectangle\<rparr>"

section \<open>Packed planes\<close>

text \<open>
  A plane whose rows fit its pitch and whose memory holds its rows; the bytes of its rows one behind
  the other, and those of all planes: the form in which the host keeps a picture.
\<close>

definition plane_row :: "nat \<Rightarrow> nat \<Rightarrow> bytes \<Rightarrow> nat \<Rightarrow> bytes" where
  "plane_row n pitch mem i = take n (drop (i * pitch) mem)"

definition row_bytes :: "u32 \<Rightarrow> NvPlane \<Rightarrow> nat" where
  "row_bytes b p = unat (pl_width p) * unat b"

definition plane_ok :: "u32 \<Rightarrow> NvPlane \<Rightarrow> bool" where
  "plane_ok b p \<longleftrightarrow> row_bytes b p \<le> unat (pl_pitch p) \<and> unat (pl_height p) * unat (pl_pitch p) < 2 ^ 32 \<and>
     unat (pl_height p) * unat (pl_pitch p) \<le> length (pl_mem p)"

definition plane_packed :: "u32 \<Rightarrow> NvPlane \<Rightarrow> bytes" where
  "plane_packed b p = concat (map (plane_row (row_bytes b p) (unat (pl_pitch p)) (pl_mem p)) [0..<unat (pl_height p)])"

fun planes_ok :: "u32 list \<Rightarrow> NvPlane list \<Rightarrow> bool" where
  "planes_ok bs [] \<longleftrightarrow> True"
| "planes_ok [] (p # ps) \<longleftrightarrow> False"
| "planes_ok (b # bs) (p # ps) \<longleftrightarrow> plane_ok b p \<and> planes_ok bs ps"

fun planes_packed :: "u32 list \<Rightarrow> NvPlane list \<Rightarrow> bytes" where
  "planes_packed (b # bs) (p # ps) = plane_packed b p @ planes_packed bs ps"
| "planes_packed _ _ = []"

lemma word_products:
  fixes w b pitch i h :: u32
  assumes "unat w * unat b \<le> unat pitch" and "unat h * unat pitch < 2 ^ 32" and "k < unat h"
  shows "unat (w * b) = unat w * unat b" and "unat (word_of_nat k * pitch) = k * unat pitch"
    and "unat (word_of_nat k * w * b) = k * (unat w * unat b)"
proof -
  have lt: "unat x < 2 ^ 32" for x :: u32 using unsigned_less [of x] by simp
  have "unat (w * b) = unat w * unat b mod 2 ^ 32" by (simp add: unat_word_ariths)
  then show wb: "unat (w * b) = unat w * unat b" using assms(1) lt [of pitch] by simp
  have k: "unat (word_of_nat k :: u32) = k"
    using assms(3) lt [of h] by (simp add: unsigned_of_nat take_bit_nat_eq_self)
  have kp: "k * unat pitch < 2 ^ 32"
    using assms(2,3) by (meson le_less_trans less_imp_le mult_le_mono1)
  then show "unat (word_of_nat k * pitch) = k * unat pitch" by (simp add: unat_word_ariths k)
  have "k * (unat w * unat b) \<le> k * unat pitch" using assms(1) by simp
  then have "k * (unat w * unat b) < 2 ^ 32" using kp by linarith
  then show "unat (word_of_nat k * w * b) = k * (unat w * unat b)"
    by (simp add: unat_word_ariths k mult.assoc mod_mult_right_eq)
qed

lemma plane_row_step:
  assumes "i * pitch + n \<le> length mem" and "n \<le> pitch"
    and "memcpy_at (k * pitch) d mem = Inr mem'" and "length d = n"
  shows "plane_row n pitch mem' i = (if i = k then d else plane_row n pitch mem i)"
proof (cases "i = k")
  case True
  then show ?thesis using memcpy_at_Inr(2) [OF assms(3)] assms(4) by (simp add: plane_row_def)
next
  case False
  then have "i * pitch + n \<le> k * pitch \<or> k * pitch + length d \<le> i * pitch"
    using mult_le_mono1 [of "Suc i" k pitch] mult_le_mono1 [of "Suc k" i pitch] assms(2,4) by (cases "i < k") auto
  then show ?thesis using memcpy_at_Inr(3) [OF assms(3), of "i * pitch" n] False by (simp add: plane_row_def)
qed

lemma row_in_plane:
  assumes "n \<le> pitch" and "h * pitch \<le> (m :: nat)" and "i < h"
  shows "i * pitch + n \<le> m"
  using mult_le_mono1 [of "Suc i" h pitch] assms by simp

text \<open>Copying in: the rows of the plane become the bytes of the host.\<close>

lemma rows_in_rows:
  fixes w b pitch h :: u32
  defines "n \<equiv> unat w * unat b"
  assumes "n \<le> unat pitch" and "unat h * unat pitch < 2 ^ 32" and "unat h * unat pitch \<le> length mem"
    and "off + unat h * n \<le> limit" and "off + unat h * n \<le> length src" and "k \<le> unat h"
  shows "\<exists>mem'. rows_in src limit off w b pitch (map word_of_nat [k..<unat h]) mem = Inr mem' \<and> length mem' = length mem \<and>
    (\<forall>i < unat h. plane_row n (unat pitch) mem' i =
       (if i < k then plane_row n (unat pitch) mem i else take n (drop (off + i * n) src)))"
  using assms(4,7)
proof (induction "unat h - k" arbitrary: k mem)
  case 0
  then show ?case by simp
next
  case (Suc d)
  then have k: "k < unat h" by simp
  note wp = word_products [OF assms(2) [unfolded n_def] assms(3) k, folded n_def]
  have src: "off + k * n + n \<le> off + unat h * n" using mult_le_mono1 [of "Suc k" "unat h" n] k by simp
  have "off + n \<le> limit" using src assms(5) by linarith
  moreover have "read_at (off + k * n) n src = Inr (take n (drop (off + k * n) src))"
    using src assms(6) by (simp add: read_at_def)
  moreover have room: "k * unat pitch + n \<le> length mem" using row_in_plane [OF assms(2) Suc.prems(1) k] .
  have len: "length (take n (drop (off + k * n) src)) = n" using src assms(6) by simp
  moreover obtain mem1 where m1: "memcpy_at (k * unat pitch) (take n (drop (off + k * n) src)) mem = Inr mem1"
    using room len by (simp add: memcpy_at_def)
  ultimately have step: "rows_in src limit off w b pitch (map word_of_nat [k..<unat h]) mem =
      rows_in src limit off w b pitch (map word_of_nat [Suc k..<unat h]) mem1"
    using k by (simp add: upt_conv_Cons wp del: upt_Suc)
  have len1: "length mem1 = length mem" using memcpy_at_Inr(1) [OF m1] .
  have rows: "plane_row n (unat pitch) mem1 i = (if i = k then take n (drop (off + k * n) src) else plane_row n (unat pitch) mem i)"
    if "i < unat h" for i
    using plane_row_step [OF row_in_plane [OF assms(2) Suc.prems(1) that] assms(2) m1 len] .
  have "d = unat h - Suc k" "unat h * unat pitch \<le> length mem1" "Suc k \<le> unat h"
    using Suc.hyps(2) Suc.prems(1) k len1 by simp_all
  from Suc.hyps(1) [OF this] obtain mem' where
    "rows_in src limit off w b pitch (map word_of_nat [Suc k..<unat h]) mem1 = Inr mem'" "length mem' = length mem1"
    "\<forall>i < unat h. plane_row n (unat pitch) mem' i =
       (if i < Suc k then plane_row n (unat pitch) mem1 i else take n (drop (off + i * n) src))" by blast
  then show ?case using len1 rows k step by (auto simp: less_Suc_eq)
qed

text \<open>Copying out: the rows follow each other in the memory of the host.\<close>

lemma rows_out_rows:
  fixes w b pitch h :: u32
  defines "n \<equiv> unat w * unat b"
  assumes "n \<le> unat pitch" and "unat h * unat pitch < 2 ^ 32" and "unat h * unat pitch \<le> length mem"
    and "off + unat h * n \<le> limit" and "off + unat h * n \<le> length dst" and "k \<le> unat h"
  shows "rows_out mem limit off w b pitch (map word_of_nat [k..<unat h]) dst =
    Inr (take (off + k * n) dst @ concat (map (plane_row n (unat pitch) mem) [k..<unat h]) @ drop (off + unat h * n) dst)"
  using assms(6,7)
proof (induction "unat h - k" arbitrary: k dst)
  case 0
  then show ?case by simp
next
  case (Suc d)
  then have k: "k < unat h" by simp
  note wp = word_products [OF assms(2) [unfolded n_def] assms(3) k, folded n_def]
  have dst: "off + k * n + n \<le> off + unat h * n" using mult_le_mono1 [of "Suc k" "unat h" n] k by simp
  have "off + n \<le> limit" using dst assms(5) by linarith
  moreover have room: "k * unat pitch + n \<le> length mem" using row_in_plane [OF assms(2,4) k] .
  let ?r = "plane_row n (unat pitch) mem k"
  have len: "length ?r = n" using room by (simp add: plane_row_def)
  have "read_at (k * unat pitch) n mem = Inr ?r" using room by (simp add: read_at_def plane_row_def)
  moreover let ?dst = "take (off + k * n) dst @ ?r @ drop (off + k * n + n) dst"
  have "memcpy_at (off + k * n) ?r dst = Inr ?dst" using dst Suc.prems(1) len by (simp add: memcpy_at_def)
  ultimately have step: "rows_out mem limit off w b pitch (map word_of_nat [k..<unat h]) dst =
      rows_out mem limit off w b pitch (map word_of_nat [Suc k..<unat h]) ?dst"
    using k by (simp add: upt_conv_Cons wp del: upt_Suc)
  have len1: "length ?dst = length dst" using dst Suc.prems(1) len by simp
  have take1: "take (off + Suc k * n) ?dst = take (off + k * n) dst @ ?r"
    using dst Suc.prems(1) len by simp
  have drop1: "drop (off + unat h * n) ?dst = drop (off + unat h * n) dst"
    using dst Suc.prems(1) len k by (simp add: drop_append add.commute)
  from Suc.hyps(1) [of "Suc k" ?dst] Suc.hyps(2) Suc.prems(1) k len1
  have "rows_out mem limit off w b pitch (map word_of_nat [Suc k..<unat h]) ?dst =
    Inr (take (off + Suc k * n) ?dst @ concat (map (plane_row n (unat pitch) mem) [Suc k..<unat h]) @ drop (off + unat h * n) ?dst)"
    by simp
  then show ?case unfolding step take1 drop1 using k by (simp add: upt_conv_Cons del: upt_Suc)
qed

text \<open>The planes of a surface: the shape stays, and what is copied in or out are the packed planes.\<close>

definition same_plane :: "NvPlane \<Rightarrow> NvPlane \<Rightarrow> bool" where
  "same_plane p q \<longleftrightarrow> (\<exists>mem. q = p\<lparr>pl_mem := mem\<rparr> \<and> length mem = length (pl_mem p))"

lemma length_plane_packed:
  assumes "plane_ok b p"
  shows "length (plane_packed b p) = unat (pl_height p) * row_bytes b p"
    and "unat (pl_height p * pl_width p * b) = unat (pl_height p) * row_bytes b p"
proof -
  have "length (plane_row (row_bytes b p) (unat (pl_pitch p)) (pl_mem p) i) = row_bytes b p"
    if "i < unat (pl_height p)" for i
    using row_in_plane [of "row_bytes b p" "unat (pl_pitch p)" "unat (pl_height p)" "length (pl_mem p)" i] assms that
    by (simp add: plane_row_def plane_ok_def)
  then have "map length (map (plane_row (row_bytes b p) (unat (pl_pitch p)) (pl_mem p)) [0..<unat (pl_height p)]) =
      map (\<lambda>_. row_bytes b p) [0..<unat (pl_height p)]" by simp
  then show "length (plane_packed b p) = unat (pl_height p) * row_bytes b p"
    by (simp only: plane_packed_def length_concat) (simp add: sum_list_triv)
  have ok: "row_bytes b p \<le> unat (pl_pitch p)" "unat (pl_height p) * unat (pl_pitch p) < 2 ^ 32"
    using assms unfolding plane_ok_def by blast+
  have "unat (pl_height p) * row_bytes b p < 2 ^ 32"
    by (rule le_less_trans [OF mult_le_mono2 [OF ok(1)] ok(2)])
  then show "unat (pl_height p * pl_width p * b) = unat (pl_height p) * row_bytes b p"
    by (simp add: unat_word_ariths row_bytes_def mult.assoc mod_mult_right_eq)
qed

lemma same_plane_ok:
  assumes "same_plane p q"
  shows "plane_ok b q = plane_ok b p" and "plane_ok b p \<Longrightarrow> length (plane_packed b q) = length (plane_packed b p)"
proof -
  obtain mem where q: "q = p\<lparr>pl_mem := mem\<rparr>" "length mem = length (pl_mem p)"
    using assms by (auto simp: same_plane_def)
  have rb: "row_bytes b q = row_bytes b p" and h: "pl_height q = pl_height p" by (simp_all add: q row_bytes_def)
  show ok: "plane_ok b q = plane_ok b p" by (simp add: q plane_ok_def row_bytes_def)
  show "length (plane_packed b q) = length (plane_packed b p)" if "plane_ok b p"
    using length_plane_packed(1) [of b p] length_plane_packed(1) [of b q] that ok rb h by simp
qed

lemma plane_in:
  assumes "plane_ok b p" and "off + length (plane_packed b p) \<le> limit" and "off + length (plane_packed b p) \<le> length src"
  shows "\<exists>mem. rows_in src limit off (pl_width p) b (pl_pitch p) (plane_rows p) (pl_mem p) = Inr mem \<and>
    same_plane p (p\<lparr>pl_mem := mem\<rparr>) \<and>
    plane_packed b (p\<lparr>pl_mem := mem\<rparr>) = take (length (plane_packed b p)) (drop off src)"
proof -
  let ?n = "row_bytes b p"
  note ok = assms(1) [unfolded plane_ok_def row_bytes_def]
  note room = assms(2,3) [unfolded length_plane_packed(1) [OF assms(1)] row_bytes_def]
  obtain mem where m: "rows_in src limit off (pl_width p) b (pl_pitch p) (plane_rows p) (pl_mem p) = Inr mem"
    "length mem = length (pl_mem p)"
    "\<forall>i < unat (pl_height p). plane_row ?n (unat (pl_pitch p)) mem i = take ?n (drop (off + i * ?n) src)"
    using rows_in_rows [of "pl_width p" b "pl_pitch p" "pl_height p" "pl_mem p" off limit src 0] ok room
    by (auto simp: plane_rows_def row_bytes_def)
  have "plane_packed b (p\<lparr>pl_mem := mem\<rparr>) = concat (map (plane_row ?n (unat (pl_pitch p)) mem) [0..<unat (pl_height p)])"
    by (simp add: plane_packed_def row_bytes_def)
  also have "\<dots> = concat (map (\<lambda>i. take ?n (drop (i * ?n) (drop off src))) [0..<unat (pl_height p)])"
    using m(3) by (intro arg_cong [where f = concat] map_cong) (simp_all add: add.commute)
  also have "\<dots> = take (unat (pl_height p) * ?n) (drop off src)" by (rule concat_rows_compact)
  finally have "plane_packed b (p\<lparr>pl_mem := mem\<rparr>) = take (unat (pl_height p) * ?n) (drop off src)" .
  then show ?thesis using m(1,2) length_plane_packed(1) [OF assms(1)] by (auto simp: same_plane_def)
qed

lemma plane_out:
  assumes "plane_ok b p" and "off + length (plane_packed b p) \<le> limit" and "off + length (plane_packed b p) \<le> length dst"
  shows "rows_out (pl_mem p) limit off (pl_width p) b (pl_pitch p) (plane_rows p) dst =
    Inr (take off dst @ plane_packed b p @ drop (off + length (plane_packed b p)) dst)"
  using rows_out_rows [of "pl_width p" b "pl_pitch p" "pl_height p" "pl_mem p" off limit dst 0] assms
    length_plane_packed(1) [OF assms(1)]
  by (simp add: plane_rows_def row_bytes_def plane_ok_def plane_packed_def)

lemma planes_in_packed:
  assumes "planes_ok bs ps" and "\<forall>i. mappable i" and "off + length (planes_packed bs ps) \<le> limit"
    and "off + length (planes_packed bs ps) \<le> length src"
  shows "\<exists>ps'. planes_in mappable src limit bs plane off ps = (Inr 0, ps') \<and> list_all2 same_plane ps ps' \<and>
    planes_packed bs ps' = take (length (planes_packed bs ps)) (drop off src)"
  using assms(1,3,4)
proof (induction bs ps arbitrary: plane off rule: planes_ok.induct)
  case (3 b bs p ps)
  have ok: "plane_ok b p" "planes_ok bs ps" using "3.prems"(1) by simp_all
  have "off + length (plane_packed b p) \<le> limit" "off + length (plane_packed b p) \<le> length src"
    using "3.prems"(2,3) by simp_all
  from plane_in [OF ok(1) this] obtain mem where
    m: "rows_in src limit off (pl_width p) b (pl_pitch p) (plane_rows p) (pl_mem p) = Inr mem"
    "same_plane p (p\<lparr>pl_mem := mem\<rparr>)" "plane_packed b (p\<lparr>pl_mem := mem\<rparr>) = take (length (plane_packed b p)) (drop off src)" by blast
  let ?off = "off + length (plane_packed b p)"
  have off: "off + unat (pl_height p * pl_width p * b) = ?off" using length_plane_packed [OF ok(1)] by simp
  have "?off + length (planes_packed bs ps) \<le> limit" "?off + length (planes_packed bs ps) \<le> length src"
    using "3.prems"(2,3) by simp_all
  from "3.IH" [OF ok(2) this, of "plane + 1"] obtain ps' where
    ps': "planes_in mappable src limit bs (plane + 1) ?off ps = (Inr 0, ps')" "list_all2 same_plane ps ps'"
    "planes_packed bs ps' = take (length (planes_packed bs ps)) (drop ?off src)" by blast
  have "planes_in mappable src limit (b # bs) plane off (p # ps) = (Inr 0, p\<lparr>pl_mem := mem\<rparr> # ps')"
    using assms(2) m(1) ps'(1) off by simp
  moreover have "planes_packed (b # bs) (p\<lparr>pl_mem := mem\<rparr> # ps') =
      take (length (planes_packed (b # bs) (p # ps))) (drop off src)"
    using m(3) ps'(3) by (simp add: take_add add.commute)
  ultimately show ?case using m(2) ps'(2) by blast
qed simp_all

lemma planes_out_packed:
  assumes "planes_ok bs ps" and "\<forall>i. mappable i" and "off + length (planes_packed bs ps) \<le> limit"
    and "off + length (planes_packed bs ps) \<le> length dst"
  shows "planes_out mappable limit bs plane off ps dst =
    (Inr 0, take off dst @ planes_packed bs ps @ drop (off + length (planes_packed bs ps)) dst)"
  using assms(1,3,4)
proof (induction bs ps arbitrary: plane off dst rule: planes_ok.induct)
  case (3 b bs p ps)
  have ok: "plane_ok b p" "planes_ok bs ps" using "3.prems"(1) by simp_all
  let ?off = "off + length (plane_packed b p)"
  let ?dst = "take off dst @ plane_packed b p @ drop ?off dst"
  have step: "rows_out (pl_mem p) limit off (pl_width p) b (pl_pitch p) (plane_rows p) dst = Inr ?dst"
    using plane_out [OF ok(1), of off limit dst] "3.prems"(2,3) by simp
  have off: "off + unat (pl_height p * pl_width p * b) = ?off" using length_plane_packed [OF ok(1)] by simp
  have len: "length ?dst = length dst" and tk: "take ?off ?dst = take off dst @ plane_packed b p"
    and dr: "drop (?off + length (planes_packed bs ps)) ?dst = drop (?off + length (planes_packed bs ps)) dst"
    using "3.prems"(3) by (simp_all add: drop_append add_ac)
  have "?off + length (planes_packed bs ps) \<le> limit" "?off + length (planes_packed bs ps) \<le> length ?dst"
    using "3.prems"(2,3) by (simp_all add: len)
  from "3.IH" [OF ok(2) this, of "plane + 1"]
  have "planes_out mappable limit bs (plane + 1) ?off ps ?dst =
      (Inr 0, take ?off ?dst @ planes_packed bs ps @ drop (?off + length (planes_packed bs ps)) ?dst)" .
  then show ?case using assms(2) [THEN spec, of plane] step off unfolding tk dr by (simp add: add.assoc)
qed simp_all

section \<open>Copies of surfaces\<close>

definition surf_ok :: "NvBufSurface \<Rightarrow> bool" where
  "surf_ok sf \<longleftrightarrow> planes_ok (fillBytesPerPixel (surf_colorFormat sf)) (surf_planes sf)"

definition surf_packed :: "NvBufSurface \<Rightarrow> bytes" where
  "surf_packed sf = planes_packed (fillBytesPerPixel (surf_colorFormat sf)) (surf_planes sf)"

definition same_shape :: "NvBufSurface \<Rightarrow> NvBufSurface \<Rightarrow> bool" where
  "same_shape sf t \<longleftrightarrow> (\<exists>ps. t = sf\<lparr>surf_planes := ps\<rparr> \<and> list_all2 same_plane (surf_planes sf) ps)"

lemma same_planes_ok:
  assumes "list_all2 same_plane ps qs" and "planes_ok bs ps"
  shows "planes_ok bs qs \<and> length (planes_packed bs qs) = length (planes_packed bs ps)"
  using assms
proof (induction ps qs arbitrary: bs rule: list_all2_induct)
  case (Cons p ps q qs)
  then obtain b bs' where bs: "bs = b # bs'" by (cases bs) simp_all
  then show ?case using Cons same_plane_ok [of p q b] by simp
qed simp

lemma same_shape_ok:
  assumes "same_shape sf t" and "surf_ok sf"
  shows "surf_ok t" and "length (surf_packed t) = length (surf_packed sf)"
  using assms same_planes_ok by (auto simp: same_shape_def surf_ok_def surf_packed_def)

lemma host_to_surface:
  assumes "surf_ok sf" and "\<forall>i. vic_mappable L sf i" and "0 < n" and "length (surf_packed sf) \<le> n"
    and "length (surf_packed sf) \<le> length src"
  shows "\<exists>t. copyHostToNvBufSurface L (Some src) n (Some sf) = (Inr 0, Some t) \<and> same_shape sf t \<and>
    surf_packed t = take (length (surf_packed sf)) src"
  using planes_in_packed [OF assms(1) [unfolded surf_ok_def] assms(2), of 0 n src 0] assms(3-5)
  by (fastforce simp: copyHostToNvBufSurface_def same_shape_def surf_packed_def)

lemma surface_to_host:
  assumes "surf_ok sf" and "\<forall>i. vic_mappable L sf i" and "0 < n" and "length (surf_packed sf) \<le> n"
    and "length (surf_packed sf) \<le> length dst"
  shows "copyNvBufSurfaceToHost L (Some sf) n (Some dst) = (Inr 0, Some (surf_packed sf @ drop (length (surf_packed sf)) dst))"
  using planes_out_packed [OF assms(1) [unfolded surf_ok_def] assms(2), of 0 n dst 0] assms(3-5)
  by (simp add: copyNvBufSurfaceToHost_def surf_packed_def)

text \<open>
  C40. What is copied from the host to a surface and back is the same: for every surface whose planes hold
  their rows, whatever their pitches, the packed picture comes back byte for byte and the memory
  behind it is not touched, when the declared size and the two blocks hold a whole picture.
\<close>

theorem host_surface_roundtrip:
  assumes "surf_ok sf" and "\<forall>t i. vic_mappable L t i" and "0 < n" and "length (surf_packed sf) \<le> n"
    and "length (surf_packed sf) \<le> length src" and "length (surf_packed sf) \<le> length dst"
  shows "\<exists>t. copyHostToNvBufSurface L (Some src) n (Some sf) = (Inr 0, Some t) \<and>
    copyNvBufSurfaceToHost L (Some t) n (Some dst) =
      (Inr 0, Some (take (length (surf_packed sf)) src @ drop (length (surf_packed sf)) dst))"
proof -
  have map: "\<forall>i. vic_mappable L t i" for t using assms(2) by blast
  obtain t where t: "copyHostToNvBufSurface L (Some src) n (Some sf) = (Inr 0, Some t)" "same_shape sf t"
    "surf_packed t = take (length (surf_packed sf)) src"
    using host_to_surface [OF assms(1) map assms(3-5)] by blast
  note ok = same_shape_ok [OF t(2) assms(1)]
  have "copyNvBufSurfaceToHost L (Some t) n (Some dst) = (Inr 0, Some (surf_packed t @ drop (length (surf_packed t)) dst))"
    by (rule surface_to_host [OF ok(1) map assms(3)]) (use ok(2) assms(4,6) in simp_all)
  then show ?thesis using t(1,3) ok(2) by simp
qed

text \<open>
  The bound is tested for the first row only: with a block that is shorter than the picture the copy
  reads behind its end, although the size that was declared is the one of the block.
\<close>

lemma rows_in_short:
  fixes w b pitch h :: u32
  defines "n \<equiv> unat w * unat b"
  assumes "n \<le> unat pitch" and "unat h * unat pitch < 2 ^ 32" and "unat h * unat pitch \<le> length mem"
    and "off + n \<le> limit" and "length src < off + unat h * n" and "k < unat h"
  shows "rows_in src limit off w b pitch (map word_of_nat [k..<unat h]) mem = Inl (Undefined ''read out of range'')"
  using assms(4,7)
proof (induction "unat h - k" arbitrary: k mem)
  case (Suc d)
  note wp = word_products [OF assms(2) [unfolded n_def] assms(3) Suc.prems(2), folded n_def]
  show ?case
  proof (cases "length src < off + k * n + n")
    case True
    then show ?thesis using Suc.prems(2) assms(5) by (simp add: upt_conv_Cons wp read_at_def del: upt_Suc)
  next
    case False
    let ?d = "take n (drop (off + k * n) src)"
    have room: "k * unat pitch + n \<le> length mem" using row_in_plane [OF assms(2) Suc.prems(1,2)] .
    have "length ?d = n" using False by simp
    then obtain mem1 where m1: "memcpy_at (k * unat pitch) ?d mem = Inr mem1" using room by (simp add: memcpy_at_def)
    have "Suc k \<noteq> unat h"
    proof
      assume "Suc k = unat h"
      then have "unat h * n = n + k * n" by (metis mult_Suc)
      then show False using False assms(6) by simp
    qed
    then have k: "Suc k < unat h" "d = unat h - Suc k" using Suc.prems(2) Suc.hyps(2) by simp_all
    have "unat h * unat pitch \<le> length mem1" using memcpy_at_Inr(1) [OF m1] Suc.prems(1) by simp
    from Suc.hyps(1) [OF k(2) this k(1)] m1 False Suc.prems(2) assms(5) show ?thesis
      by (simp add: upt_conv_Cons wp read_at_def del: upt_Suc)
  qed
qed simp

text \<open>
  A block that holds one row but not the whole picture is read over its end: the copy to the surface
  has no defined result, although every single copy is guarded by a comparison with the size.
\<close>

theorem short_block_overrun:
  assumes "surf_planes sf = [p]" and "surf_colorFormat sf = NVBUF_COLOR_FORMAT_RGBA" and "plane_ok 4 p"
    and "vic_mappable L sf 0" and "0 < n" and "length src = n" and "row_bytes 4 p \<le> n" and "n < unat (pl_height p) * row_bytes 4 p"
  shows "fst (copyHostToNvBufSurface L (Some src) n (Some sf)) = Inl (Undefined ''read out of range'')"
proof -
  have "0 < unat (pl_height p)" using assms(8) by (cases "unat (pl_height p)") simp_all
  then have "rows_in src n 0 (pl_width p) 4 (pl_pitch p) (plane_rows p) (pl_mem p) = Inl (Undefined ''read out of range'')"
    using rows_in_short [of "pl_width p" 4 "pl_pitch p" "pl_height p" "pl_mem p" 0 n src 0] assms
    by (simp add: plane_rows_def plane_ok_def row_bytes_def)
  then show ?thesis using assms(1,2,4,5) by (simp add: copyHostToNvBufSurface_def fillBytesPerPixel_def)
qed

section \<open>Buffers and surfaces\<close>

definition vic_ok :: "NvVicGraphics2D \<Rightarrow> bool" where
  "vic_ok s \<longleftrightarrow> m_bufferMap s = (\<lambda>a. if vic_surfaces s a = None then None else Some a) \<and>
     (\<forall>a. vic_surfaces s a \<noteq> None \<longrightarrow> a < vic_next s)"

lemma copyHost_keeps: "(snd (copyHostToNvBufSurface L h n sf) = None) = (sf = None)"
  by (auto simp: copyHostToNvBufSurface_def split: option.splits prod.splits)

lemma vic_fresh: "vic_ok s \<Longrightarrow> vic_next s \<le> a \<Longrightarrow> vic_surfaces s a = None \<and> m_bufferMap s a = None"
  by (auto simp: vic_ok_def)

lemma copyHost_Some: "\<exists>r t. copyHostToNvBufSurface L h n (Some sf) = (r, Some t)"
  by (auto simp: copyHostToNvBufSurface_def split: option.splits prod.splits)

text \<open>A call of \<open>createBuffer\<close> adds at most one surface, under the number of the new buffer.\<close>

lemma vic_create_cases:
  obtains (none) "vic_createBuffer L type v s = (Inr None, s\<lparr>vic_next := vic_next s + 1\<rparr>)"
  | (surface) r t i where "vic_createBuffer L type v s =
      (r, s\<lparr>vic_next := vic_next s + 1, vic_surfaces := (vic_surfaces s)(vic_next s \<mapsto> t),
        m_bufferMap := (m_bufferMap s)(vic_next s \<mapsto> vic_next s), m_mapInfo := (m_mapInfo s)(vic_next s \<mapsto> i)\<rparr>)"
    "\<forall>b. r = Inr (Some b) \<longrightarrow> gb_address b = vic_next s"
proof (cases "mapFormatStringToNvFormat (format (desc v)) = NVBUF_COLOR_FORMAT_INVALID \<or>
    vic_allocate L (vic_next s) (if widthStride (desc v) > 0 then widthStride (desc v) else width (desc v)) (height (desc v))
      (mapFormatStringToNvFormat (format (desc v))) = None")
  case True
  then have "vic_createBuffer L type v s = (Inr None, s\<lparr>vic_next := vic_next s + 1\<rparr>)"
    by (auto simp: vic_createBuffer_def Let_def)
  then show ?thesis by (rule none)
next
  case False
  then obtain sf where sf: "vic_allocate L (vic_next s) (if widthStride (desc v) > 0 then widthStride (desc v) else width (desc v))
      (height (desc v)) (mapFormatStringToNvFormat (format (desc v))) = Some sf"
    and f: "mapFormatStringToNvFormat (format (desc v)) \<noteq> NVBUF_COLOR_FORMAT_INVALID" by auto
  obtain r t where c: "copyHostToNvBufSurface L (host_block (vic_host s) (plane_data (planes v ! 0))) (dataSize (desc v)) (Some sf) = (r, Some t)"
    using copyHost_Some by blast
  show ?thesis
  proof (cases "type = Hardware \<or> plane_data (planes v ! 0) = None \<or> dataSize (desc v) = 0")
    case True
    then show ?thesis using sf f 
      by (intro surface [where r = "fst (vic_createBuffer L type v s)" and i = "\<lparr>mapped_addr = None, is_mapped = False\<rparr>" and t = sf]) (auto simp: vic_createBuffer_def Let_def)
  next
    case False
    then show ?thesis using sf f c
      by (cases r; intro surface [where r = "fst (vic_createBuffer L type v s)" and i = "\<lparr>mapped_addr = None, is_mapped = False\<rparr>" and t = t]) (auto simp: vic_createBuffer_def Let_def)
  qed
qed

lemma vic_create_ok:
  assumes "vic_ok s"
  shows "vic_ok (snd (vic_createBuffer L type v s)) \<and>
    dom (vic_surfaces s) \<subseteq> dom (vic_surfaces (snd (vic_createBuffer L type v s)))"
    and "vic_createBuffer L type v s = (Inr (Some b), s') \<Longrightarrow>
      gb_address b \<notin> dom (vic_surfaces s) \<and> dom (vic_surfaces s') \<subseteq> insert (gb_address b) (dom (vic_surfaces s))"
proof -
  show "vic_ok (snd (vic_createBuffer L type v s)) \<and>
    dom (vic_surfaces s) \<subseteq> dom (vic_surfaces (snd (vic_createBuffer L type v s)))"
    using assms by (cases rule: vic_create_cases [of L type v s]) (auto simp: vic_ok_def fun_eq_iff less_Suc_eq)
  show "gb_address b \<notin> dom (vic_surfaces s) \<and> dom (vic_surfaces s') \<subseteq> insert (gb_address b) (dom (vic_surfaces s))"
    if "vic_createBuffer L type v s = (Inr (Some b), s')"
    using that vic_fresh [OF assms, of "vic_next s"]
    by (cases rule: vic_create_cases [of L type v s]) (auto split: if_splits)
qed

lemma vic_release_ok:
  assumes "vic_ok s"
  shows "vic_ok (vic_releaseBuffer (Some b) s) \<and>
    dom (vic_surfaces (vic_releaseBuffer (Some b) s)) = dom (vic_surfaces s) - {gb_address b}"
  using assms by (auto simp: vic_ok_def vic_releaseBuffer_def Let_def fun_eq_iff split: option.splits if_splits)

text \<open>An operation that only changes the contents of surfaces and host.\<close>

definition vic_same :: "NvVicGraphics2D \<Rightarrow> NvVicGraphics2D \<Rightarrow> bool" where
  "vic_same s t \<longleftrightarrow> m_bufferMap t = m_bufferMap s \<and> vic_next t = vic_next s \<and>
     (\<forall>a. (vic_surfaces t a = None) = (vic_surfaces s a = None))"

lemma vic_same_refl [simp]: "vic_same s s"
  by (simp add: vic_same_def)

lemma vic_same_trans: "vic_same s t \<Longrightarrow> vic_same t u \<Longrightarrow> vic_same s u"
  by (simp add: vic_same_def)

lemma vic_same_ok:
  assumes "vic_ok s" and "vic_same s t"
  shows "vic_ok t \<and> dom (vic_surfaces t) = dom (vic_surfaces s)"
  using assms unfolding vic_same_def vic_ok_def dom_def by presburger

lemma vic_transform_same: "vic_same s (snd (performTransform call p q s))"
  by (auto simp: performTransform_def vic_same_def split: option.splits prod.splits)

lemma vic_device_same: "vic_same t (snd (vic_to_device L n p t))"
proof -
  obtain r sf where c: "copyHostToNvBufSurface L (host_block (vic_host t) (hostPtr n)) (bufferSize n) (vic_surfaces t p) = (r, sf)"
    by fastforce
  then have "(sf = None) = (vic_surfaces t p = None)" using copyHost_keeps by (metis snd_conv)
  then show ?thesis by (simp add: vic_to_device_def vic_same_def c)
qed

lemma vic_host_same: "vic_same t (snd (vic_to_host L n p t))"
  by (simp add: vic_to_host_def vic_same_def split: prod.splits option.splits)

lemma andthen_same:
  assumes "vic_same t (snd m)" and "\<And>x u. vic_same t u \<Longrightarrow> vic_same t (snd (k x u))"
  shows "vic_same t (snd (andthen m k))"
proof (cases m)
  case (Pair r u)
  then show ?thesis using assms(1) assms(2) [of u] by (cases r) simp_all
qed

lemma vic_sync_same: "vic_same s (snd (vic_syncBuffer L b d s))"
proof -
  have run: "vic_same s (snd (andthen (if x then vic_to_device L n p s else (Inr 0, s)) (\<lambda>ret s1.
      if ret \<noteq> 0 then (Inr (-1), s1)
      else andthen (if y then vic_to_host L n p s1 else (Inr 0, s1)) (\<lambda>ret s2. (Inr (if ret \<noteq> 0 then -1 else 0), s2)))))"
    (is "vic_same s (snd (andthen ?m ?k))") for x y n p
  proof (rule andthen_same)
    show "vic_same s (snd ?m)" by (simp add: vic_device_same)
    show "vic_same s (snd (?k r u))" if "vic_same s u" for r u
    proof (cases "r = 0")
      case True
      have "vic_same s (snd (if y then vic_to_host L n p u else (Inr 0, u)))"
        using that vic_same_trans [OF that vic_host_same] by simp
      then show ?thesis using True by (simp del: if_split_asm add: andthen_same)
    qed (use that in simp)
  qed
  show ?thesis
  proof (cases "getG2DBufferInternal b = None \<or> getNvBufSurface b s = None")
    case True
    then show ?thesis by (auto simp: vic_syncBuffer_def split: option.split)
  next
    case False
    then obtain n p where np: "getG2DBufferInternal b = Some n" "getNvBufSurface b s = Some p" by auto
    show ?thesis
    proof (cases "bufferType n \<noteq> Mapped \<or> hostPtr n = None \<or> bufferSize n = 0")
      case True
      then show ?thesis by (simp only: vic_syncBuffer_def np option.case if_True snd_conv vic_same_refl)
    next
      case False
      then show ?thesis
        using run by (simp only: vic_syncBuffer_def np option.case if_False)
    qed
  qed
qed

lemma vic_graphics_simps:
  "gr_createBuffer (vic_graphics L) = vic_createBuffer L" "gr_releaseBuffer (vic_graphics L) = vic_releaseBuffer"
  "gr_syncBuffer (vic_graphics L) = vic_syncBuffer L" "gr_imageResize (vic_graphics L) = vic_imageResize L"
  "gr_imageCopy (vic_graphics L) = vic_imageCopy L" "gr_imageCvtColor (vic_graphics L) = vic_imageCvtColor L"
  by (simp_all add: vic_graphics_def)

lemma vic_cvt_same: "vic_same s (snd (vic_imageCvtColor L a b f g s))"
  by (simp add: vic_imageCvtColor_def vic_transform_same)

interpretation vic: g2d_surfaces "vic_graphics L" "\<lambda>s. dom (vic_surfaces s)" vic_ok for L
  by (unfold_locales, unfold vic_graphics_simps vic_imageResize_def vic_imageCopy_def)
    (erule vic_create_ok(1) | erule (1) vic_create_ok(2) | erule vic_release_ok | erule vic_same_ok [OF _ vic_sync_same] |
      erule vic_same_ok [OF _ vic_cvt_same] | erule vic_same_ok [OF _ vic_transform_same])+

section \<open>Operations on host views\<close>

text \<open>A view of a block of the host whose format VIC knows, and the surface it is given.\<close>

definition vic_view :: "vic_lib \<Rightarrow> NvVicGraphics2D \<Rightarrow> nat \<Rightarrow> ImageView \<Rightarrow> nat \<Rightarrow> bytes \<Rightarrow> NvBufSurface \<Rightarrow> bool" where
  "vic_view L s a v k blk sf \<longleftrightarrow>
     mapFormatStringToNvFormat (format (desc v)) \<noteq> NVBUF_COLOR_FORMAT_INVALID \<and>
     vic_allocate L a (if widthStride (desc v) > 0 then widthStride (desc v) else width (desc v)) (height (desc v))
       (mapFormatStringToNvFormat (format (desc v))) = Some sf \<and>
     plane_data (planes v ! 0) = Some k \<and> vic_host s k = Some blk \<and> surf_ok sf \<and> 0 < dataSize (desc v) \<and>
     length (surf_packed sf) \<le> dataSize (desc v) \<and> length (surf_packed sf) \<le> length blk"

definition vic_native :: "nat \<Rightarrow> ImageView \<Rightarrow> nat G2DBufferInternal" where
  "vic_native a v = newG2DBufferInternal\<lparr>g2dPlatform := ''nvvic'', bufferType := Mapped, g2dBufferHandle := Some a,
     hostPtr := plane_data (planes v ! 0), bufferSize := dataSize (desc v)\<rparr>"

lemma vic_create_mapped:
  assumes "vic_view L s (vic_next s) v k blk sf" and "\<forall>t i. vic_mappable L t i"
  shows "\<exists>t s'. vic_createBuffer L Mapped v s =
      (Inr (Some \<lparr>gb_address = vic_next s, gb_view = v, gb_native = Some (vic_native (vic_next s) v)\<rparr>), s') \<and>
    same_shape sf t \<and> surf_packed t = take (length (surf_packed sf)) blk \<and> vic_next s' = Suc (vic_next s) \<and>
    vic_surfaces s' = (vic_surfaces s)(vic_next s \<mapsto> t) \<and> m_bufferMap s' = (m_bufferMap s)(vic_next s \<mapsto> vic_next s) \<and>
    vic_host s' = vic_host s"
proof -
  note v = assms(1) [unfolded vic_view_def]
  have map: "\<forall>i. vic_mappable L sf i" using assms(2) by blast
  have ok: "surf_ok sf" "0 < dataSize (desc v)" "length (surf_packed sf) \<le> dataSize (desc v)" "length (surf_packed sf) \<le> length blk"
    using v by simp_all
  obtain t where "copyHostToNvBufSurface L (Some blk) (dataSize (desc v)) (Some sf) = (Inr 0, Some t)" "same_shape sf t"
    "surf_packed t = take (length (surf_packed sf)) blk"
    using host_to_surface [OF ok(1) map ok(2-4)] by blast
  then show ?thesis using v by (intro exI [of _ t]) (simp add: vic_createBuffer_def Let_def host_block_def vic_native_def)
qed

lemma vic_sync_to_host:
  assumes "getG2DBufferInternal (Some b) = Some n" and "bufferType n = Mapped" and "hostPtr n = Some k" and "vic_host s k = Some blk"
    and "m_bufferMap s (gb_address b) = Some p" and "vic_surfaces s p = Some sf" and "surf_ok sf" and "\<forall>t i. vic_mappable L t i"
    and "0 < bufferSize n" and "length (surf_packed sf) \<le> bufferSize n" and "length (surf_packed sf) \<le> length blk"
  shows "vic_syncBuffer L (Some b) DeviceToCpu s =
    (Inr 0, s\<lparr>vic_host := (vic_host s)(k \<mapsto> surf_packed sf @ drop (length (surf_packed sf)) blk)\<rparr>)"
proof -
  have "\<forall>i. vic_mappable L sf i" using assms(8) by blast
  from surface_to_host [OF assms(7) this assms(9-11)] assms(1-6,9) show ?thesis
    by (simp add: vic_syncBuffer_def getNvBufSurface_def vic_to_host_def host_block_def)
qed

lemma vic_sync_to_device:
  assumes "getG2DBufferInternal (Some b) = Some n" and "bufferType n = Mapped" and "hostPtr n = Some k" and "vic_host s k = Some blk"
    and "m_bufferMap s (gb_address b) = Some p" and "vic_surfaces s p = Some sf" and "surf_ok sf" and "\<forall>t i. vic_mappable L t i"
    and "0 < bufferSize n" and "length (surf_packed sf) \<le> bufferSize n" and "length (surf_packed sf) \<le> length blk"
  shows "\<exists>t. vic_syncBuffer L (Some b) CpuToDevice s = (Inr 0, s\<lparr>vic_surfaces := (vic_surfaces s)(p \<mapsto> t)\<rparr>) \<and>
    same_shape sf t \<and> surf_packed t = take (length (surf_packed sf)) blk"
proof -
  have "\<forall>i. vic_mappable L sf i" using assms(8) by blast
  from host_to_surface [OF assms(7) this assms(9-11)] assms(1-6,9) show ?thesis
    by (auto simp: vic_syncBuffer_def getNvBufSurface_def vic_to_device_def host_block_def)
qed

text \<open>
  C39. A conversion of one host picture into another on VIC, from the views to the bytes: the driver sees
  the packed picture of the source block, the packed result stands in the destination block, whose
  rest is untouched, no other memory of the host changes, and both surfaces have been given back.
\<close>

theorem vic_converts_host_pictures:
  assumes "vic_ok s" and "\<forall>t i. vic_mappable L t i"
    and "vic_view L s (vic_next s) src k1 b1 sf1" and "vic_view L s (Suc (vic_next s)) dst k2 b2 sf2"
    and "\<forall>a b. same_shape sf1 a \<longrightarrow> same_shape sf2 b \<longrightarrow>
      (\<exists>c. vic_transform L a b = (0, c) \<and> same_shape sf2 c \<and> surf_packed c = conv (surf_packed a))"
  shows "\<exists>s'. imageCvtColorToHost (vic_graphics L) src dst Mapped True s = (Inr 0, s') \<and>
    vic_host s' = (vic_host s)(k2 \<mapsto> conv (take (length (surf_packed sf1)) b1) @ drop (length (surf_packed sf2)) b2) \<and>
    vic_surfaces s' = vic_surfaces s \<and> m_bufferMap s' = m_bufferMap s"
proof -
  let ?a = "vic_next s" and ?b = "Suc (vic_next s)"
  let ?sb = "\<lparr>gb_address = ?a, gb_view = src, gb_native = Some (vic_native ?a src)\<rparr>"
  let ?db = "\<lparr>gb_address = ?b, gb_view = dst, gb_native = Some (vic_native ?b dst)\<rparr>"
  note f1 = assms(3) [unfolded vic_view_def] and f2 = assms(4) [unfolded vic_view_def]
  obtain t1 s1 where c1: "vic_createBuffer L Mapped src s = (Inr (Some ?sb), s1)" "same_shape sf1 t1"
      "surf_packed t1 = take (length (surf_packed sf1)) b1" "vic_next s1 = ?b" "vic_surfaces s1 = (vic_surfaces s)(?a \<mapsto> t1)"
      "m_bufferMap s1 = (m_bufferMap s)(?a \<mapsto> ?a)" "vic_host s1 = vic_host s"
    using vic_create_mapped [OF assms(3,2)] by auto
  have v2: "vic_view L s1 (vic_next s1) dst k2 b2 sf2" using assms(4) by (simp add: vic_view_def c1(4,7))
  obtain t2 s2 where c2: "vic_createBuffer L Mapped dst s1 = (Inr (Some ?db), s2)" "same_shape sf2 t2"
      "vic_surfaces s2 = (vic_surfaces s)(?a \<mapsto> t1, ?b \<mapsto> t2)"
      "m_bufferMap s2 = (m_bufferMap s)(?a \<mapsto> ?a, ?b \<mapsto> ?b)" "vic_host s2 = vic_host s"
    using vic_create_mapped [OF v2 assms(2)] unfolding c1(4-7) by auto
  obtain c where tr: "vic_transform L t1 t2 = (0, c)" "same_shape sf2 c" "surf_packed c = conv (surf_packed t1)"
    using assms(5) c1(2) c2(2) by blast
  let ?s3 = "s2\<lparr>vic_surfaces := (vic_surfaces s)(?a \<mapsto> t1, ?b \<mapsto> c)\<rparr>"
  have cvt: "vic_imageCvtColor L (Some ?sb) (Some ?db) (format (desc src)) (format (desc dst)) s2 = (Inr 0, ?s3)"
    using f1 f2 tr(1) c2(3,4) by (simp add: vic_imageCvtColor_def getNvBufSurface_def performTransform_def)
  have ok2: "surf_ok sf2" using f2 by simp
  note ok = same_shape_ok [OF tr(2) ok2]
  let ?blk = "surf_packed c @ drop (length (surf_packed c)) b2"
  have sync: "vic_syncBuffer L (Some ?db) DeviceToCpu ?s3 = (Inr 0, ?s3\<lparr>vic_host := (vic_host ?s3)(k2 \<mapsto> ?blk)\<rparr>)"
    by (rule vic_sync_to_host [where n = "vic_native ?b dst" and p = ?b])
      (use f2 c2(3-5) ok assms(2) in \<open>simp_all add: getG2DBufferInternal_def vic_native_def newG2DBufferInternal_def\<close>)
  let ?s4 = "?s3\<lparr>vic_host := (vic_host ?s3)(k2 \<mapsto> ?blk)\<rparr>"
  let ?s5 = "vic_releaseBuffer (Some ?db) (vic_releaseBuffer (Some ?sb) ?s4)"
  have run: "imageCvtColorToHost (vic_graphics L) src dst Mapped True s = (Inr 0, ?s5)"
    by (simp add: imageCvtColorToHost_def with_buffers_def vic_graphics_simps c1(1) c2(1) cvt sync del: fun_upd_apply)
  have fresh: "vic_surfaces s ?a = None" "m_bufferMap s ?a = None" "vic_surfaces s ?b = None" "m_bufferMap s ?b = None"
    using vic_fresh [OF assms(1)] by simp_all
  have "vic_surfaces ?s5 = (vic_surfaces s)(?a := None, ?b := None)" "m_bufferMap ?s5 = (m_bufferMap s)(?a := None, ?b := None)"
    using c2(4) by (auto simp: vic_releaseBuffer_def Let_def fun_eq_iff)
  then have "vic_surfaces ?s5 = vic_surfaces s" "m_bufferMap ?s5 = m_bufferMap s"
    using fresh by (auto simp: fun_eq_iff)
  moreover have "vic_host ?s5 = (vic_host s)(k2 \<mapsto> ?blk)" using c2(4,5) by (simp add: vic_releaseBuffer_def Let_def)
  ultimately show ?thesis using run tr(3) c1(3) ok(2) by (intro exI [of _ ?s5]) simp
qed

text \<open>
  Within a guard of both directions the program works on the picture of the surface: when the scope
  is entered the block holds what the surface holds, and when it is left the surface holds what the
  program has written to the block, whatever that is.
\<close>

theorem sync_guard_transfers:
  assumes "getG2DBufferInternal (Some b) = Some n" and "bufferType n = Mapped" and "hostPtr n = Some k" and "vic_host s k = Some blk"
    and "m_bufferMap s (gb_address b) = Some p" and "vic_surfaces s p = Some sf" and "surf_ok sf" and "\<forall>t i. vic_mappable L t i"
    and "0 < bufferSize n" and "length (surf_packed sf) \<le> bufferSize n" and "length (surf_packed sf) \<le> length blk"
    and "length (surf_packed sf) \<le> length blk'"
  shows "\<exists>s1 t. newBufferSyncGuard (Some (vic_graphics L)) (Some b) Bidirectional s = (Inr (), s1) \<and>
    vic_host s1 k = Some (surf_packed sf @ drop (length (surf_packed sf)) blk) \<and>
    destroyBufferSyncGuard (Some (vic_graphics L)) (Some b) Bidirectional (s1\<lparr>vic_host := (vic_host s1)(k \<mapsto> blk')\<rparr>) =
      (Inr (), s1\<lparr>vic_host := (vic_host s1)(k \<mapsto> blk'), vic_surfaces := (vic_surfaces s1)(p \<mapsto> t)\<rparr>) \<and>
    surf_packed t = take (length (surf_packed sf)) blk'"
proof -
  let ?s1 = "s\<lparr>vic_host := (vic_host s)(k \<mapsto> surf_packed sf @ drop (length (surf_packed sf)) blk)\<rparr>"
  let ?s2 = "?s1\<lparr>vic_host := (vic_host ?s1)(k \<mapsto> blk')\<rparr>"
  have enter: "newBufferSyncGuard (Some (vic_graphics L)) (Some b) Bidirectional s = (Inr (), ?s1)"
    using vic_sync_to_host [OF assms(1-11)] by (simp add: newBufferSyncGuard_def vic_graphics_simps)
  obtain t where t: "vic_syncBuffer L (Some b) CpuToDevice ?s2 = (Inr 0, ?s2\<lparr>vic_surfaces := (vic_surfaces ?s2)(p \<mapsto> t)\<rparr>)"
    "surf_packed t = take (length (surf_packed sf)) blk'"
    using vic_sync_to_device [where s = ?s2 and blk = blk', OF assms(1-3) _ _ _ assms(7-10,12)] assms(5,6) by auto
  then have "destroyBufferSyncGuard (Some (vic_graphics L)) (Some b) Bidirectional ?s2 =
      (Inr (), ?s2\<lparr>vic_surfaces := (vic_surfaces ?s2)(p \<mapsto> t)\<rparr>)"
    by (simp add: destroyBufferSyncGuard_def vic_graphics_simps)
  then show ?thesis using enter t(2) by (intro exI [of _ ?s1] exI [of _ t]) simp
qed

text \<open>A buffer that is to be mapped without a pointer to host memory leaves its surface behind.\<close>

lemma vic_mapped_leak:
  assumes "mapFormatStringToNvFormat (format (desc v)) \<noteq> NVBUF_COLOR_FORMAT_INVALID" and "plane_data (planes v ! 0) = None"
    and "vic_allocate L (vic_next s) (if widthStride (desc v) > 0 then widthStride (desc v) else width (desc v)) (height (desc v))
       (mapFormatStringToNvFormat (format (desc v))) = Some sf"
  shows "\<exists>s'. vic_createBuffer L Mapped v s = (Inr None, s') \<and> vic_surfaces s' (vic_next s) = Some sf \<and>
    m_bufferMap s' (vic_next s) = Some (vic_next s)"
  using assms by (simp add: vic_createBuffer_def Let_def)

text \<open>
  Of the operations on views only \<open>imageCvtColorToHost\<close> brings its result back: the others release the
  destination without having copied it to the host, whose memory stays as it was.
\<close>

lemma vic_host_unchanged:
  "vic_host (snd (vic_createBuffer L type v s)) = vic_host s"
  "vic_host (vic_releaseBuffer b s) = vic_host s"
  "vic_host (snd (performTransform call p q s)) = vic_host s"
proof -
  show "vic_host (snd (vic_createBuffer L type v s)) = vic_host s"
    by (cases rule: vic_create_cases [of L type v s]) simp_all
  show "vic_host (vic_releaseBuffer b s) = vic_host s"
    by (simp add: vic_releaseBuffer_def Let_def split: option.split)
  show "vic_host (snd (performTransform call p q s)) = vic_host s"
    by (auto simp: performTransform_def split: option.splits prod.splits)
qed

lemma vic_resize_views_lost:
  "vic_host (snd (imageResize_views (vic_graphics L) src dst type s)) = vic_host s"
proof -
  have keep: "vic_host (snd (andthen m k)) = vic_host t" if "vic_host (snd m) = vic_host t" "\<And>x u. vic_host u = vic_host t \<Longrightarrow> vic_host (snd (k x u)) = vic_host t"
    for t :: NvVicGraphics2D and m :: "(NvVicGraphics2D, 'a) outcome" and k :: "'a \<Rightarrow> NvVicGraphics2D \<Rightarrow> (NvVicGraphics2D, int) outcome"
    using that by (cases m; cases "fst m") auto
  have act: "vic_host (snd (vic_imageResize L a b u)) = vic_host u" for a b u
    by (simp add: vic_imageResize_def vic_host_unchanged)
  show ?thesis
    unfolding imageResize_views_def with_buffers_def vic_graphics_simps
    by (rule keep, simp add: vic_host_unchanged, rule keep, simp add: vic_host_unchanged)
      (simp add: vic_host_unchanged andthen_def act split: prod.split sum.split, metis act vic_host_unchanged(2) snd_conv)
qed

text \<open>VIC has no 24 bit formats: the resize the YOLO plugins ask for fails on it.\<close>

lemma vic_no_rgb888:
  assumes "format (desc v) = ''RGB888''"
  shows "vic_createBuffer L type v s = (Inr None, s\<lparr>vic_next := vic_next s + 1\<rparr>)"
  using assms by (simp add: vic_createBuffer_def mapFormatStringToNvFormat_def formatMap_def Let_def)

text \<open>Two formats of different order of bytes are the same to VIC: nothing is converted between them.\<close>

lemma vic_bgra_is_rgba: "mapFormatStringToNvFormat ''BGRA8888'' = mapFormatStringToNvFormat ''RGBA8888''"
  "mapFormatStringToNvFormat ''YUYV_422'' = mapFormatStringToNvFormat ''UYVY_422''"
  by (simp_all add: mapFormatStringToNvFormat_def formatMap_def)

section \<open>A run\<close>

text \<open>Surfaces of two pixels of four bytes in two rows, with a pitch of 16; the driver copies them.\<close>

definition demo_plane :: NvPlane where
  "demo_plane = \<lparr>pl_width = 1, pl_height = 2, pl_pitch = 16, pl_mem = replicate 32 0\<rparr>"

definition demo_surface :: NvBufSurface where
  "demo_surface = \<lparr>surf_colorFormat = NVBUF_COLOR_FORMAT_RGBA, surf_width = 1, surf_height = 2, surf_planes = [demo_plane]\<rparr>"

definition demo_vic :: vic_lib where
  "demo_vic = \<lparr>vic_session = 0, vic_allocate = (\<lambda>_ _ _ _. Some demo_surface), vic_mappable = (\<lambda>_ _. True),
     vic_transform = (\<lambda>a b. (0, a)), vic_copy = (\<lambda>a b. (0, a))\<rparr>"

definition demo_picture :: bytes where "demo_picture = [1, 2, 3, 4, 5, 6, 7, 8]"

definition demo_graphics :: NvVicGraphics2D where
  "demo_graphics = \<lparr>m_sessionInitialized = True, m_bufferMap = (\<lambda>_. None), m_mapInfo = (\<lambda>_. None), vic_surfaces = (\<lambda>_. None),
     vic_host = [0 \<mapsto> demo_picture, 1 \<mapsto> replicate 9 0], vic_next = 0\<rparr>"

definition demo_rgba :: "nat \<Rightarrow> ImageView" where
  "demo_rgba k = makeHostImageView (Some k)
     \<lparr>width = 1, height = 2, widthStride = 1, heightStride = 2, format = ''RGBA8888'', dataSize = 8\<rparr> 4 ReadWrite"

lemma demo_surface_ok: "surf_ok demo_surface" "length (surf_packed demo_surface) = 8"
proof -
  have ok: "plane_ok 4 demo_plane" by (simp add: plane_ok_def row_bytes_def demo_plane_def)
  then show "surf_ok demo_surface" by (simp add: surf_ok_def demo_surface_def fillBytesPerPixel_def)
  show "length (surf_packed demo_surface) = 8"
    using length_plane_packed(1) [OF ok]
    by (simp add: surf_packed_def demo_surface_def fillBytesPerPixel_def row_bytes_def demo_plane_def)
qed

theorem host_surface_roundtrip_witness:
  "\<exists>t. copyHostToNvBufSurface demo_vic (Some demo_picture) 8 (Some demo_surface) = (Inr 0, Some t) \<and>
    copyNvBufSurfaceToHost demo_vic (Some t) 8 (Some (replicate 9 0)) = (Inr 0, Some [1, 2, 3, 4, 5, 6, 7, 8, 0])"
proof -
  have "\<forall>t i. vic_mappable demo_vic t i" by (simp add: demo_vic_def)
  from host_surface_roundtrip [OF demo_surface_ok(1) this, of 8 demo_picture "replicate 9 0"] show ?thesis
    by (simp add: demo_surface_ok(2) demo_picture_def numeral_eq_Suc)
qed

theorem short_block_overrun_witness:
  "fst (copyHostToNvBufSurface demo_vic (Some [1, 2, 3, 4, 5]) 5 (Some demo_surface)) = Inl (Undefined ''read out of range'')"
  by (rule short_block_overrun [where p = demo_plane])
    (simp_all add: demo_surface_def demo_vic_def demo_plane_def plane_ok_def row_bytes_def)

theorem vic_converts_host_pictures_witness:
  "\<exists>s'. imageCvtColorToHost (vic_graphics demo_vic) (demo_rgba 0) (demo_rgba 1) Mapped True demo_graphics = (Inr 0, s') \<and>
    vic_host s' 1 = Some [1, 2, 3, 4, 5, 6, 7, 8, 0] \<and> vic_surfaces s' = vic_surfaces demo_graphics"
proof -
  have ok: "vic_ok demo_graphics" by (simp add: vic_ok_def demo_graphics_def)
  have map: "\<forall>t i. vic_mappable demo_vic t i" by (simp add: demo_vic_def)
  have v1: "vic_view demo_vic demo_graphics (vic_next demo_graphics) (demo_rgba 0) 0 demo_picture demo_surface"
    and v2: "vic_view demo_vic demo_graphics (Suc (vic_next demo_graphics)) (demo_rgba 1) 1 (replicate 9 0) demo_surface"
    using demo_surface_ok by (simp_all add: vic_view_def demo_rgba_def makeHostImageView_def newImageView_def newImagePlane_def Let_def
        mapFormatStringToNvFormat_def formatMap_def demo_vic_def demo_graphics_def demo_picture_def)
  have tr: "\<forall>a b. same_shape demo_surface a \<longrightarrow> same_shape demo_surface b \<longrightarrow>
      (\<exists>c. vic_transform demo_vic a b = (0, c) \<and> same_shape demo_surface c \<and> surf_packed c = id (surf_packed a))"
    by (simp add: demo_vic_def)
  from vic_converts_host_pictures [OF ok map v1 v2 tr] show ?thesis
    by (force simp: demo_surface_ok(2) demo_picture_def numeral_eq_Suc)
qed

definition demo_buffer :: "nat g2d_buffer" where
  "demo_buffer = \<lparr>gb_address = 0, gb_view = demo_rgba 0, gb_native = Some (vic_native 0 (demo_rgba 0))\<rparr>"

definition guarded_graphics :: NvVicGraphics2D where
  "guarded_graphics = demo_graphics\<lparr>m_bufferMap := [0 \<mapsto> 0], vic_surfaces := [0 \<mapsto> demo_surface], vic_next := 1\<rparr>"

theorem sync_guard_transfers_witness:
  "\<exists>s1 t. newBufferSyncGuard (Some (vic_graphics demo_vic)) (Some demo_buffer) Bidirectional guarded_graphics = (Inr (), s1) \<and>
    destroyBufferSyncGuard (Some (vic_graphics demo_vic)) (Some demo_buffer) Bidirectional
      (s1\<lparr>vic_host := (vic_host s1)(0 \<mapsto> [8, 7, 6, 5, 4, 3, 2, 1])\<rparr>) =
      (Inr (), s1\<lparr>vic_host := (vic_host s1)(0 \<mapsto> [8, 7, 6, 5, 4, 3, 2, 1]), vic_surfaces := (vic_surfaces s1)(0 \<mapsto> t)\<rparr>) \<and>
    surf_packed t = [8, 7, 6, 5, 4, 3, 2, 1]"
proof -
  have b: "getG2DBufferInternal (Some demo_buffer) = Some (vic_native 0 (demo_rgba 0))" "bufferType (vic_native 0 (demo_rgba 0)) = Mapped"
    "hostPtr (vic_native 0 (demo_rgba 0)) = Some 0" "bufferSize (vic_native 0 (demo_rgba 0)) = 8"
    by (simp_all add: getG2DBufferInternal_def demo_buffer_def vic_native_def newG2DBufferInternal_def demo_rgba_def
        makeHostImageView_def newImageView_def newImagePlane_def Let_def)
  have s: "vic_host guarded_graphics 0 = Some demo_picture" "m_bufferMap guarded_graphics (gb_address demo_buffer) = Some 0"
    "vic_surfaces guarded_graphics 0 = Some demo_surface"
    by (simp_all add: guarded_graphics_def demo_graphics_def demo_buffer_def)
  have map: "\<forall>t i. vic_mappable demo_vic t i" by (simp add: demo_vic_def)
  have n: "0 < bufferSize (vic_native 0 (demo_rgba 0))" "length (surf_packed demo_surface) \<le> bufferSize (vic_native 0 (demo_rgba 0))"
    "length (surf_packed demo_surface) \<le> length demo_picture"
    "length (surf_packed demo_surface) \<le> length ([8, 7, 6, 5, 4, 3, 2, 1] :: bytes)"
    by (simp_all add: b(4) demo_surface_ok(2) demo_picture_def)
  from sync_guard_transfers [OF b(1-3) s demo_surface_ok(1) map n] show ?thesis
    by (force simp: demo_surface_ok(2))
qed

end
