(* ===== verification/TrafficCamNet.thy ===== *)
theory TrafficCamNet
  imports DnnDetector
begin

text \<open>
  The plugins for NVIDIA's TrafficCamNet (\<open>dnnObjDetector_plugins/nvidia/TensorRT/resnet18\<close>):
  \<open>Resnet18TrafficCamNet\<close>, which prepares its input with OpenCV, and \<open>NvVicResnet18TrafficCamNet\<close>, which has
  it prepared by the 2D engine. The floats of a tensor are four bytes each; \<open>of_bits\<close> and \<open>to_bits\<close>
  convert between a float and its bits, \<open>fp\<close> is the arithmetic as in \<open>YoloPostProcess\<close>. Sorting is by a
  function that is only known to sort, because \<open>std::sort\<close> leaves the order of equal scores open.
\<close>

section \<open>Floats in memory\<close>

record 'f float_bits =
  of_bits :: "u32 \<Rightarrow> 'f"
  to_bits :: "'f \<Rightarrow> u32"

definition get_float :: "'f float_bits \<Rightarrow> bytes \<Rightarrow> int \<Rightarrow> 'f result" where
  "get_float B buf i =
     (if i < 0 then Inl (Undefined ''read out of range'')
      else rbind (read_at (4 * nat i) 4 buf) (\<lambda>d. Inr (of_bits B (le_word d))))"

definition put_float :: "'f float_bits \<Rightarrow> int \<Rightarrow> 'f \<Rightarrow> bytes \<Rightarrow> bytes result" where
  "put_float B i x buf =
     (if i < 0 then Inl (Undefined ''write out of range'') else memcpy_at (4 * nat i) (le_bytes 4 (to_bits B x)) buf)"

section \<open>Preparing the input\<close>

text \<open>The planes of the three channels; \<open>pixel c h w\<close> is the byte that is read.\<close>

definition plane_cells :: "nat \<Rightarrow> nat \<Rightarrow> (nat \<times> nat \<times> nat) list" where
  "plane_cells H W = concat (map (\<lambda>c. concat (map (\<lambda>h. map (\<lambda>w. (c, h, w)) [0..<W]) [0..<H])) [0..<3])"

definition dst_index :: "nat \<Rightarrow> nat \<Rightarrow> nat \<times> nat \<times> nat \<Rightarrow> int" where
  "dst_index H W cell = (case cell of (c, h, w) \<Rightarrow> to_int32 (c * (W * H) + h * W + w))"

fun planar_loop ::
  "('f, 'd) fp \<Rightarrow> 'f float_bits \<Rightarrow> 'f \<Rightarrow> (nat \<times> nat \<times> nat \<Rightarrow> byte result) \<Rightarrow> nat \<Rightarrow> nat \<Rightarrow> (nat \<times> nat \<times> nat) list \<Rightarrow>
    bytes \<Rightarrow> bytes result" where
  "planar_loop F B scaleFactor pixel H W [] buf = Inr buf"
| "planar_loop F B scaleFactor pixel H W (cell # cells) buf =
     rbind (pixel cell) (\<lambda>v.
     rbind (put_float B (dst_index H W cell) (f_mul F (f_of_int F (uint v)) scaleFactor) buf)
       (planar_loop F B scaleFactor pixel H W cells))"

definition planar_output :: "'f ObjDetectParams \<Rightarrow> dnnInput \<Rightarrow> dnnInput" where
  "planar_output params out =
     (let n = model_input_width params * model_input_height params * model_input_channel params * 4
      in out\<lparr>in_index := 0, in_shape := \<lparr>shape_width = model_input_width params, shape_height = model_input_height params,
           shape_channel = model_input_channel params\<rparr>, in_size := n, in_dataType := ''float32'', in_buf := resize_buf n (in_buf out)\<rparr>)"

record Resnet18TrafficCamNet =
  m_labels :: "string list"
  m_labelsLoaded :: bool

definition newResnet18TrafficCamNet :: Resnet18TrafficCamNet where
  "newResnet18TrafficCamNet = \<lparr>m_labels = [], m_labelsLoaded = False\<rparr>"

text \<open>\<open>at<Vec3b>(h, w)[c]\<close> of a matrix of three channels with the bytes \<open>d\<close>.\<close>

definition mat_at :: "cvMat \<Rightarrow> bytes \<Rightarrow> nat \<times> nat \<times> nat \<Rightarrow> byte result" where
  "mat_at m d cell = (case cell of (c, h, w) \<Rightarrow> rbind (read_at (h * mat_step m + 3 * w + c) 1 d) (\<lambda>v. Inr (hd v)))"

text \<open>
  \<open>resizeTo\<close> is \<open>cv::resize\<close> to a given size, which throws for an empty one; \<open>room\<close> is the difference of a
  \<open>size_t\<close> and an \<open>int\<close>.
\<close>

definition room :: "nat \<Rightarrow> int \<Rightarrow> u64" where "room n k = word_of_nat n - word_of_int k"

definition camnet_pads :: "nat \<Rightarrow> nat \<Rightarrow> int \<Rightarrow> int \<Rightarrow> int bboxRect" where
  "camnet_pads W H newWidth newHeight =
     (let l = to_int32 (unat (room W newWidth div 2)); t = to_int32 (unat (room H newHeight div 2))
      in \<lparr>bb_left = l, bb_right = to_int32 (unat (room W newWidth - word_of_int l)),
          bb_top = t, bb_bottom = to_int32 (unat (room H newHeight - word_of_int t))\<rparr>)"

definition resnet_preProcess ::
  "('f, 'd) fp \<Rightarrow> 'f float_bits \<Rightarrow> 'f \<Rightarrow> 'f cv_ops \<Rightarrow> (int \<Rightarrow> int \<Rightarrow> cvMat \<Rightarrow> cvMat result) \<Rightarrow> ImageView \<Rightarrow>
    Resnet18TrafficCamNet \<times> 'f ObjDetectParams \<times> dnnInput \<Rightarrow>
    (Resnet18TrafficCamNet \<times> 'f ObjDetectParams \<times> dnnInput, int) outcome" where
  "resnet_preProcess F B scaleFactor cv resizeTo img st =
     (case st of (p, params, outputData) \<Rightarrow>
      if ImageView_empty img then (Inr (-1), st)
      else case toRgbMat (cv_cvtColor cv) img of
        None \<Rightarrow> (Inr (-1), st)
      | Some rgb \<Rightarrow>
          (let W = model_input_width params; H = model_input_height params;
               scaleWidth = f_div F (f_of_int F (int W)) (f_of_int F (mat_cols rgb));
               scaleHeight = f_div F (f_of_int F (int H)) (f_of_int F (mat_rows rgb));
               minScale = (if f_less F scaleHeight scaleWidth then scaleHeight else scaleWidth);
               params1 = params\<lparr>scale_width := minScale, scale_height := minScale\<rparr>
           in case rbind (float_to_int F (f_mul F (f_of_int F (mat_cols rgb)) minScale)) (\<lambda>newWidth.
                rbind (float_to_int F (f_mul F (f_of_int F (mat_rows rgb)) minScale)) (\<lambda>newHeight.
                rbind (resizeTo newWidth newHeight rgb) (\<lambda>m. Inr (newWidth, newHeight, m)))) of
                Inl e \<Rightarrow> (Inl e, (p, params1, outputData))
              | Inr (newWidth, newHeight, resized) \<Rightarrow>
                  (let pd = camnet_pads W H newWidth newHeight; params2 = params1\<lparr>pads := pd\<rparr>
                   in case copyMakeBorder cv (bb_top pd) (bb_bottom pd) (bb_left pd) (bb_right pd) resized of
                        Inl e \<Rightarrow> (Inl e, (p, params2, outputData))
                      | Inr (padded, d) \<Rightarrow>
                          (let out = planar_output params outputData
                           in case planar_loop F B scaleFactor (mat_at padded d) H W (plane_cells H W) (in_buf out) of
                                Inl e \<Rightarrow> (Inl e, (p, params2, out))
                              | Inr b \<Rightarrow> (Inr 0, (p, params2, out\<lparr>in_buf := b\<rparr>))))))"

text \<open>
  The variant on the 2D engine: stretched without a border, and the channels are taken in the opposite
  order, because the engine is taken to write blue first.
\<close>

record NvVicResnet18TrafficCamNet =
  camnet :: Resnet18TrafficCamNet
  vic_engine :: bool
  m_rgb_buffer :: bytes

definition rgba_at :: "nat \<Rightarrow> bytes \<Rightarrow> nat \<times> nat \<times> nat \<Rightarrow> byte result" where
  "rgba_at W d cell = (case cell of (c, h, w) \<Rightarrow>
     (let srcIndex = to_int32 ((h * W + w) * 4 + (2 - c))
      in if srcIndex < 0 then Inl (Undefined ''read out of range'') else rbind (read_at (nat srcIndex) 1 d) (\<lambda>v. Inr (hd v))))"

definition nvvic_preProcess ::
  "('f, 'd) fp \<Rightarrow> 'f float_bits \<Rightarrow> 'f \<Rightarrow> g2d_answers \<Rightarrow> nat \<Rightarrow> ImageView \<Rightarrow>
    NvVicResnet18TrafficCamNet \<times> 'f ObjDetectParams \<times> dnnInput \<Rightarrow>
    (NvVicResnet18TrafficCamNet \<times> 'f ObjDetectParams \<times> dnnInput, int) outcome" where
  "nvvic_preProcess F B scaleFactor ans p img st =
     (case st of (r, params, outputData) \<Rightarrow>
      if ImageView_empty img then (Inr (-1), st)
      else if \<not> vic_engine r then (Inr (-1), st)
      else
        (let W = model_input_width params; H = model_input_height params;
             params1 = params\<lparr>scale_width := f_div F (f_of_int F (int W)) (f_of_int F (uint (width (desc img)))),
               scale_height := f_div F (f_of_int F (int H)) (f_of_int F (uint (height (desc img)))),
               pads := \<lparr>bb_left = 0, bb_right = 0, bb_top = 0, bb_bottom = 0\<rparr>\<rparr>
         in case g2dResizeToHost ans True p (m_rgb_buffer r) (word_of_nat W) (word_of_nat H) ''RGBA8888'' of
              Inl e \<Rightarrow> (Inl e, (r, params1, outputData))
            | Inr (ret, storage, rgbaImage, _) \<Rightarrow>
                (let r' = r\<lparr>m_rgb_buffer := storage\<rparr>
                 in if ret \<noteq> 0 then (Inr ret, (r', params1, outputData))
                    else
                      (let out = planar_output params outputData
                       in case planar_loop F B scaleFactor (rgba_at W storage) H W (plane_cells H W) (in_buf out) of
                            Inl e \<Rightarrow> (Inl e, (r', params1, out))
                          | Inr b \<Rightarrow> (Inr 0, (r', params1, out\<lparr>in_buf := b\<rparr>))))))"

section \<open>Labels\<close>

definition is_blank :: "char \<Rightarrow> bool" where
  "is_blank c \<longleftrightarrow> c \<in> {CHR '' '', CHR 0x09, CHR 0x0D, CHR 0x0A}"

definition trim_blanks :: "string \<Rightarrow> string" where
  "trim_blanks line = rev (dropWhile is_blank (rev (dropWhile is_blank line)))"

definition loadLabels :: "string list option \<Rightarrow> Resnet18TrafficCamNet \<Rightarrow> int \<times> Resnet18TrafficCamNet" where
  "loadLabels file p =
     (if m_labelsLoaded p then (0, p)
      else case file of
        None \<Rightarrow> (-1, p)
      | Some ls \<Rightarrow> (0, p\<lparr>m_labels := filter (\<lambda>l. l \<noteq> []) (map trim_blanks ls), m_labelsLoaded := True\<rparr>))"

text \<open>\<open>std::to_string\<close> of a class, of which there are at most ten.\<close>

definition class_label :: "Resnet18TrafficCamNet \<Rightarrow> nat \<Rightarrow> string" where
  "class_label p c = (if c < length (m_labels p) then m_labels p ! c else ''Class_'' @ [char_of (48 + c mod 10)])"

section \<open>Suppression\<close>

definition area_of :: "int \<Rightarrow> int \<Rightarrow> int result" where
  "area_of w h = (if int_ok w \<and> int_ok h \<and> int_ok (w * h) then Inr (w * h) else Inl (Undefined ''int overflow''))"

definition calculateIoU :: "('f, 'd) fp \<Rightarrow> 'f ObjDetectOutputBox \<Rightarrow> 'f ObjDetectOutputBox \<Rightarrow> 'f result" where
  "calculateIoU F box1 box2 =
     (let a = out_bbox box1; b = out_bbox box2; zero = f_of_int F 0;
          x1 = max (bb_left a) (bb_left b); y1 = max (bb_top a) (bb_top b);
          x2 = min (bb_right a) (bb_right b); y2 = min (bb_bottom a) (bb_bottom b)
      in if x2 < x1 \<or> y2 < y1 then Inr zero
         else rbind (area_of (x2 - x1) (y2 - y1)) (\<lambda>i.
              rbind (area_of (bb_right a - bb_left a) (bb_bottom a - bb_top a)) (\<lambda>a1.
              rbind (area_of (bb_right b - bb_left b) (bb_bottom b - bb_top b)) (\<lambda>a2.
                let intersectionArea = f_of_int F i;
                    unionArea = f_sub F (f_add F (f_of_int F a1) (f_of_int F a2)) intersectionArea
                in Inr (if f_le F unionArea zero then zero else f_div F intersectionArea unionArea)))))"

text \<open>The boxes behind the current one with their marks, and the loop over all boxes.\<close>

fun suppress ::
  "('f, 'd) fp \<Rightarrow> 'f \<Rightarrow> 'f ObjDetectOutputBox \<Rightarrow> ('f ObjDetectOutputBox \<times> bool) list \<Rightarrow>
    ('f ObjDetectOutputBox \<times> bool) list result" where
  "suppress F thr b [] = Inr []"
| "suppress F thr b ((c, s) # rest) =
     rbind (if s \<or> out_label b \<noteq> out_label c then Inr s
       else rbind (calculateIoU F b c) (\<lambda>iou. Inr (f_less F thr iou))) (\<lambda>s'.
     rbind (suppress F thr b rest) (\<lambda>rest'. Inr ((c, s') # rest')))"

lemma length_suppress: "suppress F thr b cs = Inr cs' \<Longrightarrow> length cs' = length cs"
  by (induction F thr b cs arbitrary: cs' rule: suppress.induct) (auto simp: returns)

function (sequential) suppress_loop ::
  "('f, 'd) fp \<Rightarrow> 'f \<Rightarrow> ('f ObjDetectOutputBox \<times> bool) list \<Rightarrow> 'f ObjDetectOutputBox list result" where
  "suppress_loop F thr [] = Inr []"
| "suppress_loop F thr ((b, True) # rest) = suppress_loop F thr rest"
| "suppress_loop F thr ((b, False) # rest) =
     rbind (suppress F thr b rest) (\<lambda>rest'. rbind (suppress_loop F thr rest') (\<lambda>r. Inr (b # r)))"
  by pat_completeness auto
termination
  by (relation "measure (\<lambda>(F, thr, bs). length bs)") (auto simp: length_suppress)

text \<open>
  A score that is not a number beside two that differ breaks the order that \<open>std::sort\<close> needs.
\<close>

definition scores_ordered :: "('f, 'd) fp \<Rightarrow> 'f ObjDetectOutputBox list \<Rightarrow> bool" where
  "scores_ordered F bs \<longleftrightarrow> (\<forall>b \<in> set bs. f_le F (out_score b) (out_score b)) \<or>
     (\<forall>a \<in> set bs. \<forall>c \<in> set bs. \<not> f_less F (out_score a) (out_score c))"

definition sort_boxes ::
  "('f, 'd) fp \<Rightarrow> ('f ObjDetectOutputBox list \<Rightarrow> 'f ObjDetectOutputBox list) \<Rightarrow> 'f ObjDetectOutputBox list \<Rightarrow>
    'f ObjDetectOutputBox list result" where
  "sort_boxes F srt bs =
     (if scores_ordered F bs then Inr (srt bs)
      else Inl (Undefined ''std::sort needs a strict weak ordering''))"

definition applyNMS ::
  "('f, 'd) fp \<Rightarrow> ('f ObjDetectOutputBox list \<Rightarrow> 'f ObjDetectOutputBox list) \<Rightarrow> 'f ObjDetectOutputBox list \<Rightarrow> 'f \<Rightarrow>
    'f ObjDetectOutputBox list result" where
  "applyNMS F srt boxes nmsThreshold =
     (if boxes = [] then Inr []
      else rbind (sort_boxes F srt boxes) (\<lambda>bs. suppress_loop F nmsThreshold (map (\<lambda>b. (b, False)) bs)))"

section \<open>Reading the grid\<close>

definition f_max :: "('f, 'd) fp \<Rightarrow> 'f \<Rightarrow> 'f \<Rightarrow> 'f" where "f_max F a b = (if f_less F a b then b else a)"
definition f_min :: "('f, 'd) fp \<Rightarrow> 'f \<Rightarrow> 'f \<Rightarrow> 'f" where "f_min F a b = (if f_less F b a then b else a)"

text \<open>\<open>(i * stride + 0.5f) / 35\<close>, and the restriction to the picture.\<close>

definition cell_centre :: "('f, 'd) fp \<Rightarrow> int \<Rightarrow> int \<Rightarrow> 'f" where
  "cell_centre F stride i = f_div F (f_add F (f_of_int F (i * stride)) (narrow F (d_half F))) (f_of_int F 35)"

definition to_picture :: "('f, 'd) fp \<Rightarrow> int \<Rightarrow> 'f \<Rightarrow> 'f" where
  "to_picture F n x = f_max F (f_of_int F 0) (f_min F x (f_of_int F (n - 1)))"

definition decode_corners ::
  "('f, 'd) fp \<Rightarrow> int \<times> int \<Rightarrow> 'f \<times> 'f \<Rightarrow> 'f \<times> 'f \<times> 'f \<times> 'f \<Rightarrow> 'f \<times> 'f \<times> 'f \<times> 'f" where
  "decode_corners F network centre raw =
     (case (network, centre, raw) of ((nw, nh), (cx, cy), (x1, y1, x2, y2)) \<Rightarrow>
       (to_picture F nw (f_mul F (f_sub F x1 cx) (f_of_int F (-35))),
        to_picture F nh (f_mul F (f_sub F y1 cy) (f_of_int F (-35))),
        to_picture F nw (f_mul F (f_add F x2 cx) (f_of_int F 35)),
        to_picture F nh (f_mul F (f_add F y2 cy) (f_of_int F 35))))"

text \<open>Back to the coordinates of the source: the border is taken off and the scale undone.\<close>

definition to_source :: "('f, 'd) fp \<Rightarrow> 'f ObjDetectParams \<Rightarrow> 'f \<times> 'f \<times> 'f \<times> 'f \<Rightarrow> int bboxRect result" where
  "to_source F params corners =
     (case corners of (x1, y1, x2, y2) \<Rightarrow>
       let X = (\<lambda>x. float_to_int F (f_div F (f_sub F x (f_of_int F (bb_left (pads params)))) (scale_width params)));
           Y = (\<lambda>y. float_to_int F (f_div F (f_sub F y (f_of_int F (bb_top (pads params)))) (scale_height params)))
       in rbind (X x1) (\<lambda>l. rbind (Y y1) (\<lambda>t. rbind (X x2) (\<lambda>r. rbind (Y y2) (\<lambda>b.
            Inr \<lparr>bb_left = l, bb_right = r, bb_top = t, bb_bottom = b\<rparr>)))))"

definition cell_detection ::
  "('f, 'd) fp \<Rightarrow> 'f ObjDetectParams \<Rightarrow> 'f \<times> 'f \<Rightarrow> 'f \<times> 'f \<times> 'f \<times> 'f \<Rightarrow> 'f \<Rightarrow> string \<Rightarrow> 'f ObjDetectOutputBox option result" where
  "cell_detection F params centre raw confidence label =
     (case decode_corners F (to_int32 (model_input_width params), to_int32 (model_input_height params)) centre raw of
        (x1, y1, x2, y2) \<Rightarrow>
          if f_le F x2 x1 \<or> f_le F y2 y1 then Inr None
          else rbind (to_source F params (x1, y1, x2, y2)) (\<lambda>b.
            Inr (Some \<lparr>out_bbox = b, out_score = confidence, out_label = label\<rparr>)))"

definition grid_cell ::
  "('f, 'd) fp \<Rightarrow> 'f float_bits \<Rightarrow> Resnet18TrafficCamNet \<Rightarrow> 'f ObjDetectParams \<Rightarrow> bytes \<Rightarrow> bytes \<Rightarrow> int \<Rightarrow> int \<Rightarrow>
    nat \<times> nat \<times> nat \<Rightarrow> 'f ObjDetectOutputBox option result" where
  "grid_cell F B p params coverageBuffer bboxBuffer gridW gridH cell =
     (case cell of (c, h, w) \<Rightarrow>
       let gridSize = gridW * gridH; gridIdx = int h * gridW + int w;
           networkWidth = to_int32 (model_input_width params); networkHeight = to_int32 (model_input_height params);
           strideX = (networkWidth + gridW - 1) sdiv gridW; strideY = (networkHeight + gridH - 1) sdiv gridH;
           centre = (cell_centre F strideX (int w), cell_centre F strideY (int h));
           output = (\<lambda>k. get_float B bboxBuffer (int c * 4 * gridSize + k * gridSize + gridIdx))
       in if \<not> int_ok (int c * 4 * gridSize) then Inl (Undefined ''int overflow'')
          else rbind (get_float B coverageBuffer (int c * gridSize + gridIdx)) (\<lambda>confidence.
            if f_less F confidence (conf_threshold params) then Inr None
            else rbind (output 0) (\<lambda>x1. rbind (output 1) (\<lambda>y1. rbind (output 2) (\<lambda>x2. rbind (output 3) (\<lambda>y2.
              cell_detection F params centre (x1, y1, x2, y2) confidence (class_label p c)))))))"

fun detect_loop :: "('c \<Rightarrow> 'b option result) \<Rightarrow> 'c list \<Rightarrow> 'b list \<Rightarrow> 'b list result" where
  "detect_loop cell [] out = Inr out"
| "detect_loop cell (x # xs) out =
     rbind (cell x) (\<lambda>b. detect_loop cell xs (out @ (case b of None \<Rightarrow> [] | Some v \<Rightarrow> [v])))"

definition class_cells :: "nat \<Rightarrow> int \<Rightarrow> int \<Rightarrow> (nat \<times> nat \<times> nat) list" where
  "class_cells n gridW gridH =
     concat (map (\<lambda>c. concat (map (\<lambda>h. map (\<lambda>w. (c, h, w)) [0..<nat gridW]) [0..<nat gridH])) [0..<n])"

definition sum_ok :: "int \<Rightarrow> int \<Rightarrow> bool" where "sum_ok a b \<longleftrightarrow> int_ok (a + b) \<and> int_ok (a + b - 1)"

text \<open>The divisions by the sides of the grid and the sizes of the two vectors come before the loops.\<close>

definition parseDetectNetOutput ::
  "('f, 'd) fp \<Rightarrow> 'f float_bits \<Rightarrow> Resnet18TrafficCamNet \<Rightarrow> bytes \<Rightarrow> bytes \<Rightarrow> int \<Rightarrow> int \<Rightarrow> nat \<Rightarrow> 'f ObjDetectParams \<Rightarrow>
    'f ObjDetectOutputBox list \<Rightarrow> 'f ObjDetectOutputBox list result" where
  "parseDetectNetOutput F B p coverageBuffer bboxBuffer gridW gridH numClasses params outputData =
     (if \<not> int_ok (gridW * gridH) then Inl (Undefined ''int overflow'')
      else if gridW = 0 \<or> gridH = 0 then Inl (Undefined ''division by zero'')
      else if \<not> sum_ok (to_int32 (model_input_width params)) gridW \<or>
        \<not> sum_ok (to_int32 (model_input_height params)) gridH then Inl (Undefined ''int overflow'')
      else if gridW < 0 \<or> gridH < 0 then Inl (Throw ''length_error'')
      else detect_loop (grid_cell F B p params coverageBuffer bboxBuffer gridW gridH)
        (class_cells numClasses gridW gridH) outputData)"

section \<open>Post-processing\<close>

text \<open>The tensor with fewer bytes is the coverage.\<close>

definition pick_outputs :: "dnnOutput list \<Rightarrow> dnnOutput \<times> dnnOutput" where
  "pick_outputs ds = (if tensor_size (ds ! 0) < tensor_size (ds ! 1) then (ds ! 0, ds ! 1) else (ds ! 1, ds ! 0))"

definition isqrt :: "nat \<Rightarrow> nat" where "isqrt n = length (filter (\<lambda>r. r * r \<le> n) [1..<Suc n])"

text \<open>The grid is expected to be 60 by 34; otherwise its width is the root of its size.\<close>

definition resnet_grid :: "nat \<Rightarrow> (int \<times> int) result" where
  "resnet_grid coverageSize =
     (let gridSize = to_int32 (coverageSize div 4)
      in if gridSize = 60 * 34 then Inr (60, 34)
         else if gridSize < 0 then Inl (Undefined ''conversion out of range'')
         else
           (let gridW = int (isqrt (nat gridSize))
            in if gridW = 0 then Inl (Undefined ''division by zero'') else Inr (gridW, gridSize sdiv gridW)))"

definition resnet_postProcess ::
  "('f, 'd) fp \<Rightarrow> 'f float_bits \<Rightarrow> ('f ObjDetectOutputBox list \<Rightarrow> 'f ObjDetectOutputBox list) \<Rightarrow> string list option \<Rightarrow>
    string \<Rightarrow> 'f ObjDetectParams \<Rightarrow> dnnOutput list \<Rightarrow> Resnet18TrafficCamNet \<times> 'f ObjDetectOutputBox list \<Rightarrow>
    (Resnet18TrafficCamNet \<times> 'f ObjDetectOutputBox list, int) outcome" where
  "resnet_postProcess F B srt file labelTextPath params inputData st =
     (case st of (p, outputData) \<Rightarrow>
      if length inputData \<noteq> 2 then (Inr (-1), st)
      else
        (let p' = (if \<not> m_labelsLoaded p \<and> labelTextPath \<noteq> [] then snd (loadLabels file p) else p)
         in case pick_outputs inputData of (coverage, bbox) \<Rightarrow>
              (case (tensor_buf coverage, tensor_buf bbox) of
                 (Some cb, Some bb) \<Rightarrow>
                   (case rbind (resnet_grid (tensor_size coverage div 4)) (\<lambda>(gridW, gridH).
                      rbind (parseDetectNetOutput F B p' cb bb gridW gridH 4 params []) (\<lambda>detections.
                        applyNMS F srt detections (nms_threshold params))) of
                      Inl e \<Rightarrow> (Inl e, (p', outputData))
                    | Inr out \<Rightarrow> (Inr 0, (p', out)))
               | _ \<Rightarrow> (Inr (-1), (p', outputData)))))"

text \<open>
  In the variant the grid follows from the size of the input and a stride of 16, or the first other
  stride that fits; when none does, the grid stays as it was.
\<close>

definition stride_side :: "'f ObjDetectParams \<Rightarrow> nat \<Rightarrow> int \<times> int" where
  "stride_side params stride = (to_int32 (model_input_width params div stride), to_int32 (model_input_height params div stride))"

fun try_strides :: "'f ObjDetectParams \<Rightarrow> int \<Rightarrow> int \<times> int \<Rightarrow> nat list \<Rightarrow> (int \<times> int) result" where
  "try_strides params gridSize grid [] = Inr grid"
| "try_strides params gridSize grid (stride # strides) =
     (case stride_side params stride of (w, h) \<Rightarrow>
        if \<not> int_ok (w * h) then Inl (Undefined ''int overflow'')
        else if w * h = gridSize then Inr (w, h) else try_strides params gridSize grid strides)"

definition nvvic_grid :: "'f ObjDetectParams \<Rightarrow> nat \<Rightarrow> (int \<times> int) result" where
  "nvvic_grid params coverageSize =
     try_strides params (to_int32 (coverageSize div 4)) (stride_side params 16) [16, 8, 12, 16, 20, 24, 28, 32]"

text \<open>The search for the largest confidence only feeds a log line, but it reads the whole tensor first.\<close>

fun scan_confidence :: "'f float_bits \<Rightarrow> bytes \<Rightarrow> int list \<Rightarrow> unit result" where
  "scan_confidence B buf [] = Inr ()"
| "scan_confidence B buf (i # idx) = rbind (get_float B buf i) (\<lambda>_. scan_confidence B buf idx)"

definition nvvic_parse ::
  "('f, 'd) fp \<Rightarrow> 'f float_bits \<Rightarrow> Resnet18TrafficCamNet \<Rightarrow> bytes \<Rightarrow> bytes \<Rightarrow> int \<Rightarrow> int \<Rightarrow> nat \<Rightarrow> 'f ObjDetectParams \<Rightarrow>
    'f ObjDetectOutputBox list \<Rightarrow> 'f ObjDetectOutputBox list result" where
  "nvvic_parse F B p coverageBuffer bboxBuffer gridW gridH numClasses params outputData =
     (if int_ok (gridW * gridH) \<and> gridW \<noteq> 0 \<and> gridH \<noteq> 0
      then rbind (scan_confidence B coverageBuffer [0..int numClasses * (gridW * gridH) - 1]) (\<lambda>_.
        parseDetectNetOutput F B p coverageBuffer bboxBuffer gridW gridH numClasses params outputData)
      else parseDetectNetOutput F B p coverageBuffer bboxBuffer gridW gridH numClasses params outputData)"

definition nvvic_postProcess ::
  "('f, 'd) fp \<Rightarrow> 'f float_bits \<Rightarrow> ('f ObjDetectOutputBox list \<Rightarrow> 'f ObjDetectOutputBox list) \<Rightarrow> string list option \<Rightarrow>
    string \<Rightarrow> 'f ObjDetectParams \<Rightarrow> dnnOutput list \<Rightarrow> NvVicResnet18TrafficCamNet \<times> 'f ObjDetectOutputBox list \<Rightarrow>
    (NvVicResnet18TrafficCamNet \<times> 'f ObjDetectOutputBox list, int) outcome" where
  "nvvic_postProcess F B srt file labelTextPath params inputData st =
     (case st of (r, outputData) \<Rightarrow>
      if length inputData \<noteq> 2 then (Inr (-1), st)
      else
        (let p = camnet r;
             p' = (if \<not> m_labelsLoaded p \<and> labelTextPath \<noteq> [] then snd (loadLabels file p) else p);
             r' = r\<lparr>camnet := p'\<rparr>
         in case pick_outputs inputData of (coverage, bbox) \<Rightarrow>
              (case (tensor_buf coverage, tensor_buf bbox) of
                 (Some cb, Some bb) \<Rightarrow>
                   (case rbind (nvvic_grid params (tensor_size coverage div 4)) (\<lambda>(gridW, gridH).
                      rbind (nvvic_parse F B p' cb bb gridW gridH 4 params []) (\<lambda>detections.
                        applyNMS F srt detections (nms_threshold params))) of
                      Inl e \<Rightarrow> (Inl e, (r', outputData))
                    | Inr out \<Rightarrow> (Inr 0, (r', out)))
               | _ \<Rightarrow> (Inr (-1), (r', outputData)))))"

definition Resnet18TrafficCamNet_plugin ::
  "('f, 'd) fp \<Rightarrow> 'f float_bits \<Rightarrow> 'f \<Rightarrow> 'f cv_ops \<Rightarrow> (int \<Rightarrow> int \<Rightarrow> cvMat \<Rightarrow> cvMat result) \<Rightarrow>
    ('f ObjDetectOutputBox list \<Rightarrow> 'f ObjDetectOutputBox list) \<Rightarrow> string list option \<Rightarrow>
    (Resnet18TrafficCamNet, 'f) IDnnObjDetectorPlugin" where
  "Resnet18TrafficCamNet_plugin F B scaleFactor cv resizeTo srt file =
     \<lparr>plug_preProcess = resnet_preProcess F B scaleFactor cv resizeTo, plug_postProcess = resnet_postProcess F B srt file\<rparr>"

definition NvVicResnet18TrafficCamNet_plugin ::
  "('f, 'd) fp \<Rightarrow> 'f float_bits \<Rightarrow> 'f \<Rightarrow> g2d_answers \<Rightarrow> nat \<Rightarrow>
    ('f ObjDetectOutputBox list \<Rightarrow> 'f ObjDetectOutputBox list) \<Rightarrow> string list option \<Rightarrow>
    (NvVicResnet18TrafficCamNet, 'f) IDnnObjDetectorPlugin" where
  "NvVicResnet18TrafficCamNet_plugin F B scaleFactor ans p srt file =
     \<lparr>plug_preProcess = nvvic_preProcess F B scaleFactor ans p, plug_postProcess = nvvic_postProcess F B srt file\<rparr>"

section \<open>The suppression is greedy\<close>

definition iou_close :: "('f, 'd) fp \<Rightarrow> 'f \<Rightarrow> 'f ObjDetectOutputBox \<Rightarrow> 'f ObjDetectOutputBox \<Rightarrow> bool" where
  "iou_close F thr b c \<longleftrightarrow> out_label b = out_label c \<and> (case calculateIoU F b c of Inr iou \<Rightarrow> f_less F thr iou | Inl _ \<Rightarrow> False)"

definition unmarked :: "('b \<times> bool) list \<Rightarrow> 'b list" where
  "unmarked cs = map fst (filter (\<lambda>x. \<not> snd x) cs)"

lemma suppress_marks:
  assumes "suppress F thr b cs = Inr cs'"
  shows "cs' = map (\<lambda>(c, s). (c, s \<or> iou_close F thr b c)) cs"
  using assms by (induction F thr b cs arbitrary: cs' rule: suppress.induct) (auto simp: returns iou_close_def split: if_splits)

lemma unmarked_suppress:
  "unmarked (map (\<lambda>(c, s). (c, s \<or> iou_close F thr b c)) cs) = filter (\<lambda>c. \<not> iou_close F thr b c) (unmarked cs)"
  by (induction cs) (auto simp: unmarked_def)

lemma suppress_loop_greedy:
  assumes "suppress_loop F thr cs = Inr r"
  shows "r = greedy (iou_close F thr) (unmarked cs)"
  using assms
proof (induction F thr cs arbitrary: r rule: suppress_loop.induct)
  case (3 F thr b rest)
  obtain rest' r' where r: "suppress F thr b rest = Inr rest'" "suppress_loop F thr rest' = Inr r'" "r = b # r'"
    using "3.prems" by (auto simp: returns)
  from "3.IH" [OF r(1,2)] show ?case
    by (simp add: r(3) suppress_marks [OF r(1)] unmarked_suppress) (simp add: unmarked_def)
qed (simp_all add: unmarked_def)

text \<open>It returns when the coordinates are those of a picture: the products stay in an \<open>int\<close>.\<close>

definition box_small :: "'f ObjDetectOutputBox \<Rightarrow> bool" where
  "box_small b \<longleftrightarrow> (\<forall>x \<in> {bb_left (out_bbox b), bb_right (out_bbox b), bb_top (out_bbox b), bb_bottom (out_bbox b)}. \<bar>x\<bar> < 2 ^ 14)"

lemma area_small:
  assumes "\<bar>a\<bar> < 2 ^ 14" and "\<bar>b\<bar> < 2 ^ 14" and "\<bar>c\<bar> < 2 ^ 14" and "\<bar>d\<bar> < 2 ^ 14"
  shows "area_of (a - b) (c - d) = Inr ((a - b) * (c - d))"
proof -
  have ab: "\<bar>a - b\<bar> \<le> 2 ^ 15" and cd: "\<bar>c - d\<bar> \<le> 2 ^ 15" using assms by auto
  have "\<bar>(a - b) * (c - d)\<bar> \<le> 2 ^ 15 * 2 ^ 15"
    unfolding abs_mult by (rule mult_mono [OF ab cd]) simp_all
  then have "\<bar>(a - b) * (c - d)\<bar> \<le> 2 ^ 30" by simp
  then show ?thesis using ab cd by (simp add: area_of_def int_ok_def abs_le_iff)
qed

lemma iou_small:
  assumes "box_small b" and "box_small c"
  shows "\<exists>x. calculateIoU F b c = Inr x"
proof -
  let ?B = "out_bbox b" and ?C = "out_bbox c"
  have "\<bar>max (bb_left ?B) (bb_left ?C)\<bar> < 2 ^ 14" "\<bar>max (bb_top ?B) (bb_top ?C)\<bar> < 2 ^ 14"
    "\<bar>min (bb_right ?B) (bb_right ?C)\<bar> < 2 ^ 14" "\<bar>min (bb_bottom ?B) (bb_bottom ?C)\<bar> < 2 ^ 14"
    using assms by (auto simp: box_small_def max_def min_def)
  then show ?thesis using assms by (simp add: calculateIoU_def Let_def area_small box_small_def)
qed

lemma suppress_small:
  assumes "box_small b" and "\<forall>c \<in> set cs. box_small (fst c)"
  shows "\<exists>cs'. suppress F thr b cs = Inr cs'"
  using assms(2)
proof (induction cs)
  case (Cons x cs)
  obtain c s where x: "x = (c, s)" by (cases x)
  obtain iou where "calculateIoU F b c = Inr iou" using iou_small [OF assms(1), of c F] Cons.prems x by auto
  then show ?case using Cons x by auto
qed simp

lemma suppress_loop_small:
  assumes "\<forall>c \<in> set cs. box_small (fst c)"
  shows "\<exists>r. suppress_loop F thr cs = Inr r"
  using assms
proof (induction "length cs" arbitrary: cs rule: less_induct)
  case less
  show ?case
  proof (cases cs)
    case (Cons x rest)
    obtain b s where x: "x = (b, s)" by (cases x)
    show ?thesis
    proof (cases s)
      case True
      then show ?thesis using less Cons x by simp
    next
      case False
      obtain rest' where r: "suppress F thr b rest = Inr rest'"
        using suppress_small [of b rest F thr] less.prems Cons x by auto
      have "map fst rest' = map fst rest" using suppress_marks [OF r] by (simp add: case_prod_beta comp_def)
      then have "fst ` set rest' = fst ` set rest" by (metis set_map)
      moreover have "\<forall>c \<in> fst ` set rest. box_small c" using less.prems Cons by simp
      ultimately have "\<forall>c \<in> fst ` set rest'. box_small c" by simp
      then have "\<forall>c \<in> set rest'. box_small (fst c)" by simp
      then obtain r' where "suppress_loop F thr rest' = Inr r'"
        using less.hyps [of rest'] length_suppress [OF r] Cons by auto
      then show ?thesis using Cons x False r by simp
    qed
  qed simp
qed

definition sorts_boxes :: "('f, 'd) fp \<Rightarrow> ('f ObjDetectOutputBox list \<Rightarrow> 'f ObjDetectOutputBox list) \<Rightarrow> bool" where
  "sorts_boxes F srt \<longleftrightarrow> (\<forall>bs. mset (srt bs) = mset bs \<and>
     (scores_ordered F bs \<longrightarrow> sorted_wrt (\<lambda>a b. \<not> f_less F (out_score a) (out_score b)) (srt bs)))"

lemma unmarked_fresh [simp]: "unmarked (map (\<lambda>b. (b, False)) bs) = bs"
  by (induction bs) (simp_all add: unmarked_def)

lemma applyNMS_greedy:
  assumes "applyNMS F srt boxes thr = Inr r" and "sorts_boxes F srt"
  shows "r = greedy (iou_close F thr) (srt boxes) \<and> sorted_wrt (\<lambda>a b. \<not> f_less F (out_score a) (out_score b)) (srt boxes)"
proof (cases "boxes = []")
  case True
  have "mset (srt []) = {#}" using assms(2) by (simp add: sorts_boxes_def)
  then show ?thesis using True assms(1) by (simp add: applyNMS_def)
next
  case False
  then have "suppress_loop F thr (map (\<lambda>b. (b, False)) (srt boxes)) = Inr r" "scores_ordered F boxes"
    using assms(1) by (auto simp: applyNMS_def sort_boxes_def returns split: if_splits)
  then show ?thesis using suppress_loop_greedy [of F thr "map (\<lambda>b. (b, False)) (srt boxes)" r] assms(2) [unfolded sorts_boxes_def, THEN spec, of boxes]
    by simp
qed

text \<open>
  C32. On boxes of a picture the suppression of TrafficCamNet always returns, and what it returns is the
  greedy selection from the boxes in the order of their scores: the first box is kept, later ones of
  its class that overlap it by more than the threshold are dropped, and so on with the rest; the
  marks and the nested loops of the code compute exactly the reference the YOLO detector is held to.
\<close>

theorem camnet_nms_greedy:
  assumes "sorts_boxes F srt" and "\<forall>b \<in> set boxes. box_small b \<and> f_le F (out_score b) (out_score b)"
  shows "applyNMS F srt boxes thr = Inr (greedy (iou_close F thr) (srt boxes))"
proof -
  have "set (srt boxes) = set boxes" using assms(1) [unfolded sorts_boxes_def, THEN spec, of boxes] mset_eq_setD by blast
  then have "\<exists>r. suppress_loop F thr (map (\<lambda>b. (b, False)) (srt boxes)) = Inr r"
    using suppress_loop_small [of "map (\<lambda>b. (b, False)) (srt boxes)"] assms(2) by simp
  then have "\<exists>r. applyNMS F srt boxes thr = Inr r" using assms(2) by (auto simp: applyNMS_def sort_boxes_def scores_ordered_def)
  then show ?thesis using applyNMS_greedy [OF _ assms(1)] by blast
qed

definition exact_bits :: "rat float_bits" where
  "exact_bits = \<lparr>of_bits = (\<lambda>w. of_int (uint w)), to_bits = (\<lambda>x. word_of_int \<lfloor>x\<rfloor>)\<rparr>"

lemma exact_bits_small: "0 \<le> i \<Longrightarrow> i < 2 ^ 32 \<Longrightarrow> of_bits exact_bits (to_bits exact_bits (of_int i)) = of_int i"
  by (simp add: exact_bits_def unsigned_of_int take_bit_int_eq_self)

lemma exact_bits_byte: "of_bits exact_bits (to_bits exact_bits (f_mul exact_fp (f_of_int exact_fp (uint (v :: byte))) 1)) =
    f_mul exact_fp (f_of_int exact_fp (uint v)) 1"
proof -
  have "uint v < 256" using unsigned_less [of v] by simp
  then have v: "0 \<le> uint v" "uint v < 2 ^ 32" by simp_all
  have "f_mul exact_fp (f_of_int exact_fp i) 1 = of_int i" for i by (simp add: exact_fp_def)
  then show ?thesis using exact_bits_small [OF v] by (simp only:)
qed

definition by_score :: "rat ObjDetectOutputBox list \<Rightarrow> rat ObjDetectOutputBox list" where
  "by_score = sort_key (\<lambda>b. - out_score b)"

lemma by_score_sorts: "sorts_boxes exact_fp by_score"
  using sorted_sort_key [of "\<lambda>b :: rat ObjDetectOutputBox. - out_score b"]
  by (auto simp: sorts_boxes_def by_score_def exact_fp_def sorted_map not_less)

definition demo_box :: "int \<Rightarrow> rat \<Rightarrow> rat ObjDetectOutputBox" where
  "demo_box x s = \<lparr>out_bbox = \<lparr>bb_left = x, bb_right = x + 10, bb_top = 0, bb_bottom = 10\<rparr>, out_score = s, out_label = ''car''\<rparr>"

theorem camnet_nms_greedy_witness:
  "applyNMS exact_fp by_score [demo_box 1 (1 / 2), demo_box 0 (3 / 4), demo_box 20 (1 / 4)] (1 / 2) =
     Inr [demo_box 0 (3 / 4), demo_box 20 (1 / 4)]"
proof -
  let ?bs = "[demo_box 1 (1 / 2), demo_box 0 (3 / 4), demo_box 20 (1 / 4)]"
  have "\<forall>b \<in> set ?bs. box_small b \<and> f_le exact_fp (out_score b) (out_score b)"
    by (simp add: demo_box_def box_small_def exact_fp_def)
  from camnet_nms_greedy [OF by_score_sorts this, of "1 / 2"]
  have run: "applyNMS exact_fp by_score ?bs (1 / 2) = Inr (greedy (iou_close exact_fp (1 / 2)) (by_score ?bs))" .
  have "greedy (iou_close exact_fp (1 / 2)) (by_score ?bs) = [demo_box 0 (3 / 4), demo_box 20 (1 / 4)]" by code_simp
  then show ?thesis using run by simp
qed

section \<open>Detections\<close>

lemma detect_loop_cells:
  assumes "detect_loop cell xs out0 = Inr out"
  shows "\<exists>bs. list_all2 (\<lambda>x b. cell x = Inr b) xs bs \<and> out = out0 @ concat (map (\<lambda>b. case b of None \<Rightarrow> [] | Some v \<Rightarrow> [v]) bs)"
  using assms
proof (induction xs arbitrary: out0)
  case (Cons x xs)
  obtain b where b: "cell x = Inr b" "detect_loop cell xs (out0 @ (case b of None \<Rightarrow> [] | Some v \<Rightarrow> [v])) = Inr out"
    using Cons.prems by (auto simp: returns)
  from Cons.IH [OF b(2)] obtain bs where "list_all2 (\<lambda>x b. cell x = Inr b) xs bs"
    "out = (out0 @ (case b of None \<Rightarrow> [] | Some v \<Rightarrow> [v])) @ concat (map (\<lambda>b. case b of None \<Rightarrow> [] | Some v \<Rightarrow> [v]) bs)" by blast
  then show ?case using b(1) by (intro exI [of _ "b # bs"]) simp
qed (auto intro: exI [of _ "[]"])

lemma detect_loop_from:
  assumes "detect_loop cell xs [] = Inr out" and "d \<in> set out"
  shows "\<exists>x \<in> set xs. cell x = Inr (Some d)"
proof -
  obtain bs where bs: "list_all2 (\<lambda>x b. cell x = Inr b) xs bs" "Some d \<in> set bs"
    using detect_loop_cells [OF assms(1)] assms(2) by (auto split: option.splits)
  then obtain k where k: "k < length bs" "bs ! k = Some d" by (auto simp: in_set_conv_nth)
  then have "k < length xs" "cell (xs ! k) = Inr (Some d)" using bs(1) by (simp_all add: list_all2_conv_all_nth)
  then show ?thesis by (intro bexI [of _ "xs ! k"]) simp_all
qed

text \<open>A detection is confident and carries the label of its class.\<close>

lemma cell_detection_kept:
  assumes "cell_detection F params centre raw confidence label = Inr (Some d)"
  shows "out_score d = confidence \<and> out_label d = label"
  using assms by (auto simp: cell_detection_def returns split: prod.splits if_splits)

lemma grid_cell_detection:
  assumes "grid_cell F B p params cb bb gridW gridH cell = Inr (Some d)"
  shows "\<not> f_less F (out_score d) (conf_threshold params) \<and> out_label d = class_label p (fst cell)"
  using assms by (auto simp: grid_cell_def Let_def returns dest!: cell_detection_kept split: prod.splits if_splits)

lemma parse_detection:
  assumes "parseDetectNetOutput F B p cb bb gridW gridH n params [] = Inr raw" and "d \<in> set raw"
  shows "\<not> f_less F (out_score d) (conf_threshold params) \<and> (\<exists>c < n. out_label d = class_label p c)"
proof -
  have "detect_loop (grid_cell F B p params cb bb gridW gridH) (class_cells n gridW gridH) [] = Inr raw"
    using assms(1) by (simp add: parseDetectNetOutput_def split: if_split_asm)
  from detect_loop_from [OF this assms(2)] obtain x where x: "x \<in> set (class_cells n gridW gridH)"
    "grid_cell F B p params cb bb gridW gridH x = Inr (Some d)" by blast
  have "fst x < n" using x(1) by (auto simp: class_cells_def)
  then show ?thesis using grid_cell_detection [OF x(2)] by blast
qed

lemma camnet_postprocess:
  assumes "sorts_boxes F srt" and "resnet_postProcess F B srt file path params ds (p, out0) = (Inr 0, (p', out))"
  shows "sorted_wrt (\<lambda>a b. \<not> f_less F (out_score a) (out_score b) \<and> \<not> iou_close F (nms_threshold params) a b) out \<and>
    (\<forall>d \<in> set out. \<not> f_less F (out_score d) (conf_threshold params) \<and> (\<exists>c < 4. out_label d = class_label p' c)) \<and>
    (\<exists>grid raw. resnet_grid (tensor_size (fst (pick_outputs ds)) div 4) = Inr grid \<and>
      parseDetectNetOutput F B p' (the (tensor_buf (fst (pick_outputs ds)))) (the (tensor_buf (snd (pick_outputs ds))))
        (fst grid) (snd grid) 4 params [] = Inr raw \<and> set out \<subseteq> set raw \<and>
      (\<forall>d \<in> set raw. d \<in> set out \<or> (\<exists>k \<in> set out. iou_close F (nms_threshold params) k d)))"
proof -
  obtain coverage bbox where pick: "pick_outputs ds = (coverage, bbox)" by (cases "pick_outputs ds")
  obtain cb bb gridW gridH raw where run: "tensor_buf coverage = Some cb" "tensor_buf bbox = Some bb"
    "resnet_grid (tensor_size coverage div 4) = Inr (gridW, gridH)"
    "parseDetectNetOutput F B p' cb bb gridW gridH 4 params [] = Inr raw" "applyNMS F srt raw (nms_threshold params) = Inr out"
    using assms(2) by (auto simp: resnet_postProcess_def Let_def pick returns split: if_splits option.splits sum.splits)
  note nms = applyNMS_greedy [OF run(5) assms(1)]
  let ?close = "iou_close F (nms_threshold params)" and ?desc = "\<lambda>a b. \<not> f_less F (out_score a) (out_score b)"
  have sub: "sorted_wrt P (greedy ov xs)" if "sorted_wrt P xs" for P ov and xs :: "'a ObjDetectOutputBox list"
    using that
  proof (induction ov xs rule: greedy.induct)
    case (2 ov n ns)
    have "sorted_wrt P (filter (\<lambda>m. \<not> ov n m) ns)" using "2.prems" by (simp add: sorted_wrt_filter)
    then show ?case using "2.IH" "2.prems" greedy_subset [of ov "filter (\<lambda>m. \<not> ov n m) ns"] by auto
  qed simp
  have set: "set (srt raw) = set raw" using assms(1) [unfolded sorts_boxes_def, THEN spec, of raw] mset_eq_setD by blast
  have "sorted_wrt ?desc out" "sorted_wrt (\<lambda>a b. \<not> ?close a b) out"
    using nms sub [of ?desc "srt raw" ?close] greedy_independent [of ?close "srt raw"] by simp_all
  then have "sorted_wrt (\<lambda>a b. ?desc a b \<and> \<not> ?close a b) out" by (simp add: sorted_wrt_iff_nth_less)
  moreover have out: "set out \<subseteq> set raw" using nms greedy_subset [of ?close "srt raw"] set by simp
  moreover have "\<forall>d \<in> set out. \<not> f_less F (out_score d) (conf_threshold params) \<and> (\<exists>c < 4. out_label d = class_label p' c)"
    using parse_detection [OF run(4)] out by blast
  moreover have "\<forall>d \<in> set raw. d \<in> set out \<or> (\<exists>k \<in> set out. ?close k d)"
    using nms greedy_dominates [of _ "srt raw" ?close] set by simp
  ultimately show ?thesis using run(1-4) pick by (intro conjI exI [of _ "(gridW, gridH)"] exI [of _ raw]) simp_all
qed

text \<open>
  C31. What the post-processing of TrafficCamNet returns is ranked and separated: the detections come in
  the order of their confidence, none is below the threshold, no two of one class overlap by more
  than the limit, each carries the label of one of the four classes, and every raw detection of the
  grid that is missing overlaps a more or equally confident one of its class that is there.
\<close>

theorem camnet_detections:
  assumes "sorts_boxes F srt" and "resnet_postProcess F B srt file path params ds (p, out0) = (Inr 0, (p', out))"
  shows "sorted_wrt (\<lambda>a b. \<not> f_less F (out_score a) (out_score b) \<and> \<not> iou_close F (nms_threshold params) a b) out \<and>
    (\<forall>d \<in> set out. \<not> f_less F (out_score d) (conf_threshold params) \<and> (\<exists>c < 4. out_label d = class_label p' c)) \<and>
    (\<exists>grid raw. resnet_grid (tensor_size (fst (pick_outputs ds)) div 4) = Inr grid \<and>
      parseDetectNetOutput F B p' (the (tensor_buf (fst (pick_outputs ds)))) (the (tensor_buf (snd (pick_outputs ds))))
        (fst grid) (snd grid) 4 params [] = Inr raw \<and> set out \<subseteq> set raw \<and>
      (\<forall>d \<in> set raw. d \<in> set out \<or> (\<exists>k \<in> set out. iou_close F (nms_threshold params) k d)))"
  using assms by (rule camnet_postprocess)

definition flat_tensor :: "nat \<Rightarrow> byte \<Rightarrow> dnnOutput" where
  "flat_tensor n x = \<lparr>tensor_index = 0, tensor_buf = Some (concat (replicate n [x, 0, 0, 0])), tensor_size = 4 * n, dataType = ''float32''\<rparr>"

definition loaded_camnet :: Resnet18TrafficCamNet where
  "loaded_camnet = \<lparr>m_labels = [''car''], m_labelsLoaded = True\<rparr>"

theorem camnet_detections_witness:
  "\<exists>p' out. resnet_postProcess exact_fp exact_bits by_score None [] demo_params [flat_tensor 4 1, flat_tensor 16 1]
       (loaded_camnet, []) = (Inr 0, (p', out)) \<and> length out = 4 \<and>
     sorted_wrt (\<lambda>a b. \<not> out_score a < out_score b \<and> \<not> iou_close exact_fp (1 / 2) a b) out"
proof -
  have "(case resnet_postProcess exact_fp exact_bits by_score None [] demo_params [flat_tensor 4 1, flat_tensor 16 1]
      (loaded_camnet, []) of (ret, (p', out)) \<Rightarrow> (ret, length out)) = (Inr 0, 4)" by code_simp
  then obtain p' out where run: "resnet_postProcess exact_fp exact_bits by_score None [] demo_params
      [flat_tensor 4 1, flat_tensor 16 1] (loaded_camnet, []) = (Inr 0, (p', out))" and len: "length out = 4"
    by (auto split: prod.splits)
  have eq: "nms_threshold demo_params = 1 / 2" "f_less exact_fp = (<)" by (simp_all add: demo_params_def exact_fp_def)
  from camnet_detections [OF by_score_sorts run] have "sorted_wrt (\<lambda>a b. \<not> out_score a < out_score b \<and> \<not> iou_close exact_fp (1 / 2) a b) out"
    unfolding eq by (rule conjunct1)
  then show ?thesis using run len by blast
qed

section \<open>Reads of the tensors\<close>

lemma cell_index_bound:
  fixes gridW gridH :: int
  assumes "h < nat gridH" and "w < nat gridW"
  shows "0 \<le> int h * gridW + int w" and "int h * gridW + int w < gridW * gridH"
proof -
  have "int h * gridW \<le> (gridH - 1) * gridW" using assms by (intro mult_right_mono) simp_all
  then show "int h * gridW + int w < gridW * gridH" using assms by (simp add: algebra_simps)
  show "0 \<le> int h * gridW + int w" using assms by simp
qed

lemma coverage_bound:
  assumes "m \<le> 3 * n" and "i < n" and "16 * n \<le> l"
  shows "4 * (m + i + 1) \<le> (l :: int)"
proof -
  have "m + i + 1 \<le> 4 * n" using assms(1,2) by simp
  then show ?thesis using assms(3) by simp
qed

lemma boxes_bound:
  assumes "m \<le> 3 * n" and "i < n" and "k \<le> 3 * n" and "64 * n \<le> l"
  shows "4 * (4 * m + k + i + 1) \<le> (l :: int)"
proof -
  have "4 * m + k + i + 1 \<le> 16 * n" using assms(1-3) by simp
  then show ?thesis using assms(4) by simp
qed

lemma get_float_ok:
  assumes "0 \<le> i" and "4 * (i + 1) \<le> int (length buf)"
  shows "\<exists>x. get_float B buf i = Inr x"
  using assms by (simp add: get_float_def read_at_def)

text \<open>
  C37. No cell reads outside the tensors: when the coverage holds the four planes of the grid and the
  boxes hold sixteen, every index the code computes for a class, a row and a column lies in its
  tensor, so the only faults left are floats that do not fit an \<open>int\<close>.
\<close>

theorem camnet_reads_in_range:
  assumes "16 * (gridW * gridH) \<le> int (length cb)" and "64 * (gridW * gridH) \<le> int (length bb)"
  shows "parseDetectNetOutput F B p cb bb gridW gridH 4 params out0 \<noteq> Inl (Undefined ''read out of range'')"
proof -
  let ?cell = "grid_cell F B p params cb bb gridW gridH"
  have cell: "?cell x \<noteq> Inl (Undefined ''read out of range'')" if x: "x \<in> set (class_cells 4 gridW gridH)" for x
  proof -
    obtain c h w where xx: "x = (c, h, w)" by (cases x)
    then have b: "c < 4" "h < nat gridH" "w < nat gridW" using x by (auto simp: class_cells_def)
    note idx = cell_index_bound [OF b(2,3)]
    let ?n = "gridW * gridH" and ?i = "int h * gridW + int w"
    have n: "0 \<le> ?n" using idx by linarith
    have c: "int c * ?n \<le> 3 * ?n" using b(1) n by (intro mult_right_mono) simp_all
    have i0: "0 \<le> int c * ?n + ?i" using n idx(1) by simp
    have i1: "4 * (int c * ?n + ?i + 1) \<le> int (length cb)" by (rule coverage_bound [OF c idx(2) assms(1)])
    from get_float_ok [OF i0 i1, of B] obtain conf where conf: "get_float B cb (int c * ?n + ?i) = Inr conf" by blast
    have out: "\<exists>v. get_float B bb (int c * 4 * ?n + k * ?n + ?i) = Inr v" if "0 \<le> k" "k \<le> 3" for k
    proof (rule get_float_ok)
      have k: "k * ?n \<le> 3 * ?n" using that n by (intro mult_right_mono) simp_all
      have eq: "int c * 4 * ?n = 4 * (int c * ?n)" by simp
      show "4 * (int c * 4 * ?n + k * ?n + ?i + 1) \<le> int (length bb)"
        unfolding eq by (rule boxes_bound [OF c idx(2) k assms(2)])
      show "0 \<le> int c * 4 * ?n + k * ?n + ?i" using that n idx(1) by simp
    qed
    obtain o0 where o0: "get_float B bb (int c * 4 * ?n + 0 * ?n + ?i) = Inr o0" using out [of 0] by auto
    obtain o1 where o1: "get_float B bb (int c * 4 * ?n + 1 * ?n + ?i) = Inr o1" using out [of 1] by auto
    obtain o2 where o2: "get_float B bb (int c * 4 * ?n + 2 * ?n + ?i) = Inr o2" using out [of 2] by auto
    obtain o3 where o3: "get_float B bb (int c * 4 * ?n + 3 * ?n + ?i) = Inr o3" using out [of 3] by auto
    have fl: "float_to_int F z \<noteq> Inl (Undefined ''read out of range'')" for z
      by (simp add: float_to_int_def split: option.split)
    have src: "to_source F params q \<noteq> Inl (Undefined ''read out of range'')" for q
      by (cases q) (simp add: to_source_def returns fl)
    have det: "cell_detection F params q r u l \<noteq> Inl (Undefined ''read out of range'')" for q r u l
      by (simp add: cell_detection_def returns src split: prod.split)
    show ?thesis
      unfolding xx grid_cell_def Let_def prod.case conf o0 o1 o2 o3 rbind_simps by (simp add: det)
  qed
  have "detect_loop ?cell xs out0 \<noteq> Inl (Undefined ''read out of range'')" if "set xs \<subseteq> set (class_cells 4 gridW gridH)" for xs
    using that
  proof (induction xs arbitrary: out0)
    case (Cons x xs)
    then show ?case using cell [of x] by (cases "?cell x") (simp_all del: detect_loop.simps add: detect_loop.simps(2))
  qed simp
  then show ?thesis by (simp add: parseDetectNetOutput_def)
qed

theorem camnet_reads_in_range_witness:
  "parseDetectNetOutput exact_fp exact_bits loaded_camnet (replicate 16 0) (replicate 64 0) 1 1 4 demo_params [] \<noteq>
     Inl (Undefined ''read out of range'')"
  by (rule camnet_reads_in_range) simp_all

section \<open>The planes of the input\<close>

lemma rows_upt: "concat (map (\<lambda>h. map (\<lambda>w. a + h * W + w) [0..<W]) [0..<H]) = [a..<a + H * (W :: nat)]"
proof (induction H)
  case (Suc H)
  have "map (\<lambda>w. a + H * W + w) [0..<W] = [a + H * W..<a + H * W + W]"
    using map_add_upt [of "a + H * W" W] by (simp add: add.commute)
  moreover have "[a..<a + H * W + W] = [a..<a + H * W] @ [a + H * W..<a + H * W + W]" by (rule upt_add_eq_append) simp
  moreover have "a + Suc H * W = a + H * W + W" by simp
  ultimately show ?case using Suc by (simp only: upt_Suc le0 if_True map_append concat_append list.map concat.simps append_Nil2)
qed simp

definition plane_index :: "nat \<Rightarrow> nat \<Rightarrow> nat \<times> nat \<times> nat \<Rightarrow> nat" where
  "plane_index H W cell = (case cell of (c, h, w) \<Rightarrow> c * (W * H) + h * W + w)"

lemma plane_cells_upt: "map (plane_index H W) (plane_cells H W) = [0..<3 * (W * H)]"
proof -
  have "map (plane_index H W) (plane_cells H W) =
      concat (map (\<lambda>c. concat (map (\<lambda>h. map (\<lambda>w. c * (W * H) + h * W + w) [0..<W]) [0..<H])) [0..<3])"
    by (simp add: plane_cells_def plane_index_def map_concat comp_def)
  moreover have "concat (map (\<lambda>h. map (\<lambda>w. c * (W * H) + h * W + w) [0..<W]) [0..<H]) =
      map (\<lambda>x. 0 + c * (W * H) + x) [0..<W * H]" for c
    unfolding rows_upt using map_add_upt [of "c * (W * H)" "W * H"] by (simp add: mult.commute add.commute)
  ultimately have "map (plane_index H W) (plane_cells H W) = concat (map (\<lambda>c. map (\<lambda>x. 0 + c * (W * H) + x) [0..<W * H]) [0..<3])"
    by (simp only:)
  also have "\<dots> = [0..<0 + 3 * (W * H)]" by (rule rows_upt)
  finally show ?thesis by simp
qed

lemma to_int32_small: "n < 2 ^ 31 \<Longrightarrow> to_int32 n = int n"
  unfolding to_int32_def by (simp add: sint_word_of_nat signed_take_bit_int_eq_self)

lemma dst_index_distinct:
  assumes "3 * (W * H) < 2 ^ 31"
  shows "distinct (map (dst_index H W) (plane_cells H W))"
    and "x \<in> set (plane_cells H W) \<Longrightarrow> dst_index H W x = int (plane_index H W x)"
proof -
  have small: "plane_index H W x < 2 ^ 31" if "x \<in> set (plane_cells H W)" for x
  proof -
    have "plane_index H W x \<in> set (map (plane_index H W) (plane_cells H W))" using that by simp
    then show ?thesis unfolding plane_cells_upt using assms by simp
  qed
  then show eq: "dst_index H W x = int (plane_index H W x)" if "x \<in> set (plane_cells H W)" for x
    using to_int32_small [OF small [OF that]] by (simp add: dst_index_def plane_index_def case_prod_beta)
  have "map (dst_index H W) (plane_cells H W) = map int (map (plane_index H W) (plane_cells H W))" using eq by simp
  then show "distinct (map (dst_index H W) (plane_cells H W))" unfolding plane_cells_upt by (simp add: distinct_map)
qed

lemma put_then_get:
  assumes "put_float B i x buf = Inr buf'"
  shows "length buf' = length buf" and "get_float B buf' i = Inr (of_bits B (to_bits B x))"
    and "j \<noteq> i \<Longrightarrow> get_float B buf' j = get_float B buf j"
proof -
  have i: "0 \<le> i" and m: "memcpy_at (4 * nat i) (le_bytes 4 (to_bits B x)) buf = Inr buf'"
    using assms by (simp_all add: put_float_def split: if_split_asm)
  note mem = memcpy_at_Inr [OF m]
  show len: "length buf' = length buf" by (rule mem(1))
  have "4 * nat i + 4 \<le> length buf" using m by (simp add: memcpy_at_def split: if_split_asm)
  then show "get_float B buf' i = Inr (of_bits B (to_bits B x))" using mem(1,2) i by (simp add: get_float_def read_at_def)
  show "get_float B buf' j = get_float B buf j" if "j \<noteq> i"
  proof (cases "j < 0")
    case False
    then have "4 * nat j + 4 \<le> 4 * nat i \<or> 4 * nat i + 4 \<le> 4 * nat j" using that i by arith
    then have "take 4 (drop (4 * nat j) buf') = take 4 (drop (4 * nat j) buf)" using mem(3) [of "4 * nat j" 4] by simp
    then show ?thesis using len by (simp add: get_float_def read_at_def)
  qed (simp add: get_float_def)
qed

lemma planar_loop_values:
  assumes "planar_loop F B sf pixel H W cells buf = Inr buf'" and "distinct (map (dst_index H W) cells)"
    and "\<forall>v :: byte. of_bits B (to_bits B (f_mul F (f_of_int F (uint v)) sf)) = f_mul F (f_of_int F (uint v)) sf"
  shows "length buf' = length buf \<and> (\<forall>j. j \<notin> dst_index H W ` set cells \<longrightarrow> get_float B buf' j = get_float B buf j) \<and>
    (\<forall>x \<in> set cells. \<exists>v. pixel x = Inr v \<and> get_float B buf' (dst_index H W x) = Inr (f_mul F (f_of_int F (uint v)) sf))"
  using assms(1,2)
proof (induction cells arbitrary: buf)
  case (Cons x cells)
  obtain v buf1 where v: "pixel x = Inr v" and put: "put_float B (dst_index H W x) (f_mul F (f_of_int F (uint v)) sf) buf = Inr buf1"
    and rest: "planar_loop F B sf pixel H W cells buf1 = Inr buf'"
    using Cons.prems(1) by (auto simp: returns)
  note p = put_then_get [OF put]
  have IH: "length buf' = length buf1" "\<And>j. j \<notin> dst_index H W ` set cells \<Longrightarrow> get_float B buf' j = get_float B buf1 j"
    "\<forall>x \<in> set cells. \<exists>v. pixel x = Inr v \<and> get_float B buf' (dst_index H W x) = Inr (f_mul F (f_of_int F (uint v)) sf)"
    using Cons.IH [OF rest] Cons.prems(2) by simp_all
  have x: "dst_index H W x \<notin> dst_index H W ` set cells" using Cons.prems(2) by simp
  have "get_float B buf' (dst_index H W x) = Inr (f_mul F (f_of_int F (uint v)) sf)"
    using IH(2) [OF x] p(2) assms(3) by simp
  then show ?case using IH p(1,3) v by auto
qed simp

lemma planar_pixels:
  assumes "planar_loop F B sf pixel H W (plane_cells H W) buf = Inr buf'" and "3 * (W * H) < 2 ^ 31"
    and "\<forall>v :: byte. of_bits B (to_bits B (f_mul F (f_of_int F (uint v)) sf)) = f_mul F (f_of_int F (uint v)) sf"
  shows "\<forall>c < 3. \<forall>h < H. \<forall>w < W. \<exists>v. pixel (c, h, w) = Inr v \<and>
    get_float B buf' (int (c * (W * H) + h * W + w)) = Inr (f_mul F (f_of_int F (uint v)) sf)"
proof (intro allI impI)
  fix c h w
  assume "c < (3 :: nat)" "h < H" "w < W"
  then have x: "(c, h, w) \<in> set (plane_cells H W)" by (simp add: plane_cells_def image_iff)
  note d = dst_index_distinct [OF assms(2)]
  show "\<exists>v. pixel (c, h, w) = Inr v \<and> get_float B buf' (int (c * (W * H) + h * W + w)) = Inr (f_mul F (f_of_int F (uint v)) sf)"
    using planar_loop_values [OF assms(1) d(1) assms(3)] x d(2) [OF x] by (auto simp: plane_index_def)
qed

text \<open>
  C36. The input of the network is the picture in planes: when the preparation with OpenCV succeeds,
  the float at channel \<open>c\<close>, row \<open>h\<close>, column \<open>w\<close> of the tensor is the scaled byte of that channel and
  position of the bordered picture, for all of them, and the tensor has the declared size.
\<close>

theorem camnet_input_planar:
  assumes "resnet_preProcess F B sf cv resizeTo img (p, params, out0) = (Inr 0, (p', params', out))"
    and "3 * (model_input_width params * model_input_height params) < 2 ^ 31"
    and "\<forall>v :: byte. of_bits B (to_bits B (f_mul F (f_of_int F (uint v)) sf)) = f_mul F (f_of_int F (uint v)) sf"
  shows "\<exists>padded d. (\<exists>t b l r m. cv_border cv t b l r m = (padded, d)) \<and>
    in_size out = model_input_width params * model_input_height params * model_input_channel params * 4 \<and>
    length (in_buf out) = in_size out \<and>
    (\<forall>c < 3. \<forall>h < model_input_height params. \<forall>w < model_input_width params. \<exists>v. mat_at padded d (c, h, w) = Inr v \<and>
      get_float B (in_buf out) (int (c * (model_input_width params * model_input_height params) + h * model_input_width params + w)) =
        Inr (f_mul F (f_of_int F (uint v)) sf))"
proof -
  let ?W = "model_input_width params" and ?H = "model_input_height params"
  obtain t b l r m padded d buf where border: "copyMakeBorder cv t b l r m = Inr (padded, d)"
    and run: "planar_loop F B sf (mat_at padded d) ?H ?W (plane_cells ?H ?W) (in_buf (planar_output params out0)) = Inr buf"
    and out: "out = (planar_output params out0)\<lparr>in_buf := buf\<rparr>"
    using assms(1) by (auto simp: resnet_preProcess_def Let_def split: if_split_asm option.split_asm sum.split_asm prod.split_asm)
  have len: "length buf = length (in_buf (planar_output params out0))"
    using planar_loop_values [OF run dst_index_distinct(1) [OF assms(2)] assms(3)] by simp
  have "cv_border cv t b l r m = (padded, d)" using border by (simp add: copyMakeBorder_def split: if_split_asm)
  moreover have "in_size out = ?W * ?H * model_input_channel params * 4" "length (in_buf out) = in_size out"
    using len by (simp_all add: out planar_output_def resize_buf_def Let_def)
  ultimately show ?thesis
    using planar_pixels [OF run assms(2,3)] out by (intro exI [of _ padded] exI [of _ d] conjI) (blast | simp)+
qed

definition square_picture :: ImageView where
  "square_picture = makeHostImageView (Some 1) \<lparr>width = 2, height = 2, widthStride = 2, heightStride = 2,
     format = ''RGB888'', dataSize = 12\<rparr> 6 ReadOnly"

definition tiny_params :: "rat ObjDetectParams" where
  "tiny_params = demo_params\<lparr>model_input_width := 2, model_input_height := 2\<rparr>"

definition demo_resize :: "int \<Rightarrow> int \<Rightarrow> cvMat \<Rightarrow> cvMat result" where
  "demo_resize w h m = Inr (m\<lparr>mat_rows := h, mat_cols := w\<rparr>)"

theorem camnet_input_planar_witness:
  "\<exists>p' params' out. resnet_preProcess exact_fp exact_bits 1 demo_cv demo_resize square_picture (loaded_camnet, tiny_params, newDnnInput) =
       (Inr 0, (p', params', out)) \<and> length (in_buf out) = 48 \<and>
     (\<forall>c < 3. \<forall>h < 2. \<forall>w < 2. \<exists>v :: byte. get_float exact_bits (in_buf out) (int (c * 4 + h * 2 + w)) = Inr (of_int (uint v)))"
proof -
  have "(case resnet_preProcess exact_fp exact_bits 1 demo_cv demo_resize square_picture (loaded_camnet, tiny_params, newDnnInput) of
      (ret, (p', params', out)) \<Rightarrow> ret) = Inr 0" by code_simp
  then obtain p' params' out where run: "resnet_preProcess exact_fp exact_bits 1 demo_cv demo_resize square_picture
      (loaded_camnet, tiny_params, newDnnInput) = (Inr 0, (p', params', out))" by (auto split: prod.splits)
  have sizes: "model_input_width tiny_params = 2" "model_input_height tiny_params = 2" "model_input_channel tiny_params = 3"
    by (simp_all add: tiny_params_def demo_params_def)
  have small: "3 * (model_input_width tiny_params * model_input_height tiny_params) < 2 ^ 31" by (simp add: sizes)
  have f: "f_mul exact_fp (f_of_int exact_fp i) 1 = of_int i" for i by (simp add: exact_fp_def)
  from camnet_input_planar [OF run small] exact_bits_byte show ?thesis
    using run unfolding sizes f by fastforce
qed

text \<open>The same for the variant; its first plane holds the third byte of each pixel.\<close>

lemma nvvic_input_planar:
  assumes "nvvic_preProcess F B sf ans k img (r, params, out0) = (Inr 0, (r', params', out))"
    and "3 * (model_input_width params * model_input_height params) < 2 ^ 31"
    and "\<forall>v :: byte. of_bits B (to_bits B (f_mul F (f_of_int F (uint v)) sf)) = f_mul F (f_of_int F (uint v)) sf"
  shows "\<forall>c < 3. \<forall>h < model_input_height params. \<forall>w < model_input_width params. \<exists>v.
    rgba_at (model_input_width params) (m_rgb_buffer r') (c, h, w) = Inr v \<and>
    get_float B (in_buf out) (int (c * (model_input_width params * model_input_height params) + h * model_input_width params + w)) =
      Inr (f_mul F (f_of_int F (uint v)) sf)"
proof -
  let ?W = "model_input_width params" and ?H = "model_input_height params"
  obtain buf where run: "planar_loop F B sf (rgba_at ?W (m_rgb_buffer r')) ?H ?W (plane_cells ?H ?W) (in_buf (planar_output params out0)) = Inr buf"
    and out: "in_buf out = buf"
    using assms(1) by (auto simp: nvvic_preProcess_def Let_def split: if_split_asm sum.split_asm prod.split_asm)
  show ?thesis using planar_pixels [OF run assms(2,3)] out by simp
qed

section \<open>Grids that do not fit\<close>

text \<open>A coverage of less than four floats leaves a grid without columns, by which the code divides.\<close>

lemma empty_grid_divides: "n < 4 \<Longrightarrow> resnet_grid n = Inl (Undefined ''division by zero'')"
  by (simp add: resnet_grid_def to_int32_def isqrt_def Let_def)

text \<open>Seventeen cells are taken for four by four, and the planes of the tensor for shorter than they are.\<close>

lemma odd_grid_shrinks: "resnet_grid 68 = Inr (4, 4)"
  by code_simp

text \<open>The variant keeps the grid it has computed when no stride fits, and reads a smaller tensor over its end.\<close>

lemma scan_fails:
  assumes "i \<in> set idx" and "\<forall>x. get_float B buf i \<noteq> Inr x"
  shows "scan_confidence B buf idx = Inl (Undefined ''read out of range'')"
  using assms(1)
proof (induction idx)
  case (Cons j idx)
  have err: "get_float B buf k = Inl (Undefined ''read out of range'')" if "\<forall>x. get_float B buf k \<noteq> Inr x" for k
    using that by (auto simp: get_float_def read_at_def split: if_splits)
  show ?case
  proof (cases "get_float B buf j")
    case (Inl e)
    then show ?thesis using err [of j] by simp
  next
    case (Inr x)
    then show ?thesis using Cons assms(2) by auto
  qed
qed simp

lemma nvvic_small_tensor:
  assumes "int_ok (gridW * gridH)" and "0 < gridW * gridH" and "int (length cb) < 16 * (gridW * gridH)"
  shows "nvvic_parse F B p cb bb gridW gridH 4 params out0 = Inl (Undefined ''read out of range'')"
proof -
  let ?i = "4 * (gridW * gridH) - 1"
  have "scan_confidence B cb [0..4 * (gridW * gridH) - 1] = Inl (Undefined ''read out of range'')"
  proof (rule scan_fails)
    show "?i \<in> set [0..4 * (gridW * gridH) - 1]" using assms(2) by simp
    have "length cb < 4 * nat ?i + 4" using assms(2,3) by linarith
    then show "\<forall>x. get_float B cb ?i \<noteq> Inr x" using assms(2) by (simp add: get_float_def read_at_def)
  qed
  then show ?thesis using assms(1,2) by (auto simp: nvvic_parse_def)
qed

text \<open>A score that is not a number passes the threshold and leaves the sort of the others without meaning.\<close>

lemma nan_score_undefined:
  assumes "b \<in> set boxes" and "\<not> f_le F (out_score b) (out_score b)"
    and "a \<in> set boxes" and "c \<in> set boxes" and "f_less F (out_score a) (out_score c)"
  shows "applyNMS F srt boxes thr = Inl (Undefined ''std::sort needs a strict weak ordering'')"
  using assms by (auto simp: applyNMS_def sort_boxes_def scores_ordered_def)

end
