(* ===== verification/TensorRT.thy ===== *)
theory TensorRT
  imports TrafficCamNet
begin

text \<open>
  The engine \<open>dnnEngine_impl/tensorrt\<close>. TensorRT and CUDA are not part of the repository: what their calls
  answer is in \<open>trt_answers\<close>. Device memory is a map from blocks to their bytes, an object keeps the number
  of a block where the code keeps a pointer. How many objects of the library and how many blocks of
  host memory exist is counted, so that leaks are visible. As the library documents it, an inference
  reads and writes the blocks whose addresses have been set, and fails when one is missing.
\<close>

section \<open>The library\<close>

datatype TensorIOMode = kNONE | kINPUT | kOUTPUT

datatype trt_DataType = kFLOAT | kHALF | kINT8 | kINT32 | kBOOL | kUINT8 | kFP8 | kBF16 | kINT64

record trt_tensor =
  tensor_name :: string
  io_mode :: TensorIOMode
  tensor_dims :: "int list"
  tensor_type :: trt_DataType

text \<open>The answers about a name the engine does not know: no dimensions, and the type \<open>kFLOAT\<close>.\<close>

definition getTensorShape :: "trt_tensor list \<Rightarrow> string \<Rightarrow> int list" where
  "getTensorShape eng n = (case find (\<lambda>t. tensor_name t = n) eng of None \<Rightarrow> [] | Some t \<Rightarrow> tensor_dims t)"

definition getTensorDataType :: "trt_tensor list \<Rightarrow> string \<Rightarrow> trt_DataType" where
  "getTensorDataType eng n = (case find (\<lambda>t. tensor_name t = n) eng of None \<Rightarrow> kFLOAT | Some t \<Rightarrow> tensor_type t)"

record trt_answers =
  ans_file :: "bytes option"
  ans_runtime :: bool
  ans_deserialize :: "bytes \<Rightarrow> trt_tensor list option"
  ans_builder :: bool
  ans_definition :: bool
  ans_parser :: bool
  ans_parse :: bool
  ans_config :: bool
  ans_serialize :: "bytes option"
  ans_context :: bool
  ans_cudaMalloc :: "int \<Rightarrow> bytes option"
  ans_malloc :: "nat \<Rightarrow> bool"
  ans_copy_in :: bool
  ans_address :: "string \<Rightarrow> bool"
  ans_enqueue :: bool
  ans_network :: "bytes list \<Rightarrow> string \<Rightarrow> bytes"
  ans_sync :: bool
  ans_copy_out :: "nat \<Rightarrow> bool"

section \<open>The state\<close>

record tensorrt =
  m_runtime :: bool
  m_engine :: "trt_tensor list option"
  m_context :: bool
  m_deviceBuffers :: "nat option list"
  m_inputIndex :: int
  m_outputIndices :: "int list"
  m_numInputs :: nat
  m_numOutputs :: nat
  m_inputName :: string
  m_outputNames :: "string list"
  m_inputDims :: "int list option"
  m_outputDims :: "int list list"
  m_inputSize :: u64
  m_outputSizes :: "u64 list"
  m_hostOutputBuffers :: "nat option list"
  cuda_memory :: "nat \<Rightarrow> bytes option"
  cuda_next :: nat
  tensor_address :: "string \<Rightarrow> nat option"
  trt_objects :: nat
  host_blocks :: nat

text \<open>Only the first of the eight indices starts at -1.\<close>

definition newTensorrt :: tensorrt where
  "newTensorrt = \<lparr>m_runtime = False, m_engine = None, m_context = False, m_deviceBuffers = replicate 10 None,
     m_inputIndex = -1, m_outputIndices = -1 # replicate 7 0, m_numInputs = 0, m_numOutputs = 0, m_inputName = [],
     m_outputNames = [], m_inputDims = None, m_outputDims = [], m_inputSize = 0, m_outputSizes = [],
     m_hostOutputBuffers = [], cuda_memory = Map.empty, cuda_next = 0, tensor_address = Map.empty,
     trt_objects = 0, host_blocks = 0\<rparr>"

definition trt_freeBuffers :: "tensorrt \<Rightarrow> tensorrt" where
  "trt_freeBuffers s =
     s\<lparr>cuda_memory := (\<lambda>b. if Some b \<in> set (m_deviceBuffers s) then None else cuda_memory s b),
       m_deviceBuffers := map (\<lambda>_. None) (m_deviceBuffers s),
       host_blocks := host_blocks s - length (filter (\<lambda>b. b \<noteq> None) (m_hostOutputBuffers s)), m_hostOutputBuffers := []\<rparr>"

definition destroyTensorrt :: "tensorrt \<Rightarrow> tensorrt" where
  "destroyTensorrt s =
     (let s1 = trt_freeBuffers s
      in s1\<lparr>trt_objects := trt_objects s1 - ((if m_context s1 then 1 else 0) + (if m_engine s1 \<noteq> None then 1 else 0) +
             (if m_runtime s1 then 1 else 0)),
           m_context := False, m_engine := None, m_runtime := False\<rparr>)"

section \<open>Sizes and buffers\<close>

definition type_bytes :: "trt_DataType \<Rightarrow> u64" where
  "type_bytes t = (case t of kFLOAT \<Rightarrow> 4 | kHALF \<Rightarrow> 2 | kINT8 \<Rightarrow> 1 | kINT32 \<Rightarrow> 4 | _ \<Rightarrow> 1)"

definition getBindingSize :: "int \<Rightarrow> tensorrt \<Rightarrow> u64 result" where
  "getBindingSize index s =
     (case (if index = m_inputIndex s then Some (m_inputName s)
            else map_of (zip (take (m_numOutputs s) (m_outputIndices s)) (m_outputNames s)) index) of
        None \<Rightarrow> Inr 0
      | Some n \<Rightarrow>
          (case m_engine s of
             None \<Rightarrow> Inl (Undefined ''null dereference'')
           | Some eng \<Rightarrow> Inr (foldl (\<lambda>size' d. size' * word_of_int d) 1 (getTensorShape eng n) * type_bytes (getTensorDataType eng n))))"

text \<open>The result of \<open>cudaMalloc\<close> is not looked at; when it fails the pointer stays as it was.\<close>

definition cudaMalloc :: "trt_answers \<Rightarrow> int \<Rightarrow> u64 \<Rightarrow> tensorrt \<Rightarrow> (tensorrt, unit) outcome" where
  "cudaMalloc ans index n s =
     (if index < 0 \<or> 10 \<le> index then (Inl (Undefined ''index out of range''), s)
      else case ans_cudaMalloc ans index of
        None \<Rightarrow> (Inr (), s)
      | Some fill \<Rightarrow>
          (Inr (), s\<lparr>m_deviceBuffers := (m_deviceBuffers s)[nat index := Some (cuda_next s)],
             cuda_memory := (cuda_memory s)(cuda_next s \<mapsto> resize_buf (unat n) fill), cuda_next := cuda_next s + 1\<rparr>))"

definition resize_with :: "'a \<Rightarrow> nat \<Rightarrow> 'a list \<Rightarrow> 'a list" where
  "resize_with x n xs = take n xs @ replicate (n - length xs) x"

definition host_malloc :: "trt_answers \<Rightarrow> nat \<Rightarrow> u64 \<Rightarrow> tensorrt \<Rightarrow> tensorrt" where
  "host_malloc ans i n s =
     (if ans_malloc ans i
      then s\<lparr>m_hostOutputBuffers := (m_hostOutputBuffers s)[i := Some (unat n)], host_blocks := host_blocks s + 1\<rparr>
      else s\<lparr>m_hostOutputBuffers := (m_hostOutputBuffers s)[i := None]\<rparr>)"

fun allocate_outputs :: "trt_answers \<Rightarrow> nat list \<Rightarrow> tensorrt \<Rightarrow> (tensorrt, unit) outcome" where
  "allocate_outputs ans [] s = (Inr (), s)"
| "allocate_outputs ans (i # rest) s =
     (let bindingIdx = m_outputIndices s ! i
      in case getBindingSize bindingIdx s of
           Inl e \<Rightarrow> (Inl e, s)
         | Inr n \<Rightarrow>
             andthen (cudaMalloc ans bindingIdx n (s\<lparr>m_outputSizes := (m_outputSizes s)[i := n]\<rparr>)) (\<lambda>_ s'.
               allocate_outputs ans rest (host_malloc ans i n s')))"

definition allocateBuffers :: "trt_answers \<Rightarrow> tensorrt \<Rightarrow> (tensorrt, unit) outcome" where
  "allocateBuffers ans s =
     (case getBindingSize (m_inputIndex s) s of
        Inl e \<Rightarrow> (Inl e, s)
      | Inr n \<Rightarrow>
          andthen (cudaMalloc ans (m_inputIndex s) n (s\<lparr>m_inputSize := n\<rparr>)) (\<lambda>_ s'.
            allocate_outputs ans [0..<m_numOutputs s']
              (s'\<lparr>m_outputSizes := resize_with 0 (m_numOutputs s') (m_outputSizes s'),
                 m_hostOutputBuffers := resize_with None (m_numOutputs s') (m_hostOutputBuffers s')\<rparr>)))"

section \<open>Loading\<close>

text \<open>\<open>createInferRuntime\<close> and \<open>deserializeCudaEngine\<close> overwrite the pointers of an earlier load.\<close>

definition create_runtime :: "trt_answers \<Rightarrow> tensorrt \<Rightarrow> tensorrt" where
  "create_runtime ans s = s\<lparr>m_runtime := ans_runtime ans, trt_objects := trt_objects s + (if ans_runtime ans then 1 else 0)\<rparr>"

definition deserialize_engine :: "trt_answers \<Rightarrow> bytes \<Rightarrow> tensorrt \<Rightarrow> tensorrt" where
  "deserialize_engine ans d s =
     s\<lparr>m_engine := ans_deserialize ans d, trt_objects := trt_objects s + (if ans_deserialize ans d \<noteq> None then 1 else 0)\<rparr>"

definition loadEngineFromFile :: "trt_answers \<Rightarrow> tensorrt \<Rightarrow> tensorrt \<times> bool" where
  "loadEngineFromFile ans s =
     (case ans_file ans of
        None \<Rightarrow> (s, False)
      | Some d \<Rightarrow>
          (let s1 = create_runtime ans s
           in if \<not> m_runtime s1 then (s1, False)
              else (let s2 = deserialize_engine ans d s1 in (s2, m_engine s2 \<noteq> None))))"

text \<open>
  The builder, the network, the parser and the configuration are deleted at the end and when the
  serialisation fails, but not when the parser does. Their pointers are used without a test.
\<close>

definition buildEngineFromOnnx :: "trt_answers \<Rightarrow> tensorrt \<Rightarrow> (tensorrt, bool) outcome" where
  "buildEngineFromOnnx ans s =
     (let s1 = create_runtime ans s
      in if \<not> m_runtime s1 then (Inr False, s1)
         else if \<not> ans_builder ans \<or> \<not> ans_definition ans \<or> \<not> ans_parser ans
         then (Inl (Undefined ''null dereference''), s1)
         else
           (let s2 = s1\<lparr>trt_objects := trt_objects s1 + 3\<rparr>
            in if \<not> ans_parse ans then (Inr False, s2)
               else if \<not> ans_config ans then (Inl (Undefined ''null dereference''), s2)
               else case ans_serialize ans of
                 None \<Rightarrow> (Inr False, s1)
               | Some d \<Rightarrow> (let s3 = deserialize_engine ans d s1 in (Inr (m_engine s3 \<noteq> None), s3))))"

definition file_extension :: "string \<Rightarrow> string" where
  "file_extension path = rev (takeWhile (\<lambda>c. c \<noteq> CHR ''.'') (rev path))"

fun read_tensors :: "trt_tensor list \<Rightarrow> nat list \<Rightarrow> tensorrt \<Rightarrow> (tensorrt, unit) outcome" where
  "read_tensors eng [] s = (Inr (), s)"
| "read_tensors eng (i # rest) s =
     (let n = tensor_name (eng ! i)
      in case io_mode (eng ! i) of
           kINPUT \<Rightarrow> read_tensors eng rest
             (s\<lparr>m_inputIndex := int i, m_inputName := n, m_inputDims := Some (getTensorShape eng n), m_numInputs := m_numInputs s + 1\<rparr>)
         | kOUTPUT \<Rightarrow>
             if 8 \<le> m_numOutputs s then (Inl (Undefined ''index out of range''), s)
             else read_tensors eng rest
               (s\<lparr>m_outputIndices := (m_outputIndices s)[m_numOutputs s := int i], m_outputNames := m_outputNames s @ [n],
                  m_outputDims := m_outputDims s @ [getTensorShape eng n], m_numOutputs := m_numOutputs s + 1\<rparr>)
         | kNONE \<Rightarrow> read_tensors eng rest s)"

definition trt_prepare :: "trt_answers \<Rightarrow> tensorrt \<Rightarrow> (tensorrt, unit) outcome" where
  "trt_prepare ans s =
     (case m_engine s of
        None \<Rightarrow> (Inl (Undefined ''null dereference''), s)
      | Some eng \<Rightarrow>
          (let s1 = s\<lparr>m_context := ans_context ans, trt_objects := trt_objects s + (if ans_context ans then 1 else 0)\<rparr>
           in if \<not> m_context s1 then (Inl (Throw ''Failed to create execution context.''), s1)
              else andthen (read_tensors eng [0..<length eng] (s1\<lparr>m_numInputs := 0, m_numOutputs := 0\<rparr>)) (\<lambda>_. allocateBuffers ans)))"

definition trt_loadModel :: "trt_answers \<Rightarrow> string \<Rightarrow> tensorrt \<Rightarrow> (tensorrt, unit) outcome" where
  "trt_loadModel ans modelPath s =
     (if modelPath = [] then (Inl (Throw ''modelPath is empty.''), s)
      else
        andthen
          (if file_extension modelPath = ''engine'' then (case loadEngineFromFile ans s of (s1, ok) \<Rightarrow> (Inr ok, s1))
           else if file_extension modelPath = ''onnx'' then buildEngineFromOnnx ans s
           else (Inl (Throw ''Unsupported model format. Use .engine or .onnx''), s))
          (\<lambda>ok s1. if \<not> ok then (Inl (Throw ''Failed to load model.''), s1) else trt_prepare ans s1))"

section \<open>Inference\<close>

text \<open>The dimensions are stored as \<open>size_t\<close>; a negative one, which stands for an open dimension, wraps.\<close>

definition trt_dim :: "int \<Rightarrow> nat" where "trt_dim d = unat (word_of_int d :: u64)"

definition trt_getInputShape :: "tensorrt \<Rightarrow> (int \<times> dnnInputShape) result" where
  "trt_getInputShape s =
     (case m_inputDims s of
        None \<Rightarrow> Inl (Undefined ''uninitialised read'')
      | Some [_, c, h, w] \<Rightarrow> Inr (0, \<lparr>shape_width = trt_dim w, shape_height = trt_dim h, shape_channel = trt_dim c\<rparr>)
      | Some [c, h, w] \<Rightarrow> Inr (0, \<lparr>shape_width = trt_dim w, shape_height = trt_dim h, shape_channel = trt_dim c\<rparr>)
      | _ \<Rightarrow> Inr (-1, in_shape newDnnInput))"

definition trt_getOutputQuantParams :: "'f \<Rightarrow> int list \<Rightarrow> 'f list \<Rightarrow> tensorrt \<Rightarrow> (int \<times> int list \<times> 'f list) result" where
  "trt_getOutputQuantParams one zeroPoints scales s =
     Inr (0, zeroPoints @ replicate (m_numOutputs s) 0, scales @ replicate (m_numOutputs s) one)"

text \<open>The pointer in \<open>m_deviceBuffers\<close>, which has ten entries.\<close>

definition device_buffer :: "int \<Rightarrow> tensorrt \<Rightarrow> nat option result" where
  "device_buffer index s =
     (if index < 0 \<or> 10 \<le> index then Inl (Undefined ''index out of range'') else Inr (m_deviceBuffers s ! nat index))"

definition setTensorAddress :: "trt_answers \<Rightarrow> string \<Rightarrow> nat option \<Rightarrow> tensorrt \<Rightarrow> (tensorrt, bool) outcome" where
  "setTensorAddress ans n p s =
     (if \<not> m_context s then (Inl (Undefined ''null dereference''), s)
      else if ans_address ans n then (Inr True, s\<lparr>tensor_address := (tensor_address s)(n := p)\<rparr>) else (Inr False, s))"

text \<open>The size of the data is not compared with the one of the buffer.\<close>

definition trt_pushInputData :: "trt_answers \<Rightarrow> dnnInput \<Rightarrow> tensorrt \<Rightarrow> (tensorrt, int) outcome" where
  "trt_pushInputData ans inputData s =
     (if in_size inputData = 0 then (Inr (-1), s)
      else case device_buffer (m_inputIndex s) s of
        Inl e \<Rightarrow> (Inl e, s)
      | Inr None \<Rightarrow> (Inr (-1), s)
      | Inr (Some b) \<Rightarrow>
          if \<not> ans_copy_in ans then (Inr (-1), s)
          else case rbind (read_at 0 (in_size inputData) (in_buf inputData)) (\<lambda>d. memcpy_at 0 d (the (cuda_memory s b))) of
            Inl e \<Rightarrow> (Inl e, s)
          | Inr d \<Rightarrow>
              andthen (setTensorAddress ans (m_inputName s) (Some b) (s\<lparr>cuda_memory := (cuda_memory s)(b \<mapsto> d)\<rparr>)) (\<lambda>ok s'.
                (Inr (if ok then 0 else -1), s')))"

fun set_output_addresses :: "trt_answers \<Rightarrow> nat list \<Rightarrow> tensorrt \<Rightarrow> (tensorrt, bool) outcome" where
  "set_output_addresses ans [] s = (Inr True, s)"
| "set_output_addresses ans (i # rest) s =
     (case device_buffer (m_outputIndices s ! i) s of
        Inl e \<Rightarrow> (Inl e, s)
      | Inr p \<Rightarrow>
          andthen (setTensorAddress ans (m_outputNames s ! i) p s) (\<lambda>ok s'.
            if ok then set_output_addresses ans rest s' else (Inr False, s')))"

text \<open>\<open>enqueueV3\<close>: the network reads the blocks of its inputs and writes those of its outputs.\<close>

definition tensors_of :: "TensorIOMode \<Rightarrow> trt_tensor list \<Rightarrow> trt_tensor list" where
  "tensors_of m eng = filter (\<lambda>t. io_mode t = m) eng"

fun write_outputs :: "(string \<Rightarrow> nat option) \<Rightarrow> (string \<Rightarrow> bytes) \<Rightarrow> string list \<Rightarrow> (nat \<Rightarrow> bytes option) \<Rightarrow> (nat \<Rightarrow> bytes option) result" where
  "write_outputs addr net [] mem = Inr mem"
| "write_outputs addr net (n # ns) mem =
     rbind (memcpy_at 0 (net n) (the (mem (the (addr n))))) (\<lambda>d. write_outputs addr net ns (mem(the (addr n) \<mapsto> d)))"

definition enqueueV3 :: "trt_answers \<Rightarrow> trt_tensor list \<Rightarrow> tensorrt \<Rightarrow> (tensorrt, bool) outcome" where
  "enqueueV3 ans eng s =
     (if \<not> ans_enqueue ans \<or> (\<exists>t \<in> set eng. io_mode t \<noteq> kNONE \<and> tensor_address s (tensor_name t) = None) then (Inr False, s)
      else
        (let ins = map (\<lambda>t. the (cuda_memory s (the (tensor_address s (tensor_name t))))) (tensors_of kINPUT eng)
         in case write_outputs (tensor_address s) (ans_network ans ins) (map tensor_name (tensors_of kOUTPUT eng)) (cuda_memory s) of
              Inl e \<Rightarrow> (Inl e, s)
            | Inr mem \<Rightarrow> (Inr True, s\<lparr>cuda_memory := mem\<rparr>)))"

definition trt_runInference :: "trt_answers \<Rightarrow> tensorrt \<Rightarrow> (tensorrt, int) outcome" where
  "trt_runInference ans s =
     andthen (set_output_addresses ans [0..<m_numOutputs s] s) (\<lambda>ok s1.
       if \<not> ok then (Inr (-1), s1)
       else case (if m_context s1 then m_engine s1 else None) of
         None \<Rightarrow> (Inl (Undefined ''null dereference''), s1)
       | Some eng \<Rightarrow>
           andthen (enqueueV3 ans eng s1) (\<lambda>status s2. (Inr (if status \<and> ans_sync ans then 0 else -1), s2)))"

fun copy_outputs :: "trt_answers \<Rightarrow> nat list \<Rightarrow> tensorrt \<Rightarrow> dnnOutput list \<Rightarrow> (int \<times> dnnOutput list) result" where
  "copy_outputs ans [] s outs = Inr (0, outs)"
| "copy_outputs ans (i # rest) s outs =
     rbind (device_buffer (m_outputIndices s ! i) s) (\<lambda>p.
       case (m_hostOutputBuffers s ! i, p) of
         (Some capacity, Some b) \<Rightarrow>
           if \<not> ans_copy_out ans i then Inr (-1, outs)
           else rbind (read_at 0 (unat (m_outputSizes s ! i)) (the (cuda_memory s b))) (\<lambda>d.
             if capacity < length d then Inl (Undefined ''memcpy out of range'')
             else copy_outputs ans rest s
               (outs[i := \<lparr>tensor_index = i, tensor_buf = Some d, tensor_size = unat (m_outputSizes s ! i), dataType = ''float32''\<rparr>]))
       | _ \<Rightarrow> Inr (-1, outs))"

definition trt_popOutputData :: "trt_answers \<Rightarrow> dnnOutput list \<Rightarrow> tensorrt \<Rightarrow> (tensorrt, int \<times> dnnOutput list) outcome" where
  "trt_popOutputData ans outputVector s =
     (copy_outputs ans [0..<m_numOutputs s] s (resize_with newDnnOutput (m_numOutputs s) outputVector), s)"

definition trt_releaseOutputData :: "dnnOutput list \<Rightarrow> tensorrt \<Rightarrow> tensorrt \<times> int \<times> dnnOutput list" where
  "trt_releaseOutputData outputVector s = (s, 0, [])"

definition trt_engine :: "trt_answers \<Rightarrow> 'f \<Rightarrow> (tensorrt, 'f) IDnnEngine" where
  "trt_engine ans one = \<lparr>eng_loadModel = trt_loadModel ans, eng_getInputShape = trt_getInputShape,
     eng_getOutputQuantParams = trt_getOutputQuantParams one, eng_pushInputData = trt_pushInputData ans,
     eng_popOutputData = trt_popOutputData ans, eng_runInference = trt_runInference ans,
     eng_releaseOutputData = trt_releaseOutputData\<rparr>"


section \<open>A loaded engine\<close>

definition trt_size :: "trt_tensor \<Rightarrow> u64" where
  "trt_size t = foldl (\<lambda>size' d. size' * word_of_int d) 1 (tensor_dims t) * type_bytes (tensor_type t)"

text \<open>One input and at most eight outputs with different names.\<close>

definition plain_engine :: "trt_tensor list \<Rightarrow> nat \<Rightarrow> bool" where
  "plain_engine eng k \<longleftrightarrow> distinct (map tensor_name eng) \<and> k < length eng \<and> length eng \<le> 9 \<and>
     (\<forall>i < length eng. io_mode (eng ! i) = (if i = k then kINPUT else kOUTPUT))"

definition out_idx :: "nat \<Rightarrow> nat \<Rightarrow> nat list" where
  "out_idx k n = filter (\<lambda>i. i \<noteq> k) [0..<n]"

lemma out_idx_Suc: "out_idx k (Suc n) = out_idx k n @ (if n = k then [] else [n])"
  by (simp add: out_idx_def)

lemma out_idx_mem [simp]: "i \<in> set (out_idx k n) \<longleftrightarrow> i < n \<and> i \<noteq> k"
  by (auto simp: out_idx_def)

lemma distinct_out_idx [simp]: "distinct (out_idx k n)"
  by (simp add: out_idx_def)

lemma length_out_idx: "length (out_idx k n) = (if k < n then n - 1 else n)"
  by (induction n) (auto simp: out_idx_Suc, simp add: out_idx_def)

lemma out_idx_nth: "j < length (out_idx k n) \<Longrightarrow> out_idx k n ! j < n \<and> out_idx k n ! j \<noteq> k"
  using nth_mem [of j "out_idx k n"] by simp

lemma plain_shape:
  assumes "plain_engine eng k" and "i < length eng"
  shows "getTensorShape eng (tensor_name (eng ! i)) = tensor_dims (eng ! i)"
    and "getTensorDataType eng (tensor_name (eng ! i)) = tensor_type (eng ! i)"
proof -
  have "find (\<lambda>t. tensor_name t = tensor_name (eng ! i)) eng = Some (eng ! i)"
    using assms by (auto simp: find_Some_iff plain_engine_def distinct_conv_nth)
  then show "getTensorShape eng (tensor_name (eng ! i)) = tensor_dims (eng ! i)"
    and "getTensorDataType eng (tensor_name (eng ! i)) = tensor_type (eng ! i)"
    by (simp_all add: getTensorShape_def getTensorDataType_def)
qed

text \<open>What the code knows of the tensors after \<open>m\<close> of them have been read.\<close>

definition tensors_known :: "trt_tensor list \<Rightarrow> nat \<Rightarrow> nat \<Rightarrow> tensorrt \<Rightarrow> bool" where
  "tensors_known eng k m s \<longleftrightarrow> (k < m \<longrightarrow> m_inputIndex s = int k \<and> m_inputName s = tensor_name (eng ! k)) \<and>
     m_numOutputs s = length (out_idx k m) \<and> length (m_outputIndices s) = 8 \<and>
     take (length (out_idx k m)) (m_outputIndices s) = map int (out_idx k m) \<and>
     m_outputNames s = map (\<lambda>i. tensor_name (eng ! i)) (out_idx k m)"

definition same_memory :: "tensorrt \<Rightarrow> tensorrt \<Rightarrow> bool" where
  "same_memory s s' \<longleftrightarrow> m_engine s' = m_engine s \<and> m_context s' = m_context s \<and> m_runtime s' = m_runtime s \<and>
     m_deviceBuffers s' = m_deviceBuffers s \<and> cuda_memory s' = cuda_memory s \<and> cuda_next s' = cuda_next s \<and>
     m_outputSizes s' = m_outputSizes s \<and> m_hostOutputBuffers s' = m_hostOutputBuffers s \<and>
     trt_objects s' = trt_objects s \<and> host_blocks s' = host_blocks s"

lemma read_tensors_append:
  "read_tensors eng (xs @ ys) s = andthen (read_tensors eng xs s) (\<lambda>_. read_tensors eng ys)"
  by (induction eng xs s rule: read_tensors.induct) (simp_all add: Let_def split: TensorIOMode.split)

lemma read_tensors_known:
  assumes "plain_engine eng k" and "tensors_known eng k 0 s" and "m \<le> length eng"
  shows "\<exists>s'. read_tensors eng [0..<m] s = (Inr (), s') \<and> tensors_known eng k m s' \<and> same_memory s s'"
  using assms(3)
proof (induction m)
  case 0
  then show ?case using assms(2) by (simp add: same_memory_def)
next
  case (Suc m)
  then obtain s1 where s1: "read_tensors eng [0..<m] s = (Inr (), s1)" "tensors_known eng k m s1" "same_memory s s1" by auto
  have run: "read_tensors eng [0..<Suc m] s = read_tensors eng [m] s1"
    by (simp add: read_tensors_append s1(1) del: read_tensors.simps(2))
  show ?case
  proof (cases "m = k")
    case True
    then have "io_mode (eng ! m) = kINPUT" using assms(1) Suc.prems by (simp add: plain_engine_def)
    then show ?thesis unfolding run using s1(2,3) True
      by (simp add: Let_def tensors_known_def same_memory_def out_idx_Suc)
  next
    case False
    then have mode: "io_mode (eng ! m) = kOUTPUT" using assms(1) Suc.prems by (simp add: plain_engine_def)
    have "k < length eng" "length eng \<le> 9" using assms(1) by (simp_all add: plain_engine_def)
    then have n: "length (out_idx k m) < 8" using Suc.prems False by (auto simp: length_out_idx)
    then have num: "m_numOutputs s1 < 8" using s1(2) by (simp add: tensors_known_def)
    have "take (Suc n) (xs[n := x]) = take n xs @ [x]" if "n < length xs" for n and x :: int and xs
      using that by (simp add: take_Suc_conv_app_nth)
    then show ?thesis unfolding run using s1(2,3) False mode n num
      by (auto simp: Let_def tensors_known_def same_memory_def out_idx_Suc)
  qed
qed

text \<open>The size the code computes for a tensor it knows.\<close>

lemma binding_size_known:
  assumes "plain_engine eng k" and "tensors_known eng k (length eng) s" and "m_engine s = Some eng" and "i < length eng"
  shows "getBindingSize (int i) s = Inr (trt_size (eng ! i))"
proof -
  let ?o = "out_idx k (length eng)"
  have k: "k < length eng" using assms(1) by (simp add: plain_engine_def)
  have known: "m_inputIndex s = int k" "m_inputName s = tensor_name (eng ! k)" "m_numOutputs s = length ?o"
    "take (length ?o) (m_outputIndices s) = map int ?o" "m_outputNames s = map (\<lambda>i. tensor_name (eng ! i)) ?o"
    using assms(2) k by (simp_all add: tensors_known_def)
  have zip: "zip (map int ?o) (map (\<lambda>i. tensor_name (eng ! i)) ?o) = map (\<lambda>i. (int i, tensor_name (eng ! i))) ?o"
    by (simp add: zip_map_map zip_same_conv_map)
  have "map_of (map (\<lambda>i. (int i, tensor_name (eng ! i))) ?o) (int i) = Some (tensor_name (eng ! i))" if "i \<noteq> k"
    using that assms(4) by (intro map_of_is_SomeI) (auto simp: distinct_map inj_on_def comp_def)
  then show ?thesis
    using plain_shape [OF assms(1,4)] assms(3) by (cases "i = k") (simp_all add: getBindingSize_def known zip trt_size_def)
qed

text \<open>The tensors of \<open>A\<close> have a block of their size each, and no other block exists.\<close>

definition blocks :: "trt_tensor list \<Rightarrow> nat set \<Rightarrow> tensorrt \<Rightarrow> bool" where
  "blocks eng A s \<longleftrightarrow> length (m_deviceBuffers s) = 10 \<and>
     (\<forall>i \<in> A. \<exists>b d. m_deviceBuffers s ! i = Some b \<and> b < cuda_next s \<and> cuda_memory s b = Some d \<and> length d = unat (trt_size (eng ! i))) \<and>
     (\<forall>i < 10. i \<notin> A \<longrightarrow> m_deviceBuffers s ! i = None) \<and> inj_on (\<lambda>i. m_deviceBuffers s ! i) A \<and>
     (\<forall>b. cuda_memory s b \<noteq> None \<longrightarrow> b < cuda_next s \<and> Some b \<in> set (m_deviceBuffers s))"

lemma cudaMalloc_blocks:
  assumes "blocks eng A s" and "A \<subseteq> {..<10}" and "i < 10" and "i \<notin> A" and "ans_cudaMalloc ans (int i) \<noteq> None"
  shows "\<exists>db mem nx. cudaMalloc ans (int i) (trt_size (eng ! i)) s =
       (Inr (), s\<lparr>m_deviceBuffers := db, cuda_memory := mem, cuda_next := nx\<rparr>) \<and>
     blocks eng (insert i A) (s\<lparr>m_deviceBuffers := db, cuda_memory := mem, cuda_next := nx\<rparr>)"
proof -
  obtain fill where fill: "ans_cudaMalloc ans (int i) = Some fill" using assms(5) by auto
  let ?b = "cuda_next s" and ?n = "trt_size (eng ! i)"
  let ?db = "(m_deviceBuffers s)[i := Some ?b]" and ?mem = "(cuda_memory s)(?b \<mapsto> resize_buf (unat ?n) fill)"
  let ?s = "s\<lparr>m_deviceBuffers := ?db, cuda_memory := ?mem, cuda_next := Suc ?b\<rparr>"
  have old: "length (m_deviceBuffers s) = 10"
    "\<And>j. j \<in> A \<Longrightarrow> \<exists>b d. m_deviceBuffers s ! j = Some b \<and> b < ?b \<and> cuda_memory s b = Some d \<and> length d = unat (trt_size (eng ! j))"
    "\<And>j. j < 10 \<Longrightarrow> j \<notin> A \<Longrightarrow> m_deviceBuffers s ! j = None" "inj_on (\<lambda>j. m_deviceBuffers s ! j) A"
    "\<And>b. cuda_memory s b \<noteq> None \<Longrightarrow> b < ?b \<and> Some b \<in> set (m_deviceBuffers s)"
    using assms(1) by (auto simp: blocks_def)
  have nth: "?db ! j = (if j = i then Some ?b else m_deviceBuffers s ! j)" for j using old(1) assms(3) by simp
  have "\<exists>b d. ?db ! j = Some b \<and> b < Suc ?b \<and> ?mem b = Some d \<and> length d = unat (trt_size (eng ! j))" if "j \<in> insert i A" for j
  proof (cases "j = i")
    case False
    then show ?thesis using old(2) [of j] that nth by fastforce
  qed (simp add: nth resize_buf_def)
  moreover have "inj_on (\<lambda>j. ?db ! j) (insert i A)"
  proof -
    have "inj_on (\<lambda>j. ?db ! j) A" using old(4) assms(4) by (auto simp: inj_on_def nth)
    moreover have "?db ! i \<notin> (\<lambda>j. ?db ! j) ` (A - {i})"
    proof
      assume "?db ! i \<in> (\<lambda>j. ?db ! j) ` (A - {i})"
      then obtain j where j: "j \<in> A" "j \<noteq> i" "?db ! i = ?db ! j" by blast
      then have "m_deviceBuffers s ! j = Some ?b" unfolding nth by simp
      then show False using old(2) [OF j(1)] by simp
    qed
    ultimately show ?thesis by simp
  qed
  moreover have "b < Suc ?b \<and> Some b \<in> set ?db" if "?mem b \<noteq> None" for b
  proof (cases "b = ?b")
    case True
    then show ?thesis using old(1) assms(3) by (simp add: set_update_memI)
  next
    case False
    then have b: "b < ?b" "Some b \<in> set (m_deviceBuffers s)" using old(5) [of b] that by simp_all
    then obtain j where j: "j < 10" "m_deviceBuffers s ! j = Some b" using old(1) by (auto simp: in_set_conv_nth)
    then have "j \<noteq> i" using old(3) assms(3,4) by auto
    then have "?db ! j = Some b" using j by simp
    then have "Some b \<in> set ?db" using j(1) old(1) nth_mem [of j ?db] by simp
    then show ?thesis using b(1) by simp
  qed
  ultimately have "blocks eng (insert i A) ?s" using old(1,3) by (simp add: blocks_def)
  moreover have "cudaMalloc ans (int i) ?n s = (Inr (), ?s)" using assms(3) by (simp add: cudaMalloc_def fill)
  ultimately show ?thesis by blast
qed

text \<open>The state while the buffers of the outputs are allocated.\<close>

definition outputs_allocated :: "trt_tensor list \<Rightarrow> nat \<Rightarrow> nat \<Rightarrow> tensorrt \<Rightarrow> bool" where
  "outputs_allocated eng k m s \<longleftrightarrow> (let outs = out_idx k (length eng) in
     m_engine s = Some eng \<and> m_context s \<and> m_runtime s \<and> trt_objects s = 3 \<and> tensors_known eng k (length eng) s \<and>
     blocks eng (insert k (set (take m outs))) s \<and>
     length (m_outputSizes s) = length outs \<and> length (m_hostOutputBuffers s) = length outs \<and> host_blocks s = m \<and>
     (\<forall>j < m. m_outputSizes s ! j = trt_size (eng ! (outs ! j)) \<and>
        m_hostOutputBuffers s ! j = Some (unat (trt_size (eng ! (outs ! j))))))"

definition answers_memory :: "trt_answers \<Rightarrow> bool" where
  "answers_memory ans \<longleftrightarrow> (\<forall>i. ans_cudaMalloc ans i \<noteq> None) \<and> (\<forall>i. ans_malloc ans i)"

lemma known_output:
  assumes "tensors_known eng k n s" and "j < length (out_idx k n)"
  shows "m_outputIndices s ! j = int (out_idx k n ! j)" and "m_outputNames s ! j = tensor_name (eng ! (out_idx k n ! j))"
proof -
  have "take (length (out_idx k n)) (m_outputIndices s) ! j = int (out_idx k n ! j)"
    using assms by (simp add: tensors_known_def)
  then show "m_outputIndices s ! j = int (out_idx k n ! j)" using assms(2) by simp
  show "m_outputNames s ! j = tensor_name (eng ! (out_idx k n ! j))" using assms by (simp add: tensors_known_def)
qed

lemma allocate_outputs_all:
  assumes "plain_engine eng k" and "answers_memory ans"
  shows "outputs_allocated eng k m s \<Longrightarrow> m \<le> length (out_idx k (length eng)) \<Longrightarrow>
    \<exists>s'. allocate_outputs ans [m..<length (out_idx k (length eng))] s = (Inr (), s') \<and>
      outputs_allocated eng k (length (out_idx k (length eng))) s'"
proof (induction "length (out_idx k (length eng)) - m" arbitrary: m s)
  case (Suc d)
  let ?o = "out_idx k (length eng)"
  have m: "m < length ?o" using Suc.hyps(2) by linarith
  note inv = Suc.prems(1) [unfolded outputs_allocated_def Let_def]
  let ?i = "?o ! m" and ?n = "trt_size (eng ! (?o ! m))"
  have i: "?i < length eng" "?i \<noteq> k" using out_idx_nth [OF m] by simp_all
  have eng: "length eng \<le> 9" "k < length eng" using assms(1) by (simp_all add: plain_engine_def)
  have idx: "m_outputIndices s ! m = int ?i" using inv known_output(1) [OF _ m] by blast
  have size: "getBindingSize (int ?i) s = Inr ?n" using inv binding_size_known [OF assms(1) _ _ i(1)] by blast
  let ?s = "s\<lparr>m_outputSizes := (m_outputSizes s)[m := ?n]\<rparr>"
  let ?A = "insert k (set (take m ?o))"
  have A: "?A \<subseteq> {..<10}" using eng by (auto dest!: in_set_takeD)
  have fresh: "?i \<notin> ?A" using i(2) m distinct_out_idx [of k "length eng"] by (auto simp: in_set_conv_nth distinct_conv_nth)
  have "blocks eng ?A ?s" using inv by (simp add: blocks_def)
  from cudaMalloc_blocks [OF this A _ fresh, of ans] obtain db mem nx where
    malloc: "cudaMalloc ans (int ?i) ?n ?s = (Inr (), ?s\<lparr>m_deviceBuffers := db, cuda_memory := mem, cuda_next := nx\<rparr>)"
    and blk: "blocks eng (insert ?i ?A) (?s\<lparr>m_deviceBuffers := db, cuda_memory := mem, cuda_next := nx\<rparr>)"
    using i(1) eng(1) assms(2) by (auto simp: answers_memory_def)
  let ?s1 = "host_malloc ans m ?n (?s\<lparr>m_deviceBuffers := db, cuda_memory := mem, cuda_next := nx\<rparr>)"
  have A': "insert ?i ?A = insert k (set (take (Suc m) ?o))" using m by (auto simp: take_Suc_conv_app_nth)
  have "outputs_allocated eng k (Suc m) ?s1"
    using inv blk [unfolded A'] assms(2) m
    by (auto simp: outputs_allocated_def host_malloc_def answers_memory_def Let_def tensors_known_def blocks_def nth_list_update less_Suc_eq)
  moreover have "d = length ?o - Suc m" "Suc m \<le> length ?o" using Suc.hyps(2) m by linarith+
  ultimately obtain s' where s': "allocate_outputs ans [Suc m..<length ?o] ?s1 = (Inr (), s')" "outputs_allocated eng k (length ?o) s'"
    using Suc.hyps(1) [of "Suc m" ?s1] by blast
  have "[m..<length ?o] = m # [Suc m..<length ?o]" using m by (simp add: upt_conv_Cons)
  then show ?case using s' by (simp add: Let_def idx size malloc)
qed auto

definition trt_loaded :: "trt_tensor list \<Rightarrow> nat \<Rightarrow> tensorrt \<Rightarrow> bool" where
  "trt_loaded eng k s \<longleftrightarrow> plain_engine eng k \<and> outputs_allocated eng k (length (out_idx k (length eng))) s"

lemma length_resize_with [simp]: "length (resize_with x n xs) = n"
  by (simp add: resize_with_def)

lemma blocks_address [simp]: "blocks eng A (s\<lparr>tensor_address := a\<rparr>) = blocks eng A s"
  by (simp add: blocks_def)

lemma prepare_loads:
  assumes "plain_engine eng k" and "answers_memory ans" and "ans_context ans"
    and "s = newTensorrt\<lparr>m_runtime := True, m_engine := Some eng, trt_objects := 2\<rparr>"
  shows "\<exists>s'. trt_prepare ans s = (Inr (), s') \<and> trt_loaded eng k s'"
proof -
  let ?o = "out_idx k (length eng)" and ?n = "trt_size (eng ! k)"
  have eng: "k < length eng" "length eng \<le> 9" using assms(1) by (simp_all add: plain_engine_def)
  let ?s1 = "s\<lparr>m_context := True, trt_objects := 3, m_numInputs := 0, m_numOutputs := 0\<rparr>"
  have "tensors_known eng k 0 ?s1" by (simp add: tensors_known_def assms(4) newTensorrt_def out_idx_def)
  from read_tensors_known [OF assms(1) this order_refl] obtain s2 where
    read: "read_tensors eng [0..<length eng] ?s1 = (Inr (), s2)" and known: "tensors_known eng k (length eng) s2"
    and same: "same_memory ?s1 s2" by blast
  have s2: "m_engine s2 = Some eng" "m_context s2" "m_runtime s2" "trt_objects s2 = 3" "host_blocks s2 = 0" "blocks eng {} s2"
    using same by (simp_all add: same_memory_def assms(4) newTensorrt_def blocks_def)
  have idx: "m_inputIndex s2 = int k" "m_numOutputs s2 = length ?o" using known eng(1) by (simp_all add: tensors_known_def)
  have size: "getBindingSize (int k) s2 = Inr ?n" by (rule binding_size_known [OF assms(1) known s2(1) eng(1)])
  let ?s2 = "s2\<lparr>m_inputSize := ?n\<rparr>"
  have "blocks eng {} ?s2" using s2(6) by (simp add: blocks_def)
  from cudaMalloc_blocks [OF this, of k ans] obtain db mem nx where
    malloc: "cudaMalloc ans (int k) ?n ?s2 = (Inr (), ?s2\<lparr>m_deviceBuffers := db, cuda_memory := mem, cuda_next := nx\<rparr>)"
    and blk: "blocks eng {k} (?s2\<lparr>m_deviceBuffers := db, cuda_memory := mem, cuda_next := nx\<rparr>)"
    using eng assms(2) by (auto simp: answers_memory_def)
  let ?s3 = "?s2\<lparr>m_deviceBuffers := db, cuda_memory := mem, cuda_next := nx\<rparr>"
  let ?s4 = "?s3\<lparr>m_outputSizes := resize_with 0 (length ?o) (m_outputSizes ?s3),
    m_hostOutputBuffers := resize_with None (length ?o) (m_hostOutputBuffers ?s3)\<rparr>"
  have "outputs_allocated eng k 0 ?s4"
    using s2 known blk by (simp add: outputs_allocated_def Let_def tensors_known_def blocks_def)
  from allocate_outputs_all [OF assms(1,2) this] obtain s' where
    "allocate_outputs ans [0..<length ?o] ?s4 = (Inr (), s')" "outputs_allocated eng k (length ?o) s'" by blast
  then have "allocateBuffers ans s2 = (Inr (), s')" "trt_loaded eng k s'"
    using size malloc idx assms(1) by (simp_all add: allocateBuffers_def trt_loaded_def)
  moreover have "m_engine s = Some eng" "trt_objects s = 2" by (simp_all add: assms(4))
  ultimately show ?thesis using read assms(3) by (simp add: trt_prepare_def Let_def)
qed

lemma load_engine_file:
  assumes "plain_engine eng k" and "answers_memory ans" and "ans_context ans" and "ans_runtime ans"
    and "ans_file ans = Some d" and "ans_deserialize ans d = Some eng" and "file_extension path = ''engine''"
  shows "\<exists>s. trt_loadModel ans path newTensorrt = (Inr (), s) \<and> trt_loaded eng k s"
proof -
  have "path \<noteq> []" using assms(7) by (auto simp: file_extension_def)
  moreover have "loadEngineFromFile ans newTensorrt = (newTensorrt\<lparr>m_runtime := True, m_engine := Some eng, trt_objects := 2\<rparr>, True)"
    using assms(4-6) by (simp add: loadEngineFromFile_def create_runtime_def deserialize_engine_def Let_def newTensorrt_def)
  ultimately show ?thesis using prepare_loads [OF assms(1-3) refl] assms(7) by (simp add: trt_loadModel_def)
qed

section \<open>Running it\<close>

lemma memcpy_whole: "length d = length buf \<Longrightarrow> memcpy_at 0 d buf = Inr d"
  by (simp add: memcpy_at_def)

lemma read_whole: "length d = n \<Longrightarrow> read_at 0 n d = Inr d"
  by (simp add: read_at_def)

lemma loaded_parts:
  assumes "trt_loaded eng k s"
  shows "plain_engine eng k" "m_engine s = Some eng" "m_context s" "tensors_known eng k (length eng) s" "k < length eng" "length eng \<le> 9"
    and "blocks eng {..<length eng} s" "m_inputIndex s = int k" "m_inputName s = tensor_name (eng ! k)"
    and "m_numOutputs s = length (out_idx k (length eng))"
    and "j < length (out_idx k (length eng)) \<Longrightarrow> m_outputSizes s ! j = trt_size (eng ! (out_idx k (length eng) ! j)) \<and>
      m_hostOutputBuffers s ! j = Some (unat (trt_size (eng ! (out_idx k (length eng) ! j))))"
proof -
  have plain: "plain_engine eng k" and out: "outputs_allocated eng k (length (out_idx k (length eng))) s"
    using assms by (simp_all add: trt_loaded_def)
  show "plain_engine eng k" by (rule plain)
  show k: "k < length eng" and "length eng \<le> 9" using plain by (simp_all add: plain_engine_def)
  show "m_engine s = Some eng" "m_context s" and known: "tensors_known eng k (length eng) s"
    using out by (simp_all add: outputs_allocated_def Let_def)
  have "insert k (set (out_idx k (length eng))) = {..<length eng}" using k by auto
  then show "blocks eng {..<length eng} s" using out by (simp add: outputs_allocated_def Let_def)
  show "m_inputIndex s = int k" "m_inputName s = tensor_name (eng ! k)" "m_numOutputs s = length (out_idx k (length eng))"
    using known k by (simp_all add: tensors_known_def)
  show "m_outputSizes s ! j = trt_size (eng ! (out_idx k (length eng) ! j)) \<and>
      m_hostOutputBuffers s ! j = Some (unat (trt_size (eng ! (out_idx k (length eng) ! j))))" if "j < length (out_idx k (length eng))"
    using out that by (simp add: outputs_allocated_def Let_def)
qed

lemma loaded_update:
  assumes "trt_loaded eng k s" and "blocks eng {..<length eng} (s\<lparr>cuda_memory := mem\<rparr>)"
  shows "trt_loaded eng k (s\<lparr>cuda_memory := mem, tensor_address := a\<rparr>)"
proof -
  have "k < length eng" using assms(1) by (simp add: trt_loaded_def plain_engine_def)
  then have all: "insert k (set (out_idx k (length eng))) = {..<length eng}" by auto
  show ?thesis using assms
    by (simp add: trt_loaded_def outputs_allocated_def Let_def tensors_known_def all del: out_idx_mem)
qed

lemma blocks_write:
  assumes "blocks eng A s" and "i \<in> A" and "length d = unat (trt_size (eng ! i))" and "m_deviceBuffers s ! i = Some b"
  shows "blocks eng A (s\<lparr>cuda_memory := (cuda_memory s)(b \<mapsto> d)\<rparr>)"
proof -
  have same: "j = i" if "j \<in> A" "m_deviceBuffers s ! j = Some b" for j
    using assms(1,2,4) that by (auto simp: blocks_def inj_on_def)
  have "cuda_memory s b \<noteq> None" using assms(1,2,4) by (fastforce simp: blocks_def)
  then have "b < cuda_next s \<and> Some b \<in> set (m_deviceBuffers s)" using assms(1) by (simp add: blocks_def)
  moreover have "\<exists>b' d'. m_deviceBuffers s ! j = Some b' \<and> b' < cuda_next s \<and> ((cuda_memory s)(b \<mapsto> d)) b' = Some d' \<and>
      length d' = unat (trt_size (eng ! j))" if j: "j \<in> A" for j
  proof (cases "j = i")
    case True
    then show ?thesis using assms(3,4) calculation by simp
  next
    case False
    obtain b' d' where "m_deviceBuffers s ! j = Some b'" "b' < cuda_next s" "cuda_memory s b' = Some d'" "length d' = unat (trt_size (eng ! j))"
      using assms(1) j unfolding blocks_def by blast
    moreover have "b' \<noteq> b" using same [OF j] False calculation(1) by auto
    ultimately show ?thesis by simp
  qed
  ultimately show ?thesis using assms(1) by (simp add: blocks_def)
qed

lemma loaded_block:
  assumes "trt_loaded eng k s" and "i < length eng"
  shows "\<exists>b d. m_deviceBuffers s ! i = Some b \<and> device_buffer (int i) s = Inr (Some b) \<and> cuda_memory s b = Some d \<and>
    length d = unat (trt_size (eng ! i))"
proof -
  have "length eng \<le> 9" "blocks eng {..<length eng} s" using loaded_parts [OF assms(1)] by blast+
  then show ?thesis using assms(2) by (fastforce simp: blocks_def device_buffer_def)
qed

lemma push_loaded:
  assumes "trt_loaded eng k s" and "ans_copy_in ans" and "\<forall>n. ans_address ans n"
    and "in_size inp = length (in_buf inp)" and "in_size inp = unat (trt_size (eng ! k))" and "in_size inp \<noteq> 0"
  shows "\<exists>s' b. trt_pushInputData ans inp s = (Inr 0, s') \<and> trt_loaded eng k s' \<and> m_deviceBuffers s' ! k = Some b \<and>
    cuda_memory s' b = Some (in_buf inp) \<and> tensor_address s' (tensor_name (eng ! k)) = Some b"
proof -
  note l = loaded_parts [OF assms(1)]
  obtain b d where b: "m_deviceBuffers s ! k = Some b" "device_buffer (int k) s = Inr (Some b)" "cuda_memory s b = Some d"
    "length d = unat (trt_size (eng ! k))" using loaded_block [OF assms(1) l(5)] by blast
  let ?s' = "s\<lparr>cuda_memory := (cuda_memory s)(b \<mapsto> in_buf inp), tensor_address := (tensor_address s)(tensor_name (eng ! k) \<mapsto> b)\<rparr>"
  have "memcpy_at 0 (in_buf inp) d = Inr (in_buf inp)" using b(4) assms(4,5) by (intro memcpy_whole) simp
  moreover have "read_at 0 (in_size inp) (in_buf inp) = Inr (in_buf inp)" using assms(4) by (intro read_whole) simp
  ultimately have "trt_pushInputData ans inp s = (Inr 0, ?s')"
    using assms(2,3,6) b(2,3) l(3,8,9) by (simp add: trt_pushInputData_def setTensorAddress_def)
  moreover have "blocks eng {..<length eng} (s\<lparr>cuda_memory := (cuda_memory s)(b \<mapsto> in_buf inp)\<rparr>)"
    using blocks_write [OF l(7) _ _ b(1), of "in_buf inp"] l(5) assms(4,5) by simp
  ultimately show ?thesis using loaded_update [OF assms(1)] b(1)
    by (intro exI [of _ ?s'] exI [of _ b]) simp
qed

lemma device_buffer_address [simp]: "device_buffer i (s\<lparr>tensor_address := a\<rparr>) = device_buffer i s"
  by (simp add: device_buffer_def)

lemma set_addresses:
  assumes "\<forall>n. ans_address ans n" and "m_context s" and "\<forall>i \<in> set idx. device_buffer (m_outputIndices s ! i) s = Inr (p i)"
    and "distinct (map (\<lambda>i. m_outputNames s ! i) idx)"
  shows "\<exists>a. set_output_addresses ans idx s = (Inr True, s\<lparr>tensor_address := a\<rparr>) \<and>
     (\<forall>i \<in> set idx. a (m_outputNames s ! i) = p i) \<and> (\<forall>n. n \<notin> (\<lambda>i. m_outputNames s ! i) ` set idx \<longrightarrow> a n = tensor_address s n)"
  using assms(2-4)
proof (induction idx arbitrary: s)
  case Nil
  then show ?case by (intro exI [of _ "tensor_address s"]) simp
next
  case (Cons i idx)
  let ?n = "m_outputNames s ! i"
  let ?s = "s\<lparr>tensor_address := (tensor_address s)(?n := p i)\<rparr>"
  have set: "setTensorAddress ans ?n (p i) s = (Inr True, ?s)" using assms(1) Cons.prems(1) by (simp add: setTensorAddress_def)
  have "m_context ?s" "\<forall>i \<in> set idx. device_buffer (m_outputIndices ?s ! i) ?s = Inr (p i)"
    "distinct (map (\<lambda>i. m_outputNames ?s ! i) idx)" using Cons.prems by simp_all
  from Cons.IH [OF this] obtain a where a: "set_output_addresses ans idx ?s = (Inr True, s\<lparr>tensor_address := a\<rparr>)"
    "\<forall>i \<in> set idx. a (m_outputNames s ! i) = p i" "\<forall>n. n \<notin> (\<lambda>i. m_outputNames s ! i) ` set idx \<longrightarrow> a n = ((tensor_address s)(?n := p i)) n"
    by auto
  have "?n \<notin> (\<lambda>i. m_outputNames s ! i) ` set idx" using Cons.prems(3) by simp
  then have "a ?n = p i" using a(3) by simp
  then show ?case using Cons.prems(2) set a by (intro exI [of _ a]) auto
qed

lemma write_outputs_all:
  assumes "\<forall>n \<in> set ns. \<exists>d. mem (blk n) = Some d \<and> length d = length (net n)" and "distinct ns" and "inj_on blk (set ns)"
    and "\<forall>n \<in> set ns. addr n = Some (blk n)"
  shows "\<exists>mem'. write_outputs addr net ns mem = Inr mem' \<and> (\<forall>n \<in> set ns. mem' (blk n) = Some (net n)) \<and>
    (\<forall>b. b \<notin> blk ` set ns \<longrightarrow> mem' b = mem b)"
  using assms
proof (induction ns arbitrary: mem)
  case (Cons n ns)
  obtain d where d: "mem (blk n) = Some d" "length d = length (net n)" using Cons.prems(1) by auto
  have fresh: "blk n \<notin> blk ` set ns" using Cons.prems(2,3) by auto
  have "\<forall>m \<in> set ns. \<exists>d. (mem(blk n \<mapsto> net n)) (blk m) = Some d \<and> length d = length (net m)"
    using Cons.prems(1) fresh by (metis fun_upd_other imageI list.set_intros(2))
  moreover have "distinct ns" "inj_on blk (set ns)" "\<forall>n \<in> set ns. addr n = Some (blk n)" using Cons.prems(2-4) by simp_all
  ultimately obtain mem' where mem': "write_outputs addr net ns (mem(blk n \<mapsto> net n)) = Inr mem'"
    "\<forall>n \<in> set ns. mem' (blk n) = Some (net n)" "\<forall>b. b \<notin> blk ` set ns \<longrightarrow> mem' b = (mem(blk n \<mapsto> net n)) b"
    using Cons.IH [of "mem(blk n \<mapsto> net n)"] by blast
  have "memcpy_at 0 (net n) d = Inr (net n)" using d(2) by (intro memcpy_whole) simp
  then have "write_outputs addr net (n # ns) mem = Inr mem'" using d(1) Cons.prems(4) mem'(1) by simp
  moreover have "mem' (blk n) = Some (net n)" using mem'(3) fresh by simp
  ultimately show ?case using mem'(2,3) by (intro exI [of _ mem']) auto
qed simp

lemma filter_eq_upt: "k < n \<Longrightarrow> filter (\<lambda>i. i = k) [0..<n] = [k]"
proof (induction n)
  case (Suc n)
  then show ?case by (cases "k = n") auto
qed simp

lemma tensors_of_plain:
  assumes "plain_engine eng k"
  shows "tensors_of kINPUT eng = [eng ! k]" and "tensors_of kOUTPUT eng = map ((!) eng) (out_idx k (length eng))"
proof -
  have k: "k < length eng" and mode: "\<And>i. i < length eng \<Longrightarrow> io_mode (eng ! i) = (if i = k then kINPUT else kOUTPUT)"
    using assms by (simp_all add: plain_engine_def)
  have all: "tensors_of m eng = map ((!) eng) (filter (\<lambda>i. io_mode (eng ! i) = m) [0..<length eng])" for m
    unfolding tensors_of_def by (subst map_nth [of eng, symmetric], subst filter_map) (simp add: comp_def)
  have "filter (\<lambda>i. io_mode (eng ! i) = kINPUT) [0..<length eng] = filter (\<lambda>i. i = k) [0..<length eng]"
    using mode by (intro filter_cong) auto
  then show "tensors_of kINPUT eng = [eng ! k]" using filter_eq_upt [OF k] by (simp add: all)
  have "filter (\<lambda>i. io_mode (eng ! i) = kOUTPUT) [0..<length eng] = out_idx k (length eng)"
    unfolding out_idx_def using mode by (intro filter_cong) auto
  then show "tensors_of kOUTPUT eng = map ((!) eng) (out_idx k (length eng))" by (simp add: all)
qed

lemma enqueue_loaded:
  assumes "trt_loaded eng k s" and "ans_enqueue ans" and "\<forall>i < length eng. tensor_address s (tensor_name (eng ! i)) = m_deviceBuffers s ! i"
    and "m_deviceBuffers s ! k = Some b" and "cuda_memory s b = Some x"
    and "\<forall>i \<in> set (out_idx k (length eng)). length (ans_network ans [x] (tensor_name (eng ! i))) = unat (trt_size (eng ! i))"
  shows "\<exists>s'. enqueueV3 ans eng s = (Inr True, s') \<and> trt_loaded eng k s' \<and>
    (\<forall>i \<in> set (out_idx k (length eng)). \<exists>b. m_deviceBuffers s' ! i = Some b \<and>
      cuda_memory s' b = Some (ans_network ans [x] (tensor_name (eng ! i))))"
proof -
  note l = loaded_parts [OF assms(1)]
  let ?o = "out_idx k (length eng)" and ?net = "ans_network ans [x]" and ?name = "\<lambda>i. tensor_name (eng ! i)"
  define blk where "blk = (\<lambda>n. the (tensor_address s n))"
  have dist: "distinct (map tensor_name eng)" using l(1) by (simp add: plain_engine_def)
  have name: "?name i = ?name j \<longleftrightarrow> i = j" if "i < length eng" "j < length eng" for i j
    using nth_eq_iff_index_eq [OF dist, of i j] that by simp
  have addr: "m_deviceBuffers s ! i = Some (blk (?name i))" "tensor_address s (?name i) = Some (blk (?name i))"
    "\<exists>d. cuda_memory s (blk (?name i)) = Some d \<and> length d = unat (trt_size (eng ! i))" if "i < length eng" for i
    using loaded_block [OF assms(1) that] assms(3) that by (auto simp: blk_def)
  have inj: "inj_on (\<lambda>i. m_deviceBuffers s ! i) {..<length eng}" using l(7) by (simp add: blocks_def)
  have names: "map tensor_name (tensors_of kOUTPUT eng) = map ?name ?o" by (simp add: tensors_of_plain [OF l(1)])
  have "inj_on blk (set (map ?name ?o))"
  proof (rule inj_onI)
    fix m n assume mn: "m \<in> set (map ?name ?o)" "n \<in> set (map ?name ?o)" "blk m = blk n"
    then obtain i j where ij: "i < length eng" "j < length eng" "m = ?name i" "n = ?name j" by auto
    then have "m_deviceBuffers s ! i = m_deviceBuffers s ! j" using addr(1) mn(3) by simp
    then show "m = n" using inj ij by (auto simp: inj_on_def)
  qed
  moreover have "distinct (map ?name ?o)" using name by (auto simp: distinct_map inj_on_def)
  moreover have "\<forall>n \<in> set (map ?name ?o). \<exists>d. cuda_memory s (blk n) = Some d \<and> length d = length (?net n)"
    using addr(3) assms(6) by auto
  moreover have "\<forall>n \<in> set (map ?name ?o). tensor_address s n = Some (blk n)" using addr(2) by auto
  ultimately obtain mem where mem: "write_outputs (tensor_address s) ?net (map ?name ?o) (cuda_memory s) = Inr mem"
    "\<forall>n \<in> set (map ?name ?o). mem (blk n) = Some (?net n)" "\<forall>b. b \<notin> blk ` set (map ?name ?o) \<longrightarrow> mem b = cuda_memory s b"
    using write_outputs_all [of "map ?name ?o" "cuda_memory s" blk ?net "tensor_address s"] by blast
  have "blk (?name k) = b" using addr(1) [OF l(5)] assms(4) by simp
  then have "enqueueV3 ans eng s = (Inr True, s\<lparr>cuda_memory := mem\<rparr>)"
    using assms(2,5) mem(1) names addr(2) l(5)
    by (auto simp: enqueueV3_def tensors_of_plain(1) [OF l(1)] in_set_conv_nth)
  moreover have "blocks eng {..<length eng} (s\<lparr>cuda_memory := mem\<rparr>)"
  proof -
    have m1: "\<exists>d. mem (blk (?name i)) = Some d \<and> length d = unat (trt_size (eng ! i))" if i: "i < length eng" for i
    proof (cases "blk (?name i) \<in> blk ` set (map ?name ?o)")
      case True
      then obtain j where j: "j < length eng" "j \<noteq> k" "blk (?name i) = blk (?name j)" by auto
      then have "i = j" using inj i addr(1) [OF i] addr(1) [OF j(1)] by (auto simp: inj_on_def)
      then show ?thesis using mem(2) assms(6) j by auto
    next
      case False
      then show ?thesis using mem(3) addr(3) [OF i] by auto
    qed
    have m2: "cuda_memory s c \<noteq> None" if "mem c \<noteq> None" for c
    proof (cases "c \<in> blk ` set (map ?name ?o)")
      case True
      then obtain i where "i < length eng" "c = blk (?name i)" by auto
      then show ?thesis using addr(3) [of i] by auto
    qed (use that mem(3) in simp)
    have m3: "blk (?name i) < cuda_next s" if i: "i < length eng" for i
    proof -
      have "cuda_memory s (blk (?name i)) \<noteq> None" using addr(3) [OF i] by auto
      then show ?thesis using l(7) by (simp add: blocks_def)
    qed
    have "\<forall>i \<in> {..<length eng}. \<exists>b d. m_deviceBuffers s ! i = Some b \<and> b < cuda_next s \<and> mem b = Some d \<and>
        length d = unat (trt_size (eng ! i))" using m1 m3 addr(1) by auto
    moreover have "\<forall>b. mem b \<noteq> None \<longrightarrow> b < cuda_next s \<and> Some b \<in> set (m_deviceBuffers s)"
      using l(7) m2 unfolding blocks_def by blast
    ultimately show ?thesis using l(7) by (simp add: blocks_def)
  qed
  moreover have "\<forall>i \<in> set ?o. m_deviceBuffers s ! i = Some (blk (?name i)) \<and> mem (blk (?name i)) = Some (?net (?name i))"
    using addr(1) mem(2) by auto
  ultimately show ?thesis using loaded_update [OF assms(1), of mem "tensor_address s"]
    by (intro exI [of _ "s\<lparr>cuda_memory := mem\<rparr>"]) auto
qed

lemma run_loaded:
  assumes "trt_loaded eng k s" and "\<forall>n. ans_address ans n" and "ans_enqueue ans" and "ans_sync ans"
    and "m_deviceBuffers s ! k = Some b" and "cuda_memory s b = Some x" and "tensor_address s (tensor_name (eng ! k)) = Some b"
    and "\<forall>i \<in> set (out_idx k (length eng)). length (ans_network ans [x] (tensor_name (eng ! i))) = unat (trt_size (eng ! i))"
  shows "\<exists>s'. trt_runInference ans s = (Inr 0, s') \<and> trt_loaded eng k s' \<and>
    (\<forall>i \<in> set (out_idx k (length eng)). \<exists>b. m_deviceBuffers s' ! i = Some b \<and>
      cuda_memory s' b = Some (ans_network ans [x] (tensor_name (eng ! i))))"
proof -
  note l = loaded_parts [OF assms(1)]
  let ?o = "out_idx k (length eng)"
  have dist: "distinct (map tensor_name eng)" using l(1) by (simp add: plain_engine_def)
  note known = known_output [OF l(4)]
  have dev: "\<forall>j \<in> set [0..<length ?o]. device_buffer (m_outputIndices s ! j) s = Inr (m_deviceBuffers s ! (?o ! j))"
    using known(1) loaded_block [OF assms(1)] out_idx_nth by fastforce
  have "map (\<lambda>j. m_outputNames s ! j) [0..<length ?o] = map (\<lambda>i. tensor_name (eng ! i)) ?o"
    by (rule nth_equalityI) (simp_all add: known(2))
  moreover have "distinct (map (\<lambda>i. tensor_name (eng ! i)) ?o)"
    using nth_eq_iff_index_eq [OF dist] by (auto simp: distinct_map inj_on_def)
  ultimately have names: "distinct (map (\<lambda>j. m_outputNames s ! j) [0..<length ?o])" by simp
  obtain a where a: "set_output_addresses ans [0..<length ?o] s = (Inr True, s\<lparr>tensor_address := a\<rparr>)"
    "\<forall>j \<in> set [0..<length ?o]. a (m_outputNames s ! j) = m_deviceBuffers s ! (?o ! j)"
    "\<forall>n. n \<notin> (\<lambda>j. m_outputNames s ! j) ` set [0..<length ?o] \<longrightarrow> a n = tensor_address s n"
    using set_addresses [OF assms(2) l(3) dev names] by blast
  let ?s = "s\<lparr>tensor_address := a\<rparr>"
  have "a (tensor_name (eng ! i)) = m_deviceBuffers s ! i" if i: "i < length eng" for i
  proof (cases "i = k")
    case True
    have "tensor_name (eng ! k) \<noteq> m_outputNames s ! j" if "j < length ?o" for j
      using known(2) [OF that] out_idx_nth [OF that] nth_eq_iff_index_eq [OF dist, of k "?o ! j"] l(5) by simp
    then have "tensor_name (eng ! k) \<notin> (\<lambda>j. m_outputNames s ! j) ` set [0..<length ?o]" by (auto simp: image_iff)
    then show ?thesis using a(3) assms(5,7) True by simp
  next
    case False
    then obtain j where "j < length ?o" "?o ! j = i" using i by (metis in_set_conv_nth out_idx_mem)
    then show ?thesis using a(2) known(2) by auto
  qed
  moreover have "trt_loaded eng k ?s" using loaded_update [OF assms(1), of "cuda_memory s" a] l(7) by simp
  ultimately obtain s' where "enqueueV3 ans eng ?s = (Inr True, s')" "trt_loaded eng k s'"
    "\<forall>i \<in> set ?o. \<exists>b. m_deviceBuffers s' ! i = Some b \<and> cuda_memory s' b = Some (ans_network ans [x] (tensor_name (eng ! i)))"
    using enqueue_loaded [of eng k ?s ans b x] assms(3,5,6,8) by auto
  then show ?thesis using a(1) l(2,3,10) assms(4)
    by (intro exI [of _ s']) (simp add: trt_runInference_def)
qed

lemma copy_outputs_loaded:
  assumes "trt_loaded eng k s" and "\<forall>i. ans_copy_out ans i"
    and "\<forall>i \<in> set (out_idx k (length eng)). \<exists>b. m_deviceBuffers s ! i = Some b \<and> cuda_memory s b = Some (out i)"
  shows "m \<le> length (out_idx k (length eng)) \<Longrightarrow> length outs = length (out_idx k (length eng)) \<Longrightarrow>
    copy_outputs ans [m..<length (out_idx k (length eng))] s outs =
      Inr (0, take m outs @ map (\<lambda>j. \<lparr>tensor_index = j, tensor_buf = Some (out (out_idx k (length eng) ! j)),
        tensor_size = length (out (out_idx k (length eng) ! j)), dataType = ''float32''\<rparr>) [m..<length (out_idx k (length eng))])"
proof (induction "length (out_idx k (length eng)) - m" arbitrary: m outs)
  case (Suc d)
  note l = loaded_parts [OF assms(1)]
  let ?o = "out_idx k (length eng)"
  have m: "m < length ?o" using Suc.hyps(2) by linarith
  let ?i = "?o ! m"
  have i: "?i < length eng" "?i \<in> set ?o" using out_idx_nth [OF m] m by simp_all
  obtain b where b: "m_deviceBuffers s ! ?i = Some b" "cuda_memory s b = Some (out ?i)" using assms(3) i(2) by blast
  have dev: "device_buffer (m_outputIndices s ! m) s = Inr (Some b)" and len: "length (out ?i) = unat (trt_size (eng ! ?i))"
    using loaded_block [OF assms(1) i(1)] b known_output(1) [OF l(4) m] by auto
  let ?v = "\<lparr>tensor_index = m, tensor_buf = Some (out ?i), tensor_size = length (out ?i), dataType = ''float32''\<rparr>"
  have "copy_outputs ans [Suc m..<length ?o] s (outs[m := ?v]) = Inr (0, take (Suc m) (outs[m := ?v]) @
      map (\<lambda>j. \<lparr>tensor_index = j, tensor_buf = Some (out (?o ! j)), tensor_size = length (out (?o ! j)), dataType = ''float32''\<rparr>)
        [Suc m..<length ?o])" using Suc.hyps(1) [of "Suc m" "outs[m := ?v]"] Suc.hyps(2) Suc.prems(2) m by simp
  moreover have "take (Suc m) (outs[m := ?v]) = take m outs @ [?v]" using m Suc.prems(2) by (simp add: take_Suc_conv_app_nth)
  ultimately have rest: "copy_outputs ans [Suc m..<length ?o] s (outs[m := ?v]) = Inr (0, take m outs @ [?v] @
      map (\<lambda>j. \<lparr>tensor_index = j, tensor_buf = Some (out (?o ! j)), tensor_size = length (out (?o ! j)), dataType = ''float32''\<rparr>)
        [Suc m..<length ?o])" by simp
  have "[m..<length ?o] = m # [Suc m..<length ?o]" using m by (simp add: upt_conv_Cons)
  then show ?case using rest dev l(11) [OF m] b(2) len assms(2) read_whole [of "out ?i" "unat (trt_size (eng ! ?i))"] by simp
qed simp


text \<open>A small model: an input of twelve floats, the coverage and the boxes of one cell for four classes.\<close>

definition demo_model :: "trt_tensor list" where
  "demo_model = [\<lparr>tensor_name = ''input'', io_mode = kINPUT, tensor_dims = [1, 3, 2, 2], tensor_type = kFLOAT\<rparr>,
     \<lparr>tensor_name = ''cov'', io_mode = kOUTPUT, tensor_dims = [4, 1, 1], tensor_type = kFLOAT\<rparr>,
     \<lparr>tensor_name = ''bbox'', io_mode = kOUTPUT, tensor_dims = [16, 1, 1], tensor_type = kFLOAT\<rparr>]"

definition demo_trt :: trt_answers where
  "demo_trt = \<lparr>ans_file = Some [7], ans_runtime = True, ans_deserialize = (\<lambda>_. Some demo_model), ans_builder = True,
     ans_definition = True, ans_parser = True, ans_parse = True, ans_config = True, ans_serialize = Some [7], ans_context = True,
     ans_cudaMalloc = (\<lambda>_. Some []), ans_malloc = (\<lambda>_. True), ans_copy_in = True, ans_address = (\<lambda>_. True), ans_enqueue = True,
     ans_network = (\<lambda>ins n. concat (replicate (if n = ''cov'' then 4 else 16) [1, 0, 0, 0])), ans_sync = True,
     ans_copy_out = (\<lambda>_. True)\<rparr>"

lemma demo_model_plain: "plain_engine demo_model 0"
  by (auto simp: plain_engine_def demo_model_def nth_Cons split: nat.split)

lemma demo_sizes: "trt_size (demo_model ! 0) = 48" "trt_size (demo_model ! 1) = 16" "trt_size (demo_model ! 2) = 64"
  by (simp_all add: demo_model_def trt_size_def type_bytes_def)

lemma demo_outputs: "out_idx 0 (length demo_model) = [1, 2]"
  by (simp add: demo_model_def out_idx_def upt_rec)




section \<open>A detector on TensorRT\<close>

definition trt_ready :: "tensorrt \<Rightarrow> bool" where
  "trt_ready s \<longleftrightarrow> m_context s \<and> m_engine s \<noteq> None \<and> length (m_deviceBuffers s) = 10"

lemma setTensorAddress_ready: "trt_ready s \<Longrightarrow> trt_ready (snd (setTensorAddress ans n p s))"
  by (simp add: setTensorAddress_def trt_ready_def)

lemma set_output_addresses_ready: "trt_ready s \<Longrightarrow> trt_ready (snd (set_output_addresses ans idx s))"
proof (induction ans idx s rule: set_output_addresses.induct)
  case (2 ans i rest s)
  show ?case
  proof (cases "device_buffer (m_outputIndices s ! i) s")
    case (Inr p)
    obtain r s' where set: "setTensorAddress ans (m_outputNames s ! i) p s = (r, s')" by (rule prod.exhaust)
    have ready: "trt_ready s'" using setTensorAddress_ready [OF "2.prems", of ans "m_outputNames s ! i" p] set by simp
    show ?thesis using "2.IH" [OF Inr, of True s'] ready set Inr by (cases r) auto
  qed (use "2.prems" in simp)
qed simp

lemma run_ready:
  assumes "trt_ready s"
  shows "trt_ready (snd (trt_runInference ans s))"
proof -
  obtain r s1 where r: "set_output_addresses ans [0..<m_numOutputs s] s = (r, s1)" by (rule prod.exhaust)
  have "trt_ready s1" using set_output_addresses_ready [OF assms, of ans "[0..<m_numOutputs s]"] r by simp
  then show ?thesis using r
    by (cases r) (auto simp: trt_runInference_def enqueueV3_def trt_ready_def Let_def split: sum.split option.split)
qed

interpretation trt: engine_outputs "trt_engine ans one" "\<lambda>_. 0" trt_ready
proof
  fix e :: tensorrt and inp outs
  assume ready: "trt_ready e"
  show "(0 :: nat) = 0 \<and> trt_ready (snd (eng_pushInputData (trt_engine ans one) inp e))"
    using ready by (auto simp: trt_engine_def trt_pushInputData_def setTensorAddress_def trt_ready_def split: sum.split option.split)
  show "(0 :: nat) = 0 \<and> trt_ready (snd (eng_runInference (trt_engine ans one) e))"
    using run_ready [OF ready] by (simp add: trt_engine_def)
  show "(0 :: nat) \<le> 0 + 1 \<and> trt_ready (snd (eng_popOutputData (trt_engine ans one) outs e))"
    using ready by (simp add: trt_engine_def trt_popOutputData_def)
  show "(0 :: nat) = 0 - 1 \<and> trt_ready (fst (eng_releaseOutputData (trt_engine ans one) outs e))"
    using ready by (simp add: trt_engine_def trt_releaseOutputData_def)
qed


definition loaded_trt :: tensorrt where
  "loaded_trt = snd (trt_loadModel demo_trt ''model.engine'' newTensorrt)"

definition trt_detector :: "(Resnet18TrafficCamNet, tensorrt, rat) dnnObjDetector" where
  "trt_detector = \<lparr>m_pluginLibraryHandle = True, m_dnnPluginHandle = Some loaded_camnet, m_dnnEngine = loaded_trt,
     m_dataInput = Some square_picture, m_dataOutputVector = [], m_labelTextPath = ''labels.txt'', lib_opens = 1\<rparr>"


section \<open>Where it does not fit\<close>

text \<open>An input larger than the one of the model is copied over the end of the device block.\<close>

lemma large_input_overruns:
  assumes "trt_loaded eng k s" and "ans_copy_in ans" and "in_size inp = length (in_buf inp)" and "unat (trt_size (eng ! k)) < in_size inp"
  shows "trt_pushInputData ans inp s = (Inl (Undefined ''memcpy out of range''), s)"
proof -
  note l = loaded_parts [OF assms(1)]
  obtain b d where "device_buffer (int k) s = Inr (Some b)" "cuda_memory s b = Some d" "length d = unat (trt_size (eng ! k))"
    using loaded_block [OF assms(1) l(5)] by blast
  then show ?thesis using assms(2-4) l(8) by (auto simp: trt_pushInputData_def read_at_def memcpy_at_def)
qed

text \<open>An element of \<open>kINT64\<close> has eight bytes and one of \<open>kBF16\<close> two, but the code counts one.\<close>

lemma wide_types_undersized: "tensor_type t \<in> {kINT64, kBF16} \<Longrightarrow> tensor_dims t = [1000] \<Longrightarrow> trt_size t = 1000"
  by (auto simp: trt_size_def type_bytes_def)

lemma wide_output_overruns:
  assumes "mem (the (addr n)) = Some d" and "length d < length (net n)"
  shows "write_outputs addr net (n # ns) mem = Inl (Undefined ''memcpy out of range'')"
  using assms by (simp add: memcpy_at_def)

text \<open>A second load keeps the names of the first model in front, and leaks its objects and blocks.\<close>

lemma reload_keeps_names:
  assumes "read_tensors eng idx s = (Inr (), s')"
  shows "take (length (m_outputNames s)) (m_outputNames s') = m_outputNames s"
  using assms
proof (induction eng idx s rule: read_tensors.induct)
  case (2 eng i rest s)
  show ?case
  proof (cases "io_mode (eng ! i)")
    case kOUTPUT
    then show ?thesis using 2 by (auto simp: Let_def split: if_split_asm dest: arg_cong [where f = "take (length (m_outputNames s))"])
  qed (use 2 in \<open>simp_all add: Let_def\<close>)
qed simp

lemma reload_leaks:
  "case trt_loadModel demo_trt ''model.engine'' loaded_trt of (r, s) \<Rightarrow>
     r = Inr () \<and> trt_objects (destroyTensorrt s) = 3 \<and> host_blocks (destroyTensorrt s) = 2 \<and>
     cuda_memory (destroyTensorrt s) 0 \<noteq> None"
  by code_simp

text \<open>A network file that cannot be parsed leaves builder, network and parser behind.\<close>

lemma parse_failure_leaks:
  assumes "ans_runtime ans" and "ans_builder ans" and "ans_definition ans" and "ans_parser ans" and "\<not> ans_parse ans"
  shows "\<exists>s'. buildEngineFromOnnx ans s = (Inr False, s') \<and> trt_objects s' = trt_objects s + 4"
  using assms by (simp add: buildEngineFromOnnx_def create_runtime_def Let_def)

end
