(* ===== verification/Cpu2dGraphics.thy ===== *)
theory Cpu2dGraphics
  imports YoloPostProcess
begin

text \<open>
  Drawing into a frame buffer: \<open>bsp_egl/Cpu2dGraphics\<close>. The buffer is the list of its pixels; an access
  outside it has no meaning. The arithmetic on floats is \<open>fp\<close> of \<open>YoloPostProcess\<close> with the functions of
  \<open><cmath>\<close> beside it; a conversion of a float that does not fit the type has no meaning either.
\<close>

section \<open>Colours\<close>

record Color =
  col_r :: byte
  col_g :: byte
  col_b :: byte
  col_a :: byte

record 'f cmath =
  m_fmod :: "'f \<Rightarrow> 'f \<Rightarrow> 'f"
  m_abs :: "'f \<Rightarrow> 'f"
  m_sqrt :: "'f \<Rightarrow> 'f"
  m_isqrt :: "u32 \<Rightarrow> 'f"

definition float_to_u8 :: "('f, 'd) fp \<Rightarrow> 'f \<Rightarrow> byte result" where
  "float_to_u8 F x =
     rbind (float_to_int F x) (\<lambda>i. if 0 \<le> i \<and> i < 256 then Inr (word_of_int i) else Inl (Undefined ''conversion out of range''))"

definition make_color :: "('f, 'd) fp \<Rightarrow> 'f \<Rightarrow> 'f \<Rightarrow> 'f \<Rightarrow> byte result \<Rightarrow> Color result" where
  "make_color F r g b a =
     rbind (float_to_u8 F r) (\<lambda>r. rbind (float_to_u8 F g) (\<lambda>g. rbind (float_to_u8 F b) (\<lambda>b. rbind a (\<lambda>a.
       Inr \<lparr>col_r = r, col_g = g, col_b = b, col_a = a\<rparr>))))"

definition times_255 :: "('f, 'd) fp \<Rightarrow> 'f \<Rightarrow> 'f" where "times_255 F x = f_mul F x (f_of_int F 255)"

definition fromFloat :: "('f, 'd) fp \<Rightarrow> 'f \<Rightarrow> 'f \<Rightarrow> 'f \<Rightarrow> 'f \<Rightarrow> Color result" where
  "fromFloat F red green blue alpha =
     make_color F (times_255 F red) (times_255 F green) (times_255 F blue) (float_to_u8 F (times_255 F alpha))"

definition f_clamp :: "('f, 'd) fp \<Rightarrow> 'f \<Rightarrow> 'f \<Rightarrow> 'f \<Rightarrow> 'f" where
  "f_clamp F x lo hi = (if f_less F x lo then lo else if f_less F hi x then hi else x)"

definition unit_clamp :: "('f, 'd) fp \<Rightarrow> 'f \<Rightarrow> 'f" where
  "unit_clamp F x = f_clamp F x (f_of_int F 0) (f_of_int F 1)"

text \<open>The six sectors of the hue.\<close>

definition hsv_sector :: "('f, 'd) fp \<Rightarrow> 'f \<Rightarrow> 'f \<Rightarrow> 'f \<Rightarrow> 'f \<times> 'f \<times> 'f" where
  "hsv_sector F h c x =
     (let z = f_of_int F 0; below = (\<lambda>n. f_less F h (f_of_int F n))
      in if below 60 then (c, x, z) else if below 120 then (x, c, z) else if below 180 then (z, c, x)
         else if below 240 then (z, x, c) else if below 300 then (x, z, c) else (c, z, x))"

definition fromHSV :: "('f, 'd) fp \<Rightarrow> 'f cmath \<Rightarrow> 'f \<Rightarrow> 'f \<Rightarrow> 'f \<Rightarrow> Color result" where
  "fromHSV F M h0 s0 v0 =
     (let h1 = m_fmod M h0 (f_of_int F 360);
          h = (if f_less F h1 (f_of_int F 0) then f_add F h1 (f_of_int F 360) else h1);
          s = unit_clamp F s0; v = unit_clamp F v0; c = f_mul F v s;
          x = f_mul F c (f_sub F (f_of_int F 1)
                (m_abs M (f_sub F (m_fmod M (f_div F h (f_of_int F 60)) (f_of_int F 2)) (f_of_int F 1))));
          m = f_sub F v c
      in case hsv_sector F h c x of (r, g, b) \<Rightarrow>
           make_color F (times_255 F (f_add F r m)) (times_255 F (f_add F g m)) (times_255 F (f_add F b m)) (Inr 255))"

definition colorToUint32 :: "Color \<Rightarrow> u32" where
  "colorToUint32 c = or (or (or (push_bit 24 (ucast (col_a c))) (push_bit 16 (ucast (col_r c)))) (push_bit 8 (ucast (col_g c))))
     (ucast (col_b c))"

definition channel_of :: "nat \<Rightarrow> u32 \<Rightarrow> byte" where
  "channel_of k p = ucast (and (drop_bit k p) 255)"

text \<open>One channel of the mixture; \<open>alpha\<close> is the opacity of the source.\<close>

definition mix :: "('f, 'd) fp \<Rightarrow> 'f \<Rightarrow> byte \<Rightarrow> byte \<Rightarrow> byte result" where
  "mix F alpha s d = float_to_u8 F (f_add F (f_mul F (f_of_int F (uint s)) alpha)
     (f_mul F (f_of_int F (uint d)) (f_sub F (f_of_int F 1) alpha)))"

definition blendColor :: "('f, 'd) fp \<Rightarrow> u32 \<Rightarrow> Color \<Rightarrow> u32 result" where
  "blendColor F dst src =
     (if col_a src = 0 then Inr dst
      else if col_a src = 255 then Inr (colorToUint32 src)
      else
        (let alpha = f_div F (f_of_int F (uint (col_a src))) (f_of_int F 255)
         in rbind (mix F alpha (col_r src) (channel_of 16 dst)) (\<lambda>r.
            rbind (mix F alpha (col_g src) (channel_of 8 dst)) (\<lambda>g.
            rbind (mix F alpha (col_b src) (channel_of 0 dst)) (\<lambda>b.
              Inr (colorToUint32 \<lparr>col_r = r, col_g = g, col_b = b,
                col_a = word_of_int (min 255 (uint (col_a src) + uint (channel_of 24 dst)))\<rparr>))))))"

definition paint :: "('f, 'd) fp \<Rightarrow> Color \<Rightarrow> u32 \<Rightarrow> u32 result" where
  "paint F c dst = (if col_a c = 255 then Inr (colorToUint32 c) else blendColor F dst c)"

section \<open>Drawing\<close>

record Cpu2dGraphics =
  m_framebuffer :: "u32 list"
  m_width :: u32
  m_height :: u32

definition newCpu2dGraphics :: "u32 list \<Rightarrow> u32 \<Rightarrow> u32 \<Rightarrow> Cpu2dGraphics" where
  "newCpu2dGraphics fb w h = \<lparr>m_framebuffer = fb, m_width = w, m_height = h\<rparr>"

definition clear_screen :: "Color \<Rightarrow> Cpu2dGraphics \<Rightarrow> Cpu2dGraphics" where
  "clear_screen c g = g\<lparr>m_framebuffer := map (\<lambda>_. colorToUint32 c) (m_framebuffer g)\<rparr>"

text \<open>
  The loops over rows and columns visit a list of cells. The start of a row is computed in 32 bits,
  the column is added to the address.
\<close>

definition pixel_index :: "Cpu2dGraphics \<Rightarrow> int \<times> int \<Rightarrow> int" where
  "pixel_index g cell = (case cell of (row, col) \<Rightarrow> uint (word_of_int row * m_width g) + col)"

definition draw_at :: "Cpu2dGraphics \<Rightarrow> int \<times> int \<Rightarrow> (u32 \<Rightarrow> u32 result) \<Rightarrow> u32 list \<Rightarrow> u32 list result" where
  "draw_at g cell f fb =
     (let i = pixel_index g cell
      in if i < 0 \<or> int (length fb) \<le> i then Inl (Undefined ''index out of range'')
         else rbind (f (fb ! nat i)) (\<lambda>p. Inr (fb[nat i := p])))"

fun draw_cells :: "Cpu2dGraphics \<Rightarrow> (int \<times> int \<Rightarrow> u32 \<Rightarrow> u32 result) \<Rightarrow> (int \<times> int) list \<Rightarrow> u32 list \<Rightarrow> u32 list result" where
  "draw_cells g f [] fb = Inr fb"
| "draw_cells g f (cell # cells) fb = rbind (draw_at g cell (f cell) fb) (draw_cells g f cells)"

definition cells_of :: "int \<Rightarrow> int \<Rightarrow> int \<Rightarrow> int \<Rightarrow> (int \<times> int) list" where
  "cells_of x1 y1 x2 y2 = concat (map (\<lambda>row. map (\<lambda>col. (row, col)) [x1..x2 - 1]) [y1..y2 - 1])"

definition keep_drawing :: "u32 list result \<Rightarrow> Cpu2dGraphics \<Rightarrow> Cpu2dGraphics result" where
  "keep_drawing r g = rbind r (\<lambda>fb. Inr (g\<lparr>m_framebuffer := fb\<rparr>))"

text \<open>The sums are computed in \<open>int\<close>; \<open>f\<close> is what happens to a pixel of the clipped rectangle.\<close>

definition draw_rect ::
  "int \<Rightarrow> int \<Rightarrow> int \<Rightarrow> int \<Rightarrow> (int \<times> int \<Rightarrow> u32 \<Rightarrow> u32 result) \<Rightarrow> Cpu2dGraphics \<Rightarrow> Cpu2dGraphics result" where
  "draw_rect x y w h f g =
     (if sint (m_width g) \<le> x \<or> sint (m_height g) \<le> y then Inr g
      else if \<not> int_ok (x + w) then Inl (Undefined ''int overflow'')
      else if x + w \<le> 0 then Inr g
      else if \<not> int_ok (y + h) then Inl (Undefined ''int overflow'')
      else if y + h \<le> 0 then Inr g
      else keep_drawing (draw_cells g f
             (cells_of (max 0 x) (max 0 y) (min (sint (m_width g)) (x + w)) (min (sint (m_height g)) (y + h))) (m_framebuffer g)) g)"

definition fillRect :: "('f, 'd) fp \<Rightarrow> int \<Rightarrow> int \<Rightarrow> int \<Rightarrow> int \<Rightarrow> Color \<Rightarrow> Cpu2dGraphics \<Rightarrow> Cpu2dGraphics result" where
  "fillRect F x y w h color = draw_rect x y w h (\<lambda>_. paint F color)"

definition between :: "('f, 'd) fp \<Rightarrow> 'f \<Rightarrow> byte \<Rightarrow> byte \<Rightarrow> byte result" where
  "between F t l r = rbind (float_to_u8 F (f_mul F (f_of_int F (uint r - uint l)) t)) (\<lambda>d. Inr (l + d))"

definition gradient_color :: "('f, 'd) fp \<Rightarrow> 'f \<Rightarrow> Color \<Rightarrow> Color \<Rightarrow> Color result" where
  "gradient_color F t l r =
     rbind (between F t (col_r l) (col_r r)) (\<lambda>cr. rbind (between F t (col_g l) (col_g r)) (\<lambda>cg.
     rbind (between F t (col_b l) (col_b r)) (\<lambda>cb. rbind (between F t (col_a l) (col_a r)) (\<lambda>ca.
       Inr \<lparr>col_r = cr, col_g = cg, col_b = cb, col_a = ca\<rparr>))))"

definition fillRectGradient ::
  "('f, 'd) fp \<Rightarrow> int \<Rightarrow> int \<Rightarrow> int \<Rightarrow> int \<Rightarrow> Color \<Rightarrow> Color \<Rightarrow> Cpu2dGraphics \<Rightarrow> Cpu2dGraphics result" where
  "fillRectGradient F x y w h colorLeft colorRight =
     draw_rect x y w h (\<lambda>(row, col) dst.
       rbind (gradient_color F (unit_clamp F (f_div F (f_of_int F (col - x)) (f_of_int F w))) colorLeft colorRight)
         (\<lambda>c. paint F c dst))"

definition setPixel :: "('f, 'd) fp \<Rightarrow> int \<Rightarrow> int \<Rightarrow> Color \<Rightarrow> Cpu2dGraphics \<Rightarrow> Cpu2dGraphics result" where
  "setPixel F x y color g =
     (if x < 0 \<or> sint (m_width g) \<le> x \<or> y < 0 \<or> sint (m_height g) \<le> y then Inr g
      else
        (let i = uint (word_of_int y * m_width g + word_of_int x)
         in if int (length (m_framebuffer g)) \<le> i then Inl (Undefined ''index out of range'')
            else rbind (paint F color (m_framebuffer g ! nat i)) (\<lambda>p.
              Inr (g\<lparr>m_framebuffer := (m_framebuffer g)[nat i := p]\<rparr>))))"

datatype RainbowDirection = Horizontal | Vertical | Diagonal | Radial

text \<open>How far along the rainbow a pixel is.\<close>

definition rainbow_t :: "('f, 'd) fp \<Rightarrow> 'f cmath \<Rightarrow> RainbowDirection \<Rightarrow> u32 \<Rightarrow> u32 \<Rightarrow> u32 \<Rightarrow> u32 \<Rightarrow> 'f" where
  "rainbow_t F M dir w h y x =
     (let i = (\<lambda>n :: u32. f_of_int F (uint n))
      in case dir of
           Horizontal \<Rightarrow> f_div F (i x) (i (w - 1))
         | Vertical \<Rightarrow> f_div F (i y) (i (h - 1))
         | Diagonal \<Rightarrow> f_div F (m_isqrt M (x * x + y * y)) (m_isqrt M (w * w + h * h))
         | Radial \<Rightarrow>
             (let cx = f_div F (i w) (f_of_int F 2); cy = f_div F (i h) (f_of_int F 2);
                  dx = f_sub F (i x) cx; dy = f_sub F (i y) cy
              in f_div F (m_sqrt M (f_add F (f_mul F dx dx) (f_mul F dy dy)))
                   (m_sqrt M (f_add F (f_mul F cx cx) (f_mul F cy cy)))))"

definition fillRainbow :: "('f, 'd) fp \<Rightarrow> 'f cmath \<Rightarrow> RainbowDirection \<Rightarrow> 'f \<Rightarrow> 'f \<Rightarrow> Cpu2dGraphics \<Rightarrow> Cpu2dGraphics result" where
  "fillRainbow F M dir saturation brightness g =
     keep_drawing (draw_cells g (\<lambda>(row, col) dst.
         rbind (fromHSV F M (f_mul F (rainbow_t F M dir (m_width g) (m_height g) (word_of_int row) (word_of_int col)) (f_of_int F 300))
             (unit_clamp F saturation) (unit_clamp F brightness))
           (\<lambda>c. Inr (colorToUint32 c)))
       (cells_of 0 0 (uint (m_width g)) (uint (m_height g))) (m_framebuffer g)) g"

section \<open>What a rectangle changes\<close>

definition frame_ok :: "Cpu2dGraphics \<Rightarrow> bool" where
  "frame_ok g \<longleftrightarrow> uint (m_width g) < 2 ^ 31 \<and> uint (m_height g) < 2 ^ 31 \<and> uint (m_width g) * uint (m_height g) < 2 ^ 32 \<and>
     int (length (m_framebuffer g)) = uint (m_width g) * uint (m_height g)"

lemma cell_range:
  fixes row col W H :: int
  assumes "0 \<le> row" and "row < H" and "0 \<le> col" and "col < W"
  shows "0 \<le> row * W" and "row * W + col < W * H"
proof -
  show "0 \<le> row * W" using assms by simp
  have "(row + 1) * W \<le> H * W" using assms by (intro mult_right_mono) auto
  then show "row * W + col < W * H" using assms(4) by (simp add: algebra_simps)
qed

lemma pixel_index_ok:
  assumes "frame_ok g" and "0 \<le> row" and "row < uint (m_height g)" and "0 \<le> col" and "col < uint (m_width g)"
  shows "pixel_index g (row, col) = row * uint (m_width g) + col"
    and "row * uint (m_width g) + col < int (length (m_framebuffer g))"
proof -
  note r = cell_range [OF assms(2-5)]
  have small: "row < 2 ^ 32" "row * uint (m_width g) < 2 ^ 32" using assms r by (simp_all add: frame_ok_def)
  have "uint (word_of_int row * m_width g) = row * uint (m_width g)"
    using small assms(2) r(1) by (simp add: uint_word_arith_bintrs unsigned_of_int take_bit_int_eq_self)
  then show "pixel_index g (row, col) = row * uint (m_width g) + col" by (simp add: pixel_index_def)
  show "row * uint (m_width g) + col < int (length (m_framebuffer g))" using r(2) assms(1) by (simp add: frame_ok_def)
qed

lemma cells_of_product: "cells_of x1 y1 x2 y2 = List.product [y1..y2 - 1] [x1..x2 - 1]"
  by (simp add: cells_of_def product_concat_map)

lemma cells_of_mem: "(row, col) \<in> set (cells_of x1 y1 x2 y2) \<longleftrightarrow> y1 \<le> row \<and> row < y2 \<and> x1 \<le> col \<and> col < x2"
  by (auto simp: cells_of_product)

lemma distinct_cells_of: "distinct (cells_of x1 y1 x2 y2)"
  by (simp add: cells_of_product distinct_product)

definition in_frame :: "Cpu2dGraphics \<Rightarrow> int \<times> int \<Rightarrow> bool" where
  "in_frame g cell \<longleftrightarrow> 0 \<le> fst cell \<and> fst cell < uint (m_height g) \<and> 0 \<le> snd cell \<and> snd cell < uint (m_width g)"

definition pixel_pos :: "Cpu2dGraphics \<Rightarrow> int \<times> int \<Rightarrow> nat" where
  "pixel_pos g cell = nat (fst cell * uint (m_width g) + snd cell)"

lemma pixel_pos_inj: "inj_on (pixel_pos g) {cell. in_frame g cell}"
proof (rule inj_onI)
  fix a b
  assume ab: "a \<in> {cell. in_frame g cell}" "b \<in> {cell. in_frame g cell}" "pixel_pos g a = pixel_pos g b"
  let ?W = "uint (m_width g)"
  have "0 \<le> fst a * ?W" "0 \<le> fst b * ?W" using ab(1,2) by (simp_all add: in_frame_def)
  then have eq: "fst a * ?W + snd a = fst b * ?W + snd b"
    using ab by (simp add: pixel_pos_def in_frame_def nat_eq_iff2 split: if_splits)
  have "(fst c * ?W + snd c) div ?W = fst c" "(fst c * ?W + snd c) mod ?W = snd c" if "in_frame g c" for c
    using that by (simp_all add: in_frame_def)
  then have "fst a = fst b" "snd a = snd b" using ab(1,2) eq by (metis mem_Collect_eq)+
  then show "a = b" by (rule prod_eqI)
qed

lemma draw_at_ok:
  assumes "frame_ok g" and "in_frame g cell" and "length fb = length (m_framebuffer g)" and "f (fb ! pixel_pos g cell) = Inr p"
  shows "draw_at g cell f fb = Inr (fb[pixel_pos g cell := p])" and "pixel_pos g cell < length fb"
proof -
  obtain row col where c: "cell = (row, col)" by (cases cell)
  note i = pixel_index_ok [OF assms(1), of row col]
  have "0 \<le> row * uint (m_width g) + col" using assms(2) c by (simp add: in_frame_def)
  then have "\<not> row * uint (m_width g) + col < 0" by (rule leD)
  then show "draw_at g cell f fb = Inr (fb[pixel_pos g cell := p])" "pixel_pos g cell < length fb"
    using assms i by (simp_all add: draw_at_def c pixel_pos_def in_frame_def Let_def nat_less_iff)
qed

lemma draw_cells_ok:
  assumes "frame_ok g" and "\<forall>cell \<in> set cells. in_frame g cell" and "distinct cells" and "length fb = length (m_framebuffer g)"
    and "\<forall>cell \<in> set cells. \<forall>d. f cell d = Inr (p cell d)"
  shows "\<exists>fb'. draw_cells g f cells fb = Inr fb' \<and> length fb' = length fb \<and>
    (\<forall>cell. in_frame g cell \<longrightarrow> fb' ! pixel_pos g cell = (if cell \<in> set cells then p cell (fb ! pixel_pos g cell) else fb ! pixel_pos g cell))"
  using assms(2-5)
proof (induction cells arbitrary: fb)
  case (Cons c cells)
  have c: "in_frame g c" "c \<notin> set cells" using Cons.prems by simp_all
  let ?fb = "fb[pixel_pos g c := p c (fb ! pixel_pos g c)]"
  have run: "draw_at g c (f c) fb = Inr ?fb" and pos: "pixel_pos g c < length fb"
    using draw_at_ok [OF assms(1) c(1) Cons.prems(3), of "f c"] Cons.prems(4) by simp_all
  obtain fb' where fb': "draw_cells g f cells ?fb = Inr fb'" "length fb' = length ?fb"
    "\<forall>cell. in_frame g cell \<longrightarrow> fb' ! pixel_pos g cell = (if cell \<in> set cells then p cell (?fb ! pixel_pos g cell) else ?fb ! pixel_pos g cell)"
    using Cons.IH [of ?fb] Cons.prems by auto
  have "?fb ! pixel_pos g cell = (if cell = c then p c (fb ! pixel_pos g cell) else fb ! pixel_pos g cell)" if "in_frame g cell" for cell
    using inj_onD [OF pixel_pos_inj, of g cell c] that c(1) pos by (auto simp: nth_list_update)
  then show ?case using run fb' c(2) by (intro exI [of _ fb']) auto
qed simp

lemma uint_small_int: "0 \<le> k \<Longrightarrow> k < 2 ^ 32 \<Longrightarrow> uint (word_of_int k :: u32) = k"
  by (rule word_of_int_inverse [OF refl]) simp_all

lemma sint_small_word:
  assumes "uint (w :: u32) < 2 ^ 31"
  shows "sint w = uint w"
proof -
  have "- (2 ^ 31) \<le> uint w" by (rule order_trans [OF _ unsigned_greater_eq]) simp
  then show ?thesis using assms by (simp add: sint_uint signed_take_bit_int_eq_self)
qed

text \<open>What \<open>draw_rect\<close> does when the operation on a pixel always has a result.\<close>

lemma draw_rect_ok:
  assumes "frame_ok g" and "int_ok (x + w)" and "int_ok (y + h)" and "\<And>cell d. f cell d = Inr (p cell d)"
  shows "\<exists>fb'. draw_rect x y w h f g = Inr (g\<lparr>m_framebuffer := fb'\<rparr>) \<and> length fb' = length (m_framebuffer g) \<and>
    (\<forall>cell. in_frame g cell \<longrightarrow> fb' ! pixel_pos g cell =
      (if y \<le> fst cell \<and> fst cell < y + h \<and> x \<le> snd cell \<and> snd cell < x + w then p cell (m_framebuffer g ! pixel_pos g cell)
       else m_framebuffer g ! pixel_pos g cell))"
proof -
  have s: "sint (m_width g) = uint (m_width g)" "sint (m_height g) = uint (m_height g)"
    using assms(1) by (simp_all add: frame_ok_def sint_small_word)
  have out: ?thesis if "draw_rect x y w h f g = Inr g" "\<And>cell. in_frame g cell \<Longrightarrow>
      \<not> (y \<le> fst cell \<and> fst cell < y + h \<and> x \<le> snd cell \<and> snd cell < x + w)"
    using that by (intro exI [of _ "m_framebuffer g"]) auto
  show ?thesis
  proof (cases "uint (m_width g) \<le> x \<or> uint (m_height g) \<le> y \<or> x + w \<le> 0 \<or> y + h \<le> 0")
    case True
    then have "draw_rect x y w h f g = Inr g" using assms(2,3) by (auto simp: draw_rect_def s)
    then show ?thesis using True by (intro out) (auto simp: in_frame_def)
  next
    case False
    let ?cells = "cells_of (max 0 x) (max 0 y) (min (uint (m_width g)) (x + w)) (min (uint (m_height g)) (y + h))"
    have mem: "cell \<in> set ?cells \<longleftrightarrow> in_frame g cell \<and> y \<le> fst cell \<and> fst cell < y + h \<and> x \<le> snd cell \<and> snd cell < x + w" for cell
      by (cases cell) (auto simp: cells_of_mem in_frame_def)
    have all: "\<forall>cell \<in> set ?cells. in_frame g cell" "\<forall>cell \<in> set ?cells. \<forall>d. f cell d = Inr (p cell d)"
      using mem assms(4) by simp_all
    obtain fb' where fb': "draw_cells g f ?cells (m_framebuffer g) = Inr fb'" "length fb' = length (m_framebuffer g)"
      "\<forall>cell. in_frame g cell \<longrightarrow> fb' ! pixel_pos g cell =
        (if cell \<in> set ?cells then p cell (m_framebuffer g ! pixel_pos g cell) else m_framebuffer g ! pixel_pos g cell)"
      using draw_cells_ok [OF assms(1) all(1) distinct_cells_of refl all(2)] by blast
    have "draw_rect x y w h f g = Inr (g\<lparr>m_framebuffer := fb'\<rparr>)"
      using False assms(2,3) fb'(1) by (simp add: draw_rect_def s keep_drawing_def)
    then show ?thesis using fb'(2,3) mem by (intro exI [of _ fb']) simp
  qed
qed


text \<open>An opaque colour is painted whatever the floats do.\<close>

lemma paint_opaque: "col_a c = 255 \<Longrightarrow> paint F c d = Inr (colorToUint32 c)"
  by (simp add: paint_def)

definition demo_frame :: Cpu2dGraphics where
  "demo_frame = newCpu2dGraphics [0, 0, 0, 0, 0, 0] 3 2"

definition red :: Color where
  "red = \<lparr>col_r = 255, col_g = 0, col_b = 0, col_a = 255\<rparr>"

lemma demo_frame_ok: "frame_ok demo_frame"
  by (simp add: frame_ok_def demo_frame_def newCpu2dGraphics_def)


text \<open>
  A rectangle of one pixel is a pixel: on a frame buffer of the declared size \<open>fillRect\<close> with width
  and height 1 and \<open>setPixel\<close> are the same function, on every position and in every outcome, although
  one clips and the other tests, and they compute the address differently.
\<close>

theorem unit_rect_is_pixel:
  assumes "frame_ok g" and "int_ok (x + 1)" and "int_ok (y + 1)"
  shows "fillRect F x y 1 1 color g = setPixel F x y color g"
proof -
  have s: "sint (m_width g) = uint (m_width g)" "sint (m_height g) = uint (m_height g)"
    using assms(1) by (simp_all add: frame_ok_def sint_small_word)
  show ?thesis
  proof (cases "in_frame g (y, x)")
    case False
    then show ?thesis using assms(2,3) by (auto simp: fillRect_def draw_rect_def setPixel_def s in_frame_def)
  next
    case True
    then have xy: "0 \<le> y" "y < uint (m_height g)" "0 \<le> x" "x < uint (m_width g)" by (simp_all add: in_frame_def)
    note i = pixel_index_ok [OF assms(1) xy]
    have "cells_of (max 0 x) (max 0 y) (min (uint (m_width g)) (x + 1)) (min (uint (m_height g)) (y + 1)) = [(y, x)]"
    proof -
      have "max 0 x = x" "max 0 y = y" "min (uint (m_width g)) (x + 1) = x + 1" "min (uint (m_height g)) (y + 1) = y + 1" using xy by simp_all
      then show ?thesis by (simp only:) (simp add: cells_of_def)
    qed
    then have rect: "fillRect F x y 1 1 color g = keep_drawing (draw_at g (y, x) (paint F color) (m_framebuffer g)) g"
      using xy assms(2,3) by (simp add: fillRect_def draw_rect_def s keep_drawing_def rbind_def split: sum.split)
    have n: "0 \<le> y * uint (m_width g)" using xy by simp
    have "y * uint (m_width g) + x < 2 ^ 32" using i(2) assms(1) by (simp add: frame_ok_def)
    then have "uint (word_of_int (y * uint (m_width g) + x) :: u32) = y * uint (m_width g) + x"
      by (rule uint_small_int [OF add_nonneg_nonneg [OF n xy(3)]])
    moreover have "(word_of_int y * m_width g + word_of_int x :: u32) = word_of_int (y * uint (m_width g) + x)" by simp
    ultimately have "uint (word_of_int y * m_width g + word_of_int x) = y * uint (m_width g) + x" by metis
    moreover have "\<not> y * uint (m_width g) + x < 0" using n xy(3) by simp
    ultimately show ?thesis using xy i
      by (simp add: rect setPixel_def s draw_at_def Let_def keep_drawing_def rbind_def split: sum.split)
  qed
qed

theorem unit_rect_is_pixel_witness:
  "fillRect exact_fp 2 1 1 1 red demo_frame = setPixel exact_fp 2 1 red demo_frame \<and>
     fillRect exact_fp (-1) 0 1 1 red demo_frame = setPixel exact_fp (-1) 0 red demo_frame"
  by (intro conjI unit_rect_is_pixel demo_frame_ok) (simp_all add: int_ok_def)

section \<open>Floats that do not fit\<close>

text \<open>A gradient to a darker colour converts a negative float to an unsigned byte.\<close>

lemma darker_gradient_undefined:
  "fillRectGradient exact_fp 0 0 2 1 red \<lparr>col_r = 0, col_g = 0, col_b = 0, col_a = 255\<rparr> demo_frame =
     Inl (Undefined ''conversion out of range'')"
  by code_simp

text \<open>The rainbow of a frame with one column divides by zero for its position.\<close>

lemma one_column_divides:
  "m_width g = 1 \<Longrightarrow> rainbow_t F M Horizontal (m_width g) h y 0 = f_div F (f_of_int F 0) (f_of_int F 0)"
  by (simp add: rainbow_t_def)

end
