(* ===== verification/Svs.thy ===== *)
theory Svs
  imports TrafficCamNet Cpu2dGraphics
begin

text \<open>
  The surround view: \<open>features/svs\<close>. Four cameras are balanced, projected to the ground and blended into
  one picture around the vehicle. A \<open>cv::Mat\<close> with three channels that OpenCV owns is its size and a
  function from row and column to the pixel; the pictures of the cameras are views of the caller's
  memory, as in \<open>Image\<close>. What OpenCV computes (undistortion, warping, rotation, scaling) and what files
  hold is an argument; the checks OpenCV documents are exceptions.
\<close>

section \<open>Types\<close>

record 'd Matrix =
  mx_rows :: u32
  mx_cols :: u32
  mx_values :: "'d list"

definition no_matrix :: "'d Matrix" where "no_matrix = \<lparr>mx_rows = 0, mx_cols = 0, mx_values = []\<rparr>"

definition matrix_empty :: "'d Matrix \<Rightarrow> bool" where
  "matrix_empty m \<longleftrightarrow> mx_rows m = 0 \<or> mx_cols m = 0 \<or> mx_values m = []"

record 'd CameraParameters =
  par_name :: string
  distCoeffs :: "'d Matrix"
  cameraMatrix :: "'d Matrix"
  projectMatrix :: "'d Matrix"
  transMatrix :: "'d Matrix"
  par_size :: ImageSize
  scaleXY :: "'d Matrix"
  shiftXY :: "'d Matrix"

definition newCameraParameters :: "'d CameraParameters" where
  "newCameraParameters = \<lparr>par_name = [], distCoeffs = no_matrix, cameraMatrix = no_matrix, projectMatrix = no_matrix,
     transMatrix = no_matrix, par_size = \<lparr>size_width = 0, size_height = 0\<rparr>, scaleXY = no_matrix, shiftXY = no_matrix\<rparr>"

record CameraConfig =
  cam_name :: string
  calibPath :: string
  flipMode :: string

record ProjectionLayout =
  shiftWidth :: int
  shiftHeight :: int
  calibrationMapWidth :: int
  calibrationMapHeight :: int
  innerShiftWidth :: int
  innerShiftHeight :: int
  vehicleOffsetWidth :: int
  vehicleOffsetHeight :: int

definition newProjectionLayout :: ProjectionLayout where
  "newProjectionLayout = \<lparr>shiftWidth = 300, shiftHeight = 300, calibrationMapWidth = 600, calibrationMapHeight = 1000,
     innerShiftWidth = 20, innerShiftHeight = 50, vehicleOffsetWidth = 180, vehicleOffsetHeight = 200\<rparr>"

definition totalWidth :: "ProjectionLayout \<Rightarrow> int" where "totalWidth L = calibrationMapWidth L + 2 * shiftWidth L"
definition totalHeight :: "ProjectionLayout \<Rightarrow> int" where "totalHeight L = calibrationMapHeight L + 2 * shiftHeight L"
definition vehicleLeft :: "ProjectionLayout \<Rightarrow> int" where
  "vehicleLeft L = shiftWidth L + vehicleOffsetWidth L + innerShiftWidth L"
definition vehicleRight :: "ProjectionLayout \<Rightarrow> int" where "vehicleRight L = totalWidth L - vehicleLeft L"
definition vehicleTop :: "ProjectionLayout \<Rightarrow> int" where
  "vehicleTop L = shiftHeight L + vehicleOffsetHeight L + innerShiftHeight L"
definition vehicleBottom :: "ProjectionLayout \<Rightarrow> int" where "vehicleBottom L = totalHeight L - vehicleTop L"

text \<open>All sums and differences stay in an \<open>int\<close>.\<close>

definition layout_int :: "ProjectionLayout \<Rightarrow> bool" where
  "layout_int L \<longleftrightarrow> (\<forall>v \<in> {2 * shiftWidth L, totalWidth L, 2 * shiftHeight L, totalHeight L, shiftWidth L + vehicleOffsetWidth L, vehicleLeft L,
     vehicleRight L, shiftHeight L + vehicleOffsetHeight L, vehicleTop L, vehicleBottom L, vehicleRight L - vehicleLeft L,
     vehicleBottom L - vehicleTop L, totalWidth L - vehicleRight L}. int_ok v)"

record SurroundViewConfig =
  dataRoot :: string
  weightImagePath :: string
  carImagePath :: string
  layout :: ProjectionLayout
  cameras :: "CameraConfig list"
  enableAwb :: bool
  enableLuminanceBalance :: bool

definition newSurroundViewConfig :: SurroundViewConfig where
  "newSurroundViewConfig = \<lparr>dataRoot = [], weightImagePath = [], carImagePath = [], layout = newProjectionLayout,
     cameras = [\<lparr>cam_name = ''front'', calibPath = [], flipMode = ''n''\<rparr>, \<lparr>cam_name = ''left'', calibPath = [], flipMode = ''r-''\<rparr>,
       \<lparr>cam_name = ''back'', calibPath = [], flipMode = ''m''\<rparr>, \<lparr>cam_name = ''right'', calibPath = [], flipMode = ''r+''\<rparr>],
     enableAwb = True, enableLuminanceBalance = True\<rparr>"

section \<open>Pictures\<close>

type_synonym bgr = "byte \<times> byte \<times> byte"

record svsMat =
  pic_rows :: int
  pic_cols :: int
  pic_channels :: nat
  pic_at :: "int \<Rightarrow> int \<Rightarrow> bgr"

definition no_pic :: svsMat where "no_pic = \<lparr>pic_rows = 0, pic_cols = 0, pic_channels = 1, pic_at = (\<lambda>_ _. (0, 0, 0))\<rparr>"

definition pic_empty :: "svsMat \<Rightarrow> bool" where "pic_empty m \<longleftrightarrow> pic_rows m \<le> 0 \<or> pic_cols m \<le> 0"

record 'f weightMat =
  w_rows :: int
  w_cols :: int
  w_at :: "int \<Rightarrow> int \<Rightarrow> 'f"

record cvRect =
  rc_x :: int
  rc_y :: int
  rc_w :: int
  rc_h :: int

definition rect :: "int \<Rightarrow> int \<Rightarrow> int \<Rightarrow> int \<Rightarrow> cvRect" where "rect x y w h = \<lparr>rc_x = x, rc_y = y, rc_w = w, rc_h = h\<rparr>"

definition rect_in :: "cvRect \<Rightarrow> svsMat \<Rightarrow> bool" where
  "rect_in R m \<longleftrightarrow> 0 \<le> rc_x R \<and> 0 \<le> rc_w R \<and> rc_x R + rc_w R \<le> pic_cols m \<and> 0 \<le> rc_y R \<and> 0 \<le> rc_h R \<and> rc_y R + rc_h R \<le> pic_rows m"

definition roi :: "svsMat \<Rightarrow> cvRect \<Rightarrow> svsMat result" where
  "roi m R = (if rect_in R m
     then Inr (m\<lparr>pic_rows := rc_h R, pic_cols := rc_w R, pic_at := (\<lambda>r c. pic_at m (rc_y R + r) (rc_x R + c))\<rparr>)
     else Inl (Throw ''cv::Exception''))"

definition inside :: "cvRect \<Rightarrow> int \<Rightarrow> int \<Rightarrow> bool" where
  "inside R r c \<longleftrightarrow> rc_y R \<le> r \<and> r < rc_y R + rc_h R \<and> rc_x R \<le> c \<and> c < rc_x R + rc_w R"

definition overlay :: "cvRect \<Rightarrow> (int \<Rightarrow> int \<Rightarrow> bgr) \<Rightarrow> svsMat \<Rightarrow> svsMat" where
  "overlay R p out = out\<lparr>pic_at := (\<lambda>r c. if inside R r c then p (r - rc_y R) (c - rc_x R) else pic_at out r c)\<rparr>"

text \<open>\<open>copyTo\<close> to a part of \<open>out\<close>: a source of another size or type makes it allocate a new matrix that is lost.\<close>

definition paste :: "svsMat \<Rightarrow> cvRect \<Rightarrow> svsMat \<Rightarrow> svsMat result" where
  "paste src R out =
     rbind (roi out R) (\<lambda>d. Inr (if pic_rows src = rc_h R \<and> pic_cols src = rc_w R \<and> pic_channels src = pic_channels out
       then overlay R (pic_at src) out else out))"

section \<open>Blending\<close>

definition clipToByte :: "('f, 'd) fp \<Rightarrow> 'f \<Rightarrow> byte result" where
  "clipToByte F x = float_to_u8 F (f_max F (f_of_int F 0) (f_min F (f_of_int F 255) x))"

definition mix_channel :: "('f, 'd) fp \<Rightarrow> 'f \<Rightarrow> byte \<Rightarrow> byte \<Rightarrow> byte result" where
  "mix_channel F w a b = clipToByte F (f_add F (f_mul F (f_of_int F (uint a)) w) (f_mul F (f_of_int F (uint b)) (f_sub F (f_of_int F 1) w)))"

definition mix_pixel :: "('f, 'd) fp \<Rightarrow> 'f \<Rightarrow> bgr \<Rightarrow> bgr \<Rightarrow> bgr result" where
  "mix_pixel F w p q =
     (case (p, q) of ((b1, g1, r1), (b2, g2, r2)) \<Rightarrow>
       rbind (mix_channel F w b1 b2) (\<lambda>b. rbind (mix_channel F w g1 g2) (\<lambda>g. rbind (mix_channel F w r1 r2) (\<lambda>r. Inr (b, g, r)))))"

definition result_or :: "'a \<Rightarrow> 'a result \<Rightarrow> 'a" where "result_or d r = (case r of Inr x \<Rightarrow> x | Inl _ \<Rightarrow> d)"

definition mergeImage :: "('f, 'd) fp \<Rightarrow> svsMat \<Rightarrow> svsMat \<Rightarrow> 'f weightMat \<Rightarrow> cvRect \<Rightarrow> svsMat \<Rightarrow> svsMat result" where
  "mergeImage F src1 src2 w R out =
     rbind (roi out R) (\<lambda>dst.
       if pic_empty src1 \<or> pic_empty src2 \<or> w_rows w \<le> 0 \<or> w_cols w \<le> 0 \<or> pic_empty dst \<or>
         pic_rows src1 \<noteq> pic_rows src2 \<or> pic_cols src1 \<noteq> pic_cols src2 \<or> pic_rows src1 \<noteq> pic_rows dst \<or> pic_cols src1 \<noteq> pic_cols dst \<or>
         w_rows w < pic_rows src1 \<or> w_cols w < pic_cols src1 then Inr out
       else if pic_channels src1 \<noteq> 3 \<or> pic_channels src2 \<noteq> 3 then Inl (Undefined ''not three channels'')
       else
         (let p = (\<lambda>r c. mix_pixel F (w_at w r c) (pic_at src1 r c) (pic_at src2 r c))
          in if \<exists>r \<in> set [0..pic_rows src1 - 1]. \<exists>c \<in> set [0..pic_cols src1 - 1]. isl (p r c)
             then Inl (Undefined ''conversion out of range'')
             else Inr (overlay R (\<lambda>r c. result_or (0, 0, 0) (p r c)) out)))"

record 'f SvsBlender =
  m_layout :: ProjectionLayout
  m_vehicleImage :: svsMat
  m_weights :: "'f weightMat list"
  m_hasVehicleImage :: bool
  m_ready :: bool

definition no_weights :: "'f \<Rightarrow> 'f weightMat" where "no_weights z = \<lparr>w_rows = 0, w_cols = 0, w_at = (\<lambda>_ _. z)\<rparr>"

definition blender_reset :: "'f \<Rightarrow> 'f SvsBlender \<Rightarrow> 'f SvsBlender" where
  "blender_reset z b = b\<lparr>m_vehicleImage := no_pic, m_weights := replicate 4 (no_weights z), m_hasVehicleImage := False, m_ready := False\<rparr>"

definition copy_part :: "svsMat \<Rightarrow> cvRect \<Rightarrow> cvRect \<Rightarrow> svsMat \<Rightarrow> svsMat result" where
  "copy_part src R R' out = rbind (roi src R) (\<lambda>s. paste s R' out)"

definition merge_parts :: "('f, 'd) fp \<Rightarrow> svsMat \<Rightarrow> cvRect \<Rightarrow> svsMat \<Rightarrow> cvRect \<Rightarrow> 'f weightMat \<Rightarrow> cvRect \<Rightarrow> svsMat \<Rightarrow> svsMat result" where
  "merge_parts F p P q Q w R out = rbind (roi p P) (\<lambda>s1. rbind (roi q Q) (\<lambda>s2. mergeImage F s1 s2 w R out))"

text \<open>The pictures are those of the front, left, back and right camera.\<close>

definition blend :: "('f, 'd) fp \<Rightarrow> 'f SvsBlender \<Rightarrow> svsMat list \<Rightarrow> svsMat option result" where
  "blend F b P =
     (if \<not> m_ready b then Inr None
      else if \<not> layout_int (m_layout b) then Inl (Undefined ''int overflow'')
      else
        (let L = m_layout b; tw = totalWidth L; th = totalHeight L; xl = vehicleLeft L; xr = vehicleRight L;
             yt = vehicleTop L; yb = vehicleBottom L; w = m_weights b; v = m_vehicleImage b
         in if tw < 0 \<or> th < 0 then Inl (Throw ''cv::Exception'')
            else rbind (if m_hasVehicleImage b
                   then paste v (rect xl yt (pic_cols v) (pic_rows v)) \<lparr>pic_rows = th, pic_cols = tw, pic_channels = 3, pic_at = (\<lambda>_ _. (0, 0, 0))\<rparr>
                   else Inr \<lparr>pic_rows = th, pic_cols = tw, pic_channels = 3, pic_at = (\<lambda>_ _. (0, 0, 0))\<rparr>) (\<lambda>o0.
              rbind (copy_part (P ! 0) (rect xl 0 (xr - xl) yt) (rect xl 0 (xr - xl) yt) o0) (\<lambda>o1.
              rbind (copy_part (P ! 1) (rect 0 yt xl (yb - yt)) (rect 0 yt xl (yb - yt)) o1) (\<lambda>o2.
              rbind (copy_part (P ! 3) (rect 0 yt xl (yb - yt)) (rect xr yt (tw - xr) (yb - yt)) o2) (\<lambda>o3.
              rbind (copy_part (P ! 2) (rect xl 0 (xr - xl) yt) (rect xl yb (xr - xl) yt) o3) (\<lambda>o4.
              rbind (merge_parts F (P ! 0) (rect 0 0 xl yt) (P ! 1) (rect 0 0 xl yt) (w ! 2) (rect 0 0 xl yt) o4) (\<lambda>o5.
              rbind (merge_parts F (P ! 0) (rect xr 0 xl yt) (P ! 3) (rect 0 0 xl yt) (w ! 1) (rect xr 0 xl yt) o5) (\<lambda>o6.
              rbind (merge_parts F (P ! 2) (rect 0 0 xl yt) (P ! 1) (rect 0 yb xl yt) (w ! 0) (rect 0 yb xl yt) o6) (\<lambda>o7.
              rbind (merge_parts F (P ! 2) (rect xr 0 xl yt) (P ! 3) (rect 0 yb xl yt) (w ! 3) (rect xr yb xl yt) o7)
                (\<lambda>out. Inr (Some out))))))))))))"

section \<open>Setting the blender up\<close>

definition joinPath :: "string \<Rightarrow> string \<Rightarrow> string" where
  "joinPath base path =
     (if path = [] \<or> base = [] \<or> hd path = CHR ''/'' then path
      else if last base = CHR ''/'' then base @ path else base @ ''/'' @ path)"

text \<open>What \<open>cv::imread\<close> finds at a path: the weights with their channels, and a picture.\<close>

record weight_file =
  wf_rows :: int
  wf_cols :: int
  wf_channels :: nat
  wf_at :: "int \<Rightarrow> int \<Rightarrow> byte list"

record svs_files =
  im_weights :: "string \<Rightarrow> weight_file option"
  im_picture :: "string \<Rightarrow> svsMat option"

record 'd svs_cv =
  cv_undistort :: "'d Matrix \<Rightarrow> 'd Matrix \<Rightarrow> 'd Matrix \<Rightarrow> ImageSize \<Rightarrow> svsMat \<Rightarrow> svsMat result"
  cv_warp :: "'d Matrix \<Rightarrow> int \<Rightarrow> int \<Rightarrow> svsMat \<Rightarrow> svsMat result"
  cv_rotate :: "string \<Rightarrow> svsMat \<Rightarrow> svsMat"
  cv_resizeTo :: "int \<Rightarrow> int \<Rightarrow> svsMat \<Rightarrow> svsMat result"

definition loadWeights :: "('f, 'd) fp \<Rightarrow> weight_file option \<Rightarrow> 'f SvsBlender \<Rightarrow> 'f SvsBlender \<times> bool" where
  "loadWeights F file b =
     (case file of
        None \<Rightarrow> (b, False)
      | Some f \<Rightarrow>
          if wf_rows f \<le> 0 \<or> wf_cols f \<le> 0 \<or> wf_channels f \<noteq> 4 then (b, False)
          else (b\<lparr>m_weights := map (\<lambda>k. \<lparr>w_rows = wf_rows f, w_cols = wf_cols f,
                  w_at = (\<lambda>r c. f_div F (f_of_int F (uint (wf_at f r c ! k))) (f_of_int F 255))\<rparr>) [0..<4]\<rparr>, True))"

definition loadVehicleImage :: "'d svs_cv \<Rightarrow> svsMat option \<Rightarrow> 'f SvsBlender \<Rightarrow> ('f SvsBlender, bool) outcome" where
  "loadVehicleImage cv file b =
     (case file of
        None \<Rightarrow> (Inr False, b)
      | Some v \<Rightarrow>
          if pic_empty v then (Inr False, b)
          else if \<not> layout_int (m_layout b) then (Inl (Undefined ''int overflow''), b)
          else case cv_resizeTo cv (vehicleRight (m_layout b) - vehicleLeft (m_layout b)) (vehicleBottom (m_layout b) - vehicleTop (m_layout b)) v of
            Inl e \<Rightarrow> (Inl e, b)
          | Inr m \<Rightarrow> (Inr (\<not> pic_empty m), b\<lparr>m_vehicleImage := m\<rparr>))"

definition blender_setup ::
  "('f, 'd) fp \<Rightarrow> 'd svs_cv \<Rightarrow> svs_files \<Rightarrow> SurroundViewConfig \<Rightarrow> 'f SvsBlender \<Rightarrow> ('f SvsBlender, bool) outcome" where
  "blender_setup F cv files config b =
     (let b1 = (blender_reset (f_of_int F 0) b)\<lparr>m_layout := layout config\<rparr>
      in case loadWeights F (im_weights files (joinPath (dataRoot config) (weightImagePath config))) b1 of
           (b2, False) \<Rightarrow> (Inr False, b2)
         | (b2, True) \<Rightarrow>
             andthen (if carImagePath config = [] then (Inr (m_hasVehicleImage b2), b2)
                else loadVehicleImage cv (im_picture files (joinPath (dataRoot config) (carImagePath config))) b2) (\<lambda>has b3.
               (Inr True, b3\<lparr>m_hasVehicleImage := has, m_ready := True\<rparr>)))"

section \<open>White balance and luminance\<close>

text \<open>The pictures of the cameras are in the memory of the caller and are changed there.\<close>

definition pixel_offset :: "cvMat \<Rightarrow> nat \<times> nat \<Rightarrow> nat" where
  "pixel_offset m cell = (case cell of (row, col) \<Rightarrow> row * mat_step m + 3 * col)"

definition mat_cells :: "cvMat \<Rightarrow> (nat \<times> nat) list" where
  "mat_cells m = List.product [0..<nat (mat_rows m)] [0..<nat (mat_cols m)]"

definition mat_block :: "heap \<Rightarrow> cvMat \<Rightarrow> bytes" where
  "mat_block h m = (case mat_data m of None \<Rightarrow> [] | Some p \<Rightarrow> (case h p of None \<Rightarrow> [] | Some b \<Rightarrow> b))"

fun sum_pixels :: "bytes \<Rightarrow> cvMat \<Rightarrow> (nat \<times> nat) list \<Rightarrow> int \<times> int \<times> int \<Rightarrow> (int \<times> int \<times> int) result" where
  "sum_pixels blk m [] acc = Inr acc"
| "sum_pixels blk m (cell # cells) acc =
     rbind (read_at (pixel_offset m cell) 3 blk) (\<lambda>p.
       case acc of (b, g, r) \<Rightarrow> sum_pixels blk m cells (b + uint (p ! 0), g + uint (p ! 1), r + uint (p ! 2)))"

definition calcBgrStats :: "heap \<Rightarrow> cvMat \<Rightarrow> (int \<times> int \<times> int) option result" where
  "calcBgrStats h m =
     (if mat_empty m \<or> CV_MAT_CN (mat_type m) \<noteq> 3 then Inr None
      else let n = mat_rows m * mat_cols m
        in if \<not> int_ok n then Inl (Undefined ''int overflow'')
           else rbind (sum_pixels (mat_block h m) m (mat_cells m) (0, 0, 0)) (\<lambda>(b, g, r).
             Inr (Some (b sdiv n, g sdiv n, r sdiv n))))"

fun gain_pixels :: "('f, 'd) fp \<Rightarrow> 'f \<times> 'f \<times> 'f \<Rightarrow> cvMat \<Rightarrow> (nat \<times> nat) list \<Rightarrow> bytes \<Rightarrow> bytes result" where
  "gain_pixels F gains m [] blk = Inr blk"
| "gain_pixels F gains m (cell # cells) blk =
     (case gains of (rGain, gGain, bGain) \<Rightarrow>
       rbind (read_at (pixel_offset m cell) 3 blk) (\<lambda>p.
       rbind (clipToByte F (f_mul F (f_of_int F (uint (p ! 0))) bGain)) (\<lambda>b.
       rbind (clipToByte F (f_mul F (f_of_int F (uint (p ! 1))) gGain)) (\<lambda>g.
       rbind (clipToByte F (f_mul F (f_of_int F (uint (p ! 2))) rGain)) (\<lambda>r.
       rbind (memcpy_at (pixel_offset m cell) [b, g, r] blk) (gain_pixels F gains m cells))))))"

definition applyBgrGain :: "('f, 'd) fp \<Rightarrow> cvMat \<Rightarrow> 'f \<times> 'f \<times> 'f \<Rightarrow> heap \<Rightarrow> heap result" where
  "applyBgrGain F m gains h = rbind (gain_pixels F gains m (mat_cells m) (mat_block h m)) (\<lambda>blk. Inr (h(the (mat_data m) \<mapsto> blk)))"

definition gray_of :: "int \<times> int \<times> int \<Rightarrow> int" where
  "gray_of st = (case st of (b, g, r) \<Rightarrow> r * 20 + g * 60 + b)"

text \<open>The statistics of all pictures; \<open>None\<close> where the code gives the balancing up.\<close>

fun collect_stats :: "heap \<Rightarrow> cvMat list \<Rightarrow> (int \<times> int \<times> int) list option result" where
  "collect_stats h [] = Inr (Some [])"
| "collect_stats h (m # ms) =
     rbind (calcBgrStats h m) (\<lambda>st. case st of
        None \<Rightarrow> Inr None
      | Some (b, g, r) \<Rightarrow>
          if gray_of (b, g, r) = 0 \<or> r = 0 \<or> g = 0 \<or> b = 0 then Inr None
          else rbind (collect_stats h ms) (\<lambda>rest. Inr (map_option (\<lambda>l. (b, g, r) # l) rest)))"

definition gains_of :: "('f, 'd) fp \<Rightarrow> 'f \<Rightarrow> int \<times> int \<times> int \<Rightarrow> 'f \<times> 'f \<times> 'f" where
  "gains_of F grayAverage st =
     (case st of (b, g, r) \<Rightarrow>
       let lumGain = f_div F grayAverage (f_of_int F (gray_of st))
       in (f_div F (f_mul F (f_of_int F g) lumGain) (f_of_int F r), lumGain, f_div F (f_mul F (f_of_int F g) lumGain) (f_of_int F b)))"

fun apply_gains :: "('f, 'd) fp \<Rightarrow> 'f \<Rightarrow> (cvMat \<times> (int \<times> int \<times> int)) list \<Rightarrow> heap \<Rightarrow> heap result" where
  "apply_gains F grayAverage [] h = Inr h"
| "apply_gains F grayAverage ((m, st) # rest) h =
     rbind (applyBgrGain F m (gains_of F grayAverage st) h) (apply_gains F grayAverage rest)"

definition applyAwbAndLuminanceBalance :: "('f, 'd) fp \<Rightarrow> cvMat list \<Rightarrow> heap \<Rightarrow> heap result" where
  "applyAwbAndLuminanceBalance F images h =
     rbind (collect_stats h images) (\<lambda>stats. case stats of
        None \<Rightarrow> Inr h
      | Some l \<Rightarrow>
          (let sum = foldl (\<lambda>a st. f_add F a (f_of_int F (gray_of st))) (f_of_int F 0) l
           in apply_gains F (f_div F sum (f_of_int F 4)) (zip images l) h))"

section \<open>Projection\<close>

definition projectSize :: "string \<Rightarrow> ProjectionLayout \<Rightarrow> int \<times> int" where
  "projectSize name L =
     (if name = ''front'' \<or> name = ''back'' then (totalWidth L, vehicleTop L)
      else if name = ''left'' \<or> name = ''right'' then (totalHeight L, vehicleLeft L)
      else (totalWidth L, totalHeight L))"

definition toCvMat :: "'d Matrix \<Rightarrow> 'd Matrix option" where
  "toCvMat m = (if matrix_empty m \<or> length (mx_values m) \<noteq> unat (mx_rows m) * unat (mx_cols m) then None else Some m)"

definition applyFlip :: "'d svs_cv \<Rightarrow> string \<Rightarrow> svsMat \<Rightarrow> svsMat" where
  "applyFlip cv mode m =
     (if mode = ''r+'' then cv_rotate cv ''ROTATE_90_CLOCKWISE'' m
      else if mode = ''r-'' then cv_rotate cv ''ROTATE_90_COUNTERCLOCKWISE'' m
      else if mode = ''m'' then cv_rotate cv ''ROTATE_180'' m else m)"

text \<open>The focal lengths are scaled and the centre is shifted.\<close>

definition new_camera :: "('f, 'd) fp \<Rightarrow> 'd Matrix \<Rightarrow> 'd Matrix \<Rightarrow> 'd Matrix \<Rightarrow> 'd Matrix result" where
  "new_camera F cam scale shift =
     (let n = unat (mx_cols cam); v = mx_values cam; s = mx_values scale; t = mx_values shift
      in if unat (mx_rows cam) < 2 \<or> n < 3 then Inl (Undefined ''index out of range'')
         else Inr (cam\<lparr>mx_values := v[0 := d_mul F (v ! 0) (s ! 0), n + 1 := d_mul F (v ! (n + 1)) (s ! 1),
           2 := d_add F (v ! 2) (t ! 0), n + 2 := d_add F (v ! (n + 2)) (t ! 1)]\<rparr>))"

definition undistortByRemap :: "('f, 'd) fp \<Rightarrow> 'd svs_cv \<Rightarrow> svsMat \<Rightarrow> 'd CameraParameters \<Rightarrow> svsMat option result" where
  "undistortByRemap F cv src params =
     (case (toCvMat (cameraMatrix params), toCvMat (distCoeffs params), toCvMat (scaleXY params), toCvMat (shiftXY params)) of
        (Some cam, Some dc, Some scale, Some shift) \<Rightarrow>
          if pic_empty src \<or> ImageSize_empty (par_size params) \<or> length (mx_values scale) < 2 \<or> length (mx_values shift) < 2 then Inr None
          else rbind (new_camera F cam scale shift) (\<lambda>cam'.
            rbind (cv_undistort cv cam dc cam' (par_size params) src) (\<lambda>d. Inr (if pic_empty d then None else Some d)))
      | _ \<Rightarrow> Inr None)"

definition project :: "('f, 'd) fp \<Rightarrow> 'd svs_cv \<Rightarrow> svsMat \<Rightarrow> 'd CameraParameters \<Rightarrow> CameraConfig \<Rightarrow> ProjectionLayout \<Rightarrow> svsMat option result" where
  "project F cv src params config L =
     (case toCvMat (projectMatrix params) of
        None \<Rightarrow> Inr None
      | Some pm \<Rightarrow>
          if pic_empty src then Inr None
          else rbind (undistortByRemap F cv src params) (\<lambda>u. case u of
             None \<Rightarrow> Inr None
           | Some undistorted \<Rightarrow>
               if \<not> layout_int L then Inl (Undefined ''int overflow'')
               else rbind (cv_warp cv pm (fst (projectSize (cam_name config) L)) (snd (projectSize (cam_name config) L)) undistorted) (\<lambda>w.
                 let d = applyFlip cv (flipMode config) w in Inr (if pic_empty d then None else Some d))))"

section \<open>What the blended picture shows\<close>

lemma overlay_size [simp]:
  "pic_rows (overlay R p out) = pic_rows out" "pic_cols (overlay R p out) = pic_cols out" "pic_channels (overlay R p out) = pic_channels out"
  "pic_at (overlay R p out) r c = (if inside R r c then p (r - rc_y R) (c - rc_x R) else pic_at out r c)"
  by (simp_all add: overlay_def)

lemma rect_sel [simp]: "rc_x (rect x y w h) = x" "rc_y (rect x y w h) = y" "rc_w (rect x y w h) = w" "rc_h (rect x y w h) = h"
  by (simp_all add: rect_def)

lemma copy_part_ok:
  assumes "rect_in R src" and "rect_in R' out" and "rc_w R = rc_w R'" and "rc_h R = rc_h R'" and "pic_channels src = pic_channels out"
  shows "copy_part src R R' out = Inr (overlay R' (\<lambda>r c. pic_at src (rc_y R + r) (rc_x R + c)) out)"
  using assms by (simp add: copy_part_def paste_def roi_def)

definition merged :: "('f, 'd) fp \<Rightarrow> 'f \<Rightarrow> bgr \<Rightarrow> bgr \<Rightarrow> bgr" where
  "merged F w p q = result_or (0, 0, 0) (mix_pixel F w p q)"

lemma mix_pixel_defined:
  assumes "\<forall>x. \<exists>v. clipToByte F x = Inr v"
  shows "\<not> isl (mix_pixel F w p q)"
proof -
  have "\<exists>v. mix_channel F w a b = Inr v" for a b using assms by (simp add: mix_channel_def)
  then obtain m where m: "\<And>a b. mix_channel F w a b = Inr (m a b)" by metis
  show ?thesis by (cases p; cases q) (simp add: mix_pixel_def m)
qed

lemma merge_parts_ok:
  assumes "\<forall>x. \<exists>v. clipToByte F x = Inr v" and "rect_in P p" and "rect_in Q q" and "rect_in R out"
    and "rc_w P = rc_w R" and "rc_h P = rc_h R" and "rc_w Q = rc_w R" and "rc_h Q = rc_h R" and "0 < rc_w R" and "0 < rc_h R"
    and "pic_channels p = 3" and "pic_channels q = 3" and "rc_h R \<le> w_rows w" and "rc_w R \<le> w_cols w"
  shows "merge_parts F p P q Q w R out = Inr (overlay R (\<lambda>r c. merged F (w_at w r c)
    (pic_at p (rc_y P + r) (rc_x P + c)) (pic_at q (rc_y Q + r) (rc_x Q + c))) out)"
  using assms(2-) by (simp add: merge_parts_def mergeImage_def roi_def pic_empty_def mix_pixel_defined [OF assms(1)] merged_def Let_def)

definition layout_ok :: "ProjectionLayout \<Rightarrow> bool" where
  "layout_ok L \<longleftrightarrow> layout_int L \<and> 0 < vehicleLeft L \<and> 0 < vehicleTop L \<and> vehicleLeft L \<le> vehicleRight L \<and> vehicleTop L \<le> vehicleBottom L"

definition pic_ok :: "int \<Rightarrow> int \<Rightarrow> svsMat \<Rightarrow> bool" where
  "pic_ok rows cols m \<longleftrightarrow> pic_rows m = rows \<and> pic_cols m = cols \<and> pic_channels m = 3"

text \<open>The four projected pictures have the sizes the layout gives them.\<close>

definition projected_ok :: "ProjectionLayout \<Rightarrow> svsMat list \<Rightarrow> bool" where
  "projected_ok L P \<longleftrightarrow> length P = 4 \<and> pic_ok (vehicleTop L) (totalWidth L) (P ! 0) \<and> pic_ok (totalHeight L) (vehicleLeft L) (P ! 1) \<and>
     pic_ok (vehicleTop L) (totalWidth L) (P ! 2) \<and> pic_ok (totalHeight L) (vehicleLeft L) (P ! 3)"

definition blender_ok :: "'f SvsBlender \<Rightarrow> bool" where
  "blender_ok b \<longleftrightarrow> (let L = m_layout b in m_ready b \<and> layout_ok L \<and>
     (\<forall>i < 4. vehicleTop L \<le> w_rows (m_weights b ! i) \<and> vehicleLeft L \<le> w_cols (m_weights b ! i)) \<and>
     (m_hasVehicleImage b \<longrightarrow> pic_ok (vehicleBottom L - vehicleTop L) (vehicleRight L - vehicleLeft L) (m_vehicleImage b)))"

text \<open>
  The surround view as a function of the position: nine fields, the corners mixed from the two cameras
  that see them.
\<close>

definition surround :: "('f, 'd) fp \<Rightarrow> 'f SvsBlender \<Rightarrow> svsMat list \<Rightarrow> int \<Rightarrow> int \<Rightarrow> bgr" where
  "surround F b P r c =
     (let L = m_layout b; xl = vehicleLeft L; xr = vehicleRight L; yt = vehicleTop L; yb = vehicleBottom L;
          front = pic_at (P ! 0); left = pic_at (P ! 1); back = pic_at (P ! 2); right = pic_at (P ! 3); w = (\<lambda>i. w_at (m_weights b ! i))
      in if c < xl
         then (if r < yt then merged F (w 2 r c) (front r c) (left r c) else if r < yb then left r c
               else merged F (w 0 (r - yb) c) (back (r - yb) c) (left r c))
         else if c < xr
         then (if r < yt then front r c
               else if r < yb then (if m_hasVehicleImage b then pic_at (m_vehicleImage b) (r - yt) (c - xl) else (0, 0, 0))
               else back (r - yb) c)
         else (if r < yt then merged F (w 1 r (c - xr)) (front r c) (right r (c - xr)) else if r < yb then right r (c - xr)
               else merged F (w 3 (r - yb) (c - xr)) (back (r - yb) c) (right r (c - xr))))"

lemma blend_surround:
  assumes "blender_ok b" and "projected_ok (m_layout b) P" and "\<forall>x. \<exists>v. clipToByte F x = Inr v"
  shows "\<exists>out. blend F b P = Inr (Some out) \<and> pic_ok (totalHeight (m_layout b)) (totalWidth (m_layout b)) out \<and>
    (\<forall>r c. 0 \<le> r \<and> r < totalHeight (m_layout b) \<and> 0 \<le> c \<and> c < totalWidth (m_layout b) \<longrightarrow> pic_at out r c = surround F b P r c)"
proof -
  define L where "L = m_layout b"
  define xl where "xl = vehicleLeft L"
  define yt where "yt = vehicleTop L"
  define tw where "tw = totalWidth L"
  define th where "th = totalHeight L"
  have right: "vehicleRight L = tw - xl" and bottom: "vehicleBottom L = th - yt"
    by (simp_all add: vehicleRight_def vehicleBottom_def tw_def th_def xl_def yt_def)
  have dims: "0 < xl" "0 < yt" "xl \<le> tw - xl" "yt \<le> th - yt" "layout_int L" "m_ready b"
    using assms(1) right bottom by (simp_all add: blender_ok_def layout_ok_def L_def xl_def yt_def Let_def)
  have w: "yt \<le> w_rows (m_weights b ! i)" "xl \<le> w_cols (m_weights b ! i)" if "i < 4" for i
    using assms(1) that by (simp_all add: blender_ok_def L_def xl_def yt_def Let_def)
  have w4: "yt \<le> w_rows (m_weights b ! 0)" "xl \<le> w_cols (m_weights b ! 0)" "yt \<le> w_rows (m_weights b ! 1)" "xl \<le> w_cols (m_weights b ! 1)"
    "yt \<le> w_rows (m_weights b ! 2)" "xl \<le> w_cols (m_weights b ! 2)" "yt \<le> w_rows (m_weights b ! 3)" "xl \<le> w_cols (m_weights b ! 3)"
    using w by simp_all
  have v: "m_hasVehicleImage b \<Longrightarrow> pic_rows (m_vehicleImage b) = th - yt - yt \<and> pic_cols (m_vehicleImage b) = tw - xl - xl \<and>
      pic_channels (m_vehicleImage b) = 3"
    using assms(1) right bottom by (simp add: blender_ok_def pic_ok_def L_def xl_def yt_def Let_def)
  have P: "pic_rows (P ! 0) = yt" "pic_cols (P ! 0) = tw" "pic_channels (P ! 0) = 3" "pic_rows (P ! 1) = th" "pic_cols (P ! 1) = xl"
    "pic_channels (P ! 1) = 3" "pic_rows (P ! 2) = yt" "pic_cols (P ! 2) = tw" "pic_channels (P ! 2) = 3" "pic_rows (P ! 3) = th"
    "pic_cols (P ! 3) = xl" "pic_channels (P ! 3) = 3"
    using assms(2) by (simp_all add: projected_ok_def pic_ok_def L_def xl_def yt_def tw_def th_def)
  let ?black = "\<lparr>pic_rows = th, pic_cols = tw, pic_channels = 3, pic_at = (\<lambda>_ _. (0, 0, 0))\<rparr>"
  define o0 where "o0 = (if m_hasVehicleImage b then overlay (rect xl yt (tw - xl - xl) (th - yt - yt)) (pic_at (m_vehicleImage b)) ?black else ?black)"
  have o0: "(if m_hasVehicleImage b then paste (m_vehicleImage b) (rect xl yt (pic_cols (m_vehicleImage b)) (pic_rows (m_vehicleImage b))) ?black
      else Inr ?black) = Inr o0"
    using v dims by (simp add: o0_def paste_def roi_def rect_in_def)
  have o0_size: "pic_rows o0 = th" "pic_cols o0 = tw" "pic_channels o0 = 3" by (simp_all add: o0_def)
  note part = copy_part_ok [unfolded rect_in_def] merge_parts_ok [OF assms(3), unfolded rect_in_def]
  define w where "w = (\<lambda>i. w_at (m_weights b ! i))"
  let ?o1 = "overlay (rect xl 0 (tw - xl - xl) yt) (\<lambda>r c. pic_at (P ! 0) r (xl + c)) o0"
  let ?o2 = "overlay (rect 0 yt xl (th - yt - yt)) (\<lambda>r c. pic_at (P ! 1) (yt + r) c) ?o1"
  let ?o3 = "overlay (rect (tw - xl) yt xl (th - yt - yt)) (\<lambda>r c. pic_at (P ! 3) (yt + r) c) ?o2"
  let ?o4 = "overlay (rect xl (th - yt) (tw - xl - xl) yt) (\<lambda>r c. pic_at (P ! 2) r (xl + c)) ?o3"
  let ?o5 = "overlay (rect 0 0 xl yt) (\<lambda>r c. merged F (w 2 r c) (pic_at (P ! 0) r c) (pic_at (P ! 1) r c)) ?o4"
  let ?o6 = "overlay (rect (tw - xl) 0 xl yt) (\<lambda>r c. merged F (w 1 r c) (pic_at (P ! 0) r (tw - xl + c)) (pic_at (P ! 3) r c)) ?o5"
  let ?o7 = "overlay (rect 0 (th - yt) xl yt) (\<lambda>r c. merged F (w 0 r c) (pic_at (P ! 2) r c) (pic_at (P ! 1) (th - yt + r) c)) ?o6"
  let ?o8 = "overlay (rect (tw - xl) (th - yt) xl yt)
    (\<lambda>r c. merged F (w 3 r c) (pic_at (P ! 2) r (tw - xl + c)) (pic_at (P ! 3) (th - yt + r) c)) ?o7"
  have c: "copy_part (P ! 0) (rect xl 0 (tw - xl - xl) yt) (rect xl 0 (tw - xl - xl) yt) o0 = Inr ?o1"
    "copy_part (P ! 1) (rect 0 yt xl (th - yt - yt)) (rect 0 yt xl (th - yt - yt)) ?o1 = Inr ?o2"
    "copy_part (P ! 3) (rect 0 yt xl (th - yt - yt)) (rect (tw - xl) yt xl (th - yt - yt)) ?o2 = Inr ?o3"
    "copy_part (P ! 2) (rect xl 0 (tw - xl - xl) yt) (rect xl (th - yt) (tw - xl - xl) yt) ?o3 = Inr ?o4"
    using dims P o0_size by (simp_all add: part)
  have m: "merge_parts F (P ! 0) (rect 0 0 xl yt) (P ! 1) (rect 0 0 xl yt) (m_weights b ! 2) (rect 0 0 xl yt) ?o4 = Inr ?o5"
    "merge_parts F (P ! 0) (rect (tw - xl) 0 xl yt) (P ! 3) (rect 0 0 xl yt) (m_weights b ! 1) (rect (tw - xl) 0 xl yt) ?o5 = Inr ?o6"
    "merge_parts F (P ! 2) (rect 0 0 xl yt) (P ! 1) (rect 0 (th - yt) xl yt) (m_weights b ! 0) (rect 0 (th - yt) xl yt) ?o6 = Inr ?o7"
    "merge_parts F (P ! 2) (rect (tw - xl) 0 xl yt) (P ! 3) (rect 0 (th - yt) xl yt) (m_weights b ! 3) (rect (tw - xl) (th - yt) xl yt) ?o7 = Inr ?o8"
    using dims P o0_size w4 by (simp_all add: part w_def)
  have t: "m_ready b = True" "layout_int L = True" "(tw < 0 \<or> th < 0) = False" "tw - (tw - xl) = xl" using dims by simp_all
  have run: "blend F b P = Inr (Some ?o8)"
    by (simp only: blend_def L_def [symmetric] xl_def [symmetric] yt_def [symmetric] tw_def [symmetric] th_def [symmetric] right bottom
        Let_def t not_True_eq_False if_False o0 rbind_simps c m)
  have pix: "pic_at ?o8 r c = surround F b P r c" if "0 \<le> r" "r < th" "0 \<le> c" "c < tw" for r c
    using that dims
    by (simp add: surround_def inside_def o0_def w_def L_def [symmetric] xl_def [symmetric] yt_def [symmetric] right bottom Let_def)
  show ?thesis using run pix o0_size by (intro exI [of _ ?o8]) (simp add: pic_ok_def L_def tw_def th_def)
qed

text \<open>
  C22. The blended picture shows every camera in its place: for pictures of the sizes of the layout,
  \<open>blend\<close> succeeds, and each pixel of the result is the one the field of its position prescribes: the
  front and back strips, the left and right strips, the vehicle, and the weighted mixture of two
  cameras in the four corners, without a gap, an overlap or an access outside a picture.
\<close>

theorem blend_shows_surround:
  assumes "blender_ok b" and "projected_ok (m_layout b) P" and "\<forall>x. \<exists>v. clipToByte F x = Inr v"
  shows "\<exists>out. blend F b P = Inr (Some out) \<and> pic_ok (totalHeight (m_layout b)) (totalWidth (m_layout b)) out \<and>
    (\<forall>r c. 0 \<le> r \<and> r < totalHeight (m_layout b) \<and> 0 \<le> c \<and> c < totalWidth (m_layout b) \<longrightarrow> pic_at out r c = surround F b P r c)"
  using assms by (rule blend_surround)

section \<open>The surround view\<close>

text \<open>A calibration file: the matrices, empty where the file has none, and the resolution.\<close>

record 'd calib_file =
  cf_camera_matrix :: "'d Matrix"
  cf_dist_coeffs :: "'d Matrix"
  cf_project_matrix :: "'d Matrix"
  cf_shift_xy :: "'d Matrix"
  cf_scale_xy :: "'d Matrix"
  cf_resolution :: "int list"

definition loadCameraParameters :: "'d calib_file option \<Rightarrow> 'd CameraParameters \<Rightarrow> 'd CameraParameters \<times> bool" where
  "loadCameraParameters file params =
     (case file of
        None \<Rightarrow> (params, False)
      | Some f \<Rightarrow>
          (let p1 = params\<lparr>cameraMatrix := cf_camera_matrix f, distCoeffs := cf_dist_coeffs f, projectMatrix := cf_project_matrix f,
                 shiftXY := cf_shift_xy f, scaleXY := cf_scale_xy f\<rparr>;
               p2 = (if 2 \<le> length (cf_resolution f)
                 then p1\<lparr>par_size := \<lparr>size_width = word_of_int (cf_resolution f ! 0), size_height = word_of_int (cf_resolution f ! 1)\<rparr>\<rparr>
                 else p1)
           in (p2, \<not> matrix_empty (cameraMatrix p2) \<and> \<not> matrix_empty (distCoeffs p2) \<and> \<not> ImageSize_empty (par_size p2))))"

text \<open>What is written: nothing when the file does not open, and the matrix only when there is one.\<close>

definition saveProjectMatrix :: "bool \<Rightarrow> 'd CameraParameters \<Rightarrow> bool \<times> 'd Matrix option list" where
  "saveProjectMatrix opened params =
     (if \<not> opened then (False, [])
      else (True, if matrix_empty (projectMatrix params) then [] else [toCvMat (projectMatrix params)]))"

record ('f, 'd) OpenCvSurroundView =
  m_config :: SurroundViewConfig
  m_blender :: "'f SvsBlender"
  m_cameraParams :: "'d CameraParameters list"
  sv_ready :: bool

definition newSvsBlender :: "'f \<Rightarrow> 'f SvsBlender" where
  "newSvsBlender z = \<lparr>m_layout = newProjectionLayout, m_vehicleImage = no_pic, m_weights = replicate 4 (no_weights z),
     m_hasVehicleImage = False, m_ready = False\<rparr>"

definition newOpenCvSurroundView :: "'f \<Rightarrow> ('f, 'd) OpenCvSurroundView" where
  "newOpenCvSurroundView z = \<lparr>m_config = newSurroundViewConfig, m_blender = newSvsBlender z,
     m_cameraParams = replicate 4 newCameraParameters, sv_ready = False\<rparr>"

definition create_surround_view :: "'f \<Rightarrow> string \<Rightarrow> ('f, 'd) OpenCvSurroundView result" where
  "create_surround_view z backend =
     (if backend = ''opencv'' then Inr (newOpenCvSurroundView z) else Inl (Throw (''unsupported surround view backend: '' @ backend)))"

fun load_cameras ::
  "(string \<Rightarrow> 'd calib_file option) \<Rightarrow> nat list \<Rightarrow> ('f, 'd) OpenCvSurroundView \<Rightarrow> ('f, 'd) OpenCvSurroundView \<times> bool" where
  "load_cameras calib [] s = (s, True)"
| "load_cameras calib (i # rest) s =
     (let config = cameras (m_config s) ! i;
          (p, ok) = loadCameraParameters (calib (joinPath (dataRoot (m_config s)) (calibPath config)))
            ((m_cameraParams s ! i)\<lparr>par_name := cam_name config\<rparr>);
          s' = s\<lparr>m_cameraParams := (m_cameraParams s)[i := p]\<rparr>
      in if ok then load_cameras calib rest s' else (s'\<lparr>sv_ready := False\<rparr>, False))"

definition svs_setup ::
  "('f, 'd) fp \<Rightarrow> 'd svs_cv \<Rightarrow> svs_files \<Rightarrow> (string \<Rightarrow> 'd calib_file option) \<Rightarrow> SurroundViewConfig \<Rightarrow> ('f, 'd) OpenCvSurroundView \<Rightarrow>
    (('f, 'd) OpenCvSurroundView, int) outcome" where
  "svs_setup F cv files calib config s =
     (case load_cameras calib [0..<4] (s\<lparr>m_config := config\<rparr>) of
        (s1, False) \<Rightarrow> (Inr (-1), s1)
      | (s1, True) \<Rightarrow>
          (case blender_setup F cv files config (m_blender s1) of
             (Inl e, b) \<Rightarrow> (Inl e, s1\<lparr>m_blender := b\<rparr>)
           | (Inr ok, b) \<Rightarrow> (Inr (if ok then 0 else -1), s1\<lparr>m_blender := b, sv_ready := ok\<rparr>)))"

definition svs_tearDown :: "'f \<Rightarrow> ('f, 'd) OpenCvSurroundView \<Rightarrow> ('f, 'd) OpenCvSurroundView" where
  "svs_tearDown z s = s\<lparr>m_blender := blender_reset z (m_blender s), m_cameraParams := map (\<lambda>_. newCameraParameters) (m_cameraParams s),
     sv_ready := False\<rparr>"

text \<open>The picture a matrix shows; OpenCV reads all its rows.\<close>

definition picture_in :: "heap \<Rightarrow> cvMat \<Rightarrow> svsMat result" where
  "picture_in h m =
     (let blk = mat_block h m; n = CV_MAT_CN (mat_type m)
      in if length blk < (nat (mat_rows m) - 1) * mat_step m + n * nat (mat_cols m) then Inl (Undefined ''read out of range'')
         else Inr \<lparr>pic_rows = mat_rows m, pic_cols = mat_cols m, pic_channels = n,
           pic_at = (\<lambda>r c. let o' = pixel_offset m (nat r, nat c) in (blk ! o', blk ! (o' + 1), blk ! (o' + 2)))\<rparr>)"

fun project_all ::
  "('f, 'd) fp \<Rightarrow> 'd svs_cv \<Rightarrow> heap \<Rightarrow> ProjectionLayout \<Rightarrow> (cvMat \<times> 'd CameraParameters \<times> CameraConfig) list \<Rightarrow> svsMat list option result" where
  "project_all F cv h L [] = Inr (Some [])"
| "project_all F cv h L ((m, params, config) # rest) =
     rbind (picture_in h m) (\<lambda>src. rbind (project F cv src params config L) (\<lambda>d. case d of
        None \<Rightarrow> Inr None
      | Some p \<Rightarrow> rbind (project_all F cv h L rest) (\<lambda>ps. Inr (map_option (\<lambda>l. p # l) ps))))"

definition picture_bytes :: "svsMat \<Rightarrow> bytes" where
  "picture_bytes m = concat (map (\<lambda>r. concat (map (\<lambda>c. case pic_at m r c of (b, g, r') \<Rightarrow> [b, g, r']) [0..pic_cols m - 1])) [0..pic_rows m - 1])"

text \<open>\<open>q\<close> is the block of the blended matrix, which is freed at the end, \<open>p\<close> the one \<open>fromMat\<close> allocates.\<close>

definition svs_process ::
  "('f, 'd) fp \<Rightarrow> 'd svs_cv \<Rightarrow> nat \<Rightarrow> nat \<Rightarrow> ('f, 'd) OpenCvSurroundView \<Rightarrow> ImageView list \<Rightarrow> heap \<times> ImageBuffer \<Rightarrow>
    (heap \<times> ImageBuffer, int) outcome" where
  "svs_process F cv q p s input st =
     (case st of (h, output) \<Rightarrow>
      if \<not> sv_ready s then (Inr (-1), st)
      else if \<exists>v \<in> set input. toMat v = None then (Inr (-1), st)
      else
        (let ms = map (\<lambda>v. the (toMat v)) input
         in case (if enableAwb (m_config s) \<or> enableLuminanceBalance (m_config s) then applyAwbAndLuminanceBalance F ms h else Inr h) of
              Inl e \<Rightarrow> (Inl e, st)
            | Inr h1 \<Rightarrow>
                (case rbind (project_all F cv h1 (layout (m_config s)) (zip ms (zip (m_cameraParams s) (cameras (m_config s))))) (\<lambda>ps. case ps of
                     None \<Rightarrow> Inr None | Some P \<Rightarrow> blend F (m_blender s) P) of
                   Inl e \<Rightarrow> (Inl e, (h1, output))
                 | Inr None \<Rightarrow> (Inr (-1), (h1, output))
                 | Inr (Some out) \<Rightarrow>
                     (let m = \<lparr>mat_rows = pic_rows out, mat_cols = pic_cols out, mat_type = CV_8UC 3, mat_data = Some q,
                            mat_step = 3 * nat (pic_cols out), isContinuous = True\<rparr>
                      in case fromMat p m ''BGR888'' output (h1(q \<mapsto> picture_bytes out)) of
                           (Inl e, h2) \<Rightarrow> (Inl e, (h2(q := None), output))
                         | (Inr (ok, buf), h2) \<Rightarrow> (Inr (if ok then 0 else -1), (h2(q := None), buf))))))"

section \<open>Calibration\<close>

definition keypoints :: "('f, 'd) fp \<Rightarrow> (int \<times> int) list \<Rightarrow> ('f \<times> 'f) list" where
  "keypoints F = map (\<lambda>(x, y). (f_of_int F x, f_of_int F y))"

definition defaultProjectKeypoints :: "('f, 'd) fp \<Rightarrow> string \<Rightarrow> ProjectionLayout \<Rightarrow> ('f \<times> 'f) list" where
  "defaultProjectKeypoints F name L =
     (let w = shiftWidth L; h = shiftHeight L
      in if name = ''front'' \<or> name = ''back'' then keypoints F [(w + 120, h), (w + 480, h), (w + 120, h + 160), (w + 480, h + 160)]
         else if name = ''left'' then keypoints F [(h + 280, w), (h + 840, w), (h + 280, w + 160), (h + 840, w + 160)]
         else if name = ''right'' then keypoints F [(h + 160, w), (h + 720, w), (h + 160, w + 160), (h + 720, w + 160)]
         else [])"

text \<open>\<open>transform\<close> is \<open>cv::getPerspectiveTransform\<close>.\<close>

definition computeProjectMatrix ::
  "('f, 'd) fp \<Rightarrow> (('f \<times> 'f) list \<Rightarrow> ('f \<times> 'f) list \<Rightarrow> 'd Matrix) \<Rightarrow> string \<Rightarrow> ('f \<times> 'f) list \<Rightarrow> ProjectionLayout \<Rightarrow> 'd Matrix \<Rightarrow> 'd Matrix \<times> bool" where
  "computeProjectMatrix F transform name points L old =
     (let targets = defaultProjectKeypoints F name L
      in if length points \<noteq> 4 \<or> length targets \<noteq> 4 then (old, False)
         else (let m = transform points targets in (m, \<not> matrix_empty m)))"

section \<open>A small surround view\<close>

text \<open>With exact arithmetic the clamped value always fits a byte.\<close>

lemma exact_clip: "\<forall>x. \<exists>v. clipToByte exact_fp x = Inr v"
proof
  fix x :: rat
  let ?y = "max 0 (min 255 x)"
  have y: "0 \<le> ?y" "?y \<le> 255" by simp_all
  then have f: "0 \<le> \<lfloor>?y\<rfloor>" "\<lfloor>?y\<rfloor> < 256" by (simp_all add: floor_less_iff)
  have "f_max exact_fp (f_of_int exact_fp 0) (f_min exact_fp (f_of_int exact_fp 255) x) = ?y"
    by (simp add: f_max_def f_min_def exact_fp_def max_def min_def)
  moreover have "f_to_int exact_fp ?y = Some \<lfloor>?y\<rfloor>" using f y(1) by (simp add: exact_fp_def int_ok_def Let_def)
  ultimately show "\<exists>v. clipToByte exact_fp x = Inr v" using f by (simp add: clipToByte_def float_to_u8_def float_to_int_def)
qed

definition tiny_layout :: ProjectionLayout where
  "tiny_layout = \<lparr>shiftWidth = 1, shiftHeight = 1, calibrationMapWidth = 1, calibrationMapHeight = 1,
     innerShiftWidth = 0, innerShiftHeight = 0, vehicleOffsetWidth = 0, vehicleOffsetHeight = 0\<rparr>"

definition half_weights :: "rat weightMat" where
  "half_weights = \<lparr>w_rows = 1, w_cols = 1, w_at = (\<lambda>_ _. 1 / 2)\<rparr>"

definition tiny_blender :: "rat SvsBlender" where
  "tiny_blender = \<lparr>m_layout = tiny_layout, m_vehicleImage = no_pic, m_weights = replicate 4 half_weights, m_hasVehicleImage = False,
     m_ready = True\<rparr>"

definition plain_pic :: "int \<Rightarrow> int \<Rightarrow> byte \<Rightarrow> svsMat" where
  "plain_pic rows cols x = \<lparr>pic_rows = rows, pic_cols = cols, pic_channels = 3, pic_at = (\<lambda>_ _. (x, x, x))\<rparr>"

lemma tiny_blender_ok: "blender_ok tiny_blender"
proof -
  have "\<forall>i < 4. m_weights tiny_blender ! i = half_weights" by (simp add: tiny_blender_def)
  moreover have "layout_ok tiny_layout" by code_simp
  ultimately show ?thesis
    by (simp add: blender_ok_def Let_def) (simp add: tiny_blender_def half_weights_def tiny_layout_def vehicleTop_def vehicleLeft_def)
qed

theorem blend_shows_surround_witness:
  "\<exists>out. blend exact_fp tiny_blender [plain_pic 1 3 100, plain_pic 3 1 200, plain_pic 1 3 0, plain_pic 3 1 50] = Inr (Some out) \<and>
     pic_at out 0 0 = (150, 150, 150) \<and> pic_at out 0 1 = (100, 100, 100) \<and> pic_at out 1 2 = (50, 50, 50) \<and> pic_at out 2 2 = (25, 25, 25)"
proof -
  let ?P = "[plain_pic 1 3 100, plain_pic 3 1 200, plain_pic 1 3 0, plain_pic 3 1 50]"
  have dims: "totalWidth (m_layout tiny_blender) = 3" "totalHeight (m_layout tiny_blender) = 3" by code_simp+
  have "projected_ok (m_layout tiny_blender) ?P" by code_simp
  from blend_shows_surround [OF tiny_blender_ok this exact_clip, unfolded dims] obtain out where
    out: "blend exact_fp tiny_blender ?P = Inr (Some out)"
    and pix: "\<And>r c. 0 \<le> r \<and> r < 3 \<and> 0 \<le> c \<and> c < 3 \<Longrightarrow> pic_at out r c = surround exact_fp tiny_blender ?P r c" by blast
  have "surround exact_fp tiny_blender ?P 0 0 = (150, 150, 150)" "surround exact_fp tiny_blender ?P 0 1 = (100, 100, 100)"
    "surround exact_fp tiny_blender ?P 1 2 = (50, 50, 50)" "surround exact_fp tiny_blender ?P 2 2 = (25, 25, 25)" by code_simp+
  then show ?thesis using out pix [of 0 0] pix [of 0 1] pix [of 1 2] pix [of 2 2] by simp
qed

text \<open>The layout of the code is one the theorem covers.\<close>

lemma default_layout_ok: "layout_ok newProjectionLayout"
  by code_simp

section \<open>From the cameras to the picture\<close>

text \<open>What OpenCV documents of the sizes and types of its results.\<close>

definition svs_cv_documented :: "'d svs_cv \<Rightarrow> bool" where
  "svs_cv_documented cv \<longleftrightarrow>
     (\<forall>a b c z src d. cv_undistort cv a b c z src = Inr d \<longrightarrow> pic_channels d = pic_channels src) \<and>
     (\<forall>m w h src d. cv_warp cv m w h src = Inr d \<longrightarrow> pic_rows d = h \<and> pic_cols d = w \<and> pic_channels d = pic_channels src) \<and>
     (\<forall>k src. pic_channels (cv_rotate cv k src) = pic_channels src \<and>
        pic_rows (cv_rotate cv k src) = (if k = ''ROTATE_180'' then pic_rows src else pic_cols src) \<and>
        pic_cols (cv_rotate cv k src) = (if k = ''ROTATE_180'' then pic_cols src else pic_rows src)) \<and>
     (\<forall>w h src d. cv_resizeTo cv w h src = Inr d \<longrightarrow> pic_rows d = h \<and> pic_cols d = w \<and> pic_channels d = pic_channels src)"

lemma warp_size:
  assumes "svs_cv_documented cv" and "cv_warp cv m w h src = Inr d"
  shows "pic_rows d = h" and "pic_cols d = w" and "pic_channels d = pic_channels src"
  using assms unfolding svs_cv_documented_def by blast+

lemma rotate_size:
  assumes "svs_cv_documented cv"
  shows "pic_channels (cv_rotate cv k src) = pic_channels src"
    and "pic_rows (cv_rotate cv k src) = (if k = ''ROTATE_180'' then pic_rows src else pic_cols src)"
    and "pic_cols (cv_rotate cv k src) = (if k = ''ROTATE_180'' then pic_cols src else pic_rows src)"
  using assms unfolding svs_cv_documented_def by blast+

lemma undistort_channels:
  assumes "svs_cv_documented cv" and "undistortByRemap F cv src params = Inr (Some d)"
  shows "pic_channels d = pic_channels src"
proof -
  obtain a b c z where "cv_undistort cv a b c z src = Inr d"
    using assms(2) by (auto simp: undistortByRemap_def returns split: option.splits if_splits)
  then show ?thesis using assms(1) unfolding svs_cv_documented_def by blast
qed

text \<open>The size of a projected picture, and which cameras get the sizes the blender cuts from.\<close>

lemma project_size:
  assumes "svs_cv_documented cv" and "project F cv src params config L = Inr (Some d)"
  shows "pic_channels d = pic_channels src"
    and "flipMode config \<in> {''n'', ''m''} \<Longrightarrow> pic_cols d = fst (projectSize (cam_name config) L) \<and> pic_rows d = snd (projectSize (cam_name config) L)"
    and "flipMode config \<in> {''r+'', ''r-''} \<Longrightarrow> pic_rows d = fst (projectSize (cam_name config) L) \<and> pic_cols d = snd (projectSize (cam_name config) L)"
proof -
  obtain pm u w where u: "undistortByRemap F cv src params = Inr (Some u)"
    and w: "cv_warp cv pm (fst (projectSize (cam_name config) L)) (snd (projectSize (cam_name config) L)) u = Inr w"
    and d: "d = applyFlip cv (flipMode config) w"
    using assms(2) by (auto simp: project_def Let_def returns split: option.splits if_splits)
  note size = warp_size [OF assms(1) w] undistort_channels [OF assms(1) u] rotate_size [OF assms(1)]
  show "pic_channels d = pic_channels src" by (simp add: d applyFlip_def size)
  show "flipMode config \<in> {''n'', ''m''} \<Longrightarrow> pic_cols d = fst (projectSize (cam_name config) L) \<and> pic_rows d = snd (projectSize (cam_name config) L)"
    by (auto simp: d applyFlip_def size)
  show "flipMode config \<in> {''r+'', ''r-''} \<Longrightarrow> pic_rows d = fst (projectSize (cam_name config) L) \<and> pic_cols d = snd (projectSize (cam_name config) L)"
    by (auto simp: d applyFlip_def size)
qed

definition usual_cameras :: "CameraConfig list \<Rightarrow> bool" where
  "usual_cameras cs \<longleftrightarrow> map (\<lambda>c. (cam_name c, flipMode c)) cs =
     [(''front'', ''n''), (''left'', ''r-''), (''back'', ''m''), (''right'', ''r+'')]"

lemma project_all_Some:
  assumes "project_all F cv h L xs = Inr (Some P)"
  shows "list_all2 (\<lambda>(m, params, config) d. \<exists>src. picture_in h m = Inr src \<and> project F cv src params config L = Inr (Some d)) xs P"
  using assms
proof (induction F cv h L xs arbitrary: P rule: project_all.induct)
  case (2 F cv h L m params config rest)
  obtain src d l where s: "picture_in h m = Inr src" "project F cv src params config L = Inr (Some d)"
    "project_all F cv h L rest = Inr (Some l)" "P = d # l"
    using "2.prems" by (auto simp: returns split: option.splits)
  then show ?case using "2.IH" by auto
qed simp

lemma projected_sizes:
  assumes "svs_cv_documented cv" and "project_all F cv h L (zip ms (zip ps cs)) = Inr (Some P)"
    and "length ms = 4" and "length ps = 4" and "usual_cameras cs" and "\<forall>m \<in> set ms. CV_MAT_CN (mat_type m) = 3"
  shows "projected_ok L P"
proof -
  let ?usual = "[(''front'', ''n''), (''left'', ''r-''), (''back'', ''m''), (''right'', ''r+'')]"
  have eq: "map (\<lambda>c. (cam_name c, flipMode c)) cs = ?usual" using assms(5) by (simp add: usual_cameras_def)
  have cs: "length cs = 4" using arg_cong [OF eq, of length] by simp
  have cam: "(cam_name (cs ! i), flipMode (cs ! i)) = ?usual ! i" if "i < 4" for i
    using nth_map [of i cs "\<lambda>c. (cam_name c, flipMode c)"] that cs unfolding eq by simp
  have all: "list_all2 (\<lambda>(m, params, config) d. \<exists>src. picture_in h m = Inr src \<and> project F cv src params config L = Inr (Some d))
      (zip ms (zip ps cs)) P" by (rule project_all_Some [OF assms(2)])
  then have len: "length P = 4" using assms(3,4) cs by (auto dest: list_all2_lengthD)
  have step: "\<exists>src. pic_channels src = 3 \<and> project F cv src (ps ! i) (cs ! i) L = Inr (Some (P ! i))" if i: "i < 4" for i
  proof -
    obtain src where src: "picture_in h (ms ! i) = Inr src" "project F cv src (ps ! i) (cs ! i) L = Inr (Some (P ! i))"
      using list_all2_nthD [OF all, of i] i assms(3,4) cs by auto
    have "pic_channels src = 3" using src(1) assms(3,6) i by (auto simp: picture_in_def Let_def split: if_splits)
    then show ?thesis using src(2) by blast
  qed
  have size: "pic_channels (P ! i) = 3 \<and>
      (flipMode (cs ! i) \<in> {''n'', ''m''} \<longrightarrow> pic_cols (P ! i) = fst (projectSize (cam_name (cs ! i)) L) \<and> pic_rows (P ! i) = snd (projectSize (cam_name (cs ! i)) L)) \<and>
      (flipMode (cs ! i) \<in> {''r+'', ''r-''} \<longrightarrow> pic_rows (P ! i) = fst (projectSize (cam_name (cs ! i)) L) \<and> pic_cols (P ! i) = snd (projectSize (cam_name (cs ! i)) L))"
    if i: "i < 4" for i
    using step [OF i] project_size [OF assms(1)] by metis
  show ?thesis using size [of 0] size [of 1] size [of 2] size [of 3] cam [of 0] cam [of 1] cam [of 2] cam [of 3] len
    by (simp add: projected_ok_def pic_ok_def projectSize_def)
qed

lemma length_picture_bytes: "0 \<le> pic_rows m \<Longrightarrow> 0 \<le> pic_cols m \<Longrightarrow> length (picture_bytes m) = nat (pic_rows m) * nat (pic_cols m) * 3"
  by (simp add: picture_bytes_def length_concat comp_def case_prod_beta sum_list_triv)

lemma process_run:
  assumes "sv_ready s" and "\<not> (\<exists>v \<in> set input. toMat v = None)" and "p \<noteq> q"
    and "(if enableAwb (m_config s) \<or> enableLuminanceBalance (m_config s) then applyAwbAndLuminanceBalance F (map (\<lambda>v. the (toMat v)) input) h
      else Inr h) = Inr h1"
    and "project_all F cv h1 (layout (m_config s)) (zip (map (\<lambda>v. the (toMat v)) input) (zip (m_cameraParams s) (cameras (m_config s)))) =
      Inr (Some P)"
    and "blend F (m_blender s) P = Inr (Some out)" and "0 < pic_rows out" and "0 < pic_cols out"
  shows "\<exists>h' buf. svs_process F cv q p s input (h, out0) = (Inr 0, (h', buf)) \<and> h' p = Some (picture_bytes out) \<and> h' q = None"
proof -
  let ?m = "\<lparr>mat_rows = pic_rows out, mat_cols = pic_cols out, mat_type = CV_8UC 3, mat_data = Some q,
    mat_step = 3 * nat (pic_cols out), isContinuous = True\<rparr>"
  have "\<not> mat_empty ?m" "mat_elemSize ?m = 3"
    using assms(7,8) by (simp_all add: mat_empty_def mat_elemSize_def CV_8UC_def CV_MAT_CN_def)
  moreover have "read_at 0 (nat (pic_rows out) * nat (pic_cols out) * 3) (picture_bytes out) = Inr (picture_bytes out)"
    using length_picture_bytes [of out] assms(7,8) by (simp add: read_at_def)
  ultimately obtain buf where buf: "fromMat p ?m ''BGR888'' out0 (h1(q \<mapsto> picture_bytes out)) =
      (Inr (True, buf), h1(q \<mapsto> picture_bytes out, p \<mapsto> picture_bytes out))"
    by (simp add: fromMat_def Let_def)
  have "svs_process F cv q p s input (h, out0) = (Inr 0, ((h1(q \<mapsto> picture_bytes out, p \<mapsto> picture_bytes out))(q := None), buf))"
    using assms(1,2,4,5,6) buf by (simp add: svs_process_def Let_def)
  then show ?thesis using assms(3) by simp
qed


definition demo_svs_cv :: "rat svs_cv" where
  "demo_svs_cv = \<lparr>cv_undistort = (\<lambda>_ _ _ _ src. Inr src), cv_warp = (\<lambda>_ w h src. Inr (src\<lparr>pic_rows := h, pic_cols := w\<rparr>)),
     cv_rotate = (\<lambda>k src. if k = ''ROTATE_180'' then src else src\<lparr>pic_rows := pic_cols src, pic_cols := pic_rows src\<rparr>),
     cv_resizeTo = (\<lambda>w h src. Inr (src\<lparr>pic_rows := h, pic_cols := w\<rparr>))\<rparr>"

lemma demo_svs_cv_documented: "svs_cv_documented demo_svs_cv"
  by (auto simp: svs_cv_documented_def demo_svs_cv_def)

definition square_matrix :: "rat Matrix" where "square_matrix = \<lparr>mx_rows = 3, mx_cols = 3, mx_values = [1, 0, 0, 0, 1, 0, 0, 0, 1]\<rparr>"

definition demo_params_of :: "string \<Rightarrow> rat CameraParameters" where
  "demo_params_of n = \<lparr>par_name = n, distCoeffs = square_matrix, cameraMatrix = square_matrix, projectMatrix = square_matrix,
     transMatrix = square_matrix, par_size = \<lparr>size_width = 2, size_height = 2\<rparr>, scaleXY = square_matrix, shiftXY = square_matrix\<rparr>"

definition demo_svs :: "(rat, rat) OpenCvSurroundView" where
  "demo_svs = \<lparr>m_config = newSurroundViewConfig\<lparr>layout := tiny_layout, enableAwb := False, enableLuminanceBalance := False\<rparr>, m_blender = tiny_blender,
     m_cameraParams = map demo_params_of [''front'', ''left'', ''back'', ''right''], sv_ready = True\<rparr>"

definition bgr_view :: "nat \<Rightarrow> ImageView" where
  "bgr_view k = makeHostImageView (Some k) \<lparr>width = 2, height = 2, widthStride = 2, heightStride = 2, format = ''BGR888'', dataSize = 12\<rparr> 6 ReadOnly"

definition demo_heap :: heap where
  "demo_heap = (\<lambda>k. if k < 4 then Some (replicate 12 (word_of_nat (40 + 10 * k))) else None)"

lemma demo_project:
  assumes "\<not> pic_empty src"
  shows "\<exists>d. project exact_fp demo_svs_cv src (demo_params_of n) config tiny_layout = Inr (Some d)"
proof -
  have mat: "toCvMat square_matrix = Some square_matrix" by code_simp
  have u: "undistortByRemap exact_fp demo_svs_cv src (demo_params_of n) = Inr (Some src)"
    using assms by (simp add: undistortByRemap_def demo_params_of_def mat ImageSize_empty_def new_camera_def demo_svs_cv_def)
      (simp add: square_matrix_def)
  have L: "layout_int tiny_layout" "totalWidth tiny_layout = 3" "totalHeight tiny_layout = 3" "vehicleTop tiny_layout = 1" "vehicleLeft tiny_layout = 1"
    by code_simp+
  have pm: "projectMatrix (demo_params_of n) = square_matrix" by (simp add: demo_params_of_def)
  show ?thesis using assms by (auto simp: project_def pm mat u L projectSize_def applyFlip_def Let_def pic_empty_def) (auto simp: demo_svs_cv_def)
qed

lemma demo_picture:
  assumes "k < 4"
  shows "\<exists>src. picture_in demo_heap (the (toMat (bgr_view k))) = Inr src \<and> \<not> pic_empty src" and "toMat (bgr_view k) \<noteq> None"
proof -
  have m: "toMat (bgr_view k) = Some \<lparr>mat_rows = 2, mat_cols = 2, mat_type = CV_8UC 3, mat_data = Some k, mat_step = 6, isContinuous = True\<rparr>"
    by (simp add: toMat_def bgr_view_def makeHostImageView_sel cvTypeForFormat_def ImageView_empty_def ImageDesc_empty_def CV_8UC_def
        CV_MAT_CN_def mat_empty_def Let_def)
  then show "toMat (bgr_view k) \<noteq> None" by simp
  show "\<exists>src. picture_in demo_heap (the (toMat (bgr_view k))) = Inr src \<and> \<not> pic_empty src"
    using assms by (simp add: m picture_in_def mat_block_def demo_heap_def CV_8UC_def CV_MAT_CN_def pic_empty_def Let_def)
qed

lemma demo_process_runs:
  "\<exists>h' buf. svs_process exact_fp demo_svs_cv 8 9 demo_svs (map bgr_view [0, 1, 2, 3]) (demo_heap, newImageBuffer) = (Inr 0, (h', buf))"
proof -
  let ?m = "\<lambda>k. the (toMat (bgr_view k))"
  let ?xs = "zip (map ?m [0, 1, 2, 3]) (zip (m_cameraParams demo_svs) (cameras (m_config demo_svs)))"
  obtain s0 s1 s2 s3 where s: "picture_in demo_heap (?m 0) = Inr s0" "picture_in demo_heap (?m 1) = Inr s1" "picture_in demo_heap (?m 2) = Inr s2"
    "picture_in demo_heap (?m 3) = Inr s3" "\<not> pic_empty s0" "\<not> pic_empty s1" "\<not> pic_empty s2" "\<not> pic_empty s3"
    using demo_picture(1) [of 0] demo_picture(1) [of 1] demo_picture(1) [of 2] demo_picture(1) [of 3] by auto
  obtain d where d: "\<And>n c. project exact_fp demo_svs_cv s0 (demo_params_of n) c tiny_layout = Inr (Some (d 0 n c))"
    "\<And>n c. project exact_fp demo_svs_cv s1 (demo_params_of n) c tiny_layout = Inr (Some (d (1 :: nat) n c))"
    "\<And>n c. project exact_fp demo_svs_cv s2 (demo_params_of n) c tiny_layout = Inr (Some (d 2 n c))"
    "\<And>n c. project exact_fp demo_svs_cv s3 (demo_params_of n) c tiny_layout = Inr (Some (d 3 n c))"
  proof -
    obtain a where a: "\<And>n c. project exact_fp demo_svs_cv s0 (demo_params_of n) c tiny_layout = Inr (Some (a n c))" using demo_project [OF s(5)] by metis
    obtain b where b: "\<And>n c. project exact_fp demo_svs_cv s1 (demo_params_of n) c tiny_layout = Inr (Some (b n c))" using demo_project [OF s(6)] by metis
    obtain e where e: "\<And>n c. project exact_fp demo_svs_cv s2 (demo_params_of n) c tiny_layout = Inr (Some (e n c))" using demo_project [OF s(7)] by metis
    obtain f where f: "\<And>n c. project exact_fp demo_svs_cv s3 (demo_params_of n) c tiny_layout = Inr (Some (f n c))" using demo_project [OF s(8)] by metis
    show ?thesis by (rule that [of "\<lambda>k. if k = 0 then a else if k = 1 then b else if k = 2 then e else f"]) (simp_all add: a b e f)
  qed
  have parts: "layout (m_config demo_svs) = tiny_layout" "m_blender demo_svs = tiny_blender" "m_layout tiny_blender = tiny_layout"
    "sv_ready demo_svs" "length (m_cameraParams demo_svs) = 4" "usual_cameras (cameras (m_config demo_svs))"
    "\<not> enableAwb (m_config demo_svs)" "\<not> enableLuminanceBalance (m_config demo_svs)"
    by (simp_all add: demo_svs_def newSurroundViewConfig_def tiny_blender_def usual_cameras_def)
  obtain P where P: "project_all exact_fp demo_svs_cv demo_heap (layout (m_config demo_svs)) ?xs = Inr (Some P)"
    using s d by (simp add: parts(1)) (simp add: demo_svs_def newSurroundViewConfig_def)
  have "\<forall>m \<in> set (map ?m [0, 1, 2, 3]). CV_MAT_CN (mat_type m) = 3"
    by (simp add: toMat_def bgr_view_def makeHostImageView_sel cvTypeForFormat_def ImageView_empty_def ImageDesc_empty_def CV_8UC_def
        CV_MAT_CN_def mat_empty_def Let_def)
  then have "projected_ok tiny_layout P"
    using projected_sizes [OF demo_svs_cv_documented P _ parts(5,6)] parts(1) by simp
  then obtain out where out: "blend exact_fp tiny_blender P = Inr (Some out)" "pic_ok (totalHeight tiny_layout) (totalWidth tiny_layout) out"
    using blend_surround [OF tiny_blender_ok _ exact_clip, of P] parts(3) by auto
  have size: "0 < pic_rows out" "0 < pic_cols out"
    using out(2) by (simp_all add: pic_ok_def totalHeight_def totalWidth_def tiny_layout_def)
  have "\<not> (\<exists>v \<in> set (map bgr_view [0, 1, 2, 3]). toMat v = None)"
    using demo_picture(2) [of 0] demo_picture(2) [of 1] demo_picture(2) [of 2] demo_picture(2) [of 3] by simp
  from process_run [OF parts(4) this, of 9 8 exact_fp demo_heap demo_heap demo_svs_cv P out newImageBuffer] P out(1) size parts
  show ?thesis by auto
qed


section \<open>What is not caught\<close>

text \<open>Weights smaller than a corner leave it black without an error.\<close>

lemma small_weights_ignored:
  assumes "rect_in R out" and "w_rows w < pic_rows src1 \<or> w_cols w < pic_cols src1"
  shows "mergeImage F src1 src2 w R out = Inr out"
  using assms by (auto simp: mergeImage_def roi_def)

text \<open>A calibration without a projection matrix is accepted, but nothing can be projected with it.\<close>

lemma no_projection_accepted:
  assumes "\<not> matrix_empty (cf_camera_matrix f)" and "\<not> matrix_empty (cf_dist_coeffs f)" and "cf_project_matrix f = no_matrix"
    and "length (cf_resolution f) < 2" and "\<not> ImageSize_empty (par_size params)"
  shows "snd (loadCameraParameters (Some f) params) \<and> project F cv src (fst (loadCameraParameters (Some f) params)) config L = Inr None"
  using assms by (simp add: loadCameraParameters_def project_def toCvMat_def matrix_empty_def no_matrix_def Let_def)

text \<open>The balancing writes into the pictures of the caller, which are handed in as constant.\<close>

lemma balance_changes_input:
  "case applyAwbAndLuminanceBalance exact_fp (map (\<lambda>k. the (toMat (bgr_view k))) [0, 1, 2, 3]) demo_heap of
     Inl e \<Rightarrow> False | Inr h' \<Rightarrow> demo_heap 0 = Some (replicate 12 40) \<and> h' 0 = Some (replicate 12 55)"
  by code_simp

text \<open>A side camera that is not turned has the wrong size for the blender, which throws.\<close>

lemma unturned_side_throws:
  "case blend exact_fp tiny_blender [plain_pic 1 3 100, plain_pic 1 3 200, plain_pic 1 3 0, plain_pic 3 1 50] of
     Inl e \<Rightarrow> e = Throw ''cv::Exception'' | Inr _ \<Rightarrow> False"
  by code_simp

end
