(* ===== verification/Spec2Isabelle.thy ===== *)
theory Spec2Isabelle
  imports Prelude MsgHead IOBuffer TimerQueue EventLoop EventLoopEpoll EventLoopPoll EventLoopLibevent
    TcpConnection TcpClient ThreadPool TcpServer Udp YoloPostProcess ZmqIpc
    Image Rtp VideoDecHelper CameraClient RkMppCodecHeader RkMppDec RkMppEnc DnnEngine DnnDetector ObjDetector
    Container Graphics2D NvVic TrafficCamNet TensorRT Cpu2dGraphics Svs
begin

text \<open>
  \<^bold>\<open>What this development verifies.\<close> posix-bsp-perf is a C++ board support library with performance
  cases on top: sockets with their own event loops (\<open>bsp/bsp_sockets\<close>), video codecs, containers,
  2D acceleration, neural network inference and its post-processing (\<open>bsp/bsp_codec\<close>,
  \<open>bsp/bsp_container\<close>, \<open>bsp/bsp_dnn\<close>), shared-memory message passing (\<open>midware/zeromq_ipc\<close>) and
  applications. The theories model the program's own logic; everything the operating system or a
  library decides (return values of system calls, bytes delivered by a read, descriptors) is an
  argument of the operations, so every theorem holds for all such answers.

  \<^bold>\<open>How C++ is modelled.\<close> An object is a record with the names of its members. An operation is a
  definition with the name of its method (prefixed by the class where two classes share a name),
  of type \<open>state \<Rightarrow> (fault + result) \<times> state\<close>: the new state is returned also when the operation
  throws. \<open>Throw\<close> is an exception, \<open>Abort\<close> a failed \<open>assert\<close>, \<open>Undefined\<close> what the language gives no
  meaning to, \<open>Waiting\<close> an operation that still blocks when the listed answers are used up.
  Machine integers are \<open>w word\<close> where they wrap. A polymorphic class is a record of functions
  (\<open>IEventLoop\<close>) with a locale for its contract; user callbacks are parameters. Loops over the
  answers of the system are recursion over the list of answers and end with it; the other loops
  are total functions with a termination proof, so no theorem depends on fuel.

  \<^bold>\<open>Theories.\<close>
  \<^item> \<open>Prelude\<close>: faults, outcomes, system calls, little-endian layout.
  \<^item> \<open>MsgHead\<close>: \<open>impl/MsgHead.hpp\<close>, \<open>impl/MsgDispatcher.hpp\<close> (the 16-byte header, the callback tables).
  \<^item> \<open>IOBuffer\<close>: \<open>impl/IOBuffer.hpp\<close>, \<open>.cpp\<close> (queues of byte vectors); locale \<open>byte_fifo\<close>.
  \<^item> \<open>TimerQueue\<close>: \<open>impl/TimerQueue.hpp\<close>, \<open>.cpp\<close> (array heap with a position table, the timer descriptor);
    locale \<open>timer_source\<close>: a source hands out what is due and stays armed for the earliest event.
  \<^item> \<open>EventLoop\<close>: \<open>IEventLoop.hpp\<close> and what the three loops share; locale \<open>event_loop\<close>, the contract of
    registering and dropping directions of a descriptor.
  \<^item> \<open>EventLoopEpoll\<close>, \<open>EventLoopPoll\<close>, \<open>EventLoopLibevent\<close>: the three loops. The first two are
    interpretations of the contract; the third is not (lemma \<open>libevent_delMask_null\<close>).
  \<^item> \<open>TcpConnection\<close>, \<open>TcpClient\<close>: the two ends of a TCP stream over any event loop; locales
    \<open>tcp_loop\<close>, \<open>client_side\<close> extend \<open>event_loop\<close> and are interpreted on both loops.
  \<^item> \<open>ThreadPool\<close>: \<open>impl/ThreadQueue.hpp\<close>, \<open>impl/ThreadPool.cpp\<close>; \<open>channel\<close> is the interleaving of
    senders and receiver.
  \<^item> \<open>TcpServer\<close>: accepting, the connection pool, the workers. \<open>Udp\<close>: the UDP server and client.
  \<^item> \<open>YoloPostProcess\<close>: decoding of the network's outputs and the suppression of overlapping boxes
    (\<open>bsp_dnn/dnnObjDetector_plugins/rknn/yolo/common\<close>), over the floating point operations it uses.
  \<^item> \<open>ZmqIpc\<close>: \<open>midware/zeromq_ipc\<close>, messages of several parts and frames in shared memory.
  \<^item> \<open>Image\<close>: \<open>bsp_image\<close>, descriptions, host buffers, the adapter to OpenCV. \<open>Rtp\<close>: \<open>protocol\<close>.
  \<^item> \<open>VideoDecHelper\<close>, \<open>CameraClient\<close>: \<open>apps/data_recorder/sensor_clients\<close>, the pool of packet buffers,
    the queues to and from the decoder, and the threads of a camera; locale \<open>sorting\<close>.
  \<^item> \<open>RkMppCodecHeader\<close>, \<open>RkMppDec\<close>, \<open>RkMppEnc\<close>: \<open>bsp_codec/video\<close>, the name tables, the loops around the
    Rockchip decoder, and the encoder with the configuration it computes.
  \<^item> \<open>DnnEngine\<close>: \<open>IDnnEngine.hpp\<close> as a record of functions, its locale \<open>engine_outputs\<close> (what is fetched is
    given back) and its interpretation on \<open>dnnEngine_impl/rknn\<close>.
  \<^item> \<open>DnnDetector\<close>: \<open>dnnObjDetector\<close> and the two YOLOv5 plugins, composed with \<open>YoloPostProcess\<close>.
  \<^item> \<open>TrafficCamNet\<close>: the two plugins under \<open>nvidia/TensorRT/resnet18\<close>, their planar input, the grid of
    detections, and a suppression that is proved equal to the same greedy reference as YOLO's.
  \<^item> \<open>TensorRT\<close>: \<open>dnnEngine_impl/tensorrt\<close> with its device memory, the second interpretation of
    \<open>engine_outputs\<close>, and the detector on it with the TrafficCamNet plugin.
  \<^item> \<open>Cpu2dGraphics\<close>: \<open>bsp_egl/Cpu2dGraphics\<close>, drawing into a frame buffer in memory.
  \<^item> \<open>Svs\<close>: \<open>features/svs\<close>, the surround view; its blended picture refines a function from positions to
    pixels, and \<open>process\<close> composes the projection, the blender and \<open>Image\<close>.
  \<^item> \<open>ObjDetector\<close>: \<open>apps/data_recorder/obj_detector\<close>, the two threads between a camera's segment, the
    detector and the segment of the viewer.
  \<^item> \<open>Container\<close>: \<open>bsp_container\<close>, the FFmpeg muxer, demuxer, reader and writer, and the copy loop of the
    muxer sample.
  \<^item> \<open>Graphics2D\<close>: \<open>bsp_g2d/IGraphics2D.hpp\<close> as a record of functions, the operations on views composed of
    them, the guards of \<open>BufferHelper.hpp\<close>, the locale \<open>g2d_surfaces\<close> (a successful operation on views keeps
    the buffers that are held) and its interpretation on \<open>rkrga\<close>. \<open>NvVic\<close>: \<open>NvVicGraphics2D\<close>, its copies between
    packed memory and surfaces with a pitch, and the second interpretation.

  \<^bold>\<open>Interaction.\<close> A connection and a client register callbacks with a loop, the loop calls them and
  they register or drop directions; the loop owns the timer queue, whose descriptor it watches; the
  server hands accepted descriptors to worker loops through thread queues. The theorems below follow
  a request from the client to the callback of the server and back, and a timer from the queue
  through the loop. A camera client receives RTP packets as parts of ZeroMQ messages into pooled
  buffers, hands them to a decoder, takes decoded frames from the decoder's callback and publishes
  them through shared memory; \<open>CameraClient\<close> composes the theories of these parts. An object detector
  copies these frames out of shared memory, runs the network and its post-processing on them and
  publishes frame and boxes together; \<open>ObjDetector\<close> composes \<open>ZmqIpc\<close>, \<open>Image\<close> and \<open>DnnDetector\<close>.

  \<^bold>\<open>Not modelled.\<close> Code whose substance is in a library or device the repository does not contain: the
  EGL renderer, the NVIDIA codecs over V4L2 and the Qt interface of the recorder; profiling, logging, option parsing, samples, build files;
  and what is copied from other projects (\<open>3rdparty\<close>, \<open>3rd_pkg_cases\<close>). \<open>libevent\<close> is reduced to handles that are added and removed. Memory is not modelled beyond
  the contents of the buffers; the lifetime questions of \<open>shared_ptr\<close> and \<open>weak_ptr\<close> appear only
  where the code tests them (\<open>expired\<close>).
\<close>

section \<open>A client and a server\<close>

text \<open>The client writes the one message that is queued, and the kernel takes all of it.\<close>

lemma client_write_loop_single:
  assumes "m_buffers (client_outbuf cl) = [b]" and "b \<noteq> []"
  shows "client_write_loop L H this sock conn [[Ok (length b)]] cl =
     (Inr False, cl\<lparr>client_outbuf := \<lparr>m_buffers = []\<rparr>, client_wire := client_wire cl @ b\<rparr>)"
  using assms by (subst client_write_loop.simps) (simp add: client_write_loop.simps)

text \<open>
  C1. A request travels from the client to the server's callback: \<open>sendData\<close> of a connected client
  on an epoll loop with nothing queued, then \<open>handleWrite\<close> during which the kernel takes the
  message whole, then \<open>handleRead\<close> of the server's connection for a read that delivers these bytes,
  calls the callback the server registered for this command once, with the client's command and
  payload; afterwards the client's socket is watched for input only and both queues are empty.
\<close>

theorem request_reaches_server:
  assumes cl: "client_ready epoll_interest epoll_ready cl" "m_net_connected cl"
    "m_buffers (client_outbuf cl) = []"
    and "length pad = 4" and "length d \<le> 65524"
    and srv: "m_buffers (m_inbuf_queue c) = []" "\<not> server_expired s"
    "m_dispatcher (m_msg_dispatcher s) k = Some fn" "m_args (m_msg_dispatcher s) k = Some arg"
  shows "\<exists>cl1 cl2 b. client_sendData epoll_loop this pad k d cl = (Inr 0, cl1) \<and>
     client_handleWrite epoll_loop H this sock conn [[Ok (16 + length d)]] cl1 = (Inr 0, cl2) \<and>
     client_wire cl2 = client_wire cl @ b \<and> m_buffers (client_outbuf cl2) = [] \<and>
     client_ready epoll_interest epoll_ready cl2 \<and>
     \<not> watches epoll_interest (client_loop cl2) (m_sockfd cl2) EPOLLOUT \<and>
     handleRead L S (Ok (length b)) [Ok b] (c, s) =
       (case run_msg S fn k d arg (c\<lparr>m_inbuf_queue := \<lparr>m_buffers = [b]\<rparr>\<rparr>, s) of
          (Inl e, cs') \<Rightarrow> (Inl e, cs')
        | (Inr _, (c', s')) \<Rightarrow> (Inr (), (c'\<lparr>m_inbuf_queue := empty_queue\<rparr>, s')))"
proof -
  let ?b = "make_msg pad k d"
  have len: "length ?b = 16 + length d" by (rule length_make_msg [OF assms(4)])
  obtain l where l: "client_sendData epoll_loop this pad k d cl =
      (Inr 0, cl\<lparr>client_outbuf := appendBuffer ?b (client_outbuf cl), client_loop := l\<rparr>)"
    "client_ready epoll_interest epoll_ready
      (cl\<lparr>client_outbuf := appendBuffer ?b (client_outbuf cl), client_loop := l\<rparr>)"
    using epoll_client.client_sendData_ok [OF cl(1,2), of this pad k d] cl(3) by auto
  let ?cl = "cl\<lparr>client_outbuf := appendBuffer ?b (client_outbuf cl), client_loop := l\<rparr>"
  have one: "m_buffers (client_outbuf ?cl) = [?b]" using cl(3) by simp
  have w: "client_write_loop epoll_loop H this sock conn [[Ok (16 + length d)]] ?cl =
      (Inr False, ?cl\<lparr>client_outbuf := \<lparr>m_buffers = []\<rparr>, client_wire := client_wire ?cl @ ?b\<rparr>)"
    using client_write_loop_single [OF one make_msg_nonempty [OF assms(4)]] len by metis
  have hr: "handleRead L S (Ok (length ?b)) [Ok ?b] (c, s) =
     (case run_msg S fn k d arg (c\<lparr>m_inbuf_queue := \<lparr>m_buffers = [?b]\<rparr>\<rparr>, s) of
        (Inl e, cs') \<Rightarrow> (Inl e, cs')
      | (Inr _, (c', s')) \<Rightarrow> (Inr (), (c'\<lparr>m_inbuf_queue := empty_queue\<rparr>, s')))"
    using handleRead_message [OF srv(1) assms(4,5) srv(2) _ refl, of k L S] srv(3,4)
    by (simp add: exist_def callbackFunc_def)
  let ?cl1 = "?cl\<lparr>client_outbuf := \<lparr>m_buffers = []\<rparr>, client_wire := client_wire ?cl @ ?b\<rparr>"
  have ne: "m_buffers (client_outbuf ?cl) \<noteq> []" and con: "m_net_connected ?cl" using one cl(2) by simp_all
  obtain l2 where hw: "client_handleWrite epoll_loop H this sock conn [[Ok (16 + length d)]] ?cl =
      (Inr 0, ?cl1\<lparr>client_loop := l2\<rparr>)"
    "client_ready epoll_interest epoll_ready (?cl1\<lparr>client_loop := l2\<rparr>)"
    "watches epoll_interest l2 (m_sockfd ?cl1) EPOLLOUT \<longleftrightarrow> m_buffers (client_outbuf ?cl1) \<noteq> []"
    using epoll_client.client_handleWrite_ok [OF l(2) con ne w] by blast
  show ?thesis
    by (rule exI [of _ ?cl], rule exI [of _ "?cl1\<lparr>client_loop := l2\<rparr>"], rule exI [of _ ?b])
      (use l(1) hw hr in \<open>intro conjI; simp\<close>)
qed

definition joined_client ::
  "((client_io, client_timer, nat, nat) EventLoopParams, nat, nat, (u64 \<times> bytes) list) TcpClient" where
  "joined_client = demo_client\<lparr>m_net_connected := True, client_outbuf := empty_queue,
     client_loop := snd (epoll_addIoEvent 9 (UserCallback ClientReadCb) EPOLLIN None (client_loop demo_client))\<rparr>"

lemma joined_client_ready: "client_ready epoll_interest epoll_ready joined_client"
proof -
  obtain l where l: "epoll_addIoEvent 9 (UserCallback ClientReadCb) EPOLLIN None (client_loop demo_client) = (Inr (), l)"
    using epoll_ops_return(1) demo_client_ready unfolding epoll_ready_def by (metis prod.collapse)
  then have "epoll_ready l \<and> watches epoll_interest l 9 EPOLLIN"
    using epoll.add_waits [OF demo_client_ready, of 9 EPOLLIN "UserCallback ClientReadCb" None "Inr ()" l]
    by (simp add: epoll_loop_def)
  then show ?thesis
    using l by (simp add: client_ready_def joined_client_def empty_queue_def) (simp add: demo_client_def)
qed

lemma joined_client_fields:
  "m_net_connected joined_client" "m_buffers (client_outbuf joined_client) = []"
  "m_dispatcher (client_dispatcher joined_client) 5 = Some 1"
  "m_args (client_dispatcher joined_client) 5 = Some 2"
  by (simp_all add: joined_client_def empty_queue_def demo_client_def)

theorem request_reaches_server_witness:
  "\<exists>cl1 cl2 b. client_sendData epoll_loop 0 [0, 0, 0, 0] 5 [1, 2] joined_client = (Inr 0, cl1) \<and>
     client_handleWrite epoll_loop client_hooks 0 10 (Ok ()) [[Ok (16 + length [1, 2 :: byte])]] cl1 = (Inr 0, cl2) \<and>
     client_wire cl2 = client_wire joined_client @ b \<and>
     map_prod id (world \<circ> snd)
       (handleRead epoll_loop demo_hooks (Ok (length b)) [Ok b] (newTcpConnection 7, demo_side)) =
       (Inr (), [(5, [1, 2])])"
proof -
  have side: "m_buffers (m_inbuf_queue (newTcpConnection 7)) = []" "\<not> server_expired demo_side"
    "m_dispatcher (m_msg_dispatcher demo_side) 5 = Some 1" "m_args (m_msg_dispatcher demo_side) 5 = Some 2"
    by (simp_all add: newTcpConnection_def empty_queue_def demo_side_def)
  have "length [0, 0, 0, 0 :: byte] = 4" "length [1, 2 :: byte] \<le> 65524" by simp_all
  from request_reaches_server [OF joined_client_ready joined_client_fields(1,2) this side,
      of 0 client_hooks 10 "Ok ()" epoll_loop demo_hooks]
  obtain cl1 cl2 b where run:
    "client_sendData epoll_loop 0 [0, 0, 0, 0] 5 [1, 2] joined_client = (Inr 0, cl1)"
    "client_handleWrite epoll_loop client_hooks 0 10 (Ok ()) [[Ok (16 + length [1, 2 :: byte])]] cl1 = (Inr 0, cl2)"
    "client_wire cl2 = client_wire joined_client @ b"
    "handleRead epoll_loop demo_hooks (Ok (length b)) [Ok b] (newTcpConnection 7, demo_side) =
       (case run_msg demo_hooks (1 :: nat) 5 [1, 2] 2 ((newTcpConnection 7)\<lparr>m_inbuf_queue := \<lparr>m_buffers = [b]\<rparr>\<rparr>, demo_side) of
          (Inl e, cs') \<Rightarrow> (Inl e, cs')
        | (Inr _, (c', s')) \<Rightarrow> (Inr (), (c'\<lparr>m_inbuf_queue := empty_queue\<rparr>, s')))"
    by blast
  have "map_prod id (world \<circ> snd)
      (handleRead epoll_loop demo_hooks (Ok (length b)) [Ok b] (newTcpConnection 7, demo_side)) =
      (Inr (), [(5, [1, 2])])"
    unfolding run(4) by (simp add: demo_hooks_def demo_side_def)
  with run(1-3) show ?thesis by blast
qed

text \<open>
  C13. The answer travels back: \<open>sendData\<close> of the server's connection with nothing queued, then
  \<open>handleWrite\<close> during which the kernel takes the message whole, then the client's \<open>handleRead\<close> of
  these bytes alone calls the callback the client registered for this command once, with the
  server's command and payload, and returns 0.
\<close>

theorem reply_reaches_client:
  assumes srv: "conn_ready epoll_interest epoll_ready (c, s)" "m_buffers (m_outbuf_queue c) = []"
    and "length pad = 4"
    and cl: "m_net_connected cl" "m_dispatcher (client_dispatcher cl) k = Some fn"
    "m_args (client_dispatcher cl) k = Some arg"
  shows "\<exists>cs1 c2 s2 b. sendData epoll_loop this pad k d (c, s) = (Inr 0, cs1) \<and>
     handleWrite epoll_loop S [[Ok (16 + length d)]] cs1 = (Inr (), (c2, s2)) \<and>
     wire_out c2 = wire_out c @ b \<and> conn_ready epoll_interest epoll_ready (c2, s2) \<and>
     client_handleRead L H this' sock conn (Ok (length b)) [Ok b] cl =
       andthen (client_run_msg H fn k d arg cl) (\<lambda>_ cl1. (Inr 0, cl1))"
proof -
  let ?b = "make_msg pad k d"
  let ?c = "c\<lparr>m_outbuf_queue := appendBuffer ?b (m_outbuf_queue c)\<rparr>"
  have len: "length ?b = 16 + length d" by (rule length_make_msg [OF assms(3)])
  obtain l where l: "sendData epoll_loop this pad k d (c, s) = (Inr 0, (?c, s\<lparr>m_loop := l\<rparr>))"
    "conn_ready epoll_interest epoll_ready (?c, s\<lparr>m_loop := l\<rparr>)"
    using epoll_tcp.sendData_ok [OF srv(1)] by blast
  have "write_loop epoll_loop S (map (\<lambda>b. [Ok (length b)]) [?b]) (?c, s\<lparr>m_loop := l\<rparr>) =
      (Inr False, (?c\<lparr>m_outbuf_queue := \<lparr>m_buffers = []\<rparr>, wire_out := wire_out ?c @ concat [?b]\<rparr>,
        s\<lparr>m_loop := l\<rparr>))"
    using srv(2) make_msg_nonempty [OF assms(3)] by (intro write_loop_all) auto
  then have w: "write_loop epoll_loop S [[Ok (16 + length d)]] (?c, s\<lparr>m_loop := l\<rparr>) =
      (Inr False, (?c\<lparr>m_outbuf_queue := \<lparr>m_buffers = []\<rparr>, wire_out := wire_out c @ ?b\<rparr>, s\<lparr>m_loop := l\<rparr>))"
    using len by simp
  let ?c2 = "?c\<lparr>m_outbuf_queue := \<lparr>m_buffers = []\<rparr>, wire_out := wire_out c @ ?b\<rparr>"
  obtain l2 where hw: "handleWrite epoll_loop S [[Ok (16 + length d)]] (?c, s\<lparr>m_loop := l\<rparr>) =
      (Inr (), (?c2, s\<lparr>m_loop := l, m_loop := l2\<rparr>))"
    "conn_ready epoll_interest epoll_ready (?c2, s\<lparr>m_loop := l, m_loop := l2\<rparr>)"
    using epoll_tcp.handleWrite_ok [OF l(2) w] by blast
  have hr: "client_handleRead L H this' sock conn (Ok (length ?b)) [Ok ?b] cl =
      andthen (client_run_msg H fn k d arg cl) (\<lambda>_ cl1. (Inr 0, cl1))"
    using cl read_head_make_msg [OF assms(3), of k d] drop_make_msg [OF assms(3), of k d] len
    by (simp add: client_handleRead_def exist_def make_head_def callbackFunc_def)
  show ?thesis
    by (rule exI [of _ "(?c, s\<lparr>m_loop := l\<rparr>)"], rule exI [of _ ?c2],
        rule exI [of _ "s\<lparr>m_loop := l, m_loop := l2\<rparr>"], rule exI [of _ ?b])
      (use l(1) hw hr in \<open>intro conjI; simp\<close>)
qed

theorem reply_reaches_client_witness:
  "\<exists>cs1 c2 s2 b. sendData epoll_loop 0 [0, 0, 0, 0] 5 [1, 2] (newTcpConnection 7, demo_side) = (Inr 0, cs1) \<and>
     handleWrite epoll_loop demo_hooks [[Ok (16 + length [1, 2 :: byte])]] cs1 = (Inr (), (c2, s2)) \<and>
     wire_out c2 = wire_out (newTcpConnection 7) @ b \<and> conn_ready epoll_interest epoll_ready (c2, s2) \<and>
     client_handleRead epoll_loop client_hooks 0 10 (Ok ()) (Ok (length b)) [Ok b] joined_client =
       andthen (client_run_msg client_hooks (1 :: nat) 5 [1, 2] 2 joined_client) (\<lambda>_ cl1. (Inr 0, cl1))"
proof -
  have "m_buffers (m_outbuf_queue (newTcpConnection 7)) = []" "length [0, 0, 0, 0 :: byte] = 4"
    by (simp_all add: newTcpConnection_def empty_queue_def)
  from reply_reaches_client [OF demo_ready this joined_client_fields(1,3,4), of 0 "[1, 2]" demo_hooks
      epoll_loop client_hooks 0 10 "Ok ()"]
  show ?thesis .
qed

section \<open>Timers of a running loop\<close>

text \<open>
  C12. A running epoll loop runs the timers that are due: when the timer descriptor becomes readable,
  the callback of every waiting event whose time is the earliest one runs exactly once, with its
  argument, and no other callback runs; afterwards the descriptor is set to the earliest event that
  still waits. (The callbacks succeed here; they may change the loop.)
\<close>

theorem epoll_runs_due_timers:
  assumes "timers_ready (m_timer_queue l)"
    and "m_io_events l d = Some ev" and "read_callback ev = Some TimerQueueCallback"
    and run: "\<And>c a s. run c a s = (Inr (), step c a s)"
  shows "\<exists>due q. mset due = {#te \<in># pending (m_timer_queue l). ts te = m_pioneer (m_timer_queue l)#} \<and>
     timers_ready q \<and>
     timerfd_value q = (if pending q = {#} then (0, 0) else itimer (Min (ts ` set_mset (pending q)))) \<and>
     epoll_events (call_io (timerQueueCallback run) user) [(d, EPOLLIN)] (l, w) =
       (Inr (), fold (\<lambda>te. step (cb te) (cb_data te)) due (l\<lparr>m_timer_queue := q\<rparr>, w))"
proof -
  obtain due q where f: "getFiredTimerEvents (m_timer_queue l) = (due, q)" by fastforce
  have "epoll_events (call_io (timerQueueCallback run) user) [(d, EPOLLIN)] (l, w) =
      (Inr (), fold (\<lambda>te. step (cb te) (cb_data te)) due (l\<lparr>m_timer_queue := q\<rparr>, w))"
    using assms(2,3) f run_fired_in_order [of run step, OF run]
    by (simp add: epoll_events_single dispatch_def epoll_flags call_io_def timerQueueCallback_def
        del: epoll_events.simps)
  moreover have "timers_wf (m_timer_queue l)" "armed (m_timer_queue l)"
    using assms(1) by (simp_all add: timers_ready_def)
  note getFiredTimerEvents_ok [OF this f]
  ultimately show ?thesis
    by (intro exI [of _ due] exI [of _ q]) (auto simp: timers_ready_def armed_def itimer_def)
qed

definition timer_step :: "nat \<Rightarrow> nat \<Rightarrow> (unit, nat, nat, nat) EventLoopParams \<times> nat list \<Rightarrow>
    (unit, nat, nat, nat) EventLoopParams \<times> nat list" where
  "timer_step c a s = (fst s, snd s @ [c])"

definition loop_with_timer :: "(unit, nat, nat, nat) EventLoopParams" where
  "loop_with_timer = small_loop\<lparr>m_timer_queue := idle_with [7]\<rparr>"

theorem epoll_runs_due_timers_witness:
  "\<exists>due q. mset due = {#te \<in># pending (m_timer_queue loop_with_timer). ts te = m_pioneer (m_timer_queue loop_with_timer)#} \<and>
     epoll_events (call_io (timerQueueCallback (\<lambda>c a s. (Inr (), timer_step c a s))) (\<lambda>_ _ _ s. (Inr (), s)))
       [(4, EPOLLIN)] (loop_with_timer, []) =
       (Inr (), fold (\<lambda>te. timer_step (cb te) (cb_data te)) due (loop_with_timer\<lparr>m_timer_queue := q\<rparr>, []))"
proof -
  have rdy: "timers_ready (m_timer_queue loop_with_timer)" using idle_with_ready by (simp add: loop_with_timer_def)
  obtain ev where ev: "m_io_events loop_with_timer 4 = Some ev" "read_callback ev = Some TimerQueueCallback"
    by (simp add: loop_with_timer_def small_loop_def newEventLoopEpoll_def newTimerQueue_def
        epoll_addIoEvent_def epoll_ctl_def Let_def newIOEvent_def epoll_flags)
  show ?thesis
    using epoll_runs_due_timers [OF rdy ev, of "\<lambda>c a s. (Inr (), timer_step c a s)" timer_step
        "\<lambda>_ _ _ s. (Inr (), s)" "[]", OF refl] by blast
qed

end
